(* ===== verification/Kernel_Prelude.thy ===== *)
theory Kernel_Prelude
  imports Main "HOL-Library.Word"
begin

text \<open>
  Shared vocabulary of the development: the C integer types of the target (x86-64, so
  \<^verbatim>\<open>long\<close> and pointers have 64 bits), the error numbers of the kernel ABI, little-endian
  byte encodings of integers, and byte-addressed memory. Values of type \<^verbatim>\<open>unsigned long\<close>,
  \<^verbatim>\<open>size_t\<close> and \<^verbatim>\<open>u64\<close> are words of 64 bits, so that additions, products and shifts wrap
  as they do in C. Return codes and process ids, on which the code does no arithmetic, are
  integers.
\<close>

unbundle bit_operations_syntax

named_theorems kdefs \<open>definitions of operations, for unfolding a whole handler\<close>
named_theorems ksimps \<open>simplification rules shared by the component proofs\<close>
named_theorems kframe \<open>what an operation leaves unchanged\<close>


section \<open>Types and constants of the ABI\<close>

type_synonym byte = "8 word"
type_synonym u32 = "32 word"
type_synonym ulong = "64 word"
type_synonym addr = "64 word"
type_synonym mem = "addr \<Rightarrow> byte"

abbreviation (input) EPERM :: int where "EPERM \<equiv> 1"
abbreviation (input) ENOENT :: int where "ENOENT \<equiv> 2"
abbreviation (input) ESRCH :: int where "ESRCH \<equiv> 3"
abbreviation (input) EINTR :: int where "EINTR \<equiv> 4"
abbreviation (input) EIO :: int where "EIO \<equiv> 5"
abbreviation (input) ENXIO :: int where "ENXIO \<equiv> 6"
abbreviation (input) E2BIG :: int where "E2BIG \<equiv> 7"
abbreviation (input) EBADF :: int where "EBADF \<equiv> 9"
abbreviation (input) EAGAIN :: int where "EAGAIN \<equiv> 11"
abbreviation (input) ENOMEM :: int where "ENOMEM \<equiv> 12"
abbreviation (input) EACCES :: int where "EACCES \<equiv> 13"
abbreviation (input) EFAULT :: int where "EFAULT \<equiv> 14"
abbreviation (input) EXDEV :: int where "EXDEV \<equiv> 18"
abbreviation (input) ENODEV :: int where "ENODEV \<equiv> 19"
abbreviation (input) ENOTDIR :: int where "ENOTDIR \<equiv> 20"
abbreviation (input) EISDIR :: int where "EISDIR \<equiv> 21"
abbreviation (input) EINVAL :: int where "EINVAL \<equiv> 22"
abbreviation (input) ETXTBSY :: int where "ETXTBSY \<equiv> 26"
abbreviation (input) EFBIG :: int where "EFBIG \<equiv> 27"
abbreviation (input) ENOSPC :: int where "ENOSPC \<equiv> 28"
abbreviation (input) ESPIPE :: int where "ESPIPE \<equiv> 29"
abbreviation (input) EROFS :: int where "EROFS \<equiv> 30"
abbreviation (input) ENOSYS :: int where "ENOSYS \<equiv> 38"
abbreviation (input) EOVERFLOW :: int where "EOVERFLOW \<equiv> 75"
abbreviation (input) EOPNOTSUPP :: int where "EOPNOTSUPP \<equiv> 95"

abbreviation (input) PAGE_SHIFT :: nat where "PAGE_SHIFT \<equiv> 12"
abbreviation (input) PAGE_SIZE :: ulong where "PAGE_SIZE \<equiv> 4096"
abbreviation (input) ULONG_MAX :: ulong where "ULONG_MAX \<equiv> - 1"
abbreviation (input) NULL :: addr where "NULL \<equiv> 0"


section \<open>Words\<close>

lemma unat_word64_lt: "unat (w :: ulong) < 18446744073709551616"
  by (rule order_less_le_trans [OF unsigned_less]) simp

lemma unat_word32_lt: "unat (w :: u32) < 4294967296"
  by (rule order_less_le_trans [OF unsigned_less]) simp

lemma unat_mult_64: "unat (a :: ulong) * unat b < 2 ^ 64 \<Longrightarrow> unat (a * b) = unat a * unat b"
  by (simp add: unat_word_ariths)

lemma unat_add_64: "unat (a :: ulong) + unat b < 2 ^ 64 \<Longrightarrow> unat (a + b) = unat a + unat b"
  by (simp add: unat_word_ariths)

lemma unat_sub_64: "b \<le> a \<Longrightarrow> unat ((a :: ulong) - b) = unat a - unat b"
  by (simp add: unat_sub)

lemma unat_push_bit_64:
  "unat (push_bit n (a :: ulong)) = (unat a * 2 ^ n) mod 2 ^ 64"
  unfolding unsigned_push_bit_eq by (simp add: take_bit_eq_mod push_bit_eq_mult)

lemma unat_drop_bit_64: "unat (drop_bit n (a :: ulong)) = unat a div 2 ^ n"
  unfolding unsigned_drop_bit_eq by (simp add: drop_bit_eq_div take_bit_nat_eq_self unat_word64_lt)

lemma sint_eq_unat_64:
  assumes "unat (w :: ulong) < 2 ^ 63"
  shows "sint w = int (unat w)"
proof -
  have "int (unat w) < int (2 ^ 63)"
    using assms by (simp only: of_nat_less_iff)
  then have "uint w < 2 ^ 63" by simp
  then have "signed_take_bit 63 (uint w) = uint w"
    by (intro signed_take_bit_int_eq_self order_trans [OF _ uint_ge_0]) simp_all
  then show ?thesis by (simp add: sint_uint)
qed

lemma sint_64: "sint (a :: ulong) = (if unat a < 2 ^ 63 then int (unat a) else int (unat a) - 2 ^ 64)"
proof (cases "unat a < 2 ^ 63")
  case False
  have "int (2 ^ 63) \<le> int (unat a)" "int (unat a) < int 18446744073709551616"
    using False unat_word64_lt [of a] by (simp_all only: of_nat_le_iff of_nat_less_iff not_less)
  then have u: "2 ^ 63 \<le> uint a" "uint a < 2 ^ 64" by simp_all
  have "sint a = (uint a + 2 ^ 63) mod 2 ^ 64 - 2 ^ 63"
    using int_word_sint [where 'a = 64, of "uint a"] by simp
  also have "(uint a + 2 ^ 63) mod 2 ^ 64 = uint a + 2 ^ 63 - 2 ^ 64"
    using u by (intro int_mod_pos_eq [where q = 1]) simp_all
  finally show ?thesis using False by simp
qed (simp add: sint_eq_unat_64)

lemma nat_sint_64: "unat (w :: ulong) < 2 ^ 63 \<Longrightarrow> nat (sint w) = unat w"
  by (simp only: sint_eq_unat_64 nat_int)

lemma word64_le_0 [ksimps, simp]: "((w :: ulong) \<le> 0) \<longleftrightarrow> w = 0"
  by simp


section \<open>Little-endian encodings\<close>

text \<open>
  \<open>le_bytes n v\<close> is the C object representation of the unsigned value \<open>v\<close> in an integer of
  \<open>n\<close> bytes; \<open>le_val\<close> reads it back.
\<close>

fun le_bytes :: "nat \<Rightarrow> nat \<Rightarrow> byte list" where
  "le_bytes 0 v = []"
| "le_bytes (Suc n) v = of_nat (v mod 256) # le_bytes n (v div 256)"

fun le_val :: "byte list \<Rightarrow> nat" where
  "le_val [] = 0"
| "le_val (b # bs) = unat b + 256 * le_val bs"

lemma length_le_bytes [simp]: "length (le_bytes n v) = n"
  by (induction n v rule: le_bytes.induct) auto

lemma le_bytes_nth_0 [simp]: "0 < n \<Longrightarrow> le_bytes n v ! 0 = of_nat (v mod 256)"
  by (cases n) simp_all

lemma le_val_le_bytes_mod: "le_val (le_bytes n v) = v mod 256 ^ n"
proof (induction n v rule: le_bytes.induct)
  case (2 n v)
  then show ?case
    by (simp add: unat_of_nat take_bit_eq_mod mod_mult2_eq)
qed simp

lemma le_val_le_bytes: "v < 256 ^ n \<Longrightarrow> le_val (le_bytes n v) = v"
  by (simp add: le_val_le_bytes_mod)

text \<open>The representation of an \<^verbatim>\<open>unsigned long\<close> and of an \<^verbatim>\<open>int\<close> (two's complement).\<close>

definition enc_ulong :: "ulong \<Rightarrow> byte list" where
  "enc_ulong w = le_bytes 8 (unat w)"

definition dec_ulong :: "byte list \<Rightarrow> ulong" where
  "dec_ulong bs = of_nat (le_val bs)"

definition enc_int :: "int \<Rightarrow> byte list" where
  "enc_int i = le_bytes 4 (unat (of_int i :: u32))"

definition dec_int :: "byte list \<Rightarrow> int" where
  "dec_int bs = sint (of_nat (le_val bs) :: u32)"

lemma length_enc_ulong [simp]: "length (enc_ulong w) = 8"
  and length_enc_int [simp]: "length (enc_int i) = 4"
  by (simp_all add: enc_ulong_def enc_int_def)

lemma dec_enc_ulong [simp]: "dec_ulong (enc_ulong w) = w"
  by (simp add: dec_ulong_def enc_ulong_def le_val_le_bytes unat_word64_lt)

text \<open>The values of a C \<^verbatim>\<open>int\<close>.\<close>

definition c_int :: "int \<Rightarrow> bool" where
  "c_int i \<longleftrightarrow> - (2 ^ 31) \<le> i \<and> i < 2 ^ 31"

lemma dec_enc_int [simp]: "c_int i \<Longrightarrow> dec_int (enc_int i) = i"
proof -
  assume "c_int i"
  then have "signed_take_bit 31 i = i"
    by (simp add: c_int_def signed_take_bit_int_eq_self_iff)
  moreover have "le_val (enc_int i) = unat (of_int i :: u32)"
    by (simp add: enc_int_def le_val_le_bytes unat_word32_lt)
  ultimately show ?thesis
    by (simp add: dec_int_def signed_of_int)
qed


section \<open>Memory\<close>

definition store_bytes :: "mem \<Rightarrow> addr \<Rightarrow> byte list \<Rightarrow> mem" where
  "store_bytes m a bs = (\<lambda>x. if unat (x - a) < length bs then bs ! unat (x - a) else m x)"

definition load_bytes :: "mem \<Rightarrow> addr \<Rightarrow> nat \<Rightarrow> byte list" where
  "load_bytes m a n = map (\<lambda>i. m (a + of_nat i)) [0..<n]"

lemma length_load_bytes [simp]: "length (load_bytes m a n) = n"
  by (simp add: load_bytes_def)

lemma store_bytes_Nil [simp]: "store_bytes m a [] = m"
  by (simp add: store_bytes_def)

lemma load_store_bytes [simp]:
  "length bs < 2 ^ 64 \<Longrightarrow> load_bytes (store_bytes m a bs) a (length bs) = bs"
  by (rule nth_equalityI) (simp_all add: load_bytes_def store_bytes_def unat_of_nat take_bit_eq_mod)

lemma store_bytes_outside: "length bs \<le> unat (x - a) \<Longrightarrow> store_bytes m a bs x = m x"
  by (simp add: store_bytes_def)

lemma load_bytes_store_sub:
  assumes "i + n \<le> length bs" and "length bs < 2 ^ 64"
  shows "load_bytes (store_bytes m a bs) (a + of_nat i) n = take n (drop i bs)"
proof (rule nth_equalityI)
  fix j assume j: "j < length (load_bytes (store_bytes m a bs) (a + of_nat i) n)"
  have "unat (of_nat i + of_nat j :: addr) = i + j"
    using assms j by (simp add: unat_of_nat take_bit_eq_mod flip: of_nat_add)
  then show "load_bytes (store_bytes m a bs) (a + of_nat i) n ! j = take n (drop i bs) ! j"
    using assms j by (simp add: load_bytes_def store_bytes_def add.assoc)
qed (use assms in simp)

lemma unat_sub_of_nat:
  assumes "n \<le> unat (x :: addr)"
  shows "unat (x - of_nat n) = unat x - n"
proof -
  have "n < 2 ^ 64" using assms unat_word64_lt [of x] by simp
  then have "unat (of_nat n :: addr) = n" by (simp add: unat_of_nat take_bit_eq_mod)
  with assms show ?thesis by (simp add: unat_sub word_le_nat_alt)
qed

lemma store_bytes_append:
  assumes "length xs + length ys < 2 ^ 64"
  shows "store_bytes (store_bytes m a xs) (a + of_nat (length xs)) ys = store_bytes m a (xs @ ys)"
proof
  fix x
  let ?d = "unat (x - a)" and ?n = "length xs"
  have eq: "x - (a + of_nat ?n) = (x - a) - of_nat ?n" by simp
  show "store_bytes (store_bytes m a xs) (a + of_nat ?n) ys x = store_bytes m a (xs @ ys) x"
  proof (cases "?n \<le> ?d")
    case True
    then have "unat (x - (a + of_nat ?n)) = ?d - ?n"
      unfolding eq by (rule unat_sub_of_nat)
    with True show ?thesis by (auto simp: store_bytes_def nth_append)
  next
    case False
    have n: "unat (of_nat ?n :: addr) = ?n"
      using assms by (simp add: unat_of_nat take_bit_eq_mod)
    have "\<not> unat (x - (a + of_nat ?n)) < length ys"
    proof
      assume *: "unat (x - (a + of_nat ?n)) < length ys"
      have "x - a = (x - (a + of_nat ?n)) + of_nat ?n" by simp
      also have "unat \<dots> = unat (x - (a + of_nat ?n)) + ?n"
        using * assms n by (subst unat_add_64) simp_all
      finally show False using False by simp
    qed
    with False show ?thesis by (simp add: store_bytes_def nth_append)
  qed
qed

lemma take_drop_concat_map:
  assumes "\<And>x. x \<in> set xs \<Longrightarrow> length (f x) = n" and "i < length xs"
  shows "take n (drop (n * i) (concat (map f xs))) = f (xs ! i)"
  using assms
proof (induction xs arbitrary: i)
  case (Cons x xs)
  then show ?case by (cases i) (simp_all)
qed simp

lemma length_concat_map:
  "(\<And>x. x \<in> set xs \<Longrightarrow> length (f x) = n) \<Longrightarrow> length (concat (map f xs)) = n * length xs"
  by (induction xs) simp_all

text \<open>Two parts of an object that do not overlap.\<close>

lemma unat_of_nat_diff_wraps:
  assumes "p < q" "q < 2 ^ 64"
  shows "unat (of_nat p - of_nat q :: addr) = 2 ^ 64 + p - q"
proof -
  have z: "(of_nat (2 ^ 64) :: addr) = 0" by simp
  have "(of_nat (2 ^ 64 + p - q) :: addr) = of_nat (2 ^ 64 + p) - of_nat q"
    by (rule of_nat_diff) (use assms in linarith)
  then have "(of_nat p - of_nat q :: addr) = of_nat (2 ^ 64 + p - q)" by (simp add: z)
  moreover have "unat (of_nat (2 ^ 64 + p - q) :: addr) = 2 ^ 64 + p - q"
    unfolding unat_of_nat take_bit_eq_mod using assms by simp
  ultimately show ?thesis by simp
qed

lemma load_bytes_store_apart:
  assumes "i + n \<le> j \<or> j + length bs \<le> i" and "i + n < 2 ^ 64" and "j + length bs < 2 ^ 64"
  shows "load_bytes (store_bytes m (a + of_nat j) bs) (a + of_nat i) n = load_bytes m (a + of_nat i) n"
proof (rule nth_equalityI)
  fix k assume "k < length (load_bytes (store_bytes m (a + of_nat j) bs) (a + of_nat i) n)"
  then have k: "k < n" by simp
  have eq: "a + of_nat i + of_nat k - (a + of_nat j) = (of_nat (i + k) - of_nat j :: addr)" by simp
  have "length bs \<le> unat (of_nat (i + k) - of_nat j :: addr)"
  proof (cases "i + k < j")
    case True
    have "unat (of_nat (i + k) - of_nat j :: addr) = 2 ^ 64 + (i + k) - j"
      by (rule unat_of_nat_diff_wraps) (use True assms in linarith)+
    with assms(3) show ?thesis by linarith
  next
    case False
    have "(of_nat (i + k) - of_nat j :: addr) = of_nat (i + k - j)" using False by (simp add: of_nat_diff)
    moreover have "unat (of_nat (i + k - j) :: addr) = i + k - j"
      unfolding unat_of_nat take_bit_eq_mod using assms k by simp
    ultimately show ?thesis using assms(1) False k by simp
  qed
  then show "load_bytes (store_bytes m (a + of_nat j) bs) (a + of_nat i) n ! k = load_bytes m (a + of_nat i) n ! k"
    using k by (simp add: load_bytes_def store_bytes_outside eq)
qed simp

end
