(* ===== verification/User_Copy.thy ===== *)
theory User_Copy
  imports Kernel_Prelude
begin

text \<open>
  Copies between kernel and user memory, from \<^verbatim>\<open>include/linux/uaccess.h\<close>. User memory is
  a byte map; what the header takes from the architecture (\<^verbatim>\<open>access_ok\<close>,
  \<^verbatim>\<open>raw_copy_{to,from}_user\<close>, \<^verbatim>\<open>put_user\<close>, \<^verbatim>\<open>check_zeroed_user\<close>), the fault injector and
  the object-size check are the fields of a record, the parameter \<open>U\<close> of every definition
  that copies. The locale \<open>uaccess_laws\<close> states the contract the header's comment gives for
  them; \<open>page_uaccess\<close> is the memory in which a given set of addresses is mapped, and it
  meets the contract.
\<close>

record uaccess =
  access_ok :: "addr \<Rightarrow> nat \<Rightarrow> bool"
  should_fail_usercopy :: "addr \<Rightarrow> nat \<Rightarrow> bool"
  check_copy_size :: "nat \<Rightarrow> bool"
  raw_copy_to_user :: "mem \<Rightarrow> addr \<Rightarrow> byte list \<Rightarrow> mem \<times> nat"
  raw_copy_from_user :: "mem \<Rightarrow> addr \<Rightarrow> nat \<Rightarrow> byte list \<times> nat"
  put_user :: "mem \<Rightarrow> addr \<Rightarrow> byte list \<Rightarrow> mem \<times> int"
  check_zeroed_user :: "mem \<Rightarrow> addr \<Rightarrow> nat \<Rightarrow> int"


section \<open>The copy routines\<close>

text \<open>
  A copy returns the new memory (or the new kernel buffer) and the number of bytes that were
  not copied. The byte count \<^verbatim>\<open>n\<close> is the length of the list that is copied.
\<close>

definition copy_to_user_checked :: "uaccess \<Rightarrow> mem \<Rightarrow> addr \<Rightarrow> byte list \<Rightarrow> mem \<times> nat" where
  "copy_to_user_checked U m a bs =
     (let n = length bs in
      if should_fail_usercopy U a n then (m, n)
      else if access_ok U a n then raw_copy_to_user U m a bs
      else (m, n))"

definition copy_to_user :: "uaccess \<Rightarrow> mem \<Rightarrow> addr \<Rightarrow> byte list \<Rightarrow> mem \<times> nat" where
  "copy_to_user U m a bs =
     (if check_copy_size U (length bs) then copy_to_user_checked U m a bs
      else (m, length bs))"

definition copy_to_user_inatomic :: "uaccess \<Rightarrow> mem \<Rightarrow> addr \<Rightarrow> byte list \<Rightarrow> mem \<times> nat" where
  "copy_to_user_inatomic U m a bs =
     (if should_fail_usercopy U a (length bs) then (m, length bs)
      else raw_copy_to_user U m a bs)"

text \<open>The kernel buffer \<open>dst\<close> has the length of the copy; a short copy zero-pads it.\<close>

definition copy_from_user_checked ::
  "uaccess \<Rightarrow> mem \<Rightarrow> byte list \<Rightarrow> addr \<Rightarrow> byte list \<times> nat" where
  "copy_from_user_checked U m dst a =
     (let n = length dst;
          (got, res) = (if \<not> should_fail_usercopy U a n \<and> access_ok U a n
                        then raw_copy_from_user U m a n else ([], n));
          dst1 = got @ drop (length got) dst
      in if res \<noteq> 0 then (take (n - res) dst1 @ replicate res 0, res) else (dst1, res))"

definition copy_from_user :: "uaccess \<Rightarrow> mem \<Rightarrow> byte list \<Rightarrow> addr \<Rightarrow> byte list \<times> nat" where
  "copy_from_user U m dst a =
     (if check_copy_size U (length dst) then copy_from_user_checked U m dst a
      else (dst, length dst))"

text \<open>
  \<^verbatim>\<open>copy_struct_from_user\<close>: \<open>dst\<close> is the kernel struct (so \<^verbatim>\<open>ksize\<close> is its length), \<open>usize\<close>
  the size user space claims. The object-size warning cannot fire: the destination has
  exactly \<^verbatim>\<open>ksize\<close> bytes.
\<close>

definition copy_struct_from_user ::
  "uaccess \<Rightarrow> mem \<Rightarrow> byte list \<Rightarrow> addr \<Rightarrow> nat \<Rightarrow> byte list \<times> int" where
  "copy_struct_from_user U m dst src usize =
     (let ksize = length dst;
          size = min ksize usize;
          rest = max ksize usize - size;
          ret = (if usize > ksize then check_zeroed_user U m (src + of_nat size) rest else 1);
          dst0 = (if usize < ksize then take size dst @ replicate rest 0 else dst)
      in if ret \<le> 0 then (dst, if ret \<noteq> 0 then ret else - E2BIG)
         else case copy_from_user U m (take size dst0) src of (dst1, left) \<Rightarrow>
           (dst1 @ drop size dst0, if left \<noteq> 0 then - EFAULT else 0))"

lemmas copy_defs =
  copy_to_user_def copy_to_user_checked_def copy_to_user_inatomic_def
  copy_from_user_def copy_from_user_checked_def


section \<open>The contract of the architecture\<close>

text \<open>
  The comment above \<^verbatim>\<open>__copy_from_user_inatomic\<close>: the raw routines return the number of
  bytes left, between 0 and the size; exactly the bytes before that are transferred and
  nothing else is touched. \<^verbatim>\<open>put_user\<close> stores its value or returns \<^verbatim>\<open>-EFAULT\<close>;
  \<^verbatim>\<open>check_zeroed_user\<close> answers 1 or 0 for zero and non-zero bytes, or \<^verbatim>\<open>-EFAULT\<close>.
\<close>

locale uaccess_laws =
  fixes U :: uaccess
  assumes raw_to: "\<And>m a bs m' r. raw_copy_to_user U m a bs = (m', r) \<Longrightarrow>
      r \<le> length bs \<and> m' = store_bytes m a (take (length bs - r) bs)"
    and raw_from: "\<And>m a n got r. raw_copy_from_user U m a n = (got, r) \<Longrightarrow>
      r \<le> n \<and> got = load_bytes m a (n - r)"
    and put: "\<And>m a bs m' e. put_user U m a bs = (m', e) \<Longrightarrow>
      (e = 0 \<and> m' = store_bytes m a bs) \<or> (e = - EFAULT \<and> m' = m)"
    and zeroed: "\<And>m a n. check_zeroed_user U m a n =
      (if load_bytes m a n = replicate n 0 then 1 else 0) \<or> check_zeroed_user U m a n = - EFAULT"
begin

lemma copy_to_user_prefix:
  assumes "copy_to_user U m a bs = (m', r)"
  shows "r \<le> length bs" and "m' = store_bytes m a (take (length bs - r) bs)"
  using assms raw_to [of m a bs m' r]
  by (auto simp: copy_defs Let_def split: if_splits)

lemma copy_to_user_done: "copy_to_user U m a bs = (m', 0) \<Longrightarrow> m' = store_bytes m a bs"
  using copy_to_user_prefix by fastforce

lemma copy_to_user_load:
  "copy_to_user U m a bs = (m', 0) \<Longrightarrow> length bs < 2 ^ 64 \<Longrightarrow> load_bytes m' a (length bs) = bs"
  by (drule copy_to_user_done) simp

lemma copy_to_user_outside:
  "copy_to_user U m a bs = (m', r) \<Longrightarrow> length bs \<le> unat (x - a) \<Longrightarrow> m' x = m x"
  by (drule copy_to_user_prefix(2)) (simp add: store_bytes_outside)

lemma copy_from_user_done:
  assumes "copy_from_user U m dst a = (dst', 0)"
  shows "dst' = load_bytes m a (length dst)"
proof (cases "dst = []")
  case True
  with assms show ?thesis
    using raw_from [of m a 0] by (auto simp: copy_defs Let_def load_bytes_def split: if_splits prod.splits)
next
  case False
  with assms show ?thesis
    using raw_from [of m a "length dst"] by (auto simp: copy_defs Let_def split: if_splits prod.splits)
qed

lemma copy_from_user_length:
  assumes "copy_from_user U m dst a = (dst', r)"
  shows "length dst' = length dst \<and> r \<le> length dst"
  using assms raw_from [of m a "length dst"]
  by (auto simp: copy_defs Let_def split: if_splits prod.splits)

end


section \<open>A memory with mapped addresses\<close>

text \<open>
  \<open>page_uaccess mapped\<close>: an access to an address outside \<open>mapped\<close> faults; a copy transfers
  the longest prefix before the first fault. This is the instance that the concrete runs of
  the development use.
\<close>

definition mapped_prefix :: "(addr \<Rightarrow> bool) \<Rightarrow> addr \<Rightarrow> nat \<Rightarrow> nat" where
  "mapped_prefix mapped a n = length (takeWhile (\<lambda>i. mapped (a + of_nat i)) [0..<n])"

lemma mapped_prefix_le: "mapped_prefix mapped a n \<le> n"
  using length_takeWhile_le [of _ "[0..<n]"] by (simp add: mapped_prefix_def)

definition page_uaccess :: "(addr \<Rightarrow> bool) \<Rightarrow> uaccess" where
  "page_uaccess mapped =
     \<lparr>access_ok = (\<lambda>a n. unat a + n \<le> 2 ^ 47),
      should_fail_usercopy = (\<lambda>_ _. False),
      check_copy_size = (\<lambda>n. n \<le> 2147483647),
      raw_copy_to_user = (\<lambda>m a bs. let k = mapped_prefix mapped a (length bs)
        in (store_bytes m a (take k bs), length bs - k)),
      raw_copy_from_user = (\<lambda>m a n. let k = mapped_prefix mapped a n
        in (load_bytes m a k, n - k)),
      put_user = (\<lambda>m a bs. if mapped_prefix mapped a (length bs) = length bs
        then (store_bytes m a bs, 0) else (m, - EFAULT)),
      check_zeroed_user = (\<lambda>m a n. if mapped_prefix mapped a n < n then - EFAULT
        else if load_bytes m a n = replicate n 0 then 1 else 0)\<rparr>"

interpretation page: uaccess_laws "page_uaccess mapped" for mapped
proof
  fix m a bs m' r
  assume "raw_copy_to_user (page_uaccess mapped) m a bs = (m', r)"
  then show "r \<le> length bs \<and> m' = store_bytes m a (take (length bs - r) bs)"
    using mapped_prefix_le [of mapped a "length bs"] by (auto simp: page_uaccess_def Let_def)
next
  fix m a n got r
  assume "raw_copy_from_user (page_uaccess mapped) m a n = (got, r)"
  then show "r \<le> n \<and> got = load_bytes m a (n - r)"
    using mapped_prefix_le [of mapped a n] by (auto simp: page_uaccess_def Let_def)
next
  fix m a bs m' e
  assume "put_user (page_uaccess mapped) m a bs = (m', e)"
  then show "(e = 0 \<and> m' = store_bytes m a bs) \<or> (e = - EFAULT \<and> m' = m)"
    by (auto simp: page_uaccess_def split: if_splits)
next
  fix m a n
  show "check_zeroed_user (page_uaccess mapped) m a n =
      (if load_bytes m a n = replicate n 0 then 1 else 0)
    \<or> check_zeroed_user (page_uaccess mapped) m a n = - EFAULT"
    by (simp add: page_uaccess_def)
qed

text \<open>With every address mapped, a copy of a small object below the address limit succeeds.\<close>

lemma mapped_prefix_all [simp]: "mapped_prefix (\<lambda>_. True) a n = n"
  by (simp add: mapped_prefix_def takeWhile_eq_all_conv [THEN iffD2])

lemma copy_to_user_all_mapped:
  "length bs \<le> 2147483647 \<Longrightarrow> unat a + length bs \<le> 2 ^ 47 \<Longrightarrow>
   copy_to_user (page_uaccess (\<lambda>_. True)) m a bs = (store_bytes m a bs, 0)"
  by (simp add: copy_defs page_uaccess_def Let_def)

lemma copy_from_user_all_mapped:
  "length dst \<le> 2147483647 \<Longrightarrow> unat a + length dst \<le> 2 ^ 47 \<Longrightarrow>
   copy_from_user (page_uaccess (\<lambda>_. True)) m dst a = (load_bytes m a (length dst), 0)"
  by (simp add: copy_defs page_uaccess_def Let_def)

end
