(* ===== verification/Kernel_Tasks.thy ===== *)
theory Kernel_Tasks
  imports User_Copy
begin

text \<open>
  The part of the kernel's state that the system calls share: tasks, their address spaces and
  signal structures (\<^verbatim>\<open>include/linux/sched.h\<close>, \<^verbatim>\<open>sched/signal.h\<close>, \<^verbatim>\<open>mm.h\<close>), user memory, and
  the locks and reference counts a call takes. Objects are named by the numbers that stand
  for their addresses. What \<^verbatim>\<open>find_task_by_vpid\<close>, \<^verbatim>\<open>get_task_mm\<close> and
  \<^verbatim>\<open>percpu_counter_read_positive\<close> (outside the repository) answer is data of the state:
  \<open>vpids\<close>, \<open>user_mm\<close> and \<open>rss_stat\<close>.
\<close>

section \<open>Structures\<close>

record rlimit =
  rlim_cur :: ulong
  rlim_max :: ulong

record task_io_accounting =
  io_read_bytes :: ulong
  io_write_bytes :: ulong
  io_syscr :: ulong
  io_syscw :: ulong

datatype mm_counter = MM_FILEPAGES | MM_ANONPAGES | MM_SWAPENTS | MM_SHMEMPAGES

record mm_struct =
  total_vm :: ulong
  rss_stat :: "mm_counter \<Rightarrow> ulong"
  hiwater_rss :: ulong
  hiwater_vm :: ulong

record signal_struct =
  rlim :: "nat \<Rightarrow> rlimit"
  oom_score_adj :: int

record task_struct =
  task_pid :: int
  task_mm :: "nat option"
  task_signal :: nat
  ioac :: task_io_accounting

record kernel =
  tasks :: "nat \<Rightarrow> task_struct"
  signals :: "nat \<Rightarrow> signal_struct"
  mms :: "nat \<Rightarrow> mm_struct"
  vpids :: "int \<Rightarrow> nat option"
  user_mm :: "nat \<Rightarrow> nat option"
  process_list :: "nat list"
  totalram_pages :: ulong
  umem :: mem
  rcu_depth :: nat
  task_usage :: "nat \<Rightarrow> int"
  mm_users :: "nat \<Rightarrow> int"


section \<open>Resource limits\<close>

abbreviation (input) RLIMIT_CPU :: nat where "RLIMIT_CPU \<equiv> 0"
abbreviation (input) RLIMIT_DATA :: nat where "RLIMIT_DATA \<equiv> 2"
abbreviation (input) RLIMIT_NOFILE :: nat where "RLIMIT_NOFILE \<equiv> 7"
abbreviation (input) RLIMIT_AS :: nat where "RLIMIT_AS \<equiv> 9"
abbreviation (input) RLIM_NLIMITS :: nat where "RLIM_NLIMITS \<equiv> 16"
abbreviation (input) RLIM_INFINITY :: ulong where "RLIM_INFINITY \<equiv> - 1"

definition task_rlimit :: "kernel \<Rightarrow> nat \<Rightarrow> nat \<Rightarrow> ulong" where
  "task_rlimit k t limit = rlim_cur (rlim (signals k (task_signal (tasks k t))) limit)"

definition task_rlimit_max :: "kernel \<Rightarrow> nat \<Rightarrow> nat \<Rightarrow> ulong" where
  "task_rlimit_max k t limit = rlim_max (rlim (signals k (task_signal (tasks k t))) limit)"


section \<open>Counters of an address space\<close>

definition get_mm_counter :: "mm_struct \<Rightarrow> mm_counter \<Rightarrow> ulong" where
  "get_mm_counter mm member = rss_stat mm member"

definition get_mm_rss :: "mm_struct \<Rightarrow> ulong" where
  "get_mm_rss mm = get_mm_counter mm MM_FILEPAGES + get_mm_counter mm MM_ANONPAGES
     + get_mm_counter mm MM_SHMEMPAGES"

definition get_mm_hiwater_rss :: "mm_struct \<Rightarrow> ulong" where
  "get_mm_hiwater_rss mm = max (hiwater_rss mm) (get_mm_rss mm)"

definition get_mm_hiwater_vm :: "mm_struct \<Rightarrow> ulong" where
  "get_mm_hiwater_vm mm = max (hiwater_vm mm) (total_vm mm)"

definition update_hiwater_rss :: "mm_struct \<Rightarrow> mm_struct" where
  "update_hiwater_rss mm =
     (let rss = get_mm_rss mm in if hiwater_rss mm < rss then mm\<lparr>hiwater_rss := rss\<rparr> else mm)"

definition update_hiwater_vm :: "mm_struct \<Rightarrow> mm_struct" where
  "update_hiwater_vm mm =
     (if hiwater_vm mm < total_vm mm then mm\<lparr>hiwater_vm := total_vm mm\<rparr> else mm)"

definition reset_mm_hiwater_rss :: "mm_struct \<Rightarrow> mm_struct" where
  "reset_mm_hiwater_rss mm = mm\<lparr>hiwater_rss := get_mm_rss mm\<rparr>"

definition setmax_mm_hiwater_rss :: "ulong \<Rightarrow> mm_struct \<Rightarrow> ulong" where
  "setmax_mm_hiwater_rss maxrss mm =
     (let hiwater = get_mm_hiwater_rss mm in if maxrss < hiwater then hiwater else maxrss)"

lemma update_hiwater_rss_get: "get_mm_hiwater_rss (update_hiwater_rss mm) = get_mm_hiwater_rss mm"
  by (auto simp: update_hiwater_rss_def get_mm_hiwater_rss_def get_mm_rss_def get_mm_counter_def
      Let_def max_def)

lemma setmax_mm_hiwater_rss_max: "setmax_mm_hiwater_rss r mm = max r (get_mm_hiwater_rss mm)"
  by (auto simp: setmax_mm_hiwater_rss_def max_def Let_def)


section \<open>Locks and references\<close>

definition rcu_read_lock :: "kernel \<Rightarrow> kernel" where
  "rcu_read_lock k = k\<lparr>rcu_depth := rcu_depth k + 1\<rparr>"

definition rcu_read_unlock :: "kernel \<Rightarrow> kernel" where
  "rcu_read_unlock k = k\<lparr>rcu_depth := rcu_depth k - 1\<rparr>"

definition get_task_struct :: "nat \<Rightarrow> kernel \<Rightarrow> kernel" where
  "get_task_struct t k = k\<lparr>task_usage := (task_usage k)(t := task_usage k t + 1)\<rparr>"

definition put_task_struct :: "nat \<Rightarrow> kernel \<Rightarrow> kernel" where
  "put_task_struct t k = k\<lparr>task_usage := (task_usage k)(t := task_usage k t - 1)\<rparr>"

definition get_task_mm :: "nat \<Rightarrow> kernel \<Rightarrow> nat option \<times> kernel" where
  "get_task_mm t k =
     (case user_mm k t of
        None \<Rightarrow> (None, k)
      | Some m \<Rightarrow> (Some m, k\<lparr>mm_users := (mm_users k)(m := mm_users k m + 1)\<rparr>))"

definition mmput :: "nat \<Rightarrow> kernel \<Rightarrow> kernel" where
  "mmput m k = k\<lparr>mm_users := (mm_users k)(m := mm_users k m - 1)\<rparr>"

lemmas lock_defs = rcu_read_lock_def rcu_read_unlock_def get_task_struct_def put_task_struct_def
  get_task_mm_def mmput_def

lemma rcu_unlock_lock [simp, ksimps]: "rcu_read_unlock (rcu_read_lock k) = k"
  by (simp add: lock_defs)

lemma put_get_task [simp, ksimps]: "put_task_struct t (get_task_struct t k) = k"
  by (simp add: lock_defs)

text \<open>
  What every call must leave as it found it: \<open>balanced k k'\<close> says that \<open>k'\<close> holds the same
  read-side locks and the same references as \<open>k\<close>.
\<close>

definition balanced :: "kernel \<Rightarrow> kernel \<Rightarrow> bool" where
  "balanced k k' \<longleftrightarrow>
     rcu_depth k' = rcu_depth k \<and> task_usage k' = task_usage k \<and> mm_users k' = mm_users k"

lemma balanced_refl [simp]: "balanced k k"
  by (simp add: balanced_def)

lemma balanced_trans: "balanced a b \<Longrightarrow> balanced b c \<Longrightarrow> balanced a c"
  by (simp add: balanced_def)

text \<open>Copy to user memory inside the kernel state; the result is the number of bytes left.\<close>

definition kcopy_to_user :: "uaccess \<Rightarrow> addr \<Rightarrow> byte list \<Rightarrow> kernel \<Rightarrow> nat \<times> kernel" where
  "kcopy_to_user U a bs k =
     (case copy_to_user U (umem k) a bs of (m, left) \<Rightarrow> (left, k\<lparr>umem := m\<rparr>))"

lemma kcopy_frame:
  "kcopy_to_user U a bs k = (left, k') \<Longrightarrow> k' = k\<lparr>umem := umem k'\<rparr>"
  by (auto simp: kcopy_to_user_def split: prod.splits)

lemma kcopy_balanced: "kcopy_to_user U a bs k = (left, k') \<Longrightarrow> balanced k k'"
  by (auto simp: kcopy_to_user_def balanced_def split: prod.splits)

context uaccess_laws
begin

lemma kcopy_done: "kcopy_to_user U a bs k = (0, k') \<Longrightarrow> k' = k\<lparr>umem := store_bytes (umem k) a bs\<rparr>"
  by (auto simp: kcopy_to_user_def dest: copy_to_user_done split: prod.splits)

lemma kcopy_outside:
  "kcopy_to_user U a bs k = (left, k') \<Longrightarrow> length bs \<le> unat (x - a) \<Longrightarrow> umem k' x = umem k x"
  by (auto simp: kcopy_to_user_def dest: copy_to_user_outside split: prod.splits)

end

lemma kcopy_all_mapped:
  "length bs \<le> 2147483647 \<Longrightarrow> unat a + length bs \<le> 2 ^ 47 \<Longrightarrow>
   kcopy_to_user (page_uaccess (\<lambda>_. True)) a bs k = (0, k\<lparr>umem := store_bytes (umem k) a bs\<rparr>)"
  by (simp add: kcopy_to_user_def copy_to_user_all_mapped)

text \<open>Bytes of a kernel object that no field covers: their value is not determined.\<close>

definition pad :: "(nat \<Rightarrow> byte) \<Rightarrow> nat \<Rightarrow> byte list" where
  "pad junk n = map junk [0..<n]"

lemma length_pad [simp]: "length (pad junk n) = n"
  by (simp add: pad_def)


section \<open>A small concrete kernel\<close>

text \<open>
  The state in which the concrete runs of the development start: task 1 (pid 42) with an
  address space of 300 pages of which 75 are resident, and a kernel thread 2 (pid 7) with
  none.
\<close>

definition demo_mm :: mm_struct where
  "demo_mm = \<lparr>total_vm = 300,
     rss_stat = (\<lambda>c. case c of MM_FILEPAGES \<Rightarrow> 25 | MM_ANONPAGES \<Rightarrow> 40 | MM_SWAPENTS \<Rightarrow> 3
                      | MM_SHMEMPAGES \<Rightarrow> 10),
     hiwater_rss = 80, hiwater_vm = 300\<rparr>"

definition demo_signal :: signal_struct where
  "demo_signal = \<lparr>rlim = (\<lambda>_. \<lparr>rlim_cur = RLIM_INFINITY, rlim_max = RLIM_INFINITY\<rparr>),
     oom_score_adj = 0\<rparr>"

definition demo_task :: "int \<Rightarrow> nat option \<Rightarrow> task_struct" where
  "demo_task p mm = \<lparr>task_pid = p, task_mm = mm, task_signal = 1,
     ioac = \<lparr>io_read_bytes = 11, io_write_bytes = 22, io_syscr = 33, io_syscw = 44\<rparr>\<rparr>"

definition demo_kernel :: kernel where
  "demo_kernel = \<lparr>tasks = (\<lambda>t. if t = 1 then demo_task 42 (Some 5) else demo_task 7 None),
     signals = (\<lambda>_. demo_signal), mms = (\<lambda>_. demo_mm),
     vpids = (\<lambda>p. if p = 42 then Some 1 else if p = 7 then Some 2 else None),
     user_mm = (\<lambda>t. if t = 1 then Some 5 else None),
     process_list = [1, 2], totalram_pages = 1000, umem = (\<lambda>_. 0),
     rcu_depth = 0, task_usage = (\<lambda>_. 1), mm_users = (\<lambda>_. 1)\<rparr>"

lemmas demo_defs = demo_kernel_def demo_task_def demo_signal_def demo_mm_def

abbreviation demo_U :: uaccess where "demo_U \<equiv> page_uaccess (\<lambda>_. True)"

end
