(* ===== verification/Mem_Stats.thy ===== *)
theory Mem_Stats
  imports Kernel_Tasks
begin

text \<open>
  The two memory-statistics system calls of \<^verbatim>\<open>kernel/usac\<close>: \<^verbatim>\<open>taro_ind_mem_stats\<close>
  (\<^verbatim>\<open>taro_estadisticas_ind.c\<close>), which reports one process or fills a buffer with all of them,
  and \<^verbatim>\<open>taro_tod_mem_stats\<close> (\<^verbatim>\<open>taro_estadisticas_tod.c\<close>), which sums over all processes.
  \<^verbatim>\<open>oom_badness\<close> (outside the repository) is a parameter: the 64 bits of its result for a
  task and a number of pages. Padding bytes of the struct that is copied out come from the
  kernel stack and are the parameter \<open>junk\<close>.
\<close>

section \<open>One process\<close>

record process_mem_stats =
  ps_pid :: int
  reserved_kb :: ulong
  committed_kb :: ulong
  committed_pct :: ulong
  oom_score :: int

type_synonym badness_fn = "nat \<Rightarrow> ulong \<Rightarrow> ulong"

text \<open>\<^verbatim>\<open>sizeof(struct process_mem_stats)\<close>: four bytes of padding after each \<^verbatim>\<open>int\<close>.\<close>

abbreviation sizeof_stats :: nat where "sizeof_stats \<equiv> 40"

definition enc_stats :: "(nat \<Rightarrow> byte) \<Rightarrow> process_mem_stats \<Rightarrow> byte list" where
  "enc_stats junk s = enc_int (ps_pid s) @ pad junk 4 @ enc_ulong (reserved_kb s)
     @ enc_ulong (committed_kb s) @ enc_ulong (committed_pct s)
     @ enc_int (oom_score s) @ pad junk 4"

definition dec_stats :: "byte list \<Rightarrow> process_mem_stats" where
  "dec_stats bs = \<lparr>ps_pid = dec_int (take 4 bs), reserved_kb = dec_ulong (take 8 (drop 8 bs)),
     committed_kb = dec_ulong (take 8 (drop 16 bs)),
     committed_pct = dec_ulong (take 8 (drop 24 bs)),
     oom_score = dec_int (take 4 (drop 32 bs))\<rparr>"

lemma length_enc_stats [simp]: "length (enc_stats junk s) = sizeof_stats"
  by (simp add: enc_stats_def)

lemma dec_enc_stats:
  "c_int (ps_pid s) \<Longrightarrow> c_int (oom_score s) \<Longrightarrow> dec_stats (enc_stats junk s) = s"
  by (simp add: enc_stats_def dec_stats_def)

text \<open>
  The statistics of one task. \<^verbatim>\<open>badness\<close> is \<^verbatim>\<open>unsigned long\<close>: the signed adjustment is
  converted, product and quotient are unsigned, and the test \<^verbatim>\<open>badness < 0\<close> is false.
\<close>

definition adjust_badness :: "ulong \<Rightarrow> int \<Rightarrow> ulong" where
  "adjust_badness badness adj = badness + (badness * of_int adj) div 1000"

definition clamp_score :: "ulong \<Rightarrow> int" where
  "clamp_score badness =
     (if badness > 1000 then 1000 else if badness < 0 then 0 else uint badness)"

definition mem_stats_of ::
  "badness_fn \<Rightarrow> kernel \<Rightarrow> ulong \<Rightarrow> int \<Rightarrow> nat \<Rightarrow> nat \<Rightarrow> process_mem_stats" where
  "mem_stats_of oom_badness k total_pages pid t m =
     (let mm = mms k m;
          reserved = (total_vm mm * PAGE_SIZE) div 1024;
          committed = (get_mm_rss mm * PAGE_SIZE) div 1024;
          badness = oom_badness t total_pages;
          adj = oom_score_adj (signals k (task_signal (tasks k t)))
      in \<lparr>ps_pid = pid, reserved_kb = reserved, committed_kb = committed,
          committed_pct = (if reserved > 0 then (committed * 100) div reserved else 0),
          oom_score = clamp_score (adjust_badness badness adj)\<rparr>)"


section \<open>The system call\<close>

text \<open>
  The loop over all processes, entered with the RCU read lock held: it stops when the next
  record would not fit, skips tasks without address space and copies the record to the next
  free slot.
\<close>

fun stats_loop :: "uaccess \<Rightarrow> badness_fn \<Rightarrow> (nat \<Rightarrow> byte) \<Rightarrow> ulong \<Rightarrow> addr \<Rightarrow> ulong \<Rightarrow>
    nat list \<Rightarrow> ulong \<Rightarrow> kernel \<Rightarrow> int \<times> kernel" where
  "stats_loop U oom_badness junk total_pages stats stats_len [] copied k =
     (sint copied, rcu_read_unlock k)"
| "stats_loop U oom_badness junk total_pages stats stats_len (t # ts) copied k =
     (if copied + of_nat sizeof_stats > stats_len then (- ENOSPC, rcu_read_unlock k)
      else case task_mm (tasks k t) of
        None \<Rightarrow> stats_loop U oom_badness junk total_pages stats stats_len ts copied k
      | Some m \<Rightarrow>
          (let s = mem_stats_of oom_badness k total_pages (task_pid (tasks k t)) t m;
               (left, k') = kcopy_to_user U (stats + copied) (enc_stats junk s) k
           in if left \<noteq> 0 then (- EFAULT, rcu_read_unlock k')
              else stats_loop U oom_badness junk total_pages stats stats_len ts
                     (copied + of_nat sizeof_stats) k'))"

definition taro_ind_mem_stats :: "uaccess \<Rightarrow> badness_fn \<Rightarrow> (nat \<Rightarrow> byte) \<Rightarrow> int \<Rightarrow> addr \<Rightarrow> ulong \<Rightarrow>
    kernel \<Rightarrow> int \<times> kernel" where
  "taro_ind_mem_stats U oom_badness junk pid stats stats_len k =
     (if stats = NULL \<or> stats_len = 0 then (- EINVAL, k)
      else let total_pages = totalram_pages k in
      if pid > 0 then
        (let k1 = rcu_read_lock k in
         case vpids k1 pid of
           None \<Rightarrow> (- ESRCH, rcu_read_unlock k1)
         | Some t \<Rightarrow>
             (let k2 = rcu_read_unlock (get_task_struct t k1) in
              case task_mm (tasks k2 t) of
                None \<Rightarrow> (- EFAULT, put_task_struct t k2)
              | Some m \<Rightarrow>
                  (let s = mem_stats_of oom_badness k2 total_pages pid t m;
                       (left, k3) = kcopy_to_user U stats (enc_stats junk s) (put_task_struct t k2)
                   in if left \<noteq> 0 then (- EFAULT, k3) else (int sizeof_stats, k3))))
      else stats_loop U oom_badness junk total_pages stats stats_len (process_list k) 0
             (rcu_read_lock k))"


section \<open>Totals over all processes\<close>

record total_mem_stats =
  total_reserved_mb :: ulong
  total_committed_mb :: ulong

definition enc_totals :: "total_mem_stats \<Rightarrow> byte list" where
  "enc_totals s = enc_ulong (total_reserved_mb s) @ enc_ulong (total_committed_mb s)"

definition dec_totals :: "byte list \<Rightarrow> total_mem_stats" where
  "dec_totals bs = \<lparr>total_reserved_mb = dec_ulong (take 8 bs),
     total_committed_mb = dec_ulong (take 8 (drop 8 bs))\<rparr>"

lemma length_enc_totals [simp]: "length (enc_totals s) = 16"
  by (simp add: enc_totals_def)

lemma dec_enc_totals [simp]: "dec_totals (enc_totals s) = s"
  by (simp add: enc_totals_def dec_totals_def)

fun totals_loop :: "nat list \<Rightarrow> total_mem_stats \<Rightarrow> kernel \<Rightarrow> total_mem_stats \<times> kernel" where
  "totals_loop [] s k = (s, k)"
| "totals_loop (t # ts) s k =
     (case get_task_mm t k of
        (None, k1) \<Rightarrow> totals_loop ts s k1
      | (Some m, k1) \<Rightarrow>
          totals_loop ts
            (s\<lparr>total_reserved_mb := total_reserved_mb s
                 + (total_vm (mms k1 m) * PAGE_SIZE) div (1024 * 1024),
               total_committed_mb := total_committed_mb s
                 + (get_mm_rss (mms k1 m) * PAGE_SIZE) div (1024 * 1024)\<rparr>)
            (mmput m k1))"

definition taro_tod_mem_stats :: "uaccess \<Rightarrow> addr \<Rightarrow> kernel \<Rightarrow> int \<times> kernel" where
  "taro_tod_mem_stats U totals k =
     (if totals = NULL then (- EINVAL, k)
      else if \<not> access_ok U totals 16 then (- EFAULT, k)
      else let (s, k1) = totals_loop (process_list k)
                           \<lparr>total_reserved_mb = 0, total_committed_mb = 0\<rparr> (rcu_read_lock k);
               (left, k2) = kcopy_to_user U totals (enc_totals s) (rcu_read_unlock k1)
           in if left \<noteq> 0 then (- EFAULT, k2) else (0, k2))"


section \<open>Locks and references\<close>

lemma stats_loop_balanced:
  "stats_loop U ob junk tp stats len ts c k = (r, k') \<Longrightarrow> balanced (rcu_read_unlock k) k'"
proof (induction U ob junk tp stats len ts c k rule: stats_loop.induct)
  case (2 U ob junk tp stats len t ts c k)
  show ?case
  proof (cases "c + of_nat sizeof_stats > len")
    case True
    with "2.prems" show ?thesis by simp
  next
    case False
    show ?thesis
    proof (cases "task_mm (tasks k t)")
      case None
      with "2.IH"(1) "2.prems" False show ?thesis by simp
    next
      case (Some m)
      obtain left k1 where k1: "kcopy_to_user U (stats + c)
          (enc_stats junk (mem_stats_of ob k tp (task_pid (tasks k t)) t m)) k = (left, k1)"
        by fastforce
      then have "balanced (rcu_read_unlock k) (rcu_read_unlock k1)"
        by (drule_tac kcopy_balanced) (simp add: balanced_def lock_defs)
      with "2.IH"(2) [OF False Some refl k1 [symmetric] refl] "2.prems" False Some k1
      show ?thesis by (auto split: if_splits intro: balanced_trans)
    qed
  qed
qed simp

text \<open>
  Every path of \<^verbatim>\<open>taro_ind_mem_stats\<close>, errors included, leaves the RCU nesting depth and
  every reference count as it found them.
\<close>

theorem taro_ind_mem_stats_balanced:
  "balanced k (snd (taro_ind_mem_stats U ob junk pid stats len k))"
proof (cases "stats = NULL \<or> len = 0 \<or> pid \<le> 0")
  case True
  then show ?thesis
    using stats_loop_balanced [of U ob junk _ stats len "process_list k" 0 "rcu_read_lock k"]
    by (cases "stats_loop U ob junk (totalram_pages k) stats len (process_list k) 0
          (rcu_read_lock k)") (auto simp: taro_ind_mem_stats_def)
next
  case False
  have "balanced k (put_task_struct t (rcu_read_unlock (get_task_struct t (rcu_read_lock k))))" for t
    by (simp add: balanced_def lock_defs)
  with False show ?thesis
    by (auto simp: taro_ind_mem_stats_def Let_def split: option.splits prod.splits
        dest!: kcopy_balanced intro: balanced_trans)
qed

lemma totals_loop_balanced: "balanced k (snd (totals_loop ts s k))"
proof (induction ts s k rule: totals_loop.induct)
  case (2 t ts s k)
  then show ?case
    by (auto simp: get_task_mm_def mmput_def balanced_def split: option.splits)
qed simp


section \<open>What the loop over all processes writes\<close>

text \<open>The specification: the records of the tasks that have an address space, in list order.\<close>

definition stat_records :: "badness_fn \<Rightarrow> kernel \<Rightarrow> ulong \<Rightarrow> nat list \<Rightarrow> process_mem_stats list" where
  "stat_records ob k tp ts =
     map (\<lambda>t. mem_stats_of ob k tp (task_pid (tasks k t)) t (the (task_mm (tasks k t))))
       (filter (\<lambda>t. task_mm (tasks k t) \<noteq> None) ts)"

lemma mem_stats_of_umem [simp]: "mem_stats_of ob (k\<lparr>umem := m\<rparr>) = mem_stats_of ob k"
  by (simp add: mem_stats_of_def fun_eq_iff)

lemma stat_records_umem [simp]: "stat_records ob (k\<lparr>umem := m\<rparr>) = stat_records ob k"
  by (simp add: stat_records_def fun_eq_iff)

lemma stat_records_Nil [simp]: "stat_records ob k tp [] = []"
  by (simp add: stat_records_def)

lemma stat_records_Cons:
  "stat_records ob k tp (t # ts) =
     (case task_mm (tasks k t) of None \<Rightarrow> stat_records ob k tp ts
      | Some m \<Rightarrow> mem_stats_of ob k tp (task_pid (tasks k t)) t m # stat_records ob k tp ts)"
  by (auto simp: stat_records_def split: option.splits)

text \<open>One slot: the bound check leaves room for a whole record, without wrap-around.\<close>

lemma slot_fits:
  assumes "\<not> c + of_nat sizeof_stats > (len :: ulong)" "unat c \<le> unat len" "unat len < 2 ^ 63"
  shows "unat (c + of_nat sizeof_stats) = unat c + sizeof_stats"
    and "unat c + sizeof_stats \<le> unat len"
proof -
  show *: "unat (c + of_nat sizeof_stats) = unat c + sizeof_stats"
    using assms by (subst unat_add_64) simp_all
  then show "unat c + sizeof_stats \<le> unat len"
    using assms(1) by (simp add: not_less word_le_nat_alt)
qed

context uaccess_laws
begin

lemma stats_loop_success:
  assumes "stats_loop U ob junk tp stats len ts c k = (r, k')" and "0 \<le> r"
    and "unat len < 2 ^ 63" and "unat c \<le> unat len"
  shows "nat r = unat c + sizeof_stats * length (stat_records ob k tp ts)
    \<and> unat c + sizeof_stats * length (stat_records ob k tp ts) \<le> unat len
    \<and> umem k' = store_bytes (umem k) (stats + c)
        (concat (map (enc_stats junk) (stat_records ob k tp ts)))"
  using assms
proof (induction ts arbitrary: c k)
  case Nil
  have "nat (sint c) = unat c"
    using Nil.prems(3,4) by (simp add: nat_sint_64)
  with Nil show ?case by (auto simp: lock_defs)
next
  case (Cons t ts)
  from Cons.prems(1,2) have fits: "\<not> c + of_nat sizeof_stats > len"
    by (auto split: if_splits)
  note slot = slot_fits [OF fits Cons.prems(4,3)]
  show ?case
  proof (cases "task_mm (tasks k t)")
    case None
    with Cons fits show ?thesis by (simp add: stat_records_Cons)
  next
    case (Some m)
    let ?s = "mem_stats_of ob k tp (task_pid (tasks k t)) t m"
    obtain k1 where k1: "kcopy_to_user U (stats + c) (enc_stats junk ?s) k = (0, k1)"
      and rest: "stats_loop U ob junk tp stats len ts (c + of_nat sizeof_stats) k1 = (r, k')"
      using Cons.prems(1,2) fits Some by (auto simp: Let_def split: if_splits prod.splits)
    from kcopy_done [OF k1]
    have k1': "k1 = k\<lparr>umem := store_bytes (umem k) (stats + c) (enc_stats junk ?s)\<rparr>" .
    let ?bs = "concat (map (enc_stats junk) (stat_records ob k tp ts))"
    have len: "length ?bs = sizeof_stats * length (stat_records ob k tp ts)"
      by (rule length_concat_map) simp
    from Cons.IH [OF rest Cons.prems(2,3)] slot k1'
    have IH: "nat r = unat c + sizeof_stats + sizeof_stats * length (stat_records ob k tp ts)"
      "unat c + sizeof_stats + sizeof_stats * length (stat_records ob k tp ts) \<le> unat len"
      "umem k' = store_bytes (store_bytes (umem k) (stats + c) (enc_stats junk ?s))
         (stats + c + of_nat (length (enc_stats junk ?s))) ?bs"
      by (simp_all add: add.assoc)
    have "umem k' = store_bytes (umem k) (stats + c) (enc_stats junk ?s @ ?bs)"
      unfolding IH(3) by (rule store_bytes_append) (use IH(2) len Cons.prems(3) in simp)
    with IH(1,2) Some show ?thesis by (simp add: stat_records_Cons)
  qed
qed

lemma stats_loop_confined:
  assumes "stats_loop U ob junk tp stats len ts c k = (r, k')"
    and "unat len < 2 ^ 63" and "unat c \<le> unat len" and "unat len \<le> unat (x - stats)"
  shows "umem k' x = umem k x"
  using assms
proof (induction ts arbitrary: c k)
  case Nil
  then show ?case by (auto simp: lock_defs)
next
  case (Cons t ts)
  show ?case
  proof (cases "c + of_nat sizeof_stats > len \<or> task_mm (tasks k t) = None")
    case True
    with Cons show ?thesis by (auto simp: lock_defs split: if_splits)
  next
    case False
    then obtain m where fits: "\<not> c + of_nat sizeof_stats > len" and m: "task_mm (tasks k t) = Some m"
      by auto
    note slot = slot_fits [OF fits Cons.prems(3,2)]
    obtain left k1 where k1: "kcopy_to_user U (stats + c)
        (enc_stats junk (mem_stats_of ob k tp (task_pid (tasks k t)) t m)) k = (left, k1)"
      by fastforce
    have "unat (x - (stats + c)) = unat (x - stats) - unat c"
      using unat_sub_of_nat [of "unat c" "x - stats"] Cons.prems(3,4) by (simp add: algebra_simps)
    then have "umem k1 x = umem k x"
      by (intro kcopy_outside [OF k1]) (use slot Cons.prems(4) in simp)
    with Cons.IH [of "c + of_nat sizeof_stats" k1] Cons.prems slot fits m k1 show ?thesis
      by (auto simp: lock_defs split: if_splits)
  qed
qed

end


lemma clamp_score_bounds: "0 \<le> clamp_score b \<and> clamp_score b \<le> 1000"
  by (auto simp: clamp_score_def not_less word_le_def)

lemma clamp_score_c_int [simp]: "c_int (clamp_score b)"
  using clamp_score_bounds [of b] by (simp add: c_int_def)

lemma mem_stats_of_sel [simp]:
  "ps_pid (mem_stats_of ob k tp pid t m) = pid"
  "c_int (oom_score (mem_stats_of ob k tp pid t m))"
  by (simp_all add: mem_stats_of_def Let_def)

text \<open>
  (C24) When \<^verbatim>\<open>taro_ind_mem_stats\<close> is called for all processes and succeeds, it returns the
  number of bytes written, 40 per process that has an address space, within the caller's
  buffer, and slot \<open>i\<close> of the buffer decodes to the statistics of the \<open>i\<close>-th such process.
\<close>

theorem taro_ind_mem_stats_all:
  assumes "uaccess_laws U" and "pid \<le> 0" and "unat len < 2 ^ 63"
    and call: "taro_ind_mem_stats U ob junk pid stats len k = (r, k')" and "0 \<le> r"
    and pids: "\<forall>t \<in> set (process_list k). c_int (task_pid (tasks k t))"
    and recs: "recs = stat_records ob k (totalram_pages k) (process_list k)"
  shows "nat r = sizeof_stats * length recs \<and> nat r \<le> unat len
    \<and> (\<forall>i < length recs.
         dec_stats (load_bytes (umem k') (stats + of_nat (sizeof_stats * i)) sizeof_stats) = recs ! i)"
proof -
  from \<open>0 \<le> r\<close> call \<open>pid \<le> 0\<close>
  have loop: "stats_loop U ob junk (totalram_pages k) stats len (process_list k) 0
      (rcu_read_lock k) = (r, k')"
    by (auto simp: taro_ind_mem_stats_def split: if_splits)
  have recs': "stat_records ob (rcu_read_lock k) (totalram_pages k) (process_list k) = recs"
    by (simp add: recs stat_records_def mem_stats_of_def lock_defs)
  let ?bs = "concat (map (enc_stats junk) recs)"
  from uaccess_laws.stats_loop_success [OF assms(1) loop \<open>0 \<le> r\<close> assms(3)] recs'
  have r: "nat r = sizeof_stats * length recs" "nat r \<le> unat len"
    and mem: "umem k' = store_bytes (umem k) stats ?bs"
    by (simp_all add: lock_defs)
  have len: "length ?bs = sizeof_stats * length recs"
    by (rule length_concat_map) simp
  have "dec_stats (load_bytes (umem k') (stats + of_nat (sizeof_stats * i)) sizeof_stats) = recs ! i"
    if i: "i < length recs" for i
  proof -
    have "load_bytes (umem k') (stats + of_nat (sizeof_stats * i)) sizeof_stats
        = take sizeof_stats (drop (sizeof_stats * i) ?bs)"
      unfolding mem by (rule load_bytes_store_sub) (use i len r assms(3) in simp_all)
    also have "\<dots> = enc_stats junk (recs ! i)"
      by (rule take_drop_concat_map) (use i in simp_all)
    finally show ?thesis
      using i pids by (auto simp: recs stat_records_def intro!: dec_enc_stats
          dest!: nth_mem)
  qed
  with r show ?thesis by blast
qed


lemma demo_run_all:
  "fst (taro_ind_mem_stats demo_U (\<lambda>_ _. 5) junk 0 4096 200 demo_kernel) = 40"
  by (simp add: taro_ind_mem_stats_def demo_defs lock_defs kcopy_all_mapped Let_def)

lemma demo_records:
  "stat_records (\<lambda>_ _. 5) demo_kernel (totalram_pages demo_kernel) (process_list demo_kernel) =
     [\<lparr>ps_pid = 42, reserved_kb = 1200, committed_kb = 300, committed_pct = 25, oom_score = 5\<rparr>]"
  by (simp add: stat_records_def mem_stats_of_def demo_defs get_mm_rss_def get_mm_counter_def
      adjust_badness_def clamp_score_def Let_def)

theorem taro_ind_mem_stats_all_witness:
  "dec_stats (load_bytes (umem (snd (taro_ind_mem_stats demo_U (\<lambda>_ _. 5) (\<lambda>_. 0) 0 4096 200
       demo_kernel))) 4096 40)
   = \<lparr>ps_pid = 42, reserved_kb = 1200, committed_kb = 300, committed_pct = 25, oom_score = 5\<rparr>"
proof -
  have run: "taro_ind_mem_stats demo_U (\<lambda>_ _. 5) (\<lambda>_. 0) 0 4096 200 demo_kernel
      = (40, snd (taro_ind_mem_stats demo_U (\<lambda>_ _. 5) (\<lambda>_. 0) 0 4096 200 demo_kernel))"
    by (simp add: demo_run_all prod_eq_iff)
  have "\<forall>t \<in> set (process_list demo_kernel). c_int (task_pid (tasks demo_kernel t))"
    by (simp add: demo_defs c_int_def)
  from taro_ind_mem_stats_all [OF page.uaccess_laws_axioms _ _ run _ this refl]
  show ?thesis by (simp add: demo_records)
qed

text \<open>
  For all processes, \<^verbatim>\<open>taro_ind_mem_stats\<close> never writes outside the \<^verbatim>\<open>stats_len\<close> bytes
  of the caller's buffer, on success or on any error.
\<close>

theorem taro_ind_mem_stats_confined:
  assumes "uaccess_laws U" and "pid \<le> 0" and "unat len < 2 ^ 63"
    and "unat len \<le> unat (x - stats)"
  shows "umem (snd (taro_ind_mem_stats U ob junk pid stats len k)) x = umem k x"
proof (cases "stats = NULL \<or> len = 0")
  case True
  then show ?thesis by (auto simp: taro_ind_mem_stats_def)
next
  case False
  obtain r k' where loop: "stats_loop U ob junk (totalram_pages k) stats len (process_list k) 0
      (rcu_read_lock k) = (r, k')" by fastforce
  with uaccess_laws.stats_loop_confined [OF assms(1) loop assms(3) _ assms(4)] False assms(2)
  show ?thesis by (simp add: taro_ind_mem_stats_def lock_defs)
qed

theorem taro_ind_mem_stats_confined_witness:
  "umem (snd (taro_ind_mem_stats demo_U (\<lambda>_ _. 5) (\<lambda>_. 255) 0 4096 40 demo_kernel)) 4136 = 0"
proof -
  have "umem (snd (taro_ind_mem_stats demo_U (\<lambda>_ _. 5) (\<lambda>_. 255) 0 4096 40 demo_kernel)) 4136
      = umem demo_kernel 4136"
    by (rule taro_ind_mem_stats_confined [OF page.uaccess_laws_axioms]) simp_all
  then show ?thesis by (simp add: demo_defs)
qed

text \<open>
  For a single process, \<^verbatim>\<open>taro_ind_mem_stats\<close> answers exactly as its guards say, and a
  success stores one whole record, 40 bytes, at \<^verbatim>\<open>stats\<close>.
\<close>

theorem taro_ind_mem_stats_one:
  assumes "uaccess_laws U" and "0 < pid" and "stats \<noteq> NULL" and "len \<noteq> 0" and "c_int pid"
    and call: "taro_ind_mem_stats U ob junk pid stats len k = (r, k')"
  shows "case vpids k pid of
      None \<Rightarrow> r = - ESRCH \<and> umem k' = umem k
    | Some t \<Rightarrow> (case task_mm (tasks k t) of
          None \<Rightarrow> r = - EFAULT \<and> umem k' = umem k
        | Some m \<Rightarrow> r = - EFAULT \<or> r = int sizeof_stats \<and>
            dec_stats (load_bytes (umem k') stats sizeof_stats)
              = mem_stats_of ob k (totalram_pages k) pid t m)"
proof (cases "\<exists>t m. vpids k pid = Some t \<and> task_mm (tasks k t) = Some m")
  case False
  with assms show ?thesis
    by (auto simp: taro_ind_mem_stats_def lock_defs Let_def split: option.splits)
next
  case True
  then obtain t m where t: "vpids k pid = Some t" and m: "task_mm (tasks k t) = Some m" by blast
  let ?s = "mem_stats_of ob k (totalram_pages k) pid t m"
  have s: "mem_stats_of ob (rcu_read_unlock (get_task_struct t (rcu_read_lock k)))
      (totalram_pages k) pid t m = ?s"
    by (simp add: mem_stats_of_def lock_defs)
  obtain left k3 where k3: "kcopy_to_user U stats (enc_stats junk ?s)
      (put_task_struct t (rcu_read_unlock (get_task_struct t (rcu_read_lock k)))) = (left, k3)"
    by fastforce
  have r: "r = (if left \<noteq> 0 then - EFAULT else int sizeof_stats)" "k' = k3"
    using call assms(2-4) t m s k3 by (auto simp: taro_ind_mem_stats_def Let_def lock_defs split: if_splits)
  have "load_bytes (umem k3) stats sizeof_stats = enc_stats junk ?s" if "left = 0"
    using uaccess_laws.kcopy_done [OF assms(1) k3 [unfolded that]]
      load_store_bytes [of "enc_stats junk ?s"] by simp
  with r t m assms(5) show ?thesis by (auto simp: dec_enc_stats)
qed

theorem taro_ind_mem_stats_one_witness:
  "fst (taro_ind_mem_stats demo_U (\<lambda>_ _. 5) (\<lambda>_. 0) 42 4096 1 demo_kernel) = 40 \<and>
   ps_pid (dec_stats (load_bytes (umem (snd (taro_ind_mem_stats demo_U (\<lambda>_ _. 5) (\<lambda>_. 0) 42 4096 1
     demo_kernel))) 4096 40)) = 42"
proof -
  let ?p = "taro_ind_mem_stats demo_U (\<lambda>_ _. 5) (\<lambda>_. 0) 42 4096 1 demo_kernel"
  have run: "fst ?p = 40"
    by (simp add: taro_ind_mem_stats_def demo_defs lock_defs kcopy_all_mapped Let_def)
  have "c_int 42" by (simp add: c_int_def)
  from taro_ind_mem_stats_one [OF page.uaccess_laws_axioms _ _ _ this, of 4096 1 "\<lambda>_. True"
      "\<lambda>_ _. 5" "\<lambda>_. 0" demo_kernel "fst ?p" "snd ?p"] run
  show ?thesis by (simp add: demo_kernel_def demo_task_def)
qed

text \<open>
  The single-process branch compares nothing with \<^verbatim>\<open>stats_len\<close>: a caller that offers one
  byte gets forty. The run of the previous theorem has \<^verbatim>\<open>stats_len = 1\<close> and changes the byte
  at offset 8.
\<close>

lemma single_process_overruns_buffer:
  "umem (snd (taro_ind_mem_stats demo_U (\<lambda>_ _. 5) junk 42 4096 1 demo_kernel)) 4104 \<noteq> umem demo_kernel 4104"
  by (simp add: taro_ind_mem_stats_def demo_defs lock_defs kcopy_all_mapped Let_def
      store_bytes_def enc_stats_def mem_stats_of_def nth_append enc_ulong_def)

text \<open>
  The space check precedes the test for an address space: with room for exactly the one
  record there is, the kernel thread behind it in the list turns the call into
  \<^verbatim>\<open>-ENOSPC\<close>.
\<close>

lemma spurious_no_space:
  "length (stat_records (\<lambda>_ _. 5) demo_kernel (totalram_pages demo_kernel) (process_list demo_kernel)) = 1
   \<and> fst (taro_ind_mem_stats demo_U (\<lambda>_ _. 5) junk 0 4096 40 demo_kernel) = - ENOSPC"
  by (simp add: demo_records)
    (simp add: taro_ind_mem_stats_def demo_defs lock_defs kcopy_all_mapped Let_def)

section \<open>The values\<close>

lemma pages_to_kb:
  "unat p < 2 ^ 52 \<Longrightarrow> unat ((p * PAGE_SIZE) div 1024 :: ulong) = 4 * unat p"
  by (simp add: unat_div unat_mult_64)

text \<open>
  With an address space of fewer than \<open>2 ^ 45\<close> pages of which at most all are resident,
  the numbers reported are the page counts in KiB (4 per page), the percentage is the share
  of resident pages, at most 100, and the score lies between 0 and 1000.
\<close>

theorem mem_stats_values:
  assumes "unat (total_vm (mms k m)) < 2 ^ 45"
    and "unat (get_mm_rss (mms k m)) \<le> unat (total_vm (mms k m))"
    and s: "s = mem_stats_of ob k tp pid t m"
  shows "unat (reserved_kb s) = 4 * unat (total_vm (mms k m))
    \<and> unat (committed_kb s) = 4 * unat (get_mm_rss (mms k m))
    \<and> unat (committed_pct s)
        = unat (get_mm_rss (mms k m)) * 100 div unat (total_vm (mms k m))
    \<and> unat (committed_pct s) \<le> 100
    \<and> 0 \<le> oom_score s \<and> oom_score s \<le> 1000"
proof -
  let ?v = "unat (total_vm (mms k m))" and ?r = "unat (get_mm_rss (mms k m))"
  have kb: "unat (reserved_kb s) = 4 * ?v" "unat (committed_kb s) = 4 * ?r"
    using assms(1,2) by (simp_all add: s mem_stats_of_def Let_def pages_to_kb)
  have "unat (committed_kb s * 100) = 4 * ?r * 100"
    using kb assms(1,2) by (subst unat_mult_64) simp_all
  moreover have "committed_pct s =
      (if reserved_kb s > 0 then (committed_kb s * 100) div reserved_kb s else 0)"
    by (simp add: s mem_stats_of_def Let_def)
  ultimately have pct: "unat (committed_pct s) = ?r * 100 div ?v"
    using kb by (simp add: unat_div word_less_nat_alt mult.commute [of _ 100])
  have "?r * 100 div ?v \<le> ?v * 100 div ?v"
    using assms(2) by (intro div_le_mono) simp
  also have "\<dots> \<le> 100" by simp
  finally show ?thesis
    using kb pct clamp_score_bounds by (simp add: s mem_stats_of_def Let_def)
qed

theorem mem_stats_values_witness:
  "unat (committed_pct (mem_stats_of (\<lambda>_ _. 5) demo_kernel 1000 42 1 5)) \<le> 100"
proof -
  have "unat (total_vm (mms demo_kernel 5)) < 2 ^ 45"
    and "unat (get_mm_rss (mms demo_kernel 5)) \<le> unat (total_vm (mms demo_kernel 5))"
    by (simp_all add: demo_defs get_mm_rss_def get_mm_counter_def)
  from mem_stats_values [OF this refl] show ?thesis by blast
qed

text \<open>
  The clamp of the score does not do what its last branch says: a task whose
  \<^verbatim>\<open>oom_badness\<close> is negative (the kernel's mark for tasks that must not be killed) and whose
  adjustment is zero is reported with the largest score, 1000, because the variable it is
  clamped in is unsigned.
\<close>

theorem negative_badness_scores_1000:
  assumes "sint (ob t tp :: ulong) < 0"
    and "oom_score_adj (signals k (task_signal (tasks k t))) = 0"
  shows "oom_score (mem_stats_of ob k tp pid t m) = 1000"
proof -
  have "unat (ob t tp) \<ge> 2 ^ 63"
    using assms(1) sint_eq_unat_64 [of "ob t tp"] by force
  then have "ob t tp > 1000" by (simp add: word_less_nat_alt)
  with assms(2) show ?thesis
    by (simp add: mem_stats_of_def adjust_badness_def clamp_score_def Let_def)
qed

theorem negative_badness_scores_1000_witness:
  "oom_score (mem_stats_of (\<lambda>_ _. - 9223372036854775808) demo_kernel 1000 42 1 5) = 1000"
  by (rule negative_badness_scores_1000) (simp_all add: demo_defs)


section \<open>Totals\<close>

text \<open>The address spaces the totals loop visits, and their sizes rounded down to MiB.\<close>

definition visited_mms :: "kernel \<Rightarrow> nat list \<Rightarrow> nat list" where
  "visited_mms k ts = List.map_filter (user_mm k) ts"

definition mib :: "ulong \<Rightarrow> nat" where
  "mib pages = unat pages div 256"

lemma pages_to_mib:
  "unat p < 2 ^ 52 \<Longrightarrow> unat ((p * PAGE_SIZE) div 1048576 :: ulong) = mib p"
  by (simp add: unat_div unat_mult_64 mib_def)

lemma visited_mms_simps [simp]:
  "visited_mms k [] = []"
  "visited_mms k (t # ts) =
     (case user_mm k t of None \<Rightarrow> visited_mms k ts | Some m \<Rightarrow> m # visited_mms k ts)"
  by (simp_all add: visited_mms_def map_filter_simps split: option.splits)

lemma visited_mms_frame [simp]:
  "visited_mms (k\<lparr>mm_users := u\<rparr>) ts = visited_mms k ts"
  "visited_mms (rcu_read_lock k) ts = visited_mms k ts"
  by (simp_all add: visited_mms_def rcu_read_lock_def)

lemma totals_loop_frame: "umem (snd (totals_loop ts s k)) = umem k"
  by (induction ts s k rule: totals_loop.induct)
    (auto simp: get_task_mm_def mmput_def split: option.splits)

lemma totals_loop_sums:
  assumes "\<forall>m \<in> set (visited_mms k ts). unat (total_vm (mms k m)) < 2 ^ 52
             \<and> unat (get_mm_rss (mms k m)) < 2 ^ 52"
    and "unat (total_reserved_mb s) + sum_list (map (\<lambda>m. mib (total_vm (mms k m))) (visited_mms k ts)) < 2 ^ 64"
    and "unat (total_committed_mb s) + sum_list (map (\<lambda>m. mib (get_mm_rss (mms k m))) (visited_mms k ts)) < 2 ^ 64"
  shows "unat (total_reserved_mb (fst (totals_loop ts s k)))
      = unat (total_reserved_mb s) + sum_list (map (\<lambda>m. mib (total_vm (mms k m))) (visited_mms k ts))
    \<and> unat (total_committed_mb (fst (totals_loop ts s k)))
      = unat (total_committed_mb s) + sum_list (map (\<lambda>m. mib (get_mm_rss (mms k m))) (visited_mms k ts))"
  using assms
proof (induction ts s k rule: totals_loop.induct)
  case (2 t ts s k)
  show ?case
  proof (cases "user_mm k t")
    case None
    with 2 show ?thesis by (simp add: get_task_mm_def)
  next
    case (Some m)
    let ?k1 = "k\<lparr>mm_users := (mm_users k)(m := mm_users k m + 1)\<rparr>"
    have g: "get_task_mm t k = (Some m, ?k1)" using Some by (simp add: get_task_mm_def)
    have a: "unat (total_reserved_mb s + (total_vm (mms k m) * PAGE_SIZE) div (1024 * 1024))
        = unat (total_reserved_mb s) + mib (total_vm (mms k m))"
      and b: "unat (total_committed_mb s + (get_mm_rss (mms k m) * PAGE_SIZE) div (1024 * 1024))
        = unat (total_committed_mb s) + mib (get_mm_rss (mms k m))"
      using "2.prems" Some by (simp_all add: pages_to_mib unat_add_64)
    from "2.IH"(2) [OF g [symmetric] refl] "2.prems" Some a b show ?thesis
      by (simp add: g mmput_def add.assoc)
  qed
qed simp

lemma sum_mib_bounds:
  "256 * sum_list (map (\<lambda>x. mib (f x)) xs) \<le> sum_list (map (\<lambda>x. unat (f x)) xs)
   \<and> sum_list (map (\<lambda>x. unat (f x)) xs) \<le> 256 * sum_list (map (\<lambda>x. mib (f x)) xs) + 255 * length xs"
  by (induction xs) (auto simp: mib_def)

text \<open>
  (C37) A successful \<^verbatim>\<open>taro_tod_mem_stats\<close> stores in the caller's struct the sums, over the
  processes with an address space, of the sizes rounded down to MiB; the reserved total
  undercounts the pages in use by less than one MiB per process.
\<close>

theorem taro_tod_mem_stats_sums:
  assumes "uaccess_laws U" and call: "taro_tod_mem_stats U totals k = (0, k')"
    and ms: "ms = visited_mms k (process_list k)"
    and small: "\<forall>m \<in> set ms. unat (total_vm (mms k m)) < 2 ^ 52 \<and> unat (get_mm_rss (mms k m)) < 2 ^ 52"
    and fits: "sum_list (map (\<lambda>m. mib (total_vm (mms k m))) ms) < 2 ^ 64"
      "sum_list (map (\<lambda>m. mib (get_mm_rss (mms k m))) ms) < 2 ^ 64"
    and s: "s = dec_totals (load_bytes (umem k') totals 16)"
  shows "unat (total_reserved_mb s) = sum_list (map (\<lambda>m. mib (total_vm (mms k m))) ms)
    \<and> unat (total_committed_mb s) = sum_list (map (\<lambda>m. mib (get_mm_rss (mms k m))) ms)
    \<and> 256 * unat (total_reserved_mb s) \<le> sum_list (map (\<lambda>m. unat (total_vm (mms k m))) ms)
    \<and> sum_list (map (\<lambda>m. unat (total_vm (mms k m))) ms)
        \<le> 256 * unat (total_reserved_mb s) + 255 * length ms"
proof -
  let ?z = "\<lparr>total_reserved_mb = 0, total_committed_mb = 0\<rparr> :: total_mem_stats"
  obtain s1 k1 where loop: "totals_loop (process_list k) ?z (rcu_read_lock k) = (s1, k1)"
    by fastforce
  obtain left k2 where copy: "kcopy_to_user U totals (enc_totals s1) (rcu_read_unlock k1) = (left, k2)"
    by fastforce
  from call loop copy have "left = 0" "k' = k2"
    by (auto simp: taro_tod_mem_stats_def Let_def split: if_splits)
  with uaccess_laws.kcopy_done [OF assms(1), of totals "enc_totals s1" "rcu_read_unlock k1" k2] copy
    load_store_bytes [of "enc_totals s1"]
  have "s = s1" by (simp add: s)
  moreover have "mms (rcu_read_lock k) = mms k" by (simp add: rcu_read_lock_def)
  ultimately show ?thesis
    using totals_loop_sums [of "rcu_read_lock k" "process_list k" ?z] loop small fits
      sum_mib_bounds [of "\<lambda>m. total_vm (mms k m)" ms]
    by (simp add: ms)
qed

lemma demo_run_totals:
  "taro_tod_mem_stats demo_U 4096 demo_kernel =
     (0, demo_kernel\<lparr>umem := store_bytes (umem demo_kernel) 4096
       (enc_totals \<lparr>total_reserved_mb = 1, total_committed_mb = 0\<rparr>)\<rparr>)"
  by (simp add: taro_tod_mem_stats_def demo_defs lock_defs kcopy_all_mapped Let_def
      get_mm_rss_def get_mm_counter_def)
    (simp add: page_uaccess_def fun_eq_iff)

theorem taro_tod_mem_stats_sums_witness:
  "unat (total_reserved_mb (dec_totals (load_bytes (umem (snd (taro_tod_mem_stats demo_U 4096
     demo_kernel))) 4096 16))) = 1"
proof -
  have ms: "visited_mms demo_kernel (process_list demo_kernel) = [5]"
    by (simp add: demo_defs)
  have "unat (total_reserved_mb (dec_totals (load_bytes (umem (snd (taro_tod_mem_stats demo_U 4096
     demo_kernel))) 4096 16))) = sum_list (map (\<lambda>m. mib (total_vm (mms demo_kernel m))) [5])"
    using taro_tod_mem_stats_sums [OF page.uaccess_laws_axioms demo_run_totals refl _ _ _ refl]
    by (simp add: ms demo_run_totals) (simp add: demo_defs mib_def get_mm_rss_def get_mm_counter_def)
  then show ?thesis by (simp add: demo_defs mib_def)
qed

text \<open>
  \<^verbatim>\<open>taro_tod_mem_stats\<close> rejects a null pointer and a range outside user space before it
  looks at any process, and on every path releases what it took.
\<close>

theorem taro_tod_mem_stats_guards:
  "taro_tod_mem_stats U NULL k = (- EINVAL, k)
   \<and> (totals \<noteq> NULL \<longrightarrow> \<not> access_ok U totals 16 \<longrightarrow> taro_tod_mem_stats U totals k = (- EFAULT, k))
   \<and> balanced k (snd (taro_tod_mem_stats U totals k))"
proof -
  have "balanced k (rcu_read_unlock k1)"
    if "totals_loop (process_list k) s (rcu_read_lock k) = (s1, k1)" for s s1 k1
    using totals_loop_balanced [of "rcu_read_lock k" "process_list k" s] that
    by (simp add: balanced_def lock_defs)
  then show ?thesis
    by (auto simp: taro_tod_mem_stats_def Let_def split: prod.splits
        dest!: kcopy_balanced intro: balanced_trans)
qed

theorem taro_tod_mem_stats_guards_witness:
  "taro_tod_mem_stats demo_U (- 8) demo_kernel = (- EFAULT, demo_kernel)"
proof -
  have "\<not> access_ok demo_U (- 8) 16" by (simp add: page_uaccess_def)
  then show ?thesis using taro_tod_mem_stats_guards [of demo_U demo_kernel "- 8"] by simp
qed

end
