(* ===== verification/Syscall_Tracking.thy ===== *)
theory Syscall_Tracking
  imports Kernel_Tasks
begin

text \<open>
  The call counters of \<^verbatim>\<open>kernel/usac/track_syscalls.c\<close>. The global pointer
  \<^verbatim>\<open>syscall_counters\<close> is \<open>None\<close> until the first \<^verbatim>\<open>track_syscall_usage\<close> allocates the array;
  the four entries belong to read, write, open and close, whose entry points call
  \<^verbatim>\<open>track_syscall\<close> with their own number. The clock and the allocator are parameters.
\<close>

section \<open>State and operations\<close>

record timespec64 =
  tv_sec :: int
  tv_nsec :: int

record syscall_usage =
  count :: ulong
  time_last_used :: timespec64

type_synonym tracker = "syscall_usage list option"

abbreviation (input) MAX_SYS_CALLS :: nat where "MAX_SYS_CALLS \<equiv> 4"

definition zero_usage :: syscall_usage where
  "zero_usage = \<lparr>count = 0, time_last_used = \<lparr>tv_sec = 0, tv_nsec = 0\<rparr>\<rparr>"

text \<open>\<open>kzalloc_ok\<close>: the allocator returned memory; it is zeroed.\<close>

definition init_syscall_counters :: "bool \<Rightarrow> int \<times> tracker" where
  "init_syscall_counters kzalloc_ok =
     (let syscall_counters = (if kzalloc_ok then Some (replicate MAX_SYS_CALLS zero_usage) else None)
      in (if syscall_counters \<noteq> None then 0 else - ENOMEM, syscall_counters))"

text \<open>
  \<open>None\<close> is a store outside the array: the code tests the upper bound of the signed index
  only.
\<close>

definition track_syscall :: "timespec64 \<Rightarrow> int \<Rightarrow> tracker \<Rightarrow> tracker option" where
  "track_syscall now syscall_id tr =
     (case tr of
        None \<Rightarrow> Some None
      | Some cs \<Rightarrow>
          if syscall_id \<ge> int MAX_SYS_CALLS then Some (Some cs)
          else if syscall_id < 0 then None
          else (let i = nat syscall_id;
                    cs1 = cs[i := (cs ! i)\<lparr>count := count (cs ! i) + 1\<rparr>]
                in Some (Some (cs1[i := (cs1 ! i)\<lparr>time_last_used := now\<rparr>]))))"

definition enc_usage :: "syscall_usage \<Rightarrow> byte list" where
  "enc_usage u = enc_ulong (count u) @ enc_ulong (of_int (tv_sec (time_last_used u)))
     @ enc_ulong (of_int (tv_nsec (time_last_used u)))"

definition dec_count :: "byte list \<Rightarrow> ulong" where
  "dec_count bs = dec_ulong (take 8 bs)"

definition track_syscall_usage ::
  "uaccess \<Rightarrow> bool \<Rightarrow> addr \<Rightarrow> tracker \<Rightarrow> kernel \<Rightarrow> int \<times> tracker \<times> kernel" where
  "track_syscall_usage U kzalloc_ok statistics tr k =
     (let (ret, tr1) = (if tr = None then init_syscall_counters kzalloc_ok else (0, tr)) in
      if ret \<noteq> 0 then (- ENOMEM, tr1, k)
      else let (left, k1) = kcopy_to_user U statistics (concat (map enc_usage (the tr1))) k;
               resultadoCopia = sint (of_nat left :: u32)
           in if resultadoCopia \<noteq> 0 then (- EFAULT, tr1, k1) else (0, tr1, k1))"

lemma length_enc_usage [simp]: "length (enc_usage u) = 24"
  by (simp add: enc_usage_def)

lemma dec_count_enc [simp]: "dec_count (enc_usage u @ bs) = count u" "dec_count (enc_usage u) = count u"
  by (simp_all add: dec_count_def enc_usage_def)


section \<open>Counting\<close>

text \<open>The array has its four entries whenever it exists.\<close>

definition tracker_wf :: "tracker \<Rightarrow> bool" where
  "tracker_wf tr \<longleftrightarrow> (case tr of None \<Rightarrow> True | Some cs \<Rightarrow> length cs = MAX_SYS_CALLS)"

lemma init_syscall_counters_wf: "tracker_wf (snd (init_syscall_counters ok))"
  by (simp add: init_syscall_counters_def tracker_wf_def)

lemma track_syscall_wf: "tracker_wf tr \<Longrightarrow> track_syscall now i tr = Some tr' \<Longrightarrow> tracker_wf tr'"
  by (auto simp: track_syscall_def tracker_wf_def Let_def split: option.splits if_splits)

lemma track_syscall_usage_wf:
  "tracker_wf tr \<Longrightarrow> tracker_wf (fst (snd (track_syscall_usage U ok a tr k)))"
  using init_syscall_counters_wf [of ok]
  by (auto simp: track_syscall_usage_def Let_def split: prod.splits)

text \<open>A run of tracked calls: the number and the time of each, in order.\<close>

fun track_run :: "(int \<times> timespec64) list \<Rightarrow> tracker \<Rightarrow> tracker option" where
  "track_run [] tr = Some tr"
| "track_run ((i, now) # cs) tr = Option.bind (track_syscall now i tr) (track_run cs)"

text \<open>The abstraction: how often each number was counted.\<close>

definition counts :: "tracker \<Rightarrow> nat \<Rightarrow> ulong" where
  "counts tr i = (case tr of None \<Rightarrow> 0 | Some cs \<Rightarrow> if i < length cs then count (cs ! i) else 0)"

lemma counts_track_syscall:
  assumes "tracker_wf (Some cs)" and "0 \<le> i"
  shows "\<exists>cs'. track_syscall now i (Some cs) = Some (Some cs') \<and> tracker_wf (Some cs')
    \<and> counts (Some cs') = (if i < 4 then (counts (Some cs))(nat i := counts (Some cs) (nat i) + 1)
                           else counts (Some cs))"
  using assms by (auto simp: track_syscall_def tracker_wf_def counts_def Let_def fun_eq_iff nth_list_update)

lemma track_run_counts:
  assumes "tracker_wf (Some cs)" and "\<forall>(i, now) \<in> set calls. 0 \<le> i"
  shows "\<exists>cs'. track_run calls (Some cs) = Some (Some cs') \<and> tracker_wf (Some cs')
    \<and> (\<forall>j < 4. counts (Some cs') j
          = counts (Some cs) j + of_nat (count_list (map fst calls) (int j)))"
  using assms
proof (induction calls arbitrary: cs)
  case (Cons c calls)
  obtain i now where c: "c = (i, now)" by fastforce
  with Cons.prems counts_track_syscall [of cs i now] obtain cs1 where
    1: "track_syscall now i (Some cs) = Some (Some cs1)" "tracker_wf (Some cs1)"
    "counts (Some cs1) = (if i < 4 then (counts (Some cs))(nat i := counts (Some cs) (nat i) + 1)
        else counts (Some cs))" by auto
  have 0: "0 \<le> i" using Cons.prems(2) c by auto
  from Cons.IH [OF 1(2)] Cons.prems(2) obtain cs' where
    "track_run calls (Some cs1) = Some (Some cs')" "tracker_wf (Some cs')"
    "\<forall>j < 4. counts (Some cs') j = counts (Some cs1) j + of_nat (count_list (map fst calls) (int j))"
    by auto
  with 1 0 c show ?case by auto
qed auto

text \<open>
  (C25) Starting from a fresh array, a run of tracked calls with non-negative numbers never
  leaves the array and counts exactly: entry \<open>j\<close> is the number of calls \<open>j\<close> of the run,
  modulo the width of \<^verbatim>\<open>unsigned long\<close>.
\<close>

theorem track_run_counts_calls:
  assumes "init_syscall_counters True = (ret, tr)" and "\<forall>(i, now) \<in> set calls. 0 \<le> i"
  shows "ret = 0 \<and> (\<exists>cs. track_run calls tr = Some (Some cs) \<and> length cs = 4
    \<and> (\<forall>j < 4. count (cs ! j) = of_nat (count_list (map fst calls) (int j))))"
proof -
  have tr: "ret = 0" "tr = Some (replicate 4 zero_usage)"
    using assms(1) by (auto simp: init_syscall_counters_def)
  with track_run_counts [of "replicate 4 zero_usage" calls] assms(2)
  show ?thesis by (fastforce simp: tracker_wf_def counts_def zero_usage_def)
qed

theorem track_run_counts_calls_witness:
  "\<exists>cs. track_run [(0, \<lparr>tv_sec = 1, tv_nsec = 2\<rparr>), (3, \<lparr>tv_sec = 4, tv_nsec = 5\<rparr>),
     (0, \<lparr>tv_sec = 6, tv_nsec = 7\<rparr>)] (snd (init_syscall_counters True)) = Some (Some cs)
   \<and> count (cs ! 0) = 2 \<and> count (cs ! 3) = 1"
proof -
  have "init_syscall_counters True = (0, snd (init_syscall_counters True))"
    by (simp add: init_syscall_counters_def)
  from track_run_counts_calls [OF this, of "[(0, \<lparr>tv_sec = 1, tv_nsec = 2\<rparr>),
      (3, \<lparr>tv_sec = 4, tv_nsec = 5\<rparr>), (0, \<lparr>tv_sec = 6, tv_nsec = 7\<rparr>)]"]
  obtain cs where cs: "track_run [(0, \<lparr>tv_sec = 1, tv_nsec = 2\<rparr>), (3, \<lparr>tv_sec = 4, tv_nsec = 5\<rparr>),
      (0, \<lparr>tv_sec = 6, tv_nsec = 7\<rparr>)] (snd (init_syscall_counters True)) = Some (Some cs)"
    and all: "\<forall>j < 4. count (cs ! j) = of_nat (count_list [0, 3, 0] (int j))"
    by auto
  from all have "count (cs ! 0) = 2" "count (cs ! 3) = 1"
    by (force dest: spec [of _ 0], force dest: spec [of _ 3])
  with cs show ?thesis by blast
qed

text \<open>
  Until somebody calls \<^verbatim>\<open>track_syscall_usage\<close> nothing is counted, whatever is called;
  and a negative number is the only argument that makes an existing array be written out of
  bounds.
\<close>

theorem track_syscall_partial:
  "track_run calls None = Some None
   \<and> (track_syscall now i (Some cs) = None \<longleftrightarrow> i < 0)"
proof -
  have "track_run calls None = Some None"
    by (induction calls) (auto simp: track_syscall_def)
  then show ?thesis by (auto simp: track_syscall_def Let_def)
qed


section \<open>Reading the counters\<close>

text \<open>
  (C38) A successful \<^verbatim>\<open>track_syscall_usage\<close> leaves the counters unchanged, after having
  created them at zero if they did not exist, and stores the four records of 24 bytes at
  \<^verbatim>\<open>statistics\<close>: the count of entry \<open>j\<close> is read back at offset \<open>24 * j\<close>.
\<close>

theorem track_syscall_usage_roundtrip:
  assumes "uaccess_laws U" and "tracker_wf tr"
    and call: "track_syscall_usage U ok statistics tr k = (0, tr', k')"
  shows "tr' = (if tr = None then Some (replicate 4 zero_usage) else tr)
    \<and> (\<forall>j < 4. dec_count (load_bytes (umem k') (statistics + of_nat (24 * j)) 24) = counts tr' j)"
proof -
  obtain ret tr1 where i: "(if tr = None then init_syscall_counters ok else (0, tr)) = (ret, tr1)"
    by fastforce
  with call have ret: "ret = 0" and tr': "tr' = tr1"
    by (auto simp: track_syscall_usage_def Let_def split: if_splits prod.splits)
  from i ret have tr1: "tr1 = (if tr = None then Some (replicate 4 zero_usage) else tr)"
    by (auto simp: init_syscall_counters_def split: if_splits)
  then obtain cs where cs: "tr1 = Some cs" and len: "length cs = 4"
    using assms(2) by (auto simp: tracker_wf_def split: if_splits)
  let ?bs = "concat (map enc_usage cs)"
  have lbs: "length ?bs = 24 * length cs"
    by (rule length_concat_map) simp
  obtain left k1 where k1: "kcopy_to_user U statistics ?bs k = (left, k1)" by fastforce
  have "left \<le> 96"
    using uaccess_laws.copy_to_user_prefix(1) [OF assms(1)] k1 lbs len
    by (fastforce simp: kcopy_to_user_def split: prod.splits)
  then have "sint (of_nat left :: u32) = int left"
    by (simp add: signed_of_nat signed_take_bit_int_eq_self)
  with call i ret cs k1 have "left = 0" "k' = k1"
    by (auto simp: track_syscall_usage_def Let_def split: if_splits prod.splits)
  with uaccess_laws.kcopy_done [OF assms(1), of statistics ?bs k k1] k1
  have mem: "umem k' = store_bytes (umem k) statistics ?bs" by simp
  have "dec_count (load_bytes (umem k') (statistics + of_nat (24 * j)) 24) = counts tr' j"
    if j: "j < 4" for j
  proof -
    have "load_bytes (umem k') (statistics + of_nat (24 * j)) 24 = take 24 (drop (24 * j) ?bs)"
      unfolding mem by (rule load_bytes_store_sub) (use j len lbs in simp_all)
    also have "\<dots> = enc_usage (cs ! j)"
      by (rule take_drop_concat_map) (use j len in simp_all)
    finally show ?thesis using j len tr' cs by (simp add: counts_def)
  qed
  with tr1 tr' show ?thesis by blast
qed

theorem track_syscall_usage_roundtrip_witness:
  "dec_count (load_bytes (umem (snd (snd (track_syscall_usage demo_U True 4096 None demo_kernel))))
     (4096 + of_nat (24 * 2)) 24) = 0"
proof -
  let ?p = "track_syscall_usage demo_U True 4096 None demo_kernel"
  have "length (concat (map enc_usage (replicate 4 zero_usage))) = 96"
    by (subst length_concat_map [where n = 24]) simp_all
  then have run: "?p = (0, fst (snd ?p), snd (snd ?p))"
    by (simp add: track_syscall_usage_def init_syscall_counters_def kcopy_all_mapped Let_def
        del: map_replicate)
  have "tracker_wf None" by (simp add: tracker_wf_def)
  note r = track_syscall_usage_roundtrip [OF page.uaccess_laws_axioms this run]
  show ?thesis
    using conjunct1 [OF r] conjunct2 [OF r, THEN spec, of 2] by (simp add: counts_def zero_usage_def)
qed

section \<open>Concurrent calls\<close>

text \<open>
  \<^verbatim>\<open>track_syscall\<close> takes no lock. The step relation interleaves any number of callers of the same entry, each
  with the statements of the body: \<^verbatim>\<open>count++\<close> is a load and a store, then the clock is read, and the time is
  stored in two words. \<open>shared\<close> is the counter and \<open>last_used\<close> the time of the entry.
\<close>

datatype track_pc =
    Entered                \<comment> \<open>behind the test of the pointer and the number\<close>
  | Loaded ulong           \<comment> \<open>has read the counter\<close>
  | Counted                \<comment> \<open>has written the counter\<close>
  | Timed timespec64       \<comment> \<open>has read the clock\<close>
  | Sec_Stored timespec64  \<comment> \<open>has written the seconds\<close>
  | Returned

record race =
  shared :: ulong
  last_used :: timespec64
  pcs :: "nat \<Rightarrow> track_pc"

inductive race_step :: "race \<Rightarrow> race \<Rightarrow> bool" where
  load: "pcs s i = Entered \<Longrightarrow> race_step s (s\<lparr>pcs := (pcs s)(i := Loaded (shared s))\<rparr>)"
| store: "pcs s i = Loaded v \<Longrightarrow> race_step s (s\<lparr>shared := v + 1, pcs := (pcs s)(i := Counted)\<rparr>)"
| clock: "pcs s i = Counted \<Longrightarrow> race_step s (s\<lparr>pcs := (pcs s)(i := Timed now)\<rparr>)"
| store_sec: "pcs s i = Timed now \<Longrightarrow>
    race_step s (s\<lparr>last_used := (last_used s)\<lparr>tv_sec := tv_sec now\<rparr>, pcs := (pcs s)(i := Sec_Stored now)\<rparr>)"
| store_nsec: "pcs s i = Sec_Stored now \<Longrightarrow>
    race_step s (s\<lparr>last_used := (last_used s)\<lparr>tv_nsec := tv_nsec now\<rparr>, pcs := (pcs s)(i := Returned)\<rparr>)"

definition race_init :: race where
  "race_init = \<lparr>shared = 0, last_used = \<lparr>tv_sec = 0, tv_nsec = 0\<rparr>, pcs = (\<lambda>_. Entered)\<rparr>"

text \<open>The callers that have written the counter, whether or not they have returned.\<close>

fun has_counted :: "track_pc \<Rightarrow> bool" where
  "has_counted Entered = False"
| "has_counted (Loaded v) = False"
| "has_counted _ = True"

definition counted_callers :: "race \<Rightarrow> nat set" where
  "counted_callers s = {i. has_counted (pcs s i)}"

definition returned :: "race \<Rightarrow> nat set" where
  "returned s = {i. pcs s i = Returned}"

text \<open>
  No value in flight and no stored value exceeds the number of calls that have written the counter; it is
  not zero once one has, unless so many have that it may have wrapped.
\<close>

definition race_inv :: "race \<Rightarrow> bool" where
  "race_inv s \<longleftrightarrow> finite (counted_callers s) \<and> unat (shared s) \<le> card (counted_callers s)
     \<and> (\<forall>i v. pcs s i = Loaded v \<longrightarrow> unat v \<le> card (counted_callers s))
     \<and> (counted_callers s \<noteq> {} \<and> card (counted_callers s) < 2 ^ 64 \<longrightarrow> shared s \<noteq> 0)"

lemma unat_inc_le: "unat (v + 1 :: ulong) \<le> unat v + 1"
  by (simp add: unat_word_ariths)

lemma inc_zero: "(v + 1 :: ulong) = 0 \<Longrightarrow> unat v + 1 = 2 ^ 64"
proof -
  assume "v + 1 = 0"
  then have "(unat v + 1) mod 2 ^ 64 = 0" using unat_word_ariths(1) [of v 1] by simp
  moreover have "unat v < 2 ^ 64" using unsigned_less [of v] by simp
  ultimately show ?thesis by (metis Suc_eq_plus1 Suc_leI le_neq_implies_less mod_less nat.distinct(1))
qed

text \<open>A step that writes no counter.\<close>

lemma race_inv_cong:
  assumes "race_inv s" "shared t = shared s" "counted_callers t = counted_callers s"
    and "\<And>i v. pcs t i = Loaded v \<Longrightarrow> pcs s i = Loaded v \<or> v = shared s"
  shows "race_inv t"
  using assms unfolding race_inv_def by metis

lemma race_step_inv: "race_step s t \<Longrightarrow> race_inv s \<Longrightarrow> race_inv t"
proof (induction rule: race_step.induct)
  case (store s i v)
  let ?t = "s\<lparr>shared := v + 1, pcs := (pcs s)(i := Counted)\<rparr>"
  have c: "counted_callers ?t = insert i (counted_callers s)" and i: "i \<notin> counted_callers s"
    using store.hyps by (auto simp: counted_callers_def)
  with store.prems have n: "card (counted_callers ?t) = card (counted_callers s) + 1"
    by (simp add: race_inv_def)
  have v: "unat v \<le> card (counted_callers s)" using store by (auto simp: race_inv_def)
  have "v + 1 \<noteq> 0" if "card (counted_callers ?t) < 2 ^ 64" using inc_zero [of v] v n that by auto
  moreover have "unat w \<le> card (counted_callers s)" if "pcs ?t j = Loaded w" for j w
    using that store.prems by (auto simp: race_inv_def split: if_splits)
  ultimately show ?case
    unfolding race_inv_def n using store.prems c v unat_inc_le [of v] unfolding race_inv_def by force
qed (erule race_inv_cong; auto simp: counted_callers_def split: if_splits)+

lemma race_reach_inv: "race_step\<^sup>*\<^sup>* race_init s \<Longrightarrow> race_inv s"
proof (induction rule: rtranclp_induct)
  case base
  show ?case by (simp add: race_inv_def race_init_def counted_callers_def)
qed (rule race_step_inv)

text \<open>Two calls that overlap: both read the counter before either writes it.\<close>

definition race_late :: "race \<Rightarrow> nat \<Rightarrow> ulong \<Rightarrow> timespec64 \<Rightarrow> race" where
  "race_late s i v now = s\<lparr>shared := v + 1, last_used := now, pcs := (pcs s)(i := Returned)\<rparr>"

lemma four_steps: "r w x \<Longrightarrow> r x y \<Longrightarrow> r y z \<Longrightarrow> r z u \<Longrightarrow> r\<^sup>*\<^sup>* w u"
  by (meson rtranclp.rtrancl_into_rtrancl r_into_rtranclp)

lemma race_finish: "pcs s i = Loaded v \<Longrightarrow> race_step\<^sup>*\<^sup>* s (race_late s i v now)"
proof -
  assume "pcs s i = Loaded v"
  then have a: "race_step s (s\<lparr>shared := v + 1, pcs := (pcs s)(i := Counted)\<rparr>)" (is "race_step s ?a")
    by (rule race_step.store)
  have b: "race_step ?a (?a\<lparr>pcs := (pcs ?a)(i := Timed now)\<rparr>)" (is "race_step ?a ?b")
    by (rule race_step.clock) simp
  have c: "race_step ?b (?b\<lparr>last_used := (last_used ?b)\<lparr>tv_sec := tv_sec now\<rparr>, pcs := (pcs ?b)(i := Sec_Stored now)\<rparr>)" (is "race_step ?b ?c")
    by (rule race_step.store_sec) simp
  have d: "race_step ?c (?c\<lparr>last_used := (last_used ?c)\<lparr>tv_nsec := tv_nsec now\<rparr>, pcs := (pcs ?c)(i := Returned)\<rparr>)" (is "race_step ?c ?d")
    by (rule race_step.store_nsec) simp
  have "?d = race_late s i v now" by (simp add: race_late_def)
  moreover have "race_step\<^sup>*\<^sup>* s ?d" by (rule four_steps [of race_step, OF a b c d])
  ultimately show ?thesis by simp
qed

definition race_both :: race where
  "race_both = race_init\<lparr>pcs := (pcs race_init)(0 := Loaded 0, 1 := Loaded 0)\<rparr>"

lemma race_both_reach: "race_step\<^sup>*\<^sup>* race_init race_both"
proof -
  let ?s = "race_init\<lparr>pcs := (pcs race_init)(0 := Loaded 0)\<rparr>"
  have "race_step race_init ?s" using race_step.load [of race_init 0] by (simp add: race_init_def)
  moreover have "race_step ?s race_both" using race_step.load [of ?s 1] by (simp add: race_init_def race_both_def)
  ultimately show ?thesis by (rule converse_rtranclp_into_rtranclp [OF _ r_into_rtranclp])
qed

text \<open>
  (C39) Whatever the interleaving of calls for one entry, the counter never exceeds the number of calls that
  have written it (those that returned and those about to store the time), and is not zero once one has,
  as long as there are fewer than \<open>2 ^ 64\<close> of them. But it may fall short of the number of calls: two overlapping
  calls that have both returned can leave it at 1.
\<close>

theorem concurrent_count_bound:
  "(\<forall>s. race_step\<^sup>*\<^sup>* race_init s \<longrightarrow> finite (counted_callers s) \<and> unat (shared s) \<le> card (counted_callers s)
      \<and> (counted_callers s \<noteq> {} \<and> card (counted_callers s) < 2 ^ 64 \<longrightarrow> shared s \<noteq> 0))
   \<and> (\<exists>s. race_step\<^sup>*\<^sup>* race_init s \<and> counted_callers s = returned s \<and> card (returned s) = 2 \<and> shared s = 1)"
proof (intro conjI)
  show "\<forall>s. race_step\<^sup>*\<^sup>* race_init s \<longrightarrow> finite (counted_callers s) \<and> unat (shared s) \<le> card (counted_callers s)
      \<and> (counted_callers s \<noteq> {} \<and> card (counted_callers s) < 2 ^ 64 \<longrightarrow> shared s \<noteq> 0)"
    using race_reach_inv by (auto simp: race_inv_def)
  let ?z = "\<lparr>tv_sec = 0, tv_nsec = 0\<rparr>"
  let ?s = "race_late (race_late race_both 0 0 ?z) 1 0 ?z"
  have "race_step\<^sup>*\<^sup>* race_both (race_late race_both 0 0 ?z)" by (rule race_finish) (simp add: race_both_def)
  moreover have "race_step\<^sup>*\<^sup>* (race_late race_both 0 0 ?z) ?s" by (rule race_finish) (simp add: race_late_def race_both_def)
  ultimately have "race_step\<^sup>*\<^sup>* race_init ?s" using race_both_reach by (metis (no_types) rtranclp_trans)
  moreover have "returned ?s = {0, 1}" "counted_callers ?s = {0, 1}" "shared ?s = 1"
    by (auto simp: returned_def counted_callers_def race_late_def race_both_def race_init_def split: if_splits)
  ultimately show "\<exists>s. race_step\<^sup>*\<^sup>* race_init s \<and> counted_callers s = returned s \<and> card (returned s) = 2 \<and> shared s = 1"
    by (intro exI [of _ ?s]) simp
qed

theorem concurrent_count_bound_witness:
  "\<exists>s. race_step\<^sup>*\<^sup>* race_init s \<and> counted_callers s = {0} \<and> pcs s 1 = Loaded 0 \<and> unat (shared s) \<le> card (counted_callers s) \<and> shared s \<noteq> 0"
proof -
  let ?s = "race_late race_both 0 0 \<lparr>tv_sec = 0, tv_nsec = 0\<rparr>"
  have "race_step\<^sup>*\<^sup>* race_both ?s" by (rule race_finish) (simp add: race_both_def)
  then have "race_step\<^sup>*\<^sup>* race_init ?s" using race_both_reach by (metis (no_types) rtranclp_trans)
  moreover have "counted_callers ?s = {0}" "pcs ?s 1 = Loaded 0"
    by (auto simp: counted_callers_def race_late_def race_both_def race_init_def split: if_splits)
  ultimately show ?thesis
    using conjunct1 [OF concurrent_count_bound, THEN spec, of ?s] by (intro exI [of _ ?s]) simp
qed

end
