(* ===== verification/Io_Throttle.thy ===== *)
theory Io_Throttle
  imports Kernel_Tasks
begin

text \<open>
  \<^verbatim>\<open>get_io_throttle\<close> (\<^verbatim>\<open>kernel/usac/io_throttle.c\<close>): the I/O accounting of one process,
  copied to user memory.
\<close>

record io_stats =
  bytes_read :: ulong
  bytes_written :: ulong
  read_syscalls :: ulong
  write_syscalls :: ulong
  io_wait_time :: ulong

definition enc_io_stats :: "io_stats \<Rightarrow> byte list" where
  "enc_io_stats s = enc_ulong (bytes_read s) @ enc_ulong (bytes_written s)
     @ enc_ulong (read_syscalls s) @ enc_ulong (write_syscalls s) @ enc_ulong (io_wait_time s)"

definition dec_io_stats :: "byte list \<Rightarrow> io_stats" where
  "dec_io_stats bs = \<lparr>bytes_read = dec_ulong (take 8 bs),
     bytes_written = dec_ulong (take 8 (drop 8 bs)), read_syscalls = dec_ulong (take 8 (drop 16 bs)),
     write_syscalls = dec_ulong (take 8 (drop 24 bs)), io_wait_time = dec_ulong (take 8 (drop 32 bs))\<rparr>"

lemma length_enc_io_stats [simp]: "length (enc_io_stats s) = 40"
  by (simp add: enc_io_stats_def)

lemma dec_enc_io_stats [simp]: "dec_io_stats (enc_io_stats s) = s"
  by (simp add: enc_io_stats_def dec_io_stats_def)

definition io_stats_of :: "task_struct \<Rightarrow> io_stats" where
  "io_stats_of task = \<lparr>bytes_read = io_read_bytes (ioac task), bytes_written = io_write_bytes (ioac task),
     read_syscalls = io_syscr (ioac task), write_syscalls = io_syscw (ioac task), io_wait_time = 0\<rparr>"

definition get_io_throttle :: "uaccess \<Rightarrow> int \<Rightarrow> addr \<Rightarrow> kernel \<Rightarrow> int \<times> kernel" where
  "get_io_throttle U pid stats k =
     (let k1 = rcu_read_lock k in
      case vpids k1 pid of
        None \<Rightarrow> (- ESRCH, rcu_read_unlock k1)
      | Some t \<Rightarrow>
          (let io_stat = io_stats_of (tasks k1 t);
               (left, k2) = kcopy_to_user U stats (enc_io_stats io_stat) (rcu_read_unlock k1)
           in if left \<noteq> 0 then (- EFAULT, k2) else (0, k2)))"

text \<open>
  \<^verbatim>\<open>get_io_throttle\<close> fails with \<^verbatim>\<open>-ESRCH\<close> exactly for unknown processes, fails with
  \<^verbatim>\<open>-EFAULT\<close> or stores the process's accounting record at \<^verbatim>\<open>stats\<close> otherwise, changes
  nothing but those 40 bytes, and releases the RCU lock on every path.
\<close>

theorem get_io_throttle_correct:
  assumes "uaccess_laws U" and call: "get_io_throttle U pid stats k = (r, k')"
  shows "(case vpids k pid of
      None \<Rightarrow> r = - ESRCH \<and> k' = k
    | Some t \<Rightarrow> (r = - EFAULT \<or>
        r = 0 \<and> dec_io_stats (load_bytes (umem k') stats 40) = io_stats_of (tasks k t))
        \<and> (\<forall>x. 40 \<le> unat (x - stats) \<longrightarrow> umem k' x = umem k x))
    \<and> k' = k\<lparr>umem := umem k'\<rparr>"
proof (cases "vpids k pid")
  case None
  with call show ?thesis by (simp add: get_io_throttle_def Let_def rcu_read_lock_def rcu_read_unlock_def)
next
  case (Some t)
  obtain left k2 where copy: "kcopy_to_user U stats (enc_io_stats (io_stats_of (tasks k t))) k = (left, k2)"
    by fastforce
  with Some call have r: "r = (if left \<noteq> 0 then - EFAULT else 0)" "k' = k2"
    by (auto simp: get_io_throttle_def Let_def rcu_read_lock_def rcu_read_unlock_def split: if_splits)
  moreover have "load_bytes (umem k2) stats 40 = enc_io_stats (io_stats_of (tasks k t))" if "left = 0"
    using uaccess_laws.kcopy_done [OF assms(1) copy [unfolded that]]
      load_store_bytes [of "enc_io_stats (io_stats_of (tasks k t))"] by simp
  ultimately show ?thesis
    using Some uaccess_laws.kcopy_outside [OF assms(1) copy] kcopy_frame [OF copy] by auto
qed

theorem get_io_throttle_correct_witness:
  "dec_io_stats (load_bytes (umem (snd (get_io_throttle demo_U 42 4096 demo_kernel))) 4096 40)
   = \<lparr>bytes_read = 11, bytes_written = 22, read_syscalls = 33, write_syscalls = 44, io_wait_time = 0\<rparr>"
proof -
  let ?p = "get_io_throttle demo_U 42 4096 demo_kernel"
  have "fst ?p = 0"
    by (simp add: get_io_throttle_def demo_kernel_def Let_def kcopy_all_mapped lock_defs)
  then have "?p = (0, snd ?p)" by (simp add: prod_eq_iff)
  from get_io_throttle_correct [OF page.uaccess_laws_axioms this]
  show ?thesis by (simp add: demo_kernel_def demo_task_def io_stats_of_def)
qed

end
