(* ===== verification/Sys_Info.thy ===== *)
theory Sys_Info
  imports Kernel_Tasks
begin

text \<open>
  \<^verbatim>\<open>struct sysinfo\<close> and the calls that report it (\<^verbatim>\<open>kernel/sys.c\<close>: \<^verbatim>\<open>do_sysinfo\<close>, \<^verbatim>\<open>sysinfo\<close>
  and its 32-bit version). The memory-management routines \<^verbatim>\<open>si_meminfo\<close> and
  \<^verbatim>\<open>si_swapinfo\<close>, the clock and the load average lie outside the repository and are
  parameters.
\<close>

section \<open>The structure\<close>

record sysinfo =
  uptime :: int
  loads :: "ulong \<times> ulong \<times> ulong"
  totalram :: ulong
  freeram :: ulong
  sharedram :: ulong
  bufferram :: ulong
  totalswap :: ulong
  freeswap :: ulong
  procs :: "16 word"
  totalhigh :: ulong
  freehigh :: ulong
  mem_unit :: u32

record sysinfo_env =
  boottime :: "int \<times> int"
  avenrun :: "ulong \<times> ulong \<times> ulong"
  nr_threads :: int
  si_meminfo :: "sysinfo \<Rightarrow> sysinfo"
  si_swapinfo :: "sysinfo \<Rightarrow> sysinfo"

definition zero_sysinfo :: sysinfo where
  "zero_sysinfo = \<lparr>uptime = 0, loads = (0, 0, 0), totalram = 0, freeram = 0, sharedram = 0,
     bufferram = 0, totalswap = 0, freeswap = 0, procs = 0, totalhigh = 0, freehigh = 0,
     mem_unit = 0\<rparr>"

text \<open>Apply a shift to the eight memory values.\<close>

definition map_mem :: "(ulong \<Rightarrow> ulong) \<Rightarrow> sysinfo \<Rightarrow> sysinfo" where
  "map_mem f s = s\<lparr>totalram := f (totalram s), freeram := f (freeram s),
     sharedram := f (sharedram s), bufferram := f (bufferram s), totalswap := f (totalswap s),
     freeswap := f (freeswap s), totalhigh := f (totalhigh s), freehigh := f (freehigh s)\<rparr>"


section \<open>do\_sysinfo\<close>

text \<open>
  The loop that looks whether the total survives a multiplication by the unit: \<open>None\<close> is the
  jump to \<^verbatim>\<open>out\<close>, \<open>Some n\<close> the final \<^verbatim>\<open>bitcount\<close>.
\<close>

function unit_loop :: "u32 \<Rightarrow> ulong \<Rightarrow> nat \<Rightarrow> nat option" where
  "unit_loop unit mem_total bitcount =
     (if unit > 1 then
        (let sav_total = mem_total; mem_total' = push_bit 1 mem_total in
         if mem_total' < sav_total then None
         else unit_loop (drop_bit 1 unit) mem_total' (bitcount + 1))
      else Some bitcount)"
  by pat_completeness auto
termination
  by (relation "measure (\<lambda>(unit, _, _). unat unit)")
    (auto simp: drop_bit_eq_div unat_div word_less_nat_alt)

declare unit_loop.simps [simp del]

definition do_sysinfo :: "sysinfo_env \<Rightarrow> sysinfo" where
  "do_sysinfo E =
     (let (sec, nsec) = boottime E;
          info = zero_sysinfo\<lparr>uptime := sec + (if nsec \<noteq> 0 then 1 else 0),
                   loads := avenrun E, procs := of_int (nr_threads E)\<rparr>;
          info = si_swapinfo E (si_meminfo E info);
          mem_total = totalram info + totalswap info
      in if mem_total < totalram info \<or> mem_total < totalswap info then info
         else case unit_loop (mem_unit info) mem_total 0 of
                None \<Rightarrow> info
              | Some bitcount \<Rightarrow> map_mem (push_bit bitcount) (info\<lparr>mem_unit := 1\<rparr>))"

definition enc_sysinfo :: "sysinfo \<Rightarrow> byte list" where
  "enc_sysinfo s = (case loads s of (l0, l1, l2) \<Rightarrow>
     enc_ulong (of_int (uptime s)) @ enc_ulong l0 @ enc_ulong l1 @ enc_ulong l2
     @ enc_ulong (totalram s) @ enc_ulong (freeram s) @ enc_ulong (sharedram s)
     @ enc_ulong (bufferram s) @ enc_ulong (totalswap s) @ enc_ulong (freeswap s)
     @ le_bytes 2 (unat (procs s)) @ replicate 6 0
     @ enc_ulong (totalhigh s) @ enc_ulong (freehigh s) @ le_bytes 4 (unat (mem_unit s))
     @ replicate 4 0)"

definition sys_sysinfo :: "uaccess \<Rightarrow> sysinfo_env \<Rightarrow> addr \<Rightarrow> kernel \<Rightarrow> int \<times> kernel" where
  "sys_sysinfo U E info k =
     (case kcopy_to_user U info (enc_sysinfo (do_sysinfo E)) k of
        (left, k1) \<Rightarrow> if left \<noteq> 0 then (- EFAULT, k1) else (0, k1))"

lemma length_enc_sysinfo [simp]: "length (enc_sysinfo s) = 112"
  by (simp add: enc_sysinfo_def split: prod.split)


section \<open>The 32-bit version\<close>

text \<open>
  The loop that raises the unit to a page. It would not end for a unit of 0, so it is a
  partial function.
\<close>

partial_function (option) page_unit_loop :: "u32 \<Rightarrow> nat \<Rightarrow> (u32 \<times> nat) option" where
  "page_unit_loop unit bitcount =
     (if unit < 4096 then page_unit_loop (push_bit 1 unit) (bitcount + 1)
      else Some (unit, bitcount))"

definition compat_scale :: "sysinfo \<Rightarrow> sysinfo option" where
  "compat_scale s =
     (if drop_bit 32 (totalram s) \<noteq> 0 \<or> drop_bit 32 (totalswap s) \<noteq> 0 then
        map_option (\<lambda>(unit, bitcount). map_mem (drop_bit bitcount) (s\<lparr>mem_unit := unit\<rparr>))
          (page_unit_loop (mem_unit s) 0)
      else Some s)"

definition enc_u32 :: "ulong \<Rightarrow> byte list" where
  "enc_u32 w = le_bytes 4 (unat w mod 2 ^ 32)"

definition enc_compat_sysinfo :: "sysinfo \<Rightarrow> byte list" where
  "enc_compat_sysinfo s = (case loads s of (l0, l1, l2) \<Rightarrow>
     enc_int (uptime s) @ enc_u32 l0 @ enc_u32 l1 @ enc_u32 l2
     @ enc_u32 (totalram s) @ enc_u32 (freeram s) @ enc_u32 (sharedram s)
     @ enc_u32 (bufferram s) @ enc_u32 (totalswap s) @ enc_u32 (freeswap s)
     @ le_bytes 2 (unat (procs s)) @ replicate 2 0
     @ enc_u32 (totalhigh s) @ enc_u32 (freehigh s) @ le_bytes 4 (unat (mem_unit s))
     @ replicate 8 0)"

definition compat_sys_sysinfo ::
  "uaccess \<Rightarrow> sysinfo_env \<Rightarrow> addr \<Rightarrow> kernel \<Rightarrow> (int \<times> kernel) option" where
  "compat_sys_sysinfo U E info k =
     map_option (\<lambda>s. case kcopy_to_user U info (enc_compat_sysinfo s) k of
          (left, k1) \<Rightarrow> if left \<noteq> 0 then (- EFAULT, k1) else (0, k1))
       (compat_scale (do_sysinfo E))"

section \<open>Scaling up\<close>

lemma push_bit_1_wraps: "push_bit 1 (w :: ulong) < w \<longleftrightarrow> 2 ^ 63 \<le> unat w"
proof -
  have "(2 * unat w) mod 2 ^ 64 = (if unat w < 2 ^ 63 then 2 * unat w else 2 * unat w - 2 ^ 64)"
    using unat_word64_lt [of w] by (auto simp: le_mod_geq)
  then have "unat (push_bit 1 w) = (if unat w < 2 ^ 63 then 2 * unat w else 2 * unat w - 2 ^ 64)"
    by (simp only: unat_push_bit_64 power_one_right mult.commute)
  then show ?thesis
    using unat_word64_lt [of w] by (auto simp only: word_less_nat_alt) (auto split: if_splits)
qed

lemma unit_loop_power:
  "unat unit = 2 ^ b \<Longrightarrow>
   unit_loop unit mt c = (if unat mt * 2 ^ b < 2 ^ 64 then Some (c + b) else None)"
proof (induction b arbitrary: unit mt c)
  case 0
  then have "unit = 1" by (simp add: word_unat_eq_iff)
  then show ?case by (subst unit_loop.simps) (simp add: unat_word64_lt)
next
  case (Suc b)
  have "2 \<le> unat unit" using Suc.prems by simp
  then have 1: "unit > 1" by (simp add: word_less_nat_alt)
  have half: "unat (drop_bit 1 unit) = 2 ^ b"
    using Suc.prems by (simp add: drop_bit_eq_div unat_div)
  show ?case
  proof (cases "2 ^ 63 \<le> unat mt")
    case True
    then have "2 ^ 63 * 2 ^ Suc b \<le> unat mt * 2 ^ Suc b" by (intro mult_right_mono) simp_all
    moreover have "(2::nat) ^ 64 \<le> 2 ^ 63 * 2 ^ Suc b" by simp
    ultimately have "\<not> unat mt * 2 ^ Suc b < 2 ^ 64" by linarith
    with 1 True show ?thesis
      by (subst unit_loop.simps) (simp only: push_bit_1_wraps Let_def if_True if_False)
  next
    case False
    then have "unat (push_bit 1 mt) = 2 * unat mt"
      by (simp only: unat_push_bit_64 power_one_right) simp
    with Suc.IH [OF half, of "push_bit 1 mt" "c + 1"] 1 False show ?thesis
      by (subst unit_loop.simps) (simp only: push_bit_1_wraps Let_def if_True if_False, simp add: ac_simps)
  qed
qed

definition mem_fields :: "(sysinfo \<Rightarrow> ulong) list" where
  "mem_fields = [totalram, freeram, sharedram, bufferram, totalswap, freeswap, totalhigh, freehigh]"

lemma map_mem_fields:
  "f \<in> set mem_fields \<Longrightarrow> f (map_mem g (s\<lparr>mem_unit := u\<rparr>)) = g (f s)"
  by (auto simp: mem_fields_def map_mem_def)

lemma map_mem_unit [simp]: "mem_unit (map_mem g s) = mem_unit s"
  by (simp add: map_mem_def)

text \<open>What \<^verbatim>\<open>si_meminfo\<close> and \<^verbatim>\<open>si_swapinfo\<close> left in the struct when the totals are formed.\<close>

definition raw_info :: "sysinfo_env \<Rightarrow> sysinfo" where
  "raw_info E = si_swapinfo E (si_meminfo E (zero_sysinfo\<lparr>
     uptime := fst (boottime E) + (if snd (boottime E) \<noteq> 0 then 1 else 0),
     loads := avenrun E, procs := of_int (nr_threads E)\<rparr>))"

lemma do_sysinfo_raw:
  "do_sysinfo E = (let info = raw_info E; mem_total = totalram info + totalswap info in
     if mem_total < totalram info \<or> mem_total < totalswap info then info
     else case unit_loop (mem_unit info) mem_total 0 of
        None \<Rightarrow> info
      | Some bitcount \<Rightarrow> map_mem (push_bit bitcount) (info\<lparr>mem_unit := 1\<rparr>))"
  by (cases "boottime E") (simp add: do_sysinfo_def raw_info_def Let_def)

lemma add_wraps_64: "(a :: ulong) + b < a \<or> a + b < b \<longleftrightarrow> 2 ^ 64 \<le> unat a + unat b"
  using unat_word64_lt [of a] unat_word64_lt [of b]
  by (auto simp: word_less_nat_alt unat_word_ariths mod_if)

text \<open>
  (C26) For a unit that is a power of two and memory values within the sum of RAM and swap,
  \<^verbatim>\<open>do_sysinfo\<close> preserves every memory amount in bytes (value times unit), and rescales to
  a unit of one byte exactly when that sum in bytes fits in 64 bits.
\<close>

theorem do_sysinfo_preserves_bytes:
  assumes unit: "unat (mem_unit (raw_info E)) = 2 ^ b"
    and within: "\<forall>f \<in> set mem_fields.
      unat (f (raw_info E)) \<le> unat (totalram (raw_info E)) + unat (totalswap (raw_info E))"
  shows "(\<forall>f \<in> set mem_fields. unat (f (do_sysinfo E)) * unat (mem_unit (do_sysinfo E))
            = unat (f (raw_info E)) * unat (mem_unit (raw_info E)))
    \<and> (mem_unit (do_sysinfo E) = 1 \<longleftrightarrow> b = 0
        \<or> (unat (totalram (raw_info E)) + unat (totalswap (raw_info E))) * 2 ^ b < 2 ^ 64)"
proof -
  let ?i = "raw_info E"
  let ?sum = "unat (totalram ?i) + unat (totalswap ?i)"
  have one: "mem_unit ?i = 1 \<longleftrightarrow> b = 0"
    using unit by (simp add: word_unat_eq_iff)
  show ?thesis
  proof (cases "?sum * 2 ^ b < 2 ^ 64")
    case True
    have "?sum \<le> ?sum * 2 ^ b" by simp
    from this True have "?sum < 2 ^ 64" by (rule le_less_trans)
    then have no: "\<not> (totalram ?i + totalswap ?i < totalram ?i \<or> totalram ?i + totalswap ?i < totalswap ?i)"
      and tot: "unat (totalram ?i + totalswap ?i) = ?sum"
      by (simp_all only: add_wraps_64 unat_add_64 not_le)
    have s: "do_sysinfo E = map_mem (push_bit b) (?i\<lparr>mem_unit := 1\<rparr>)"
      using no True unit_loop_power [OF unit, of "totalram ?i + totalswap ?i" 0]
      by (simp only: do_sysinfo_raw Let_def tot if_False option.case if_True add_0)
    have "unat (push_bit b (f ?i)) = unat (f ?i) * 2 ^ b" if "f \<in> set mem_fields" for f
    proof -
      have "unat (f ?i) * 2 ^ b \<le> ?sum * 2 ^ b"
        using within that by (intro mult_right_mono) auto
      from this True have "unat (f ?i) * 2 ^ b < 2 ^ 64" by (rule le_less_trans)
      then show ?thesis by (simp only: unat_push_bit_64 mod_less)
    qed
    with True show ?thesis by (simp add: s map_mem_fields unit)
  next
    case False
    have "do_sysinfo E = ?i"
    proof (cases "2 ^ 64 \<le> ?sum")
      case True
      then show ?thesis by (simp only: do_sysinfo_raw Let_def add_wraps_64 if_True)
    next
      case 2: False
      then have tot: "unat (totalram ?i + totalswap ?i) = ?sum" by (intro unat_add_64) simp
      show ?thesis
        using 2 False unit_loop_power [OF unit, of "totalram ?i + totalswap ?i" 0]
        by (simp only: do_sysinfo_raw Let_def add_wraps_64 tot if_False option.case)
    qed
    with False one show ?thesis by simp
  qed
qed

definition demo_sysinfo_env :: sysinfo_env where
  "demo_sysinfo_env = \<lparr>boottime = (100, 5), avenrun = (1, 2, 3), nr_threads = 77,
     si_meminfo = (\<lambda>s. s\<lparr>totalram := 1000, freeram := 400, sharedram := 20, bufferram := 30,
        totalhigh := 0, freehigh := 0, mem_unit := 4096\<rparr>),
     si_swapinfo = (\<lambda>s. s\<lparr>totalswap := 500, freeswap := 450\<rparr>)\<rparr>"

theorem do_sysinfo_preserves_bytes_witness:
  "mem_unit (do_sysinfo demo_sysinfo_env) = 1
   \<and> unat (freeram (do_sysinfo demo_sysinfo_env)) = 400 * 4096"
proof -
  have "unat (mem_unit (raw_info demo_sysinfo_env)) = 2 ^ 12"
    and "\<forall>f \<in> set mem_fields. unat (f (raw_info demo_sysinfo_env))
      \<le> unat (totalram (raw_info demo_sysinfo_env)) + unat (totalswap (raw_info demo_sysinfo_env))"
    by (simp_all add: raw_info_def demo_sysinfo_env_def mem_fields_def)
  note r = do_sysinfo_preserves_bytes [OF this]
  have "mem_unit (do_sysinfo demo_sysinfo_env) = 1"
    using conjunct2 [OF r] by (simp add: raw_info_def demo_sysinfo_env_def)
  moreover have "freeram \<in> set mem_fields" by (simp add: mem_fields_def)
  ultimately show ?thesis
    using conjunct1 [OF r] by (force simp: raw_info_def demo_sysinfo_env_def)
qed


section \<open>Scaling down\<close>

lemma page_unit_loop_returns:
  "0 < unat unit \<Longrightarrow> \<exists>u b. page_unit_loop unit c = Some (u, c + b) \<and> 4096 \<le> unat u
     \<and> unat u = unat unit * 2 ^ b"
proof (induction "4096 - unat unit" arbitrary: unit c rule: less_induct)
  case less
  show ?case
  proof (cases "unit < 4096")
    case True
    then have lt: "unat unit < 4096" by (simp add: word_less_nat_alt)
    then have dbl: "unat (push_bit 1 unit) = 2 * unat unit"
      by (simp add: unat_word_ariths)
    have "4096 - unat (push_bit 1 unit) < 4096 - unat unit"
      unfolding dbl using lt less.prems by arith
    from less.hyps [OF this, of "c + 1"] less.prems dbl
    obtain u b where "page_unit_loop (push_bit 1 unit) (c + 1) = Some (u, c + 1 + b)"
      "4096 \<le> unat u" "unat u = 2 * unat unit * 2 ^ b" by auto
    with True show ?thesis
      by (intro exI [of _ u] exI [of _ "Suc b"]) (simp add: page_unit_loop.simps [of unit])
  next
    case False
    then have "4096 \<le> unat unit" by (simp add: not_less word_le_nat_alt)
    with False show ?thesis
      by (intro exI [of _ unit] exI [of _ 0]) (simp add: page_unit_loop.simps [of unit])
  qed
qed

text \<open>
  The 32-bit \<^verbatim>\<open>sysinfo\<close> terminates for every non-zero unit, and when it scales, each
  value is divided by the factor the unit is multiplied with, so that an amount in bytes
  is rounded down by less than one new unit.
\<close>

theorem compat_scale_returns:
  assumes "0 < unat (mem_unit s)"
  shows "\<exists>s'. compat_scale s = Some s' \<and> (\<forall>f \<in> set mem_fields.
     unat (f s') * unat (mem_unit s') \<le> unat (f s) * unat (mem_unit s)
     \<and> unat (f s) * unat (mem_unit s) < (unat (f s') + 1) * unat (mem_unit s'))"
proof (cases "drop_bit 32 (totalram s) \<noteq> 0 \<or> drop_bit 32 (totalswap s) \<noteq> 0")
  case True
  from page_unit_loop_returns [OF assms, of 0] obtain u b where
    u: "page_unit_loop (mem_unit s) 0 = Some (u, b)" "unat u = unat (mem_unit s) * 2 ^ b"
    by auto
  let ?s' = "map_mem (drop_bit b) (s\<lparr>mem_unit := u\<rparr>)"
  have "compat_scale s = Some ?s'" using True u(1) by (simp add: compat_scale_def)
  moreover have "unat (f ?s') * unat u \<le> unat (f s) * unat (mem_unit s)
      \<and> unat (f s) * unat (mem_unit s) < (unat (f ?s') + 1) * unat u" if "f \<in> set mem_fields" for f
  proof -
    have v: "unat (f ?s') = unat (f s) div 2 ^ b"
      using that by (simp add: map_mem_fields unat_drop_bit_64)
    have lo: "unat (f s) div 2 ^ b * 2 ^ b \<le> unat (f s)"
      and hi: "unat (f s) < (unat (f s) div 2 ^ b + 1) * 2 ^ b"
      by (simp_all add: dividend_less_div_times)
    from mult_le_mono1 [OF lo, of "unat (mem_unit s)"] mult_less_mono1 [OF hi assms]
    show ?thesis unfolding v u(2) by (simp only: ac_simps simp_thms)
  qed
  ultimately show ?thesis by (intro exI [of _ ?s']) simp
next
  case False
  then show ?thesis using assms by (intro exI [of _ s]) (simp add: compat_scale_def)
qed

theorem compat_scale_returns_witness:
  "compat_scale (zero_sysinfo\<lparr>totalram := 8589934592, mem_unit := 1\<rparr>) \<noteq> None"
  using compat_scale_returns [of "zero_sysinfo\<lparr>totalram := 8589934592, mem_unit := 1\<rparr>"] by auto

end
