(* ===== verification/Memory_Snapshot.thy ===== *)
theory Memory_Snapshot
  imports Sys_Info
begin

text \<open>
  \<^verbatim>\<open>capture_memory_snapshot\<close> (\<^verbatim>\<open>kernel/usac/memory_snapshot.c\<close>): sizes of RAM and swap in
  KiB and the lengths of the page lists. The zone counters and the size of the swap cache
  are parameters, as are the two routines that fill \<^verbatim>\<open>struct sysinfo\<close>; \<open>si0\<close> is the
  uninitialised struct they start from.
\<close>

record mem_snapshot =
  total_memory :: ulong
  free_memory :: ulong
  active_pages :: ulong
  inactive_pages :: ulong
  swap_total :: ulong
  swap_cached :: ulong
  swap_used :: ulong

datatype node_stat_item = NR_INACTIVE_ANON | NR_ACTIVE_ANON | NR_INACTIVE_FILE | NR_ACTIVE_FILE

record snapshot_env =
  snap_sysinfo :: sysinfo_env
  global_node_page_state :: "node_stat_item \<Rightarrow> ulong"
  total_swapcache_pages :: ulong

definition enc_snapshot :: "mem_snapshot \<Rightarrow> byte list" where
  "enc_snapshot s = enc_ulong (total_memory s) @ enc_ulong (free_memory s)
     @ enc_ulong (active_pages s) @ enc_ulong (inactive_pages s) @ enc_ulong (swap_total s)
     @ enc_ulong (swap_cached s) @ enc_ulong (swap_used s)"

definition dec_snapshot :: "byte list \<Rightarrow> mem_snapshot" where
  "dec_snapshot bs = \<lparr>total_memory = dec_ulong (take 8 bs),
     free_memory = dec_ulong (take 8 (drop 8 bs)), active_pages = dec_ulong (take 8 (drop 16 bs)),
     inactive_pages = dec_ulong (take 8 (drop 24 bs)), swap_total = dec_ulong (take 8 (drop 32 bs)),
     swap_cached = dec_ulong (take 8 (drop 40 bs)), swap_used = dec_ulong (take 8 (drop 48 bs))\<rparr>"

lemma length_enc_snapshot [simp]: "length (enc_snapshot s) = 56"
  by (simp add: enc_snapshot_def)

lemma dec_enc_snapshot [simp]: "dec_snapshot (enc_snapshot s) = s"
  by (simp add: enc_snapshot_def dec_snapshot_def)

definition snapshot_of :: "snapshot_env \<Rightarrow> sysinfo \<Rightarrow> mem_snapshot" where
  "snapshot_of E si0 =
     (let si = si_swapinfo (snap_sysinfo E) (si_meminfo (snap_sysinfo E) si0);
          state = global_node_page_state E
      in \<lparr>total_memory = push_bit (PAGE_SHIFT - 10) (totalram si),
          free_memory = push_bit (PAGE_SHIFT - 10) (freeram si),
          active_pages = state NR_ACTIVE_ANON + state NR_ACTIVE_FILE,
          inactive_pages = state NR_INACTIVE_ANON + state NR_INACTIVE_FILE,
          swap_total = push_bit (PAGE_SHIFT - 10) (totalswap si),
          swap_cached = push_bit (PAGE_SHIFT - 10) (total_swapcache_pages E),
          swap_used = push_bit (PAGE_SHIFT - 10) (totalswap si - freeswap si)\<rparr>)"

definition capture_memory_snapshot ::
  "uaccess \<Rightarrow> snapshot_env \<Rightarrow> sysinfo \<Rightarrow> addr \<Rightarrow> kernel \<Rightarrow> int \<times> kernel" where
  "capture_memory_snapshot U E si0 snapshot k =
     (case kcopy_to_user U snapshot (enc_snapshot (snapshot_of E si0)) k of
        (left, k1) \<Rightarrow> if left \<noteq> 0 then (- EFAULT, k1) else (0, k1))"

lemma kib_of_pages: "unat (p :: ulong) < 2 ^ 62 \<Longrightarrow> unat (push_bit 2 p) = 4 * unat p"
  by (simp only: unat_push_bit_64) simp

text \<open>
  A successful \<^verbatim>\<open>capture_memory_snapshot\<close> stores a snapshot whose sizes are the page
  counts in KiB, provided they are below \<open>2 ^ 62\<close> pages; used swap is the part of the swap
  that is not free, and never more than all of it.
\<close>

theorem capture_memory_snapshot_correct:
  assumes "uaccess_laws U" and call: "capture_memory_snapshot U E si0 a k = (0, k')"
    and si: "si = si_swapinfo (snap_sysinfo E) (si_meminfo (snap_sysinfo E) si0)"
    and small: "unat (totalram si) < 2 ^ 62" "unat (freeram si) < 2 ^ 62" "unat (totalswap si) < 2 ^ 62"
    and free: "freeswap si \<le> totalswap si"
    and s: "s = dec_snapshot (load_bytes (umem k') a 56)"
  shows "unat (total_memory s) = 4 * unat (totalram si) \<and> unat (free_memory s) = 4 * unat (freeram si)
    \<and> unat (swap_total s) = 4 * unat (totalswap si)
    \<and> unat (swap_used s) = 4 * (unat (totalswap si) - unat (freeswap si))
    \<and> swap_used s \<le> swap_total s
    \<and> active_pages s = global_node_page_state E NR_ACTIVE_ANON + global_node_page_state E NR_ACTIVE_FILE"
proof -
  obtain left k1 where copy: "kcopy_to_user U a (enc_snapshot (snapshot_of E si0)) k = (left, k1)"
    by fastforce
  with call have "left = 0" "k' = k1"
    by (auto simp: capture_memory_snapshot_def split: if_splits)
  with uaccess_laws.kcopy_done [OF assms(1), of a "enc_snapshot (snapshot_of E si0)" k k1] copy
    load_store_bytes [of "enc_snapshot (snapshot_of E si0)"]
  have s': "s = snapshot_of E si0" by (simp add: s)
  have "unat (totalswap si - freeswap si) = unat (totalswap si) - unat (freeswap si)"
    using free by (rule unat_sub_64)
  moreover from this small(3) have "unat (totalswap si - freeswap si) < 2 ^ 62" by linarith
  ultimately show ?thesis
    using small unfolding s' snapshot_of_def Let_def si [symmetric]
    by (simp add: kib_of_pages word_le_nat_alt del: push_bit_numeral)
qed

theorem capture_memory_snapshot_correct_witness:
  "unat (swap_used (dec_snapshot (load_bytes (umem (snd (capture_memory_snapshot demo_U
     \<lparr>snap_sysinfo = demo_sysinfo_env, global_node_page_state = (\<lambda>_. 9), total_swapcache_pages = 1\<rparr>
     zero_sysinfo 4096 demo_kernel))) 4096 56))) = 200"
proof -
  let ?E = "\<lparr>snap_sysinfo = demo_sysinfo_env, global_node_page_state = (\<lambda>_. 9),
    total_swapcache_pages = 1\<rparr>"
  let ?p = "capture_memory_snapshot demo_U ?E zero_sysinfo 4096 demo_kernel"
  have run: "?p = (0, snd ?p)"
    by (simp add: capture_memory_snapshot_def kcopy_all_mapped)
  let ?si = "si_swapinfo demo_sysinfo_env (si_meminfo demo_sysinfo_env zero_sysinfo)"
  have si: "totalram ?si = 1000" "freeram ?si = 400" "totalswap ?si = 500" "freeswap ?si = 450"
    by (simp_all add: demo_sysinfo_env_def)
  show ?thesis
    using capture_memory_snapshot_correct [OF page.uaccess_laws_axioms run refl _ _ _ _ refl]
    by (simp add: si)
qed

end
