(* ===== verification/Tamalloc.thy ===== *)
theory Tamalloc
  imports Kernel_Tasks
begin

text \<open>
  \<^verbatim>\<open>taro_tamalloc\<close> (\<^verbatim>\<open>kernel/usac/taro_tamalloc.c\<close>): lazily mapped anonymous memory. The
  page alignment is the macro of \<^verbatim>\<open>include/linux/mm.h\<close>; \<^verbatim>\<open>do_mmap\<close> (only declared there) is a
  parameter that takes the request and answers the address, or an error number in the last
  page of the address range.
\<close>

section \<open>Page alignment\<close>

definition page_align :: "ulong \<Rightarrow> ulong" where
  "page_align a = (a + (PAGE_SIZE - 1)) AND NOT (PAGE_SIZE - 1)"

definition page_align_down :: "ulong \<Rightarrow> ulong" where
  "page_align_down a = a AND NOT (PAGE_SIZE - 1)"

definition page_aligned :: "ulong \<Rightarrow> bool" where
  "page_aligned a \<longleftrightarrow> a AND (PAGE_SIZE - 1) = 0"

definition is_err_value :: "ulong \<Rightarrow> bool" where
  "is_err_value x \<longleftrightarrow> x \<ge> - 4095"

lemma page_mask: "(PAGE_SIZE - 1 :: ulong) = mask 12"
  by (simp add: mask_eq_exp_minus_1)

lemma unat_page_align_down: "unat (page_align_down a) = unat a div 4096 * 4096"
proof -
  have "a AND NOT (mask 12) = push_bit 12 (drop_bit 12 a)"
    by (rule bit_eqI) (auto simp: bit_simps)
  then have "page_align_down a = push_bit 12 (drop_bit 12 a)"
    unfolding page_align_down_def page_mask .
  then have "unat (page_align_down a) = (unat a div 4096 * 4096) mod 2 ^ 64"
    by (simp only: unat_push_bit_64 unat_drop_bit_64) simp
  also have "\<dots> = unat a div 4096 * 4096"
    using unat_word64_lt [of a] by (intro mod_less le_less_trans [OF div_times_less_eq_dividend]) simp
  finally show ?thesis .
qed

lemma page_aligned_iff: "page_aligned a \<longleftrightarrow> 4096 dvd unat a"
proof -
  have "unat (a AND mask 12) = unat a mod 4096"
    by (simp add: flip: take_bit_eq_mask) (simp add: take_bit_eq_mod unat_mod)
  then show ?thesis
    unfolding page_aligned_def page_mask by (simp add: word_unat_eq_iff dvd_eq_mod_eq_0)
qed

lemma page_align_down_add: "page_align a = page_align_down (a + 4095)"
  by (simp add: page_align_def page_align_down_def)

lemma page_align_wraps:
  assumes "2 ^ 64 - 4096 < unat a"
  shows "page_align a = 0"
proof -
  have "unat (a + 4095) = (unat a + 4095) mod 2 ^ 64" by (simp add: unat_word_ariths)
  also have "\<dots> = unat a + 4095 - 2 ^ 64"
    using assms unat_word64_lt [of a] by (simp add: le_mod_geq)
  finally have "unat (a + 4095) < 4096" using unat_word64_lt [of a] by simp
  then show ?thesis
    by (simp add: page_align_down_add word_unat_eq_iff unat_page_align_down)
qed

lemma unat_page_align:
  assumes "unat a \<le> 2 ^ 64 - 4096"
  shows "unat (page_align a) = (unat a + 4095) div 4096 * 4096"
proof -
  have "unat (a + 4095) = unat a + 4095"
    using assms by (subst unat_add_64) simp_all
  then show ?thesis by (simp add: page_align_down_add unat_page_align_down)
qed


section \<open>The system call\<close>

record mmap_request =
  mr_addr :: ulong
  mr_len :: ulong
  mr_prot :: ulong
  mr_flags :: ulong
  mr_vm_flags :: ulong
  mr_pgoff :: ulong

abbreviation (input) VM_READ :: ulong where "VM_READ \<equiv> 0x01"
abbreviation (input) VM_WRITE :: ulong where "VM_WRITE \<equiv> 0x02"
abbreviation (input) VM_MAYREAD :: ulong where "VM_MAYREAD \<equiv> 0x10"
abbreviation (input) VM_MAYWRITE :: ulong where "VM_MAYWRITE \<equiv> 0x20"
abbreviation (input) PROT_READ :: ulong where "PROT_READ \<equiv> 0x1"
abbreviation (input) PROT_WRITE :: ulong where "PROT_WRITE \<equiv> 0x2"
abbreviation (input) MAP_PRIVATE :: ulong where "MAP_PRIVATE \<equiv> 0x02"
abbreviation (input) MAP_ANONYMOUS :: ulong where "MAP_ANONYMOUS \<equiv> 0x20"
abbreviation (input) MAP_NORESERVE :: ulong where "MAP_NORESERVE \<equiv> 0x4000"

definition tamalloc_request :: "ulong \<Rightarrow> mmap_request" where
  "tamalloc_request aligned_size = \<lparr>mr_addr = 0, mr_len = aligned_size,
     mr_prot = PROT_READ OR PROT_WRITE,
     mr_flags = MAP_PRIVATE OR MAP_ANONYMOUS OR MAP_NORESERVE,
     mr_vm_flags = VM_READ OR VM_WRITE OR VM_MAYREAD OR VM_MAYWRITE, mr_pgoff = 0\<rparr>"

definition taro_tamalloc :: "(mmap_request \<Rightarrow> ulong) \<Rightarrow> ulong \<Rightarrow> int" where
  "taro_tamalloc do_mmap sz =
     (if sz = 0 then - EINVAL
      else let aligned_size = page_align sz in
        if aligned_size = 0 then - ENOMEM
        else let a = do_mmap (tamalloc_request aligned_size)
             in if is_err_value a then sint a else sint a)"

lemma is_err_value_sint:
  "is_err_value a \<longleftrightarrow> - 4095 \<le> sint a \<and> sint a < 0"
proof -
  have "is_err_value a \<longleftrightarrow> 2 ^ 64 - 4095 \<le> unat a"
    by (simp add: is_err_value_def word_le_nat_alt)
  moreover obtain n where n: "unat a = n" by simp
  ultimately show ?thesis
    using unat_word64_lt [of a] unfolding sint_64 n by auto
qed

lemma is_err_value_neg:
  assumes "1 \<le> e" "e \<le> 4095"
  shows "sint (- of_nat e :: ulong) = - int e"
proof -
  have "(- of_nat e :: ulong) = word_of_int (- int e)" by simp
  also have "sint (word_of_int (- int e) :: ulong) = - int e"
    using assms unfolding sint_sbintrunc' by (intro signed_take_bit_int_eq_self) simp_all
  finally show ?thesis .
qed

text \<open>
  (C29) \<^verbatim>\<open>taro_tamalloc\<close> rejects size 0 with \<^verbatim>\<open>-EINVAL\<close> and the sizes whose alignment wraps around (above
  \<open>2 ^ 64 - 4096\<close>) with \<^verbatim>\<open>-ENOMEM\<close>; every other size is passed to \<^verbatim>\<open>do_mmap\<close> rounded up to the next page
  boundary, in a request for a private, anonymous, unreserved, readable and writable mapping at an address of the
  kernel's choice. What \<^verbatim>\<open>do_mmap\<close> answers comes back unchanged: an address of the lower half as itself, the
  error number \<open>e\<close> (1 to 4095) as \<open>- e\<close>; the result lies between -4095 and -1 exactly when the answer is an error.
\<close>

theorem taro_tamalloc_correct:
  "taro_tamalloc do_mmap 0 = - EINVAL
   \<and> (unat sz > 2 ^ 64 - 4096 \<longrightarrow> taro_tamalloc do_mmap sz = - ENOMEM)
   \<and> (0 < unat sz \<and> unat sz \<le> 2 ^ 64 - 4096 \<longrightarrow>
       (\<exists>len. 4096 dvd unat len \<and> unat sz \<le> unat len \<and> unat len < unat sz + 4096
          \<and> (let a = do_mmap \<lparr>mr_addr = 0, mr_len = len, mr_prot = 0x3, mr_flags = 0x4022, mr_vm_flags = 0x33, mr_pgoff = 0\<rparr>;
                 r = taro_tamalloc do_mmap sz in
              (unat a < 2 ^ 63 \<longrightarrow> r = int (unat a))
              \<and> (\<forall>e. 1 \<le> e \<and> e \<le> 4095 \<and> a = - of_nat e \<longrightarrow> r = - int e)
              \<and> (is_err_value a \<longleftrightarrow> - 4095 \<le> r \<and> r < 0))))"
proof (intro conjI impI)
  show "taro_tamalloc do_mmap 0 = - EINVAL" by (simp add: taro_tamalloc_def)
next
  assume "unat sz > 2 ^ 64 - 4096"
  moreover from this have "sz \<noteq> 0" by auto
  ultimately show "taro_tamalloc do_mmap sz = - ENOMEM"
    by (simp add: taro_tamalloc_def page_align_wraps Let_def)
next
  assume sz: "0 < unat sz \<and> unat sz \<le> 2 ^ 64 - 4096"
  let ?len = "page_align sz"
  let ?q = "\<lambda>len. \<lparr>mr_addr = 0, mr_len = len, mr_prot = 0x3, mr_flags = 0x4022, mr_vm_flags = 0x33, mr_pgoff = 0\<rparr>"
  have len: "unat ?len = (unat sz + 4095) div 4096 * 4096"
    using sz by (intro unat_page_align) simp
  have bounds: "unat sz \<le> unat ?len" "unat ?len < unat sz + 4096"
    unfolding len by arith+
  then have "?len \<noteq> 0" "sz \<noteq> 0" using sz by (auto simp: word_unat_eq_iff)
  moreover have "tamalloc_request ?len = ?q ?len" by (simp add: tamalloc_request_def)
  ultimately have "taro_tamalloc do_mmap sz = sint (do_mmap (?q ?len))"
    by (simp add: taro_tamalloc_def Let_def)
  moreover have "4096 dvd unat ?len" by (simp add: len)
  ultimately show "\<exists>len. 4096 dvd unat len \<and> unat sz \<le> unat len \<and> unat len < unat sz + 4096
      \<and> (let a = do_mmap (?q len); r = taro_tamalloc do_mmap sz in
          (unat a < 2 ^ 63 \<longrightarrow> r = int (unat a))
          \<and> (\<forall>e. 1 \<le> e \<and> e \<le> 4095 \<and> a = - of_nat e \<longrightarrow> r = - int e)
          \<and> (is_err_value a \<longleftrightarrow> - 4095 \<le> r \<and> r < 0))"
    using bounds is_err_value_neg by (intro exI [of _ ?len]) (auto simp add: is_err_value_sint sint_eq_unat_64 Let_def)
qed

theorem taro_tamalloc_correct_witness:
  "taro_tamalloc (\<lambda>_. 0x7000) 18446744073709551615 = - ENOMEM
   \<and> taro_tamalloc (\<lambda>q. if mr_len q = 8192 then - 12 else 0x7000) 5000 = - 12
   \<and> taro_tamalloc (\<lambda>q. if mr_len q = 8192 then 0x7000 else - 12) 5000 = 0x7000"
proof (intro conjI)
  have u: "len = 8192" if "4096 dvd unat len" "5000 \<le> unat len" "unat len < 9096" for len :: ulong
    using that by (simp add: word_unat_eq_iff dvd_def) auto
  show "taro_tamalloc (\<lambda>_. 0x7000) 18446744073709551615 = - ENOMEM"
    using taro_tamalloc_correct [of "\<lambda>_. 0x7000" 18446744073709551615] by simp
  show "taro_tamalloc (\<lambda>q. if mr_len q = 8192 then - 12 else 0x7000) 5000 = - 12"
    using taro_tamalloc_correct [of "\<lambda>q. if mr_len q = 8192 then - 12 else 0x7000" 5000]
    by (auto dest!: u spec [of _ 12] simp: Let_def)
  show "taro_tamalloc (\<lambda>q. if mr_len q = 8192 then 0x7000 else - 12) 5000 = 0x7000"
    using taro_tamalloc_correct [of "\<lambda>q. if mr_len q = 8192 then 0x7000 else - 12" 5000]
    by (auto dest!: u simp: Let_def)
qed

end
