(* ===== verification/Limit_Registry.thy ===== *)
theory Limit_Registry
  imports Kernel_Tasks
begin

text \<open>
  What a registry of per-process memory limits promises, whatever list it is built on. Two
  implementations in the repository, \<^verbatim>\<open>kernel/usac/taro_mani_mem.c\<close> and
  \<^verbatim>\<open>kernel/proyecto3/taro_mani_memv1.c\<close>, are shown to be instances. Abstractly a registry is
  a finite map from process ids to limits; the contract relates each system call's return
  value to its effect on the map.
\<close>

record limit_entry =
  le_pid :: int
  le_limit :: ulong

datatype limit_op = Add int ulong | Update int ulong | Remove int

type_synonym registry = "int \<Rightarrow> ulong option"

text \<open>The effect that a return value announces: 0 is success, anything else no change.\<close>

fun registry_step :: "limit_op \<Rightarrow> int \<Rightarrow> registry \<Rightarrow> registry" where
  "registry_step (Add p l) r m = (if r = 0 then m(p \<mapsto> l) else m)"
| "registry_step (Update p l) r m = (if r = 0 then m(p \<mapsto> l) else m)"
| "registry_step (Remove p) r m = (if r = 0 then m(p := None) else m)"

text \<open>The map of a list of entries, and how the changes to the list change it.\<close>

lemma map_of_add_limit:
  "p \<notin> le_pid ` set es \<Longrightarrow> map_of (map (\<lambda>e. (le_pid e, le_limit e)) es @ [(p, l)]) =
   (map_of (map (\<lambda>e. (le_pid e, le_limit e)) es))(p \<mapsto> l)"
  by (induction es) (auto simp: fun_eq_iff)

lemma map_of_update_limit:
  "map_of (map (\<lambda>e. (le_pid e, le_limit e))
     (map (\<lambda>e. if le_pid e = p then e\<lparr>le_limit := l\<rparr> else e) es)) q =
   (if q = p \<and> p \<in> le_pid ` set es then Some l
    else map_of (map (\<lambda>e. (le_pid e, le_limit e)) es) q)"
  by (induction es) auto

lemma map_of_remove_limit:
  "map_of (map (\<lambda>e. (le_pid e, le_limit e)) (filter (\<lambda>e. le_pid e \<noteq> p) es)) q =
   (if q = p then None else map_of (map (\<lambda>e. (le_pid e, le_limit e)) es) q)"
  by (induction es) auto

text \<open>Running a sequence of operations of an implementation, with the values it returned.\<close>

fun exec_ops :: "(limit_op \<Rightarrow> 's \<Rightarrow> int \<times> 's) \<Rightarrow> limit_op list \<Rightarrow> 's \<Rightarrow> (limit_op \<times> int) list \<times> 's" where
  "exec_ops step [] s = ([], s)"
| "exec_ops step (x # xs) s =
     (case step x s of (r, s1) \<Rightarrow>
        case exec_ops step xs s1 of (rs, s2) \<Rightarrow> ((x, r) # rs, s2))"

text \<open>
  An implementation may have outcomes after which nothing is promised; \<open>broken\<close> names them. An add or
  an update that the security module refuses is such an outcome of one of the implementations, the other
  has none.
\<close>

definition refused :: "limit_op \<times> int \<Rightarrow> bool" where
  "refused x \<longleftrightarrow> (\<forall>p. fst x \<noteq> Remove p) \<and> snd x = - EPERM"

locale limit_registry =
  fixes broken :: "limit_op \<times> int \<Rightarrow> bool"
    and wf :: "'s \<Rightarrow> bool"
    and abs_map :: "'s \<Rightarrow> registry"
    and step :: "limit_op \<Rightarrow> 's \<Rightarrow> int \<times> 's"
  assumes step_wf: "\<And>x s r s'. wf s \<Longrightarrow> step x s = (r, s') \<Longrightarrow> \<not> broken (x, r) \<Longrightarrow> wf s'"
    and broken_fails: "\<And>x. \<not> broken (x, 0)"
    and step_abs: "\<And>x s r s'. wf s \<Longrightarrow> step x s = (r, s') \<Longrightarrow> \<not> broken (x, r) \<Longrightarrow>
      abs_map s' = registry_step x r (abs_map s)"
    and add_dup: "\<And>p l s. wf s \<Longrightarrow> abs_map s p \<noteq> None \<Longrightarrow> fst (step (Add p l) s) \<noteq> 0"
    and update_present: "\<And>p l s. wf s \<Longrightarrow> abs_map s p = None \<Longrightarrow> fst (step (Update p l) s) \<noteq> 0"
    and remove_present: "\<And>p s. wf s \<Longrightarrow> abs_map s p = None \<Longrightarrow> fst (step (Remove p) s) \<noteq> 0"
begin

lemma exec_wf: "wf s \<Longrightarrow> exec_ops step xs s = (rs, s') \<Longrightarrow> \<not> list_ex broken rs \<Longrightarrow> wf s'"
proof (induction xs arbitrary: s rs)
  case (Cons x xs)
  obtain r s1 where 1: "step x s = (r, s1)" by fastforce
  obtain rs' where 2: "exec_ops step xs s1 = (rs', s')" and rs: "rs = (x, r) # rs'"
    using Cons.prems(2) 1 by (auto split: prod.splits)
  have "wf s1" using step_wf [OF Cons.prems(1) 1] Cons.prems(3) rs by simp
  then show ?case using Cons.IH [OF _ 2] Cons.prems(3) rs by simp
qed simp

lemma exec_refines:
  "wf s \<Longrightarrow> exec_ops step xs s = (rs, s') \<Longrightarrow> \<not> list_ex broken rs \<Longrightarrow>
   abs_map s' = fold (\<lambda>(x, r). registry_step x r) rs (abs_map s)"
proof (induction xs arbitrary: s rs)
  case (Cons x xs)
  obtain r s1 where 1: "step x s = (r, s1)" by fastforce
  obtain rs' where 2: "exec_ops step xs s1 = (rs', s')" and rs: "rs = (x, r) # rs'"
    using Cons.prems(2) 1 by (auto split: prod.splits)
  have "wf s1" using step_wf [OF Cons.prems(1) 1] Cons.prems(3) rs by simp
  moreover have "abs_map s1 = registry_step x r (abs_map s)"
    using Cons.prems(1,3) 1 rs by (intro step_abs) auto
  ultimately show ?case using Cons.IH [OF _ 2] Cons.prems(3) rs by simp
qed simp

text \<open>A limit that was added can be neither added again nor lost before it is removed.\<close>

lemma add_then_add: "wf s \<Longrightarrow> step (Add p l) s = (0, s1) \<Longrightarrow> fst (step (Add p l') s1) \<noteq> 0"
proof -
  assume a: "wf s" "step (Add p l) s = (0, s1)"
  then have "abs_map s1 p \<noteq> None"
    using step_abs [OF a broken_fails] by simp
  with step_wf [OF a broken_fails] show ?thesis by (rule add_dup)
qed

lemma remove_then_remove: "wf s \<Longrightarrow> step (Remove p) s = (0, s1) \<Longrightarrow> fst (step (Remove p) s1) \<noteq> 0"
proof -
  assume a: "wf s" "step (Remove p) s = (0, s1)"
  then have "abs_map s1 p = None"
    using step_abs [OF a broken_fails] by simp
  with step_wf [OF a broken_fails] show ?thesis by (rule remove_present)
qed

end

end
