(* ===== verification/Limit_List.thy ===== *)
theory Limit_List
  imports Limit_Registry
begin

text \<open>
  The memory limits of \<^verbatim>\<open>kernel/usac/taro_mani_mem.c\<close>: four system calls over a global list
  of nodes behind a mutex. A node has an address; \<open>lim_list\<close> is the order in which the nodes
  are linked, \<open>slab\<close> the nodes that are allocated. The kernel's list primitives are used by
  their documented meaning (\<^verbatim>\<open>list_add_tail\<close> links at the end, \<^verbatim>\<open>list_del\<close> unlinks,
  \<^verbatim>\<open>list_for_each_entry\<close> visits in order). A memory error is recorded in \<open>faults\<close>, so that the
  theorems can say which paths have one; what unlinking a freed node leaves behind is unknown, so the state
  after it is a parameter. The allocator and the security module are parameters, too.
\<close>

section \<open>State\<close>

datatype mem_fault =
    Use_after_free nat  \<comment> \<open>a node was accessed after it was freed\<close>
  | Head_as_entry       \<comment> \<open>the list head was read as if it were a node\<close>

record limits =
  lk :: kernel
  lim_list :: "nat list"
  slab :: "nat \<Rightarrow> limit_entry option"
  lim_mutex :: bool
  faults :: "mem_fault list"

record limit_env =
  kmalloc :: "limits \<Rightarrow> nat option"
  kmalloc_array :: "ulong \<Rightarrow> nat \<Rightarrow> bool"
  security_task_setrlimit :: "kernel \<Rightarrow> nat \<Rightarrow> nat \<Rightarrow> rlimit \<Rightarrow> int"
  freed_list_del :: "nat \<Rightarrow> limits \<Rightarrow> limits"

definition mutex_lock :: "limits \<Rightarrow> limits" where
  "mutex_lock s = s\<lparr>lim_mutex := True\<rparr>"

definition mutex_unlock :: "limits \<Rightarrow> limits" where
  "mutex_unlock s = s\<lparr>lim_mutex := False\<rparr>"

definition on_kernel :: "(kernel \<Rightarrow> kernel) \<Rightarrow> limits \<Rightarrow> limits" where
  "on_kernel f s = s\<lparr>lk := f (lk s)\<rparr>"

text \<open>
  Unlinking reads the two pointers of the node and writes through them. On a freed node that is a use after
  free: the pointers are whatever the memory holds by then, and the state after it is arbitrary.
\<close>

definition list_del :: "limit_env \<Rightarrow> nat \<Rightarrow> limits \<Rightarrow> limits" where
  "list_del E a s =
     (if slab s a = None then (freed_list_del E a s)\<lparr>faults := faults s @ [Use_after_free a]\<rparr>
      else s\<lparr>lim_list := remove1 a (lim_list s)\<rparr>)"

definition kfree :: "nat \<Rightarrow> limits \<Rightarrow> limits" where
  "kfree a s = s\<lparr>slab := (slab s)(a := None)\<rparr>"

text \<open>The searches of the four calls: the first node of the list with the given pid.\<close>

fun find_node :: "(nat \<Rightarrow> limit_entry option) \<Rightarrow> int \<Rightarrow> nat list \<Rightarrow> nat option" where
  "find_node h p [] = None"
| "find_node h p (a # as) = (if le_pid (the (h a)) = p then Some a else find_node h p as)"

definition set_rlimit_as :: "nat \<Rightarrow> rlimit \<Rightarrow> kernel \<Rightarrow> kernel" where
  "set_rlimit_as t rl k =
     (let g = task_signal (tasks k t) in
      k\<lparr>signals := (signals k)(g := (signals k g)\<lparr>rlim := (rlim (signals k g))(RLIMIT_AS := rl)\<rparr>)\<rparr>)"


section \<open>The system calls\<close>

definition taro_add_memory_limit ::
  "limit_env \<Rightarrow> int \<Rightarrow> ulong \<Rightarrow> limits \<Rightarrow> int \<times> limits" where
  "taro_add_memory_limit E process_pid memory_limit s =
     (if process_pid < 0 \<or> memory_limit \<le> 0 then (- EINVAL, s)
      else case vpids (lk s) process_pid of
        None \<Rightarrow> (- ESRCH, s)
      | Some task \<Rightarrow>
        (let s1 = mutex_lock s in
         if find_node (slab s1) process_pid (lim_list s1) \<noteq> None then (- 101, mutex_unlock s1)
         else case kmalloc E s1 of
           None \<Rightarrow> (- ENOMEM, mutex_unlock s1)
         | Some entry \<Rightarrow>
           (let s2 = s1\<lparr>slab := (slab s1)(entry \<mapsto> \<lparr>le_pid = process_pid, le_limit = memory_limit\<rparr>),
                        lim_list := lim_list s1 @ [entry]\<rparr>;
                rl = \<lparr>rlim_cur = memory_limit, rlim_max = memory_limit\<rparr>;
                s3 = on_kernel (get_task_struct task) s2
            in if security_task_setrlimit E (lk s3) task RLIMIT_AS rl \<noteq> 0 then
                 (- EPERM, mutex_unlock (on_kernel (put_task_struct task)
                              (list_del E entry (kfree entry s3))))
               else
                 (0, mutex_unlock (on_kernel (put_task_struct task)
                        (on_kernel (set_rlimit_as task rl) s3))))))"

text \<open>
  The loop of \<^verbatim>\<open>taro_get_memory_limits\<close>: the entries copied, and the cursor when it ends,
  a node if the buffer was full, \<open>None\<close> if it ran to the list head.
\<close>

fun collect :: "(nat \<Rightarrow> limit_entry option) \<Rightarrow> ulong \<Rightarrow> nat \<Rightarrow> nat list \<Rightarrow>
    limit_entry list \<times> nat option" where
  "collect h max_entries n [] = ([], None)"
| "collect h max_entries n (a # as) =
     (if n \<ge> unat max_entries then ([], Some a)
      else case collect h max_entries (n + 1) as of (es, temp) \<Rightarrow> (the (h a) # es, temp))"

text \<open>
  One element of \<^verbatim>\<open>k_buffer\<close>, 16 bytes: the padding after the pid is never written and keeps
  what the allocator left there.
\<close>

definition enc_limit :: "(nat \<Rightarrow> byte) \<Rightarrow> limit_entry \<Rightarrow> byte list" where
  "enc_limit junk e = enc_int (le_pid e) @ pad junk 4 @ enc_ulong (le_limit e)"

definition dec_limit :: "byte list \<Rightarrow> limit_entry" where
  "dec_limit bs = \<lparr>le_pid = dec_int (take 4 bs), le_limit = dec_ulong (take 8 (drop 8 bs))\<rparr>"

definition taro_get_memory_limits :: "limit_env \<Rightarrow> uaccess \<Rightarrow> (nat \<Rightarrow> byte) \<Rightarrow> addr \<Rightarrow> ulong \<Rightarrow> addr \<Rightarrow>
    limits \<Rightarrow> int \<times> limits" where
  "taro_get_memory_limits E U junk u_processes_buffer max_entries processes_returned s =
     (if u_processes_buffer = NULL \<or> processes_returned = NULL \<or> max_entries \<le> 0 then (- EINVAL, s)
      else if \<not> kmalloc_array E max_entries 16 then (- ENOMEM, s)
      else
        (let s1 = mutex_lock s;
             (k_buffer, temp) = collect (slab s1) max_entries 0 (lim_list s1);
             s2 = mutex_unlock s1;
             (left, k3) = kcopy_to_user U u_processes_buffer
                            (concat (map (enc_limit junk) k_buffer)) (lk s2);
             s3 = s2\<lparr>lk := k3\<rparr>
         in if left \<noteq> 0 then (- EFAULT, s3)
            else
              (let (left, k4) = kcopy_to_user U processes_returned
                                  (enc_int (int (length k_buffer))) (lk s3);
                   s4 = s3\<lparr>lk := k4\<rparr>
               in if left \<noteq> 0 then (- EFAULT, s4)
                  else (0, if temp = None then s4\<lparr>faults := faults s4 @ [Head_as_entry]\<rparr> else s4))))"

definition taro_update_memory_limit ::
  "limit_env \<Rightarrow> int \<Rightarrow> ulong \<Rightarrow> limits \<Rightarrow> int \<times> limits" where
  "taro_update_memory_limit E process_pid memory_limit s =
     (if process_pid < 0 \<or> memory_limit \<le> 0 then (- EINVAL, s)
      else case vpids (lk s) process_pid of
        None \<Rightarrow> (- ESRCH, s)
      | Some task \<Rightarrow>
        (let s1 = mutex_lock s in
         case find_node (slab s1) process_pid (lim_list s1) of
           None \<Rightarrow> (- 102, mutex_unlock s1)
         | Some temp \<Rightarrow>
           (let mm = task_mm (tasks (lk s1) task) in
            if mm \<noteq> None \<and> total_vm (mms (lk s1) (the mm)) > drop_bit PAGE_SHIFT memory_limit
            then (- 100, mutex_unlock s1)
            else
              (let s2 = s1\<lparr>slab := (slab s1)(temp \<mapsto> (the (slab s1 temp))\<lparr>le_limit := memory_limit\<rparr>)\<rparr>;
                   rl = \<lparr>rlim_cur = memory_limit, rlim_max = memory_limit\<rparr>;
                   s3 = on_kernel (get_task_struct task) s2
               in if security_task_setrlimit E (lk s3) task RLIMIT_AS rl \<noteq> 0 then
                    (- EPERM, mutex_unlock (on_kernel (put_task_struct task) s3))
                  else
                    (0, mutex_unlock (on_kernel (put_task_struct task)
                           (on_kernel (set_rlimit_as task rl) s3)))))))"

definition taro_remove_memory_limit :: "limit_env \<Rightarrow> int \<Rightarrow> limits \<Rightarrow> int \<times> limits" where
  "taro_remove_memory_limit E process_pid s =
     (if process_pid \<le> 0 then (- EINVAL, s)
      else
        (let s1 = mutex_lock s in
         case find_node (slab s1) process_pid (lim_list s1) of
           Some temp \<Rightarrow> (0, mutex_unlock (kfree temp (list_del E temp s1)))
         | None \<Rightarrow> (- 102, mutex_unlock s1)))"

definition limit_step :: "limit_env \<Rightarrow> limit_op \<Rightarrow> limits \<Rightarrow> int \<times> limits" where
  "limit_step E x s = (case x of
      Add p l \<Rightarrow> taro_add_memory_limit E p l s
    | Update p l \<Rightarrow> taro_update_memory_limit E p l s
    | Remove p \<Rightarrow> taro_remove_memory_limit E p s)"

lemmas limit_defs = mutex_lock_def mutex_unlock_def on_kernel_def list_del_def kfree_def Let_def


section \<open>Well-formed registries\<close>

text \<open>
  The list links exactly the allocated nodes, each once; no process is listed twice; every
  stored pid and limit passed the checks of the call that stored it; nobody holds the mutex.
\<close>

definition entries :: "limits \<Rightarrow> limit_entry list" where
  "entries s = map (\<lambda>a. the (slab s a)) (lim_list s)"

definition limits_wf :: "limits \<Rightarrow> bool" where
  "limits_wf s \<longleftrightarrow> distinct (lim_list s) \<and> dom (slab s) = set (lim_list s)
     \<and> distinct (map le_pid (entries s))
     \<and> list_all (\<lambda>e. 0 \<le> le_pid e \<and> le_limit e \<noteq> 0) (entries s) \<and> \<not> lim_mutex s"

definition limits_map :: "limits \<Rightarrow> registry" where
  "limits_map s = map_of (map (\<lambda>e. (le_pid e, le_limit e)) (entries s))"

text \<open>The allocator hands out memory that is not in use.\<close>

definition fresh_kmalloc :: "limit_env \<Rightarrow> bool" where
  "fresh_kmalloc E \<longleftrightarrow> (\<forall>s a. dom (slab s) = set (lim_list s) \<longrightarrow> kmalloc E s = Some a \<longrightarrow> slab s a = None)"

lemma find_node_None: "find_node h p as = None \<longleftrightarrow> p \<notin> (\<lambda>a. le_pid (the (h a))) ` set as"
  by (induction as) auto

lemma find_node_Some:
  "find_node h p as = Some a \<Longrightarrow> a \<in> set as \<and> le_pid (the (h a)) = p"
  by (induction as) (auto split: if_splits)

lemma limits_map_None: "limits_map s p = None \<longleftrightarrow> find_node (slab s) p (lim_list s) = None"
  by (auto simp: limits_map_def entries_def find_node_None map_of_eq_None_iff image_image)

lemma put_set_get_task [simp]:
  "put_task_struct t (set_rlimit_as t rl (get_task_struct t k)) = set_rlimit_as t rl k"
  by (simp add: lock_defs set_rlimit_as_def Let_def)

lemma set_rlimit_as_keeps [simp]:
  "vpids (set_rlimit_as t rl k) = vpids k" "tasks (set_rlimit_as t rl k) = tasks k"
  "mms (set_rlimit_as t rl k) = mms k" "umem (set_rlimit_as t rl k) = umem k"
  "balanced k (set_rlimit_as t rl k)"
  by (simp_all add: set_rlimit_as_def Let_def balanced_def)

text \<open>What each call does to the list and its nodes, by its return value.\<close>

lemma limits_wf_cong:
  "slab s' = slab s \<Longrightarrow> lim_list s' = lim_list s \<Longrightarrow> \<not> lim_mutex s' \<Longrightarrow> limits_wf s \<Longrightarrow>
   limits_wf s' \<and> entries s' = entries s"
  by (simp add: limits_wf_def entries_def)

lemma add_cases:
  assumes "taro_add_memory_limit E p l s = (r, s')" "limits_wf s" "fresh_kmalloc E" "r \<noteq> - EPERM"
  shows "limits_wf s' \<and> (if r = 0
    then entries s' = entries s @ [\<lparr>le_pid = p, le_limit = l\<rparr>] \<and> p \<notin> le_pid ` set (entries s)
    else entries s' = entries s)"
proof -
  have wf: "distinct (lim_list s)" "dom (slab s) = set (lim_list s)" "\<not> lim_mutex s"
    using assms(2) by (auto simp: limits_wf_def)
  show ?thesis
  proof (cases "vpids (lk s) p = None \<or> p < 0 \<or> l = 0 \<or> find_node (slab s) p (lim_list s) \<noteq> None
      \<or> kmalloc E (mutex_lock s) = None")
    case True
    then show ?thesis using assms limits_wf_cong [of s' s] wf
      by (auto simp: taro_add_memory_limit_def limit_defs split: option.splits if_splits)
  next
    case False
    then obtain t a where t: "vpids (lk s) p = Some t" and a: "kmalloc E (mutex_lock s) = Some a"
      and p: "0 \<le> p" "l \<noteq> 0" and f: "find_node (slab s) p (lim_list s) = None" by auto
    have fresh: "slab s a = None" "a \<notin> set (lim_list s)"
      using a wf assms(3) [unfolded fresh_kmalloc_def, rule_format, of "mutex_lock s" a]
      by (auto simp: mutex_lock_def)
    let ?e = "\<lparr>le_pid = p, le_limit = l\<rparr>"
    have s': "r = 0" "lim_list s' = lim_list s @ [a]" "slab s' = (slab s)(a \<mapsto> ?e)" "\<not> lim_mutex s'"
      using assms(1,4) t a p f by (auto simp: taro_add_memory_limit_def limit_defs split: if_splits)
    have np: "p \<notin> le_pid ` set (entries s)"
      using f by (simp add: find_node_None entries_def image_image)
    have keep: "map (\<lambda>x. the (((slab s)(a \<mapsto> ?e)) x)) (lim_list s) = entries s"
      unfolding entries_def using fresh by (intro map_cong) auto
    have "entries s' = entries s @ [?e]" using keep s' by (simp add: entries_def [of s'])
    then show ?thesis using s' np assms(2) fresh p by (auto simp: limits_wf_def)
  qed
qed

text \<open>The branches of the update, one equation each.\<close>

definition exceeds :: "kernel \<Rightarrow> nat \<Rightarrow> ulong \<Rightarrow> bool" where
  "exceeds k t l \<longleftrightarrow> task_mm (tasks k t) \<noteq> None
     \<and> total_vm (mms k (the (task_mm (tasks k t)))) > drop_bit PAGE_SHIFT l"

lemma update_branches:
  "p < 0 \<or> l = 0 \<Longrightarrow> taro_update_memory_limit E p l s = (- EINVAL, s)"
  "0 \<le> p \<Longrightarrow> l \<noteq> 0 \<Longrightarrow> vpids (lk s) p = None \<Longrightarrow> taro_update_memory_limit E p l s = (- ESRCH, s)"
  "0 \<le> p \<Longrightarrow> l \<noteq> 0 \<Longrightarrow> vpids (lk s) p = Some t \<Longrightarrow> find_node (slab s) p (lim_list s) = None \<Longrightarrow>
   taro_update_memory_limit E p l s = (- 102, s\<lparr>lim_mutex := False\<rparr>)"
  "0 \<le> p \<Longrightarrow> l \<noteq> 0 \<Longrightarrow> vpids (lk s) p = Some t \<Longrightarrow> find_node (slab s) p (lim_list s) = Some a \<Longrightarrow>
   exceeds (lk s) t l \<Longrightarrow> taro_update_memory_limit E p l s = (- 100, s\<lparr>lim_mutex := False\<rparr>)"
  "0 \<le> p \<Longrightarrow> l \<noteq> 0 \<Longrightarrow> vpids (lk s) p = Some t \<Longrightarrow> find_node (slab s) p (lim_list s) = Some a \<Longrightarrow>
   \<not> exceeds (lk s) t l \<Longrightarrow>
   security_task_setrlimit E (get_task_struct t (lk s)) t RLIMIT_AS \<lparr>rlim_cur = l, rlim_max = l\<rparr> \<noteq> 0 \<Longrightarrow>
   taro_update_memory_limit E p l s =
     (- EPERM, s\<lparr>slab := (slab s)(a \<mapsto> (the (slab s a))\<lparr>le_limit := l\<rparr>), lim_mutex := False\<rparr>)"
  "0 \<le> p \<Longrightarrow> l \<noteq> 0 \<Longrightarrow> vpids (lk s) p = Some t \<Longrightarrow> find_node (slab s) p (lim_list s) = Some a \<Longrightarrow>
   \<not> exceeds (lk s) t l \<Longrightarrow>
   security_task_setrlimit E (get_task_struct t (lk s)) t RLIMIT_AS \<lparr>rlim_cur = l, rlim_max = l\<rparr> = 0 \<Longrightarrow>
   taro_update_memory_limit E p l s =
     (0, s\<lparr>lk := set_rlimit_as t \<lparr>rlim_cur = l, rlim_max = l\<rparr> (lk s),
            slab := (slab s)(a \<mapsto> (the (slab s a))\<lparr>le_limit := l\<rparr>), lim_mutex := False\<rparr>)"
  unfolding taro_update_memory_limit_def limit_defs exceeds_def
  by (simp_all add: put_set_get_task)

lemma update_outcome:
  "taro_update_memory_limit E p l s = (r, s') \<Longrightarrow>
   (r \<noteq> 0 \<and> r \<noteq> - EPERM \<and> slab s' = slab s \<and> lim_list s' = lim_list s \<and> (lim_mutex s' \<longrightarrow> lim_mutex s)) \<or>
   (r = 0 \<or> r = - EPERM) \<and> (\<exists>a. find_node (slab s) p (lim_list s) = Some a \<and> l \<noteq> 0 \<and> 0 \<le> p
     \<and> lim_list s' = lim_list s \<and> \<not> lim_mutex s'
     \<and> slab s' = (slab s)(a \<mapsto> (the (slab s a))\<lparr>le_limit := l\<rparr>))"
  apply (cases "p < 0 \<or> l = 0")
   apply (force simp: update_branches)
  apply (cases "vpids (lk s) p")
   apply (force simp: update_branches)
  subgoal for t
    by (cases "find_node (slab s) p (lim_list s)"; cases "exceeds (lk s) t l";
        cases "security_task_setrlimit E (get_task_struct t (lk s)) t RLIMIT_AS
          \<lparr>rlim_cur = l, rlim_max = l\<rparr> = 0")
      (force simp: update_branches)+
  done

lemma entries_store:
  assumes "limits_wf s" "find_node (slab s) p (lim_list s) = Some a" "l \<noteq> 0"
    and s': "lim_list s' = lim_list s" "\<not> lim_mutex s'"
      "slab s' = (slab s)(a \<mapsto> (the (slab s a))\<lparr>le_limit := l\<rparr>)"
  shows "limits_wf s' \<and> p \<in> le_pid ` set (entries s)
    \<and> entries s' = map (\<lambda>e. if le_pid e = p then e\<lparr>le_limit := l\<rparr> else e) (entries s)"
proof -
  have wf: "distinct (map le_pid (entries s))" "dom (slab s) = set (lim_list s)"
    using assms(1) by (auto simp: limits_wf_def)
  note a = find_node_Some [OF assms(2)]
  have inj: "le_pid (the (slab s x)) = p \<longleftrightarrow> x = a" if "x \<in> set (lim_list s)" for x
    using wf(1) that a unfolding entries_def by (auto simp: distinct_map inj_on_def)
  have e: "entries s' = map (\<lambda>e. if le_pid e = p then e\<lparr>le_limit := l\<rparr> else e) (entries s)"
    unfolding entries_def s' map_map by (rule map_cong) (simp_all add: inj)
  have pids: "map le_pid (entries s') = map le_pid (entries s)"
    unfolding e map_map by (rule map_cong) simp_all
  have "dom (slab s') = dom (slab s)" using s'(3) a wf(2) by auto
  moreover have "list_all (\<lambda>e. 0 \<le> le_pid e \<and> le_limit e \<noteq> 0) (entries s')"
    using assms(1,3) unfolding e by (auto simp: limits_wf_def list_all_iff)
  ultimately have "limits_wf s'" using assms(1) pids s'(1,2) by (simp add: limits_wf_def)
  moreover have "p \<in> le_pid ` set (entries s)" using a by (auto simp: entries_def image_iff)
  ultimately show ?thesis using e by simp
qed

lemma update_cases:
  assumes "taro_update_memory_limit E p l s = (r, s')" "limits_wf s"
  shows "limits_wf s' \<and> (if r = 0 \<or> r = - EPERM
    then p \<in> le_pid ` set (entries s) \<and> entries s' =
      map (\<lambda>e. if le_pid e = p then e\<lparr>le_limit := l\<rparr> else e) (entries s)
    else entries s' = entries s)"
  using update_outcome [OF assms(1)]
proof (elim disjE [of "_ \<and> _" "(_ \<or> _) \<and> _"] conjE exE)
  assume "r \<noteq> 0" "r \<noteq> - EPERM" "slab s' = slab s" "lim_list s' = lim_list s"
    "lim_mutex s' \<longrightarrow> lim_mutex s"
  then show ?thesis using limits_wf_cong [of s' s] assms(2) by (simp add: limits_wf_def)
next
  fix a
  assume "r = 0 \<or> r = - EPERM" "find_node (slab s) p (lim_list s) = Some a" "l \<noteq> 0"
    "lim_list s' = lim_list s" "\<not> lim_mutex s'"
    "slab s' = (slab s)(a \<mapsto> (the (slab s a))\<lparr>le_limit := l\<rparr>)"
  then show ?thesis using entries_store [OF assms(2), of p a l s'] by simp
qed

lemma remove_cases:
  assumes "taro_remove_memory_limit E p s = (r, s')" "limits_wf s"
  shows "limits_wf s' \<and> (if r = 0
    then p \<in> le_pid ` set (entries s) \<and> entries s' = filter (\<lambda>e. le_pid e \<noteq> p) (entries s)
    else entries s' = entries s)"
proof -
  have wf: "distinct (lim_list s)" "distinct (map le_pid (entries s))"
    "dom (slab s) = set (lim_list s)" "\<not> lim_mutex s"
    using assms(2) by (auto simp: limits_wf_def)
  have live: "slab s a \<noteq> None" if "find_node (slab s) p (lim_list s) = Some a" for a
    using find_node_Some [OF that] wf(3) by blast
  show ?thesis
  proof (cases "r = 0")
    case False
    then show ?thesis using assms limits_wf_cong [of s' s] wf
      by (auto simp: taro_remove_memory_limit_def limit_defs split: option.splits if_splits)
  next
    case True
    then obtain a where f: "find_node (slab s) p (lim_list s) = Some a"
      and s': "lim_list s' = remove1 a (lim_list s)" "\<not> lim_mutex s'" "slab s' = (slab s)(a := None)"
      using assms(1) live
      by (auto simp: taro_remove_memory_limit_def limit_defs split: option.splits if_splits)
    note a = find_node_Some [OF f]
    have inj: "x = a \<longleftrightarrow> le_pid (the (slab s x)) = p" if "x \<in> set (lim_list s)" for x
      using wf(2) that a unfolding entries_def by (auto simp: distinct_map inj_on_def)
    have l: "remove1 a (lim_list s) = filter (\<lambda>x. le_pid (the (slab s x)) \<noteq> p) (lim_list s)"
      unfolding distinct_remove1_removeAll [OF wf(1)] removeAll_filter_not_eq
      using inj by (intro filter_cong) auto
    have e: "entries s' = filter (\<lambda>e. le_pid e \<noteq> p) (entries s)"
      unfolding entries_def s' l filter_map using a
      by (intro map_cong) (auto simp: comp_def)
    have "limits_wf s'" using assms(2) s' e wf(1,3)
      by (auto simp: limits_wf_def distinct_map_filter list_all_iff)
    moreover have "p \<in> le_pid ` set (entries s)" using a by (auto simp: entries_def image_iff)
    ultimately show ?thesis using e True by simp
  qed
qed

lemma limits_map_dom: "limits_map s p = None \<longleftrightarrow> p \<notin> le_pid ` set (entries s)"
  by (auto simp: limits_map_def map_of_eq_None_iff image_image)

interpretation usac: limit_registry refused "\<lambda>s. fresh_kmalloc E \<and> limits_wf s" limits_map "limit_step E" for E
proof (unfold_locales, goal_cases)
  case (1 x s r s')
  then show ?case
    by (cases x) (auto simp: limit_step_def refused_def dest: add_cases update_cases remove_cases)
next
  case (2 x)
  then show ?case by (simp add: refused_def)
next
  case (3 x s r s')
  then show ?case
  proof (cases x)
    case (Add p l)
    with 3 have "if r = 0
      then entries s' = entries s @ [\<lparr>le_pid = p, le_limit = l\<rparr>] \<and> p \<notin> le_pid ` set (entries s)
      else entries s' = entries s"
      using add_cases [of E p l s r s'] by (auto simp: limit_step_def refused_def)
    then show ?thesis using Add
      by (auto simp: limits_map_def map_of_add_limit simp del: map_of_append split: if_splits)
  next
    case (Update p l)
    with 3 update_cases [of E p l s r s'] show ?thesis
      by (auto simp: limit_step_def limits_map_def refused_def map_of_update_limit fun_eq_iff
          simp del: map_map split: if_splits)
  next
    case (Remove p)
    with 3 remove_cases [of E p s r s'] show ?thesis
      by (auto simp: limit_step_def limits_map_def map_of_remove_limit fun_eq_iff split: if_splits)
  qed
next
  case (4 p l s)
  then show ?case using add_cases [of E p l s] limits_map_dom
    by (cases "taro_add_memory_limit E p l s") (auto simp: limit_step_def split: if_splits)
next
  case (5 p l s)
  then show ?case using update_cases [of E p l s] limits_map_dom
    by (cases "taro_update_memory_limit E p l s") (auto simp: limit_step_def split: if_splits)
next
  case (6 p s)
  then show ?case using remove_cases [of E p s] limits_map_dom
    by (cases "taro_remove_memory_limit E p s") (auto simp: limit_step_def split: if_splits)
qed

section \<open>Properties\<close>

text \<open>
  The states the four calls can reach without an add that the security module refuses: they start from the
  empty list, run in any order with any arguments, and between two calls the rest of the kernel does whatever
  it does to the tasks.
\<close>

definition refused_add :: "limit_op \<Rightarrow> int \<Rightarrow> bool" where
  "refused_add x r \<longleftrightarrow> (\<exists>p l. x = Add p l) \<and> r = - EPERM"

inductive limits_reach :: "limit_env \<Rightarrow> limits \<Rightarrow> bool" for E where
  boot: "lim_list s = [] \<Longrightarrow> slab s = Map.empty \<Longrightarrow> \<not> lim_mutex s \<Longrightarrow> faults s = [] \<Longrightarrow> limits_reach E s"
| call: "limits_reach E s \<Longrightarrow> limit_step E x s = (r, s') \<Longrightarrow> \<not> refused_add x r \<Longrightarrow> limits_reach E s'"
| list: "limits_reach E s \<Longrightarrow> taro_get_memory_limits E U junk buf n ret s = (r, s') \<Longrightarrow> limits_reach E s'"
| other: "limits_reach E s \<Longrightarrow> limits_reach E (s\<lparr>lk := k\<rparr>)"

lemma get_keeps:
  "taro_get_memory_limits E U junk buf n ret s = (r, s') \<Longrightarrow>
   slab s' = slab s \<and> lim_list s' = lim_list s \<and> (lim_mutex s' \<longrightarrow> lim_mutex s)"
  by (auto simp: taro_get_memory_limits_def limit_defs split: prod.splits if_splits)

lemma get_faults:
  "taro_get_memory_limits E U junk buf n ret s = (r, s') \<Longrightarrow> set (faults s') \<subseteq> insert Head_as_entry (set (faults s))"
  by (auto simp: taro_get_memory_limits_def limit_defs split: prod.splits if_splits)

lemma step_keeps_wf:
  assumes "limit_step E x s = (r, s')" "\<not> refused_add x r" "limits_wf s" "fresh_kmalloc E"
  shows "limits_wf s'"
  using assms by (cases x) (auto simp: limit_step_def refused_add_def dest: add_cases update_cases remove_cases)

text \<open>Without a refused add no call accesses a freed node.\<close>

lemma step_faults:
  assumes "limit_step E x s = (r, s')" "\<not> refused_add x r" "limits_wf s"
  shows "faults s' = faults s"
proof -
  have live: "find_node (slab s) p (lim_list s) = Some a \<Longrightarrow> slab s a = None \<Longrightarrow> False" for a p
    using find_node_Some [of "slab s" p "lim_list s" a] assms(3) by (auto simp: limits_wf_def)
  show ?thesis
    using assms(1,2)
    by (cases x) (auto simp: limit_step_def refused_add_def taro_add_memory_limit_def taro_update_memory_limit_def
        taro_remove_memory_limit_def limit_defs split: option.splits if_splits dest: live)
qed

text \<open>
  (C1) Whatever sequence of calls ran, none of them an add that the security module refused, and whatever
  happened to the tasks in between: no process is listed twice, the list links exactly the allocated nodes,
  every listed pid is non-negative and every limit non-zero, the mutex is free, and no node was accessed after
  it was freed. (A refused add does access a freed node, and nothing is promised after it.) The
  allocator is assumed to return no node that is in use.
\<close>

theorem limits_reach_wf:
  assumes "fresh_kmalloc E" "limits_reach E s"
  shows "limits_wf s \<and> (\<forall>a. Use_after_free a \<notin> set (faults s))"
  using assms(2)
proof (induction rule: limits_reach.induct)
  case (boot s)
  then show ?case by (simp add: limits_wf_def entries_def)
next
  case (call s x r s')
  then show ?case using assms(1) step_keeps_wf [of E x s r s'] step_faults [of E x s r s'] by simp
next
  case (list s U junk buf n ret r s')
  have "\<not> lim_mutex s" using list.IH by (simp add: limits_wf_def)
  then have k: "slab s' = slab s" "lim_list s' = lim_list s" "\<not> lim_mutex s'"
    using get_keeps [OF list.hyps(2)] by auto
  have "limits_wf s'" using limits_wf_cong [OF k] list.IH by blast
  then show ?case using get_faults [OF list.hyps(2)] list.IH by auto
next
  case (other s k)
  from other.IH show ?case by (simp add: limits_wf_def entries_def)
qed

text \<open>An allocator that hands out an address above all the addresses in use, and a lenient security module.\<close>

definition demo_limit_env :: limit_env where
  "demo_limit_env = \<lparr>kmalloc = (\<lambda>s. Some (Suc (sum_list (lim_list s)))),
     kmalloc_array = (\<lambda>_ _. True), security_task_setrlimit = (\<lambda>_ _ _ _. 0), freed_list_del = (\<lambda>a s. s)\<rparr>"

definition demo_limits :: limits where
  "demo_limits = \<lparr>lk = demo_kernel, lim_list = [], slab = Map.empty, lim_mutex = False, faults = []\<rparr>"

lemma demo_fresh: "fresh_kmalloc (demo_limit_env\<lparr>security_task_setrlimit := f\<rparr>)"
  unfolding fresh_kmalloc_def
proof (intro allI impI)
  fix s :: limits and a
  assume d: "dom (slab s) = set (lim_list s)"
    and "kmalloc (demo_limit_env\<lparr>security_task_setrlimit := f\<rparr>) s = Some a"
  then have a: "a = Suc (sum_list (lim_list s))" by (simp add: demo_limit_env_def)
  then have "a \<notin> dom (slab s)" unfolding d using member_le_sum_list [of a "lim_list s"] by linarith
  then show "slab s a = None" by (simp add: domIff)
qed

lemma demo_fresh_env: "fresh_kmalloc demo_limit_env"
  using demo_fresh [of "\<lambda>_ _ _ _. 0"] by (simp add: demo_limit_env_def)

lemma demo_limits_wf: "limits_wf demo_limits"
  by (simp add: limits_wf_def demo_limits_def entries_def)

lemmas demo_limit_simps = limit_step_def taro_add_memory_limit_def taro_update_memory_limit_def
  taro_remove_memory_limit_def limit_defs demo_limit_env_def demo_limits_def demo_defs

theorem limits_reach_wf_witness:
  "limits_wf (snd (taro_remove_memory_limit demo_limit_env 42 (snd (taro_add_memory_limit demo_limit_env 42 4096 demo_limits))))"
proof (rule conjunct1 [OF limits_reach_wf [OF demo_fresh_env]])
  let ?s = "snd (taro_add_memory_limit demo_limit_env 42 4096 demo_limits)"
  have "limits_reach demo_limit_env demo_limits"
    by (rule limits_reach.boot) (simp_all add: demo_limits_def)
  then have "limits_reach demo_limit_env ?s"
    by (rule limits_reach.call [of _ _ "Add 42 4096" 0]) (simp_all add: refused_add_def demo_limit_simps)
  then show "limits_reach demo_limit_env (snd (taro_remove_memory_limit demo_limit_env 42 ?s))"
    by (rule limits_reach.call [of _ _ "Remove 42" "fst (taro_remove_memory_limit demo_limit_env 42 ?s)"])
      (simp_all add: refused_add_def limit_step_def)
qed

text \<open>
  (C2) The list implements a map from pids to limits: after any sequence of add, update and
  remove calls of which the security module refused none, the registry holds what a map holds on
  which exactly the calls that returned 0 took effect. It starts from a well-formed list, and the allocator
  returns no node that is in use. (What the calls do when they are refused is a
  defect of each: the update has stored the limit by then, the add unlinks a freed node.)
\<close>

theorem limits_refine_map:
  assumes "fresh_kmalloc E" "limits_wf s" "exec_ops (limit_step E) xs s = (rs, s')"
    and "\<not> list_ex refused rs"
  shows "limits_map s' = fold (\<lambda>(x, r). registry_step x r) rs (limits_map s)"
  using usac.exec_refines [of E s xs rs s'] assms by simp

theorem limits_refine_map_witness:
  "limits_map (snd (exec_ops (limit_step demo_limit_env)
     [Add 42 8192, Add 42 1, Update 7 1, Remove 42] demo_limits)) = Map.empty"
proof -
  let ?xs = "[Add 42 8192, Add 42 1, Update 7 1, Remove 42]"
  have rs: "fst (exec_ops (limit_step demo_limit_env) ?xs demo_limits) =
      [(Add 42 8192, 0), (Add 42 1, - 101), (Update 7 1, - 102), (Remove 42, 0)]"
    by (simp add: demo_limit_simps)
  have "limits_map demo_limits = Map.empty" by (simp add: limits_map_def entries_def demo_limits_def)
  then show ?thesis
    using limits_refine_map [OF demo_fresh_env demo_limits_wf, of ?xs] rs
    by (cases "exec_ops (limit_step demo_limit_env) ?xs demo_limits")
      (simp add: refused_def fun_eq_iff)
qed

text \<open>
  The return code of \<^verbatim>\<open>taro_add_memory_limit\<close> is decided in the order invalid
  argument, no such process, already listed, out of memory, refused by the security module;
  a call that succeeds appends the entry, sets both the soft and the hard \<^verbatim>\<open>RLIMIT_AS\<close> of the
  process to the limit, and leaves user memory, the reference counts and the absence of memory
  errors as they were.
\<close>

theorem taro_add_memory_limit_codes:
  assumes "limits_wf s" "fresh_kmalloc E" "taro_add_memory_limit E p l s = (r, s')"
  shows "r = (if p < 0 \<or> l = 0 then - EINVAL
      else case vpids (lk s) p of None \<Rightarrow> - ESRCH
      | Some t \<Rightarrow> if limits_map s p \<noteq> None then - 101
        else if kmalloc E (mutex_lock s) = None then - ENOMEM
        else if security_task_setrlimit E (get_task_struct t (lk s)) t RLIMIT_AS
                  \<lparr>rlim_cur = l, rlim_max = l\<rparr> \<noteq> 0 then - EPERM else 0)
    \<and> (r = 0 \<longrightarrow> entries s' = entries s @ [\<lparr>le_pid = p, le_limit = l\<rparr>] \<and> faults s' = faults s
         \<and> umem (lk s') = umem (lk s) \<and> balanced (lk s) (lk s')
         \<and> (\<forall>t. vpids (lk s) p = Some t \<longrightarrow>
              task_rlimit (lk s') t RLIMIT_AS = l \<and> task_rlimit_max (lk s') t RLIMIT_AS = l))"
proof (rule conjI; (rule impI)?)
  show "r = (if p < 0 \<or> l = 0 then - EINVAL
      else case vpids (lk s) p of None \<Rightarrow> - ESRCH
      | Some t \<Rightarrow> if limits_map s p \<noteq> None then - 101
        else if kmalloc E (mutex_lock s) = None then - ENOMEM
        else if security_task_setrlimit E (get_task_struct t (lk s)) t RLIMIT_AS
                  \<lparr>rlim_cur = l, rlim_max = l\<rparr> \<noteq> 0 then - EPERM else 0)"
    using assms(3) unfolding taro_add_memory_limit_def limits_map_None
    by (auto simp: limit_defs split: option.splits if_splits)
next
  assume "r = 0"
  then obtain t where t: "vpids (lk s) p = Some t"
    and k: "lk s' = set_rlimit_as t \<lparr>rlim_cur = l, rlim_max = l\<rparr> (lk s)" and f: "faults s' = faults s"
    using assms(3) unfolding taro_add_memory_limit_def
    by (auto simp: limit_defs split: option.splits if_splits)
  have "\<forall>t. vpids (lk s) p = Some t \<longrightarrow>
      task_rlimit (lk s') t RLIMIT_AS = l \<and> task_rlimit_max (lk s') t RLIMIT_AS = l"
    using t unfolding k task_rlimit_def task_rlimit_max_def set_rlimit_as_keeps
    by (simp add: set_rlimit_as_def Let_def)
  then show "entries s' = entries s @ [\<lparr>le_pid = p, le_limit = l\<rparr>] \<and> faults s' = faults s
      \<and> umem (lk s') = umem (lk s) \<and> balanced (lk s) (lk s')
      \<and> (\<forall>t. vpids (lk s) p = Some t \<longrightarrow>
           task_rlimit (lk s') t RLIMIT_AS = l \<and> task_rlimit_max (lk s') t RLIMIT_AS = l)"
    using add_cases [OF assms(3,1,2)] \<open>r = 0\<close> k f by simp
qed

theorem taro_add_memory_limit_codes_witness:
  "entries (snd (taro_add_memory_limit demo_limit_env 42 4096 demo_limits)) =
     [\<lparr>le_pid = 42, le_limit = 4096\<rparr>]"
proof -
  let ?s = "snd (taro_add_memory_limit demo_limit_env 42 4096 demo_limits)"
  have "taro_add_memory_limit demo_limit_env 42 4096 demo_limits = (0, ?s)"
    by (simp add: prod_eq_iff) (simp add: demo_limit_simps)
  note conjunct2 [OF taro_add_memory_limit_codes [OF demo_limits_wf demo_fresh_env this]]
  moreover have "entries demo_limits = []" by (simp add: entries_def demo_limits_def)
  ultimately show ?thesis by simp
qed

text \<open>The loop copies the first \<open>max_entries\<close> entries; it runs to the head if the list is not longer.\<close>

lemma collect_take:
  "collect h m n as = (map (\<lambda>a. the (h a)) (take (unat m - n) as),
     if length as \<le> unat m - n then None else Some (as ! (unat m - n)))"
  by (induction as arbitrary: n) (auto simp: take_Cons' nth_Cons' le_diff_conv2 Suc_diff_Suc
      split: nat.splits)

lemma length_enc_limit [simp]: "length (enc_limit junk e) = 16"
  by (simp add: enc_limit_def)

lemma dec_enc_limit [simp]: "c_int (le_pid e) \<Longrightarrow> dec_limit (enc_limit junk e) = e"
  by (simp add: dec_limit_def enc_limit_def)

text \<open>
  (C28) After a successful \<^verbatim>\<open>taro_get_memory_limits\<close>, if the counter does not lie inside the
  buffer, the caller finds in the counter the smaller of the list's length and the room it
  offered, in the buffer that many entries in list order, and the registry is unchanged.
\<close>

theorem taro_get_memory_limits_roundtrip:
  assumes "uaccess_laws U" and call: "taro_get_memory_limits E U junk buf max_entries ret s = (0, s')"
    and ints: "list_all (\<lambda>e. c_int (le_pid e)) (entries s)" "length (entries s) < 2 ^ 31"
    and n: "n = min (unat max_entries) (length (entries s))"
    and apart: "\<forall>i < 16 * n. 4 \<le> unat (buf + of_nat i - ret)"
  shows "dec_int (load_bytes (umem (lk s')) ret 4) = int n
    \<and> map (\<lambda>i. dec_limit (load_bytes (umem (lk s')) (buf + of_nat (16 * i)) 16)) [0..<n] = take n (entries s)
    \<and> entries s' = entries s"
proof -
  let ?es = "take n (entries s)"
  let ?bs = "concat (map (enc_limit junk) ?es)"
  have len: "length ?bs = 16 * n"
    using length_concat_map [of ?es "enc_limit junk" 16] n by simp
  have es: "take (unat max_entries) (entries s) = ?es" using n by (simp add: min_def)
  have col: "fst (collect (slab s) max_entries 0 (lim_list s)) = ?es"
    using es by (simp add: collect_take entries_def take_map)
  have cnt: "length ?es = n" and n64: "16 * n < 2 ^ 64" using n ints(2) by simp_all
  have "umem (lk s') = store_bytes (store_bytes (umem (lk s)) buf ?bs) ret (enc_int (int n))"
    using call col cnt
    by (auto simp: taro_get_memory_limits_def limit_defs split: prod.splits if_splits
        dest!: uaccess_laws.kcopy_done [OF assms(1)])
  then have m: "umem (lk s') = store_bytes (store_bytes (umem (lk s)) buf ?bs) ret (enc_int (int n))" .
  have "dec_limit (load_bytes (umem (lk s')) (buf + of_nat (16 * i)) 16) = ?es ! i" if "i < n" for i
  proof -
    have "umem (lk s') (buf + of_nat (16 * i) + of_nat j) = store_bytes (umem (lk s)) buf ?bs
        (buf + of_nat (16 * i) + of_nat j)" if "j < 16" for j
      unfolding m using apart [THEN spec, of "16 * i + j"] \<open>i < n\<close> that
      by (subst store_bytes_outside) (simp_all add: add.assoc)
    then have "load_bytes (umem (lk s')) (buf + of_nat (16 * i)) 16
      = load_bytes (store_bytes (umem (lk s)) buf ?bs) (buf + of_nat (16 * i)) 16"
      unfolding load_bytes_def by (intro map_cong) auto
    also have "\<dots> = take 16 (drop (16 * i) ?bs)"
      using that n64 by (intro load_bytes_store_sub; unfold len) linarith+
    also have "\<dots> = enc_limit junk (?es ! i)"
      using that n by (intro take_drop_concat_map) simp_all
    finally show ?thesis using ints(1) that n by (simp add: list_all_length)
  qed
  then have "map (\<lambda>i. dec_limit (load_bytes (umem (lk s')) (buf + of_nat (16 * i)) 16)) [0..<n] = ?es"
    using n by (intro nth_equalityI) simp_all
  moreover have "c_int (int n)" using n ints(2) by (simp add: c_int_def)
  then have "dec_int (load_bytes (umem (lk s')) ret 4) = int n"
    unfolding m using load_store_bytes [of "enc_int (int n)" _ ret] by simp
  moreover have "entries s' = entries s" using get_keeps [OF call] by (simp add: entries_def)
  ultimately show ?thesis by simp
qed

definition demo_listed :: limits where
  "demo_listed = demo_limits\<lparr>lim_list := [2, 9],
     slab := [2 \<mapsto> \<lparr>le_pid = 42, le_limit = 4096\<rparr>, 9 \<mapsto> \<lparr>le_pid = 7, le_limit = 1\<rparr>]\<rparr>"

theorem taro_get_memory_limits_roundtrip_witness:
  "dec_limit (load_bytes (umem (lk (snd (taro_get_memory_limits demo_limit_env demo_U (\<lambda>_. 0) 4096 5 64
     demo_listed)))) 4112 16) = \<lparr>le_pid = 7, le_limit = 1\<rparr>"
proof -
  let ?p = "taro_get_memory_limits demo_limit_env demo_U (\<lambda>_. 0) 4096 5 64 demo_listed"
  have run: "?p = (0, snd ?p)"
    by (simp add: prod_eq_iff)
      (simp add: taro_get_memory_limits_def limit_defs demo_limit_env_def demo_listed_def
        demo_limits_def kcopy_all_mapped)
  have es: "entries demo_listed = [\<lparr>le_pid = 42, le_limit = 4096\<rparr>, \<lparr>le_pid = 7, le_limit = 1\<rparr>]"
    by (simp add: demo_listed_def entries_def)
  have n: "2 = min (unat (5 :: ulong)) (length (entries demo_listed))" by (simp add: es)
  have upt_2: "[0..<2] = [0, 1]" by (simp add: upt_rec)
  have apart: "\<forall>i < 16 * 2. 4 \<le> unat ((4096 :: addr) + of_nat i - 64)"
  proof (intro allI impI)
    fix i :: nat
    assume "i < 16 * 2"
    then have "unat ((4096 :: addr) + of_nat i - 64) = unat (of_nat (4032 + i) :: addr)"
      by simp
    then show "4 \<le> unat ((4096 :: addr) + of_nat i - 64)"
      using \<open>i < 16 * 2\<close> by (simp only: unat_of_nat) (simp add: take_bit_eq_mod)
  qed
  show ?thesis
    using conjunct1 [OF conjunct2 [OF taro_get_memory_limits_roundtrip [OF page.uaccess_laws_axioms
          run _ _ n apart]]]
    by (simp add: es c_int_def upt_2)
qed

text \<open>
  \<^verbatim>\<open>taro_update_memory_limit\<close> refuses a process that is not listed, and a limit smaller
  in pages than the address space the process already has; when it returns 0 the stored limit
  and both \<^verbatim>\<open>RLIMIT_AS\<close> values of the process are the new limit, and the other entries are
  untouched.
\<close>

theorem taro_update_memory_limit_correct:
  assumes "limits_wf s" "vpids (lk s) p = Some t" "0 \<le> p" "l \<noteq> 0"
    and call: "taro_update_memory_limit E p l s = (r, s')"
  shows "(limits_map s p = None \<longleftrightarrow> r = - 102)
    \<and> (limits_map s p \<noteq> None \<longrightarrow> (r = - 100 \<longleftrightarrow>
         (\<exists>m. task_mm (tasks (lk s) t) = Some m \<and> unat l div 4096 < unat (total_vm (mms (lk s) m)))))
    \<and> (r = 0 \<longrightarrow> limits_map s' = (limits_map s)(p \<mapsto> l)
         \<and> task_rlimit (lk s') t RLIMIT_AS = l \<and> task_rlimit_max (lk s') t RLIMIT_AS = l)
    \<and> faults s' = faults s \<and> balanced (lk s) (lk s')"
proof -
  have ex: "exceeds (lk s) t l \<longleftrightarrow>
      (\<exists>m. task_mm (tasks (lk s) t) = Some m \<and> unat l div 4096 < unat (total_vm (mms (lk s) m)))"
    by (auto simp: exceeds_def word_less_nat_alt unat_drop_bit_64)
  have m: "r = 0 \<Longrightarrow> limits_map s' = (limits_map s)(p \<mapsto> l)"
    using update_cases [OF call assms(1)] map_of_update_limit [of p l "entries s"]
    by (auto simp: limits_map_def fun_eq_iff simp del: map_map)
  show ?thesis
    unfolding limits_map_None ex [symmetric]
    using m call update_branches(3-6) [OF assms(3,4,2)]
    by (cases "find_node (slab s) p (lim_list s)"; cases "exceeds (lk s) t l";
        cases "security_task_setrlimit E (get_task_struct t (lk s)) t RLIMIT_AS
          \<lparr>rlim_cur = l, rlim_max = l\<rparr> = 0")
      (auto simp: task_rlimit_def task_rlimit_max_def set_rlimit_as_def Let_def balanced_def)
qed

lemma demo_listed_wf: "limits_wf demo_listed"
  by (auto simp: limits_wf_def entries_def demo_listed_def demo_limits_def)

theorem taro_update_memory_limit_correct_witness:
  "fst (taro_update_memory_limit demo_limit_env 42 4096 demo_listed) = - 100
   \<and> limits_map (snd (taro_update_memory_limit demo_limit_env 42 8000000 demo_listed)) 42 = Some 8000000"
proof -
  have t: "vpids (lk demo_listed) 42 = Some 1" and mm: "task_mm (tasks (lk demo_listed) 1) = Some 5"
    "total_vm (mms (lk demo_listed) 5) = 300"
    by (simp_all add: demo_listed_def demo_limits_def demo_defs)
  have m: "limits_map demo_listed 42 \<noteq> None"
    by (simp add: limits_map_def entries_def demo_listed_def)
  have "fst (taro_update_memory_limit demo_limit_env 42 4096 demo_listed) = - 100"
    using taro_update_memory_limit_correct [OF demo_listed_wf t _ _ prod.collapse [symmetric],
        of 4096 demo_limit_env] m mm by simp
  moreover have "fst (taro_update_memory_limit demo_limit_env 42 8000000 demo_listed) = 0"
    by (simp add: demo_limit_simps demo_listed_def drop_bit_eq_div)
  then have "limits_map (snd (taro_update_memory_limit demo_limit_env 42 8000000 demo_listed)) 42
      = Some 8000000"
    using taro_update_memory_limit_correct [OF demo_listed_wf t _ _ prod.collapse [symmetric],
        of 8000000 demo_limit_env] by simp
  ultimately show ?thesis ..
qed

subsection \<open>What the calls do beyond their contract\<close>

text \<open>
  \<^verbatim>\<open>taro_remove_memory_limit\<close> only forgets the entry: it succeeds exactly for a listed
  positive pid, removes that entry and no other, and leaves the kernel state as it was. In
  particular \<^verbatim>\<open>RLIMIT_AS\<close> of the process keeps the limit that was imposed, although the
  manual says that its normal limits are restored.
\<close>

theorem taro_remove_memory_limit_correct:
  assumes "limits_wf s"
  shows "(fst (taro_remove_memory_limit E p s) = 0 \<longleftrightarrow> 0 < p \<and> limits_map s p \<noteq> None)
    \<and> (0 < p \<longrightarrow> limits_map (snd (taro_remove_memory_limit E p s)) = (limits_map s)(p := None))
    \<and> lk (snd (taro_remove_memory_limit E p s)) = lk s
    \<and> faults (snd (taro_remove_memory_limit E p s)) = faults s"
proof -
  obtain r s' where call: "taro_remove_memory_limit E p s = (r, s')" by fastforce
  have r: "r = 0 \<longleftrightarrow> 0 < p \<and> limits_map s p \<noteq> None"
    using call by (auto simp: taro_remove_memory_limit_def limits_map_None limit_defs
        split: option.splits if_splits)
  have m: "0 < p \<Longrightarrow> limits_map s' = (limits_map s)(p := None)"
    using remove_cases [OF call assms] r map_of_remove_limit [of p "entries s"]
    by (auto simp: limits_map_def fun_eq_iff split: if_splits)
  have "a \<in> set (lim_list s) \<Longrightarrow> slab s a \<noteq> None" for a
    using assms by (auto simp: limits_wf_def dom_def set_eq_iff)
  then have "find_node (slab s) p (lim_list s) = Some a \<Longrightarrow> slab s a \<noteq> None" for a
    by (blast dest: find_node_Some)
  then have "lk s' = lk s \<and> faults s' = faults s"
    using call by (auto simp: taro_remove_memory_limit_def limit_defs split: option.splits if_splits)
  then show ?thesis using call r m by simp
qed

theorem taro_remove_memory_limit_correct_witness:
  "limits_map (snd (taro_remove_memory_limit demo_limit_env 42 demo_listed)) 42 = None
   \<and> limits_map (snd (taro_remove_memory_limit demo_limit_env 42 demo_listed)) 7 = Some 1"
proof -
  have "limits_map demo_listed 7 = Some 1"
    by (simp add: limits_map_def entries_def demo_listed_def)
  then show ?thesis using taro_remove_memory_limit_correct [OF demo_listed_wf, of demo_limit_env 42] by simp
qed

text \<open>
  (C32) Three defects of the error handling, in any well-formed state. An add that the security module
  refuses accesses the new node after freeing it. An update that it refuses has already stored the new limit,
  unless the address space exceeded it. A successful listing with room for the whole list reads the list head
  as if it were an entry.
\<close>

theorem limit_list_defects:
  assumes "limits_wf s"
  shows "(\<forall>p l t a. 0 \<le> p \<and> l \<noteq> 0 \<and> vpids (lk s) p = Some t \<and> limits_map s p = None \<and> kmalloc E (mutex_lock s) = Some a
        \<and> security_task_setrlimit E (get_task_struct t (lk s)) t RLIMIT_AS \<lparr>rlim_cur = l, rlim_max = l\<rparr> \<noteq> 0 \<longrightarrow>
      fst (taro_add_memory_limit E p l s) = - EPERM
      \<and> faults (snd (taro_add_memory_limit E p l s)) = faults s @ [Use_after_free a])
    \<and> (\<forall>p l t. 0 \<le> p \<and> l \<noteq> 0 \<and> vpids (lk s) p = Some t \<and> limits_map s p \<noteq> None \<and> \<not> exceeds (lk s) t l
        \<and> security_task_setrlimit E (get_task_struct t (lk s)) t RLIMIT_AS \<lparr>rlim_cur = l, rlim_max = l\<rparr> \<noteq> 0 \<longrightarrow>
      fst (taro_update_memory_limit E p l s) = - EPERM
      \<and> limits_map (snd (taro_update_memory_limit E p l s)) p = Some l)
    \<and> (\<forall>U junk buf n ret. fst (taro_get_memory_limits E U junk buf n ret s) = 0 \<and> length (entries s) \<le> unat n \<longrightarrow>
      faults (snd (taro_get_memory_limits E U junk buf n ret s)) = faults s @ [Head_as_entry])"
proof (intro conjI [of "\<forall>p l. _ p l"] conjI [of "\<forall>p l t. _ p l t"] allI impI; (elim conjE)?)
  fix p l t a
  assume "0 \<le> p" "l \<noteq> 0" "vpids (lk s) p = Some t" "limits_map s p = None" "kmalloc E (mutex_lock s) = Some a"
    "security_task_setrlimit E (get_task_struct t (lk s)) t RLIMIT_AS \<lparr>rlim_cur = l, rlim_max = l\<rparr> \<noteq> 0"
  then show "fst (taro_add_memory_limit E p l s) = - EPERM
      \<and> faults (snd (taro_add_memory_limit E p l s)) = faults s @ [Use_after_free a]"
    unfolding taro_add_memory_limit_def limits_map_None by (simp add: limit_defs)
next
  fix p l t
  assume t: "0 \<le> p" "l \<noteq> 0" "vpids (lk s) p = Some t" and h: "limits_map s p \<noteq> None" "\<not> exceeds (lk s) t l"
    and refused: "security_task_setrlimit E (get_task_struct t (lk s)) t RLIMIT_AS \<lparr>rlim_cur = l, rlim_max = l\<rparr> \<noteq> 0"
  obtain a where "find_node (slab s) p (lim_list s) = Some a" using h(1) unfolding limits_map_None by auto
  from update_branches(5) [OF t this h(2) refused]
  have r: "fst (taro_update_memory_limit E p l s) = - EPERM" by simp
  with update_cases [OF prod.collapse [symmetric] assms, of E p l]
  show "fst (taro_update_memory_limit E p l s) = - EPERM \<and> limits_map (snd (taro_update_memory_limit E p l s)) p = Some l"
    by (simp add: limits_map_def map_of_update_limit del: map_map)
next
  fix U junk buf n ret
  assume "fst (taro_get_memory_limits E U junk buf n ret s) = 0" "length (entries s) \<le> unat n"
  then show "faults (snd (taro_get_memory_limits E U junk buf n ret s)) = faults s @ [Head_as_entry]"
    unfolding taro_get_memory_limits_def collect_take entries_def
    by (auto simp: limit_defs split: prod.splits if_splits)
qed

theorem limit_list_defects_witness:
  "let E = demo_limit_env\<lparr>security_task_setrlimit := \<lambda>_ _ _ _. - EPERM\<rparr> in
     faults (snd (taro_add_memory_limit E 42 4096 demo_limits)) = [Use_after_free 1]
     \<and> limits_map (snd (taro_update_memory_limit E 42 8000000 demo_listed)) 42 = Some 8000000
     \<and> faults (snd (taro_get_memory_limits E demo_U (\<lambda>_. 0) 4096 5 64 demo_listed)) = [Head_as_entry]"
proof -
  let ?E = "demo_limit_env\<lparr>security_task_setrlimit := \<lambda>_ _ _ _. - EPERM\<rparr>"
  have "vpids (lk demo_limits) 42 = Some 1" "limits_map demo_limits 42 = None" "faults demo_limits = []"
    "kmalloc ?E (mutex_lock demo_limits) = Some 1"
    by (simp_all add: limits_map_def entries_def demo_limits_def demo_limit_env_def mutex_lock_def demo_defs)
  then have 1: "faults (snd (taro_add_memory_limit ?E 42 4096 demo_limits)) = [Use_after_free 1]"
    using limit_list_defects [OF demo_limits_wf, of ?E] by simp
  have "vpids (lk demo_listed) 42 = Some 1" "limits_map demo_listed 42 \<noteq> None" "\<not> exceeds (lk demo_listed) 1 8000000"
    by (simp_all add: limits_map_def entries_def exceeds_def demo_listed_def demo_limits_def demo_defs drop_bit_eq_div)
  then have 2: "limits_map (snd (taro_update_memory_limit ?E 42 8000000 demo_listed)) 42 = Some 8000000"
    using limit_list_defects [OF demo_listed_wf, of ?E] by simp
  have "fst (taro_get_memory_limits ?E demo_U (\<lambda>_. 0) 4096 5 64 demo_listed) = 0"
    by (simp add: taro_get_memory_limits_def limit_defs demo_limit_env_def demo_listed_def demo_limits_def kcopy_all_mapped)
  moreover have "length (entries demo_listed) \<le> unat (5 :: ulong)" "faults demo_listed = []"
    by (simp_all add: entries_def demo_listed_def demo_limits_def)
  ultimately have "faults (snd (taro_get_memory_limits ?E demo_U (\<lambda>_. 0) 4096 5 64 demo_listed)) = [Head_as_entry]"
    using limit_list_defects [OF demo_listed_wf, of ?E] by simp
  with 1 2 show ?thesis by (simp add: Let_def)
qed

end
