(* ===== verification/Limit_V1.thy ===== *)
theory Limit_V1
  imports Limit_Registry
begin

text \<open>
  The first version of the memory limits, \<^verbatim>\<open>kernel/proyecto3/taro_mani_memv1.c\<close>: a singly
  linked list built from raw pointers. Nodes live in a heap, a pointer is an address or
  \<open>None\<close> for \<^verbatim>\<open>NULL\<close>, and the loops follow \<^verbatim>\<open>next\<close>. Nothing in the code bounds such a
  loop, so the loops are partial functions: \<open>None\<close> is the outcome of a loop that does not end
  or follows a dangling pointer. The invariant rules both out.
\<close>

section \<open>State and loops\<close>

record v1_node =
  v_pid :: int
  v_limit :: ulong
  v_next :: "nat option"

type_synonym v1_heap = "nat \<Rightarrow> v1_node option"

record v1 =
  v1_k :: kernel
  memory_limit_head :: "nat option"
  heap :: v1_heap
  v1_mutex :: bool

record v1_env =
  v1_kmalloc :: "v1 \<Rightarrow> nat option"
  v1_kmalloc_array :: "ulong \<Rightarrow> nat \<Rightarrow> bool"
  capable_sys_admin :: "kernel \<Rightarrow> bool"

definition v1_lock :: "v1 \<Rightarrow> v1" where
  "v1_lock s = s\<lparr>v1_mutex := True\<rparr>"

definition v1_unlock :: "v1 \<Rightarrow> v1" where
  "v1_unlock s = s\<lparr>v1_mutex := False\<rparr>"

lemmas v1_lock_defs = v1_lock_def v1_unlock_def

text \<open>The search of add and update: the first node with the pid, or the end of the list.\<close>

partial_function (option) v1_search :: "v1_heap \<Rightarrow> int \<Rightarrow> nat option \<Rightarrow> nat option option" where
  "v1_search h p temp =
     (case temp of
        None \<Rightarrow> Some None
      | Some a \<Rightarrow> (case h a of
          None \<Rightarrow> None
        | Some n \<Rightarrow> if v_pid n = p then Some (Some a) else v1_search h p (v_next n)))"

text \<open>The loop of remove carries the previous node along.\<close>

partial_function (option) v1_search_prev ::
  "v1_heap \<Rightarrow> int \<Rightarrow> nat option \<Rightarrow> nat option \<Rightarrow> (nat option \<times> nat) option option" where
  "v1_search_prev h p prev_node current_node =
     (if current_node = None then Some None
      else case h (the current_node) of
          None \<Rightarrow> None
        | Some n \<Rightarrow> if v_pid n = p then Some (Some (prev_node, the current_node))
                    else v1_search_prev h p current_node (v_next n))"

text \<open>The loop of get: at most \<open>max_entries\<close> nodes, so it always ends, unless a pointer dangles.\<close>

function v1_collect :: "v1_heap \<Rightarrow> ulong \<Rightarrow> nat \<Rightarrow> nat option \<Rightarrow> limit_entry list option" where
  "v1_collect h max_entries n current_node =
     (case current_node of
        None \<Rightarrow> Some []
      | Some a \<Rightarrow>
        if n < unat max_entries then
          (case h a of
             None \<Rightarrow> None
           | Some nd \<Rightarrow> map_option (Cons \<lparr>le_pid = v_pid nd, le_limit = v_limit nd\<rparr>)
                          (v1_collect h max_entries (n + 1) (v_next nd)))
        else Some [])"
  by pat_completeness auto

termination by (relation "measure (\<lambda>(_, m, n, _). unat m - n)") auto

declare v1_collect.simps [simp del]


section \<open>The system calls\<close>

definition v1_add :: "v1_env \<Rightarrow> int \<Rightarrow> ulong \<Rightarrow> v1 \<Rightarrow> (int \<times> v1) option" where
  "v1_add E process_pid memory_limit s =
     (if process_pid < 0 \<or> memory_limit \<le> 0 then Some (- EINVAL, s)
      else
        (let s1 = v1_lock s in
         case v1_search (heap s1) process_pid (memory_limit_head s1) of
           None \<Rightarrow> None
         | Some (Some temp) \<Rightarrow> Some (- 101, v1_unlock s1)
         | Some None \<Rightarrow>
           (case v1_kmalloc E s1 of
              None \<Rightarrow> Some (- ENOMEM, v1_unlock s1)
            | Some entry \<Rightarrow>
              Some (0, v1_unlock (s1\<lparr>heap := (heap s1)(entry \<mapsto>
                  \<lparr>v_pid = process_pid, v_limit = memory_limit, v_next = memory_limit_head s1\<rparr>),
                memory_limit_head := Some entry\<rparr>)))))"

text \<open>
  The elements of \<^verbatim>\<open>k_buffer\<close> are whole list nodes, 24 bytes; only the pid and the limit are
  assigned. The padding and the pointer keep what the allocator left.
\<close>

definition enc_v1 :: "(nat \<Rightarrow> byte) \<Rightarrow> limit_entry \<Rightarrow> byte list" where
  "enc_v1 junk e = enc_int (le_pid e) @ pad junk 4 @ enc_ulong (le_limit e) @ pad (\<lambda>i. junk (16 + i)) 8"

definition v1_get :: "v1_env \<Rightarrow> uaccess \<Rightarrow> (nat \<Rightarrow> byte) \<Rightarrow> addr \<Rightarrow> ulong \<Rightarrow> addr \<Rightarrow>
    v1 \<Rightarrow> (int \<times> v1) option" where
  "v1_get E U junk u_processes_buffer max_entries processes_returned s =
     (if u_processes_buffer = NULL \<or> processes_returned = NULL \<or> max_entries \<le> 0
      then Some (- EINVAL, s)
      else if \<not> v1_kmalloc_array E max_entries 24 then Some (- ENOMEM, s)
      else
        (let s1 = v1_lock s in
         case v1_collect (heap s1) max_entries 0 (memory_limit_head s1) of
           None \<Rightarrow> None
         | Some k_buffer \<Rightarrow>
           (let s2 = v1_unlock s1;
                (left, k3) = kcopy_to_user U u_processes_buffer
                               (concat (map (enc_v1 junk) k_buffer)) (v1_k s2);
                s3 = s2\<lparr>v1_k := k3\<rparr>
            in if left \<noteq> 0 then Some (- EFAULT, s3)
               else
                 (let (left, k4) = kcopy_to_user U processes_returned
                                     (enc_int (int (length k_buffer))) (v1_k s3);
                      s4 = s3\<lparr>v1_k := k4\<rparr>
                  in if left \<noteq> 0 then Some (- EFAULT, s4) else Some (0, s4)))))"

definition v1_update :: "v1_env \<Rightarrow> int \<Rightarrow> ulong \<Rightarrow> v1 \<Rightarrow> (int \<times> v1) option" where
  "v1_update E process_pid memory_limit s =
     (if process_pid < 0 \<or> memory_limit \<le> 0 then Some (- EINVAL, s)
      else if \<not> capable_sys_admin E (v1_k s) then Some (- EPERM, s)
      else
        (let s1 = v1_lock s in
         case v1_search (heap s1) process_pid (memory_limit_head s1) of
           None \<Rightarrow> None
         | Some None \<Rightarrow> Some (- 102, v1_unlock s1)
         | Some (Some current_node) \<Rightarrow>
           (case vpids (v1_k s1) process_pid of
              None \<Rightarrow> Some (- ESRCH, v1_unlock s1)
            | Some task \<Rightarrow>
              (let mm = task_mm (tasks (v1_k s1) task) in
               if mm \<noteq> None \<and> total_vm (mms (v1_k s1) (the mm)) > memory_limit
               then Some (- 100, v1_unlock s1)
               else
                 Some (0, v1_unlock (s1\<lparr>heap := (heap s1)(current_node \<mapsto>
                   (the (heap s1 current_node))\<lparr>v_limit := memory_limit\<rparr>)\<rparr>))))))"

definition v1_remove :: "v1_env \<Rightarrow> int \<Rightarrow> v1 \<Rightarrow> (int \<times> v1) option" where
  "v1_remove E process_pid s =
     (if process_pid < 0 then Some (- EINVAL, s)
      else if \<not> capable_sys_admin E (v1_k s) then Some (- EPERM, s)
      else
        (let s1 = v1_lock s in
         case v1_search_prev (heap s1) process_pid None (memory_limit_head s1) of
           None \<Rightarrow> None
         | Some None \<Rightarrow> Some (- 102, v1_unlock s1)
         | Some (Some (prev_node, current_node)) \<Rightarrow>
           (let nxt = v_next (the (heap s1 current_node));
                s2 = (case prev_node of
                   None \<Rightarrow> s1\<lparr>memory_limit_head := nxt\<rparr>
                 | Some q \<Rightarrow> s1\<lparr>heap := (heap s1)(q \<mapsto> (the (heap s1 q))\<lparr>v_next := nxt\<rparr>)\<rparr>)
            in Some (0, v1_unlock (s2\<lparr>heap := (heap s2)(current_node := None)\<rparr>)))))"


section \<open>Linked lists in the heap\<close>

text \<open>\<open>linked h x as\<close>: following the pointers from \<open>x\<close> visits exactly the nodes \<open>as\<close>.\<close>

fun linked :: "v1_heap \<Rightarrow> nat option \<Rightarrow> nat list \<Rightarrow> bool" where
  "linked h x [] \<longleftrightarrow> x = None"
| "linked h x (a # as) \<longleftrightarrow> x = Some a \<and> h a \<noteq> None \<and> linked h (v_next (the (h a))) as"

lemma linked_unique: "linked h x as \<Longrightarrow> linked h x bs \<Longrightarrow> as = bs"
proof (induction as arbitrary: x bs)
  case Nil
  then show ?case by (cases bs) auto
next
  case (Cons a as)
  then show ?case by (cases bs) auto
qed

lemma linked_suffix: "linked h x (as @ a # bs) \<Longrightarrow> linked h (Some a) (a # bs)"
  by (induction as arbitrary: x) auto

lemma linked_distinct: "linked h x as \<Longrightarrow> distinct as"
proof (induction as arbitrary: x)
  case (Cons a as)
  then have d: "distinct as" and l: "linked h (Some a) (a # as)" by auto
  have "a \<notin> set as"
  proof
    assume "a \<in> set as"
    then obtain us vs where "as = us @ a # vs" by (meson split_list)
    with linked_suffix [of h x "a # us" a vs] Cons.prems have "linked h (Some a) (a # vs)" by auto
    with l have "a # as = a # vs" by (rule linked_unique)
    with \<open>as = us @ a # vs\<close> show False by simp
  qed
  with d show ?case by simp
qed simp

lemma linked_upd_outside: "a \<notin> set as \<Longrightarrow> linked (h(a := y)) x as \<longleftrightarrow> linked h x as"
  by (induction as arbitrary: x) auto

lemma linked_nodes: "linked h x as \<Longrightarrow> set as \<subseteq> dom h"
  by (induction as arbitrary: x) auto

lemma linked_keep_next:
  "linked h x as \<Longrightarrow> h a = Some n \<Longrightarrow> v_next n' = v_next n \<Longrightarrow> linked (h(a \<mapsto> n')) x as"
  by (induction as arbitrary: x) auto

text \<open>The loops on a linked list.\<close>

abbreviation node_pid :: "v1_heap \<Rightarrow> nat \<Rightarrow> int" where
  "node_pid h a \<equiv> v_pid (the (h a))"

lemma v1_search_linked:
  "linked h x as \<Longrightarrow> v1_search h p x = Some (find (\<lambda>a. node_pid h a = p) as)"
proof (induction as arbitrary: x)
  case Nil
  then show ?case by (simp add: v1_search.simps)
next
  case (Cons a as)
  then show ?case by (subst v1_search.simps) auto
qed

lemma v1_collect_linked:
  "linked h x as \<Longrightarrow> v1_collect h m n x =
     Some (map (\<lambda>a. \<lparr>le_pid = node_pid h a, le_limit = v_limit (the (h a))\<rparr>) (take (unat m - n) as))"
proof (induction as arbitrary: x n)
  case Nil
  then show ?case by (simp add: v1_collect.simps)
next
  case (Cons a as)
  then obtain nd where nd: "h a = Some nd" "x = Some a" "linked h (v_next nd) as" by auto
  show ?case
    using nd Cons.IH [OF nd(3), of "Suc n"]
    by (subst v1_collect.simps) (auto simp: take_Cons' Suc_diff_Suc)
qed

lemma v1_search_prev_linked:
  "linked h x (us @ a # vs) \<Longrightarrow> node_pid h a = p \<Longrightarrow> \<forall>b \<in> set us. node_pid h b \<noteq> p \<Longrightarrow>
   v1_search_prev h p q x = Some (Some (if us = [] then q else Some (last us), a))"
proof (induction us arbitrary: x q)
  case Nil
  then show ?case by (subst v1_search_prev.simps) auto
next
  case (Cons b us)
  then obtain n where n: "h b = Some n" "x = Some b" "linked h (v_next n) (us @ a # vs)" by auto
  with Cons.IH [OF n(3), of "Some b"] Cons.prems show ?case
    by (subst v1_search_prev.simps) auto
qed

lemma v1_search_prev_none:
  "linked h x as \<Longrightarrow> \<forall>b \<in> set as. node_pid h b \<noteq> p \<Longrightarrow> v1_search_prev h p q x = Some None"
proof (induction as arbitrary: x q)
  case Nil
  then show ?case by (simp add: v1_search_prev.simps)
next
  case (Cons a as)
  then show ?case by (subst v1_search_prev.simps) auto
qed

text \<open>Unlinking a node from the middle of a list.\<close>

lemma linked_unlink:
  "linked h x (us @ a # vs) \<Longrightarrow> us \<noteq> [] \<Longrightarrow>
   linked (h(last us \<mapsto> (the (h (last us)))\<lparr>v_next := v_next (the (h a))\<rparr>)) x (us @ vs)"
proof (induction us arbitrary: x)
  case (Cons b us)
  have d: "distinct (b # us @ a # vs)" using linked_distinct [OF Cons.prems(1)] by simp
  show ?case
  proof (cases "us = []")
    case True
    let ?h = "h(b \<mapsto> (the (h b))\<lparr>v_next := v_next (the (h a))\<rparr>)"
    have "linked ?h (v_next (the (h a))) vs"
      using Cons.prems d True by (subst linked_upd_outside) auto
    with Cons.prems True show ?thesis by (simp del: fun_upd_apply add: fun_upd_same)
  next
    case False
    then have "last us \<noteq> b" using d by auto
    with Cons.IH [of "v_next (the (h b))"] Cons.prems False show ?thesis by auto
  qed
qed simp

section \<open>The invariant\<close>

definition node_entry :: "v1_heap \<Rightarrow> nat \<Rightarrow> limit_entry" where
  "node_entry h a = \<lparr>le_pid = v_pid (the (h a)), le_limit = v_limit (the (h a))\<rparr>"

text \<open>The state \<open>s\<close> represents the entries \<open>es\<close>, stored in the nodes \<open>as\<close>.\<close>

definition v1_repr :: "v1 \<Rightarrow> nat list \<Rightarrow> limit_entry list \<Rightarrow> bool" where
  "v1_repr s as es \<longleftrightarrow> linked (heap s) (memory_limit_head s) as \<and> dom (heap s) = set as
     \<and> es = map (node_entry (heap s)) as \<and> distinct (map le_pid es)
     \<and> list_all (\<lambda>e. 0 \<le> le_pid e \<and> le_limit e \<noteq> 0) es \<and> \<not> v1_mutex s"

definition v1_wf :: "v1 \<Rightarrow> bool" where
  "v1_wf s \<longleftrightarrow> (\<exists>as es. v1_repr s as es)"

definition v1_fresh :: "v1_env \<Rightarrow> bool" where
  "v1_fresh E \<longleftrightarrow> (\<forall>s a. v1_kmalloc E s = Some a \<longrightarrow> heap s a = None)"

text \<open>The registry a state represents: what a lookup by pid finds.\<close>

definition v1_map :: "v1 \<Rightarrow> registry" where
  "v1_map s p = (case v1_search (heap s) p (memory_limit_head s) of
     Some (Some a) \<Rightarrow> Some (v_limit (the (heap s a)))
   | _ \<Rightarrow> None)"

lemma v1_reprD:
  assumes "v1_repr s as es"
  shows "linked (heap s) (memory_limit_head s) as" "dom (heap s) = set as"
    "es = map (node_entry (heap s)) as" "distinct (map le_pid es)"
    "list_all (\<lambda>e. 0 \<le> le_pid e \<and> le_limit e \<noteq> 0) es" "\<not> v1_mutex s"
  using assms unfolding v1_repr_def by blast+

lemma v1_repr_search:
  "v1_repr s as es \<Longrightarrow> v1_search (heap s) p (memory_limit_head s) = Some (find (\<lambda>a. node_pid (heap s) a = p) as)"
  by (simp add: v1_repr_def v1_search_linked)

lemma v1_repr_map:
  assumes "v1_repr s as es"
  shows "v1_map s = map_of (map (\<lambda>e. (le_pid e, le_limit e)) es)"
proof
  fix p
  have "v1_map s p = map_option (\<lambda>a. v_limit (the (heap s a))) (find (\<lambda>a. node_pid (heap s) a = p) as)"
    by (simp add: v1_map_def v1_repr_search [OF assms] split: option.splits)
  also have "\<dots> = map_of (map (\<lambda>e. (le_pid e, le_limit e)) (map (node_entry (heap s)) as)) p"
    by (induction as) (auto simp: node_entry_def)
  finally show "v1_map s p = map_of (map (\<lambda>e. (le_pid e, le_limit e)) es) p"
    by (simp only: v1_reprD(3) [OF assms])
qed

lemma v1_repr_wf: "v1_repr s as es \<Longrightarrow> v1_wf s"
  by (auto simp: v1_wf_def)

lemma v1_repr_unlock: "v1_repr s as es \<Longrightarrow> v1_unlock (v1_lock s) = s"
  by (simp add: v1_repr_def v1_lock_defs)

lemma v1_repr_find: "v1_repr s as es \<Longrightarrow> p \<in> le_pid ` set es \<longleftrightarrow> find (\<lambda>a. node_pid (heap s) a = p) as \<noteq> None"
  by (force simp: v1_repr_def node_entry_def find_None_iff image_iff)

lemma v1_add_step:
  assumes "v1_repr s as es" "v1_fresh E"
  shows "case v1_add E p l s of None \<Rightarrow> False | Some (r, s') \<Rightarrow>
    if r = 0 then p \<notin> le_pid ` set es \<and> (\<exists>a. v1_repr s' (a # as) (\<lparr>le_pid = p, le_limit = l\<rparr> # es))
    else s' = s"
proof (cases "p < 0 \<or> l = 0 \<or> find (\<lambda>a. node_pid (heap s) a = p) as \<noteq> None
    \<or> v1_kmalloc E (v1_lock s) = None")
  case True
  then show ?thesis
    using v1_repr_search [OF assms(1), of p] v1_repr_unlock [OF assms(1)]
    by (auto simp: v1_add_def Let_def v1_lock_def split: option.splits)
next
  case False
  then obtain a where a: "v1_kmalloc E (v1_lock s) = Some a" by auto
  with assms(2) have "heap (v1_lock s) a = None" unfolding v1_fresh_def by blast
  then have fresh: "a \<notin> set as" using v1_reprD(2) [OF assms(1)] by (auto simp: v1_lock_def)
  let ?h = "(heap s)(a \<mapsto> \<lparr>v_pid = p, v_limit = l, v_next = memory_limit_head s\<rparr>)"
  let ?s' = "s\<lparr>heap := ?h, memory_limit_head := Some a, v1_mutex := False\<rparr>"
  have call: "v1_add E p l s = Some (0, ?s')"
    using False a v1_repr_search [OF assms(1), of p]
    by (simp add: v1_add_def Let_def v1_lock_defs)
  have np: "p \<notin> le_pid ` set es" using False v1_repr_find [OF assms(1)] by auto
  have "linked ?h (Some a) (a # as)"
    using assms(1) fresh by (simp add: linked_upd_outside v1_repr_def)
  moreover have "es = map (node_entry ?h) as"
    unfolding v1_reprD(3) [OF assms(1)] by (rule map_cong) (use fresh in \<open>auto simp: node_entry_def\<close>)
  moreover have "node_entry ?h a = \<lparr>le_pid = p, le_limit = l\<rparr>" by (simp add: node_entry_def)
  ultimately have "v1_repr ?s' (a # as) (\<lparr>le_pid = p, le_limit = l\<rparr> # es)"
    unfolding v1_repr_def using v1_reprD(2,4,5) [OF assms(1)] np False by auto
  with call np show ?thesis by auto
qed

lemma v1_store:
  assumes "v1_repr s as es" "find (\<lambda>a. node_pid (heap s) a = p) as = Some a" "l \<noteq> 0"
    and s': "s' = s\<lparr>heap := (heap s)(a \<mapsto> (the (heap s a))\<lparr>v_limit := l\<rparr>), v1_mutex := False\<rparr>"
  shows "v1_repr s' as (map (\<lambda>e. if le_pid e = p then e\<lparr>le_limit := l\<rparr> else e) es)"
proof -
  let ?h = "(heap s)(a \<mapsto> (the (heap s a))\<lparr>v_limit := l\<rparr>)"
  let ?f = "\<lambda>e. if le_pid e = p then e\<lparr>le_limit := l\<rparr> else e"
  note r = v1_reprD [OF assms(1)]
  have a: "a \<in> set as" "node_pid (heap s) a = p" using assms(2) by (auto simp: find_Some_iff)
  then obtain n where n: "heap s a = Some n" using r(2) by blast
  have "distinct (map (node_pid (heap s)) as)"
    using r(4) unfolding r(3) map_map by (simp add: node_entry_def comp_def)
  then have inj: "node_pid (heap s) b = p \<longleftrightarrow> b = a" if "b \<in> set as" for b
    using a that by (auto simp: distinct_map inj_on_def)
  have "linked ?h (memory_limit_head s) as"
    using linked_keep_next [OF r(1) n] n by simp
  moreover have "map ?f es = map (node_entry ?h) as"
    unfolding r(3) map_map by (rule map_cong) (simp_all add: node_entry_def inj)
  moreover have "map le_pid (map ?f es) = map le_pid es"
    unfolding map_map by (rule map_cong) auto
  moreover have "list_all (\<lambda>e. 0 \<le> le_pid e \<and> le_limit e \<noteq> 0) (map ?f es)"
    using r(5) assms(3) by (auto simp: list_all_iff)
  moreover have "dom ?h = set as" using n r(2) by auto
  ultimately show ?thesis using r(4) unfolding v1_repr_def s' by (simp del: map_map)
qed

lemma v1_update_step:
  assumes "v1_repr s as es"
  shows "case v1_update E p l s of None \<Rightarrow> False | Some (r, s') \<Rightarrow>
    if r = 0 then p \<in> le_pid ` set es
      \<and> v1_repr s' as (map (\<lambda>e. if le_pid e = p then e\<lparr>le_limit := l\<rparr> else e) es)
    else s' = s"
proof (cases "find (\<lambda>a. node_pid (heap s) a = p) as")
  case None
  with v1_repr_search [OF assms, of p] v1_repr_unlock [OF assms] show ?thesis
    by (auto simp: v1_update_def Let_def v1_lock_def)
next
  case (Some a)
  with v1_repr_search [OF assms, of p]
  have f: "v1_search (heap s) p (memory_limit_head s) = Some (Some a)" by simp
  have "p \<in> le_pid ` set es" using v1_repr_find [OF assms] Some by simp
  with v1_store [OF assms Some _ refl] f v1_repr_unlock [OF assms] show ?thesis
    by (auto simp: v1_update_def Let_def v1_lock_defs split: option.splits)
qed

text \<open>The removal of the node \<open>a\<close> between \<open>us\<close> and \<open>vs\<close>.\<close>

lemma v1_unlink:
  assumes r: "v1_repr s (us @ a # vs) es"
    and h': "h' = (if us = [] then heap s
        else (heap s)(last us \<mapsto> (the (heap s (last us)))\<lparr>v_next := v_next (the (heap s a))\<rparr>))"
    and x': "x' = (if us = [] then v_next (the (heap s a)) else memory_limit_head s)"
    and s': "s' = s\<lparr>memory_limit_head := x', heap := h'(a := None), v1_mutex := False\<rparr>"
  shows "v1_repr s' (us @ vs) (filter (\<lambda>e. le_pid e \<noteq> node_pid (heap s) a) es)"
proof -
  note R = v1_reprD [OF r]
  have d: "distinct (us @ a # vs)" using linked_distinct [OF R(1)] .
  have "linked h' x' (us @ vs)"
    using linked_unlink [OF R(1)] R(1) by (cases us) (auto simp: h' x' simp del: fun_upd_apply)
  then have l: "linked (h'(a := None)) x' (us @ vs)" using d by (simp add: linked_upd_outside)
  have "last us \<in> dom (heap s)" if "us \<noteq> []" using that R(2) by simp
  then have dom: "dom (h'(a := None)) = set (us @ vs)" using R(2) d by (auto simp: h')
  have ne: "node_entry (h'(a := None)) b = node_entry (heap s) b" if "b \<noteq> a" for b
    using that by (simp add: node_entry_def h')
  have "distinct (map (node_pid (heap s)) (us @ a # vs))"
    using R(4) unfolding R(3) map_map by (simp add: node_entry_def comp_def)
  then have "filter (\<lambda>b. node_pid (heap s) b \<noteq> node_pid (heap s) a) us = us"
    "filter (\<lambda>b. node_pid (heap s) b \<noteq> node_pid (heap s) a) vs = vs"
    by (auto simp: image_iff intro!: filter_True)
  then have "filter (\<lambda>e. le_pid e \<noteq> node_pid (heap s) a) es = map (node_entry (heap s)) (us @ vs)"
    unfolding R(3) by (simp add: node_entry_def filter_map comp_def)
  also have "\<dots> = map (node_entry (h'(a := None))) (us @ vs)"
    using d by (intro map_cong refl ne [symmetric]) auto
  finally have e: "filter (\<lambda>e. le_pid e \<noteq> node_pid (heap s) a) es =
    map (node_entry (h'(a := None))) (us @ vs)" .
  have "distinct (map le_pid (filter (\<lambda>e. le_pid e \<noteq> node_pid (heap s) a) es))"
    using R(4) by (rule distinct_map_filter)
  moreover have "list_all (\<lambda>e. 0 \<le> le_pid e \<and> le_limit e \<noteq> 0)
      (filter (\<lambda>e. le_pid e \<noteq> node_pid (heap s) a) es)"
    using R(5) by (auto simp: list_all_iff)
  ultimately show ?thesis unfolding v1_repr_def s' using l dom e by simp
qed

lemma v1_remove_step:
  assumes "v1_repr s as es"
  shows "case v1_remove E p s of None \<Rightarrow> False | Some (r, s') \<Rightarrow>
    if r = 0 then p \<in> le_pid ` set es
      \<and> (\<exists>bs. v1_repr s' bs (filter (\<lambda>e. le_pid e \<noteq> p) es))
    else s' = s"
proof (cases "\<forall>b \<in> set as. node_pid (heap s) b \<noteq> p")
  case True
  then show ?thesis
    using v1_search_prev_none [OF v1_reprD(1) [OF assms], of p None] v1_repr_unlock [OF assms]
    by (auto simp: v1_remove_def Let_def v1_lock_def)
next
  case False
  then obtain us a vs where split: "as = us @ a # vs" "node_pid (heap s) a = p"
      "\<forall>b \<in> set us. node_pid (heap s) b \<noteq> p"
    using split_list_first_prop [of as "\<lambda>b. node_pid (heap s) b = p"] by auto
  have sp: "v1_search_prev (heap s) p None (memory_limit_head s) =
      Some (Some (if us = [] then None else Some (last us), a))"
    using v1_reprD(1) [OF assms] split by (intro v1_search_prev_linked) auto
  have "p \<in> le_pid ` set es"
    using False v1_reprD(3) [OF assms] by (force simp: node_entry_def)
  with v1_unlink [OF assms [unfolded split(1)] refl refl refl] split(2) sp
  show ?thesis
    by (cases "us = []") (auto simp: v1_remove_def Let_def v1_lock_defs simp del: fun_upd_apply)
qed

definition v1_step :: "v1_env \<Rightarrow> limit_op \<Rightarrow> v1 \<Rightarrow> (int \<times> v1) option" where
  "v1_step E x s = (case x of
      Add p l \<Rightarrow> v1_add E p l s
    | Update p l \<Rightarrow> v1_update E p l s
    | Remove p \<Rightarrow> v1_remove E p s)"

text \<open>Every call returns, keeps the invariant, and acts on the entries as on a list.\<close>

lemma v1_repr_both:
  "v1_repr s as es \<Longrightarrow> v1_wf s \<and> v1_map s = map_of (map (\<lambda>e. (le_pid e, le_limit e)) es)"
  using v1_repr_map v1_repr_wf by blast

lemma map_of_update_limit_fun:
  "p \<in> le_pid ` set es \<Longrightarrow> map_of (map (\<lambda>e. (le_pid e, le_limit e))
     (map (\<lambda>e. if le_pid e = p then e\<lparr>le_limit := l\<rparr> else e) es)) =
   (map_of (map (\<lambda>e. (le_pid e, le_limit e)) es))(p \<mapsto> l)"
  by (rule ext) (simp add: map_of_update_limit del: map_map)

lemma map_of_remove_limit_fun:
  "map_of (map (\<lambda>e. (le_pid e, le_limit e)) (filter (\<lambda>e. le_pid e \<noteq> p) es)) =
   (map_of (map (\<lambda>e. (le_pid e, le_limit e)) es))(p := None)"
  by (rule ext) (simp add: map_of_remove_limit)

lemma v1_step_outcome:
  assumes "v1_wf s" "v1_fresh E"
  shows "\<exists>r s'. v1_step E x s = Some (r, s') \<and> v1_wf s'
    \<and> v1_map s' = registry_step x r (v1_map s)
    \<and> (r = 0 \<longrightarrow> (case x of Add p _ \<Rightarrow> v1_map s p = None | Update p _ \<Rightarrow> v1_map s p \<noteq> None
        | Remove p \<Rightarrow> v1_map s p \<noteq> None))"
proof -
  obtain as es where r: "v1_repr s as es" using assms(1) by (auto simp: v1_wf_def)
  note m = v1_repr_map [OF r]
  have none: "v1_map s p = None \<longleftrightarrow> p \<notin> le_pid ` set es" for p
    unfolding m by (auto simp: map_of_eq_None_iff image_image)
  show ?thesis
  proof (cases x)
    case (Add p l)
    from v1_add_step [OF r assms(2), where p = p and l = l] obtain e s' where c: "v1_add E p l s = Some (e, s')"
      by (cases "v1_add E p l s") auto
    from v1_add_step [OF r assms(2), where p = p and l = l] c Add show ?thesis
      using none [of p] assms(1) by (cases "e = 0") (auto simp: v1_step_def m dest!: v1_repr_both)
  next
    case (Update p l)
    from v1_update_step [OF r, where E = E and p = p and l = l] obtain e s' where c: "v1_update E p l s = Some (e, s')"
      by (cases "v1_update E p l s") auto
    from v1_update_step [OF r, where E = E and p = p and l = l] c Update show ?thesis
      using none [of p] assms(1) map_of_update_limit_fun [of p es l]
      by (cases "e = 0") (auto simp: v1_step_def m simp del: map_map dest!: v1_repr_both)
  next
    case (Remove p)
    from v1_remove_step [OF r, where E = E and p = p] obtain e s' where c: "v1_remove E p s = Some (e, s')"
      by (cases "v1_remove E p s") auto
    from v1_remove_step [OF r, where E = E and p = p] c Remove show ?thesis
      using none [of p] assms(1) map_of_remove_limit_fun [of p es]
      by (cases "e = 0") (auto simp: v1_step_def m dest!: v1_repr_both)
  qed
qed

text \<open>The calls of this version implement the same registry.\<close>

interpretation v1reg: limit_registry "\<lambda>_. False" "\<lambda>s. v1_fresh E \<and> v1_wf s" v1_map "\<lambda>x s. the (v1_step E x s)" for E
proof (unfold_locales, goal_cases)
  case (1 x s r s')
  then show ?case using v1_step_outcome [of s E x] by auto
next
  case (3 x s r s')
  then show ?case using v1_step_outcome [of s E x] by auto
next
  case (4 p l s)
  then show ?case using v1_step_outcome [of s E "Add p l"] by auto
next
  case (5 p l s)
  then show ?case using v1_step_outcome [of s E "Update p l"] by auto
next
  case (6 p s)
  then show ?case using v1_step_outcome [of s E "Remove p"] by auto
qed simp

text \<open>The listing walks the list as well, and changes only user memory.\<close>

lemma v1_get_outcome:
  assumes "v1_wf s"
  shows "\<exists>r s'. v1_get E U junk buf n ret s = Some (r, s') \<and> heap s' = heap s \<and> memory_limit_head s' = memory_limit_head s \<and> \<not> v1_mutex s'"
proof -
  obtain as es where r: "v1_repr s as es" using assms by (auto simp: v1_wf_def)
  have "\<not> v1_mutex s" using v1_reprD(6) [OF r] .
  then show ?thesis
    using v1_collect_linked [OF v1_reprD(1) [OF r], of n 0] by (auto simp: v1_get_def v1_lock_defs Let_def split: prod.split)
qed

lemma v1_wf_cong:
  assumes "v1_wf s" "heap s' = heap s" "memory_limit_head s' = memory_limit_head s" "\<not> v1_mutex s'"
  shows "v1_wf s' \<and> v1_map s' = v1_map s"
proof
  show "v1_wf s'" using assms unfolding v1_wf_def v1_repr_def by auto
  show "v1_map s' = v1_map s" unfolding v1_map_def assms(2,3) ..
qed

section \<open>Properties\<close>

text \<open>
  (C34) In a well-formed state no call of this version follows a dangling pointer or loops for
  ever: each of the four returns, and leaves the list well formed again. An add or update that returns 0
  has stored the limit, a remove that returns 0 has deleted it, a call that
  returns an error has changed nothing, and the listing changes nothing whatever it returns. The allocator is assumed
  to return no node that is in use.
\<close>

theorem v1_calls_return:
  assumes "v1_wf s" "v1_fresh E"
  shows "(\<exists>r s'. v1_step E x s = Some (r, s') \<and> v1_wf s' \<and> v1_map s' = registry_step x r (v1_map s))
    \<and> (\<exists>r s'. v1_get E U junk buf n ret s = Some (r, s') \<and> v1_wf s' \<and> v1_map s' = v1_map s)"
  using v1_step_outcome [OF assms] v1_get_outcome [OF assms(1)] v1_wf_cong [OF assms(1)] by metis

text \<open>An allocator that offers the address after the first node, if that one is free.\<close>

definition demo_v1_env :: v1_env where
  "demo_v1_env = \<lparr>v1_kmalloc = (\<lambda>s. let a = (case memory_limit_head s of None \<Rightarrow> 1 | Some b \<Rightarrow> Suc b)
      in if heap s a = None then Some a else None),
     v1_kmalloc_array = (\<lambda>_ _. True), capable_sys_admin = (\<lambda>_. True)\<rparr>"

definition demo_v1 :: v1 where
  "demo_v1 = \<lparr>v1_k = demo_kernel, memory_limit_head = None, heap = Map.empty, v1_mutex = False\<rparr>"

lemma demo_v1_wf: "v1_wf demo_v1"
  unfolding v1_wf_def by (intro exI [of _ "[]"]) (simp add: v1_repr_def demo_v1_def)

lemma demo_v1_fresh: "v1_fresh demo_v1_env"
  by (auto simp: v1_fresh_def demo_v1_env_def Let_def split: if_splits)

theorem v1_calls_return_witness:
  "(\<exists>r s'. v1_step demo_v1_env (Remove 42) demo_v1 = Some (r, s') \<and> v1_map s' = v1_map demo_v1)
    \<and> (\<exists>r s'. v1_get demo_v1_env demo_U (\<lambda>_. 0) 4096 5 64 demo_v1 = Some (r, s') \<and> v1_wf s')"
proof -
  have "\<exists>s'. v1_step demo_v1_env (Remove 42) demo_v1 = Some (- 102, s')"
    by (simp add: v1_step_def v1_remove_def demo_v1_env_def demo_v1_def Let_def v1_lock_def
        v1_search_prev.simps)
  then show ?thesis using v1_calls_return [OF demo_v1_wf demo_v1_fresh, of "Remove 42" demo_U "\<lambda>_. 0" 4096 5 64] by auto
qed

text \<open>
  (C33) The pointer version implements a map from pids to limits: after any sequence of add, update and
  remove calls, also refused ones, the registry holds what a map holds on which exactly the calls that
  returned 0 took effect. It starts from a well-formed list, and the allocator returns no node that is in use.
\<close>

theorem v1_refines_map:
  assumes "v1_fresh E" "v1_wf s" "exec_ops (\<lambda>x s. the (v1_step E x s)) xs s = (rs, s')"
  shows "v1_map s' = fold (\<lambda>(x, r). registry_step x r) rs (v1_map s)"
  using v1reg.exec_refines [of E s xs rs s'] assms by (simp add: list_ex_iff)

theorem v1_refines_map_witness:
  "v1_map (snd (exec_ops (\<lambda>x s. the (v1_step demo_v1_env x s)) [Add 42 8192, Add 7 1, Remove 42] demo_v1))
     = [7 \<mapsto> 1]"
proof -
  let ?xs = "[Add 42 8192, Add 7 1, Remove 42]"
  have rs: "fst (exec_ops (\<lambda>x s. the (v1_step demo_v1_env x s)) ?xs demo_v1) =
      [(Add 42 8192, 0), (Add 7 1, 0), (Remove 42, 0)]"
    by (simp add: v1_step_def v1_add_def v1_remove_def v1_search.simps v1_search_prev.simps
        demo_v1_env_def demo_v1_def Let_def v1_lock_defs)
  have "v1_map demo_v1 = Map.empty" by (simp add: fun_eq_iff v1_map_def demo_v1_def v1_search.simps)
  then show ?thesis
    using v1_refines_map [OF demo_v1_fresh demo_v1_wf, of ?xs] rs
    by (cases "exec_ops (\<lambda>x s. the (v1_step demo_v1_env x s)) ?xs demo_v1")
      (simp add: fun_eq_iff)
qed

text \<open>
  A listing of this version returns the newest entry first, at most \<open>max_entries\<close> of
  them, and hands the caller 24 bytes per entry of which the last 8, the place of the
  \<^verbatim>\<open>next\<close> pointer, were never written: they are what the allocator left there.
\<close>

theorem v1_get_correct:
  assumes "v1_repr s as es" "uaccess_laws U"
    and call: "v1_get E U junk buf max_entries ret s = Some (0, s')"
    and n: "n = min (unat max_entries) (length es)" and "24 * n < 2 ^ 64"
    and apart: "\<forall>i < 24 * n. 4 \<le> unat (buf + of_nat i - ret)" and "i < n"
  shows "load_bytes (umem (v1_k s')) (buf + of_nat (24 * i)) 24 = enc_v1 junk (es ! i)
    \<and> drop 16 (load_bytes (umem (v1_k s')) (buf + of_nat (24 * i)) 24) = map (\<lambda>j. junk (16 + j)) [0..<8]"
proof -
  let ?es = "take n es"
  let ?bs = "concat (map (enc_v1 junk) ?es)"
  note R = v1_reprD [OF assms(1)]
  have enc: "length (enc_v1 junk e) = 24" for e by (simp add: enc_v1_def)
  have len: "length ?bs = 24 * n" using length_concat_map [of ?es "enc_v1 junk" 24] n enc by simp
  have "?es = take (unat max_entries) es" using n by (simp add: min_def)
  then have col: "v1_collect (heap s) max_entries 0 (memory_limit_head s) = Some ?es"
    unfolding v1_collect_linked [OF R(1)] R(3) by (simp add: take_map node_entry_def comp_def)
  have "length ?es = n" using n by simp
  then have m: "umem (v1_k s') = store_bytes (store_bytes (umem (v1_k s)) buf ?bs) ret (enc_int (int n))"
    using call col
    by (auto simp: v1_get_def v1_lock_defs Let_def split: prod.splits if_splits
        dest!: uaccess_laws.kcopy_done [OF assms(2)])
  have "umem (v1_k s') (buf + of_nat (24 * i) + of_nat j) = store_bytes (umem (v1_k s)) buf ?bs
      (buf + of_nat (24 * i) + of_nat j)" if "j < 24" for j
    unfolding m using apart [THEN spec, of "24 * i + j"] \<open>i < n\<close> that
    by (subst store_bytes_outside) (simp_all add: add.assoc)
  then have "load_bytes (umem (v1_k s')) (buf + of_nat (24 * i)) 24
    = load_bytes (store_bytes (umem (v1_k s)) buf ?bs) (buf + of_nat (24 * i)) 24"
    unfolding load_bytes_def by (intro map_cong) auto
  also have "\<dots> = take 24 (drop (24 * i) ?bs)"
    using \<open>i < n\<close> assms(5) by (intro load_bytes_store_sub; unfold len) linarith+
  also have "\<dots> = enc_v1 junk (?es ! i)"
    using \<open>i < n\<close> n enc by (intro take_drop_concat_map) simp_all
  finally show ?thesis using \<open>i < n\<close> by (simp add: enc_v1_def pad_def)
qed

theorem v1_get_correct_witness:
  "drop 16 (load_bytes (umem (v1_k (snd (the (v1_get demo_v1_env demo_U (\<lambda>i. of_nat i) 4096 5 64
     (demo_v1\<lparr>memory_limit_head := Some 3,
        heap := [3 \<mapsto> \<lparr>v_pid = 42, v_limit = 7, v_next = None\<rparr>]\<rparr>)))))) 4096 24)
   = [16, 17, 18, 19, 20, 21, 22, 23]"
proof -
  let ?s = "demo_v1\<lparr>memory_limit_head := Some 3,
        heap := [3 \<mapsto> \<lparr>v_pid = 42, v_limit = 7, v_next = None\<rparr>]\<rparr>"
  let ?p = "v1_get demo_v1_env demo_U (\<lambda>i. of_nat i) 4096 5 64 ?s"
  have r: "v1_repr ?s [3] [\<lparr>le_pid = 42, le_limit = 7\<rparr>]"
    by (simp add: v1_repr_def node_entry_def demo_v1_def)
  have "v1_collect (heap ?s) 5 0 (memory_limit_head ?s) = Some [\<lparr>le_pid = 42, le_limit = 7\<rparr>]"
    using v1_collect_linked [OF v1_reprD(1) [OF r], of 5 0] by simp
  then have run: "?p = Some (0, snd (the ?p))"
    by (simp add: v1_get_def v1_lock_defs demo_v1_env_def demo_v1_def kcopy_all_mapped enc_v1_def)
  have n: "1 = min (unat (5 :: ulong)) (length [\<lparr>le_pid = 42, le_limit = 7\<rparr>])" by simp
  have apart: "\<forall>i < 24 * 1. 4 \<le> unat ((4096 :: addr) + of_nat i - 64)"
  proof (intro allI impI)
    fix i :: nat
    assume "i < 24 * 1"
    moreover have "unat ((4096 :: addr) + of_nat i - 64) = unat (of_nat (4032 + i) :: addr)" by simp
    ultimately show "4 \<le> unat ((4096 :: addr) + of_nat i - 64)"
      by (simp only: unat_of_nat) (simp add: take_bit_eq_mod)
  qed
  from conjunct2 [OF v1_get_correct [OF r page.uaccess_laws_axioms run n _ apart, of 0]]
  show ?thesis by (simp add: upt_rec)
qed

end
