(* ===== verification/Limit_P3.thy ===== *)
theory Limit_P3
  imports Limit_Registry
begin

text \<open>
  The memory limits of \<^verbatim>\<open>kernel/proyecto3\<close> as four files, one per system call. Every file
  declares its own static list and mutex under the same names, so there are four registries
  and not one. The state keeps them apart, as the files do; a list is the sequence of its
  entries, since each file only walks, appends to or deletes from its own list while it holds
  its own mutex. The allocator and \<^verbatim>\<open>capable(CAP_SYS_ADMIN)\<close> are parameters.
\<close>

datatype task_run_state = TASK_RUNNING | TASK_INTERRUPTIBLE

record p3 =
  p3_k :: kernel
  add_list :: "limit_entry list"      \<comment> \<open>\<^verbatim>\<open>taro_add_memory_limit.c\<close>\<close>
  get_list :: "limit_entry list"      \<comment> \<open>\<^verbatim>\<open>taro_get_memory_limits.c\<close>\<close>
  update_list :: "limit_entry list"   \<comment> \<open>\<^verbatim>\<open>taro_update_memory_limit.c\<close>\<close>
  remove_list :: "limit_entry list"   \<comment> \<open>\<^verbatim>\<open>taro_remove_memory_limit.c\<close>\<close>
  current_state :: task_run_state

record p3_env =
  p3_kmalloc :: "p3 \<Rightarrow> bool"
  p3_kmalloc_array :: "ulong \<Rightarrow> nat \<Rightarrow> bool"
  p3_capable :: "kernel \<Rightarrow> bool"

text \<open>A \<^verbatim>\<open>size_t\<close> is never negative, so only the pid can make the first test true.\<close>

definition validate_memory_limit :: "kernel \<Rightarrow> int \<Rightarrow> ulong \<Rightarrow> int" where
  "validate_memory_limit k process_pid memory_limit =
     (if process_pid < 0 \<or> memory_limit < 0 then - EINVAL
      else if vpids k process_pid = None then - ESRCH
      else 0)"

definition add_to_memory_limit_list :: "p3_env \<Rightarrow> int \<Rightarrow> ulong \<Rightarrow> p3 \<Rightarrow> int \<times> p3" where
  "add_to_memory_limit_list E process_pid memory_limit s =
     (if \<not> p3_capable E (p3_k s) then (- EPERM, s)
      else
        (let result = validate_memory_limit (p3_k s) process_pid memory_limit in
         if result \<noteq> 0 then (result, s)
         else
           (let task = the (vpids (p3_k s) process_pid);
                mm = task_mm (tasks (p3_k s) task)
            in if process_pid \<in> le_pid ` set (add_list s) then (- 101, s)
               else if \<not> p3_kmalloc E s then (- ENOMEM, s)
               else if mm \<noteq> None \<and> total_vm (mms (p3_k s) (the mm)) > memory_limit then (- 100, s)
               else (0, s\<lparr>add_list := add_list s @ [\<lparr>le_pid = process_pid, le_limit = memory_limit\<rparr>]\<rparr>))))"

definition p3_add :: "p3_env \<Rightarrow> int \<Rightarrow> ulong \<Rightarrow> p3 \<Rightarrow> int \<times> p3" where
  "p3_add E process_pid memory_limit s =
     (case add_to_memory_limit_list E process_pid memory_limit s of (result, s1) \<Rightarrow>
        if result < 0 then (result, s1\<lparr>current_state := TASK_INTERRUPTIBLE\<rparr>) else (0, s1))"

text \<open>The listing copies whole 24-byte nodes; padding and pointer are not assigned.\<close>

definition enc_p3 :: "(nat \<Rightarrow> byte) \<Rightarrow> limit_entry \<Rightarrow> byte list" where
  "enc_p3 junk e = enc_int (le_pid e) @ pad junk 4 @ enc_ulong (le_limit e) @ pad (\<lambda>i. junk (16 + i)) 8"

definition p3_get :: "p3_env \<Rightarrow> uaccess \<Rightarrow> (nat \<Rightarrow> byte) \<Rightarrow> addr \<Rightarrow> ulong \<Rightarrow> addr \<Rightarrow>
    p3 \<Rightarrow> int \<times> p3" where
  "p3_get E U junk u_processes_buffer max_entries processes_returned s =
     (if u_processes_buffer = NULL \<or> processes_returned = NULL \<or> max_entries \<le> 0 then (- EINVAL, s)
      else if \<not> p3_kmalloc_array E max_entries 24 then (- ENOMEM, s)
      else
        (let k_buffer = take (unat max_entries) (get_list s);
             (left, k1) = kcopy_to_user U u_processes_buffer
                            (concat (map (enc_p3 junk) k_buffer)) (p3_k s);
             s1 = s\<lparr>p3_k := k1\<rparr>
         in if left \<noteq> 0 then (- EFAULT, s1)
            else
              (let (left, k2) = kcopy_to_user U processes_returned
                                  (enc_int (int (length k_buffer))) (p3_k s1);
                   s2 = s1\<lparr>p3_k := k2\<rparr>
               in if left \<noteq> 0 then (- EFAULT, s2) else (0, s2))))"

text \<open>The walk of the update stores the limit in the first entry with the pid.\<close>

fun set_first :: "int \<Rightarrow> ulong \<Rightarrow> limit_entry list \<Rightarrow> limit_entry list" where
  "set_first p l [] = []"
| "set_first p l (e # es) = (if le_pid e = p then e\<lparr>le_limit := l\<rparr> # es else e # set_first p l es)"

definition p3_update :: "p3_env \<Rightarrow> int \<Rightarrow> ulong \<Rightarrow> p3 \<Rightarrow> int \<times> p3" where
  "p3_update E process_pid memory_limit s =
     (if process_pid < 0 \<or> memory_limit < 0 then (- EINVAL, s)
      else if \<not> p3_capable E (p3_k s) then (- EPERM, s)
      else
        (let k1 = rcu_read_lock (p3_k s) in
         case vpids k1 process_pid of
           None \<Rightarrow> (- ESRCH, s\<lparr>p3_k := rcu_read_unlock k1\<rparr>)
         | Some task \<Rightarrow>
           (let s1 = s\<lparr>p3_k := rcu_read_unlock k1\<rparr>;
                mm = task_mm (tasks (p3_k s1) task)
            in case find (\<lambda>e. le_pid e = process_pid) (update_list s1) of
                 None \<Rightarrow> (- 102, s1)
               | Some _ \<Rightarrow>
                 if mm \<noteq> None \<and> get_mm_rss (mms (p3_k s1) (the mm)) > memory_limit then (- 100, s1)
                 else (0, s1\<lparr>update_list := set_first process_pid memory_limit (update_list s1)\<rparr>))))"

text \<open>The list is deleted from only at the first match.\<close>

definition p3_remove :: "p3_env \<Rightarrow> int \<Rightarrow> p3 \<Rightarrow> int \<times> p3" where
  "p3_remove E process_pid s =
     (if process_pid < 0 then (- EINVAL, s)
      else if \<not> p3_capable E (p3_k s) then (- EPERM, s)
      else
        (case find (\<lambda>e. le_pid e = process_pid) (remove_list s) of
           Some entry \<Rightarrow> (0, s\<lparr>remove_list := remove1 entry (remove_list s)\<rparr>)
         | None \<Rightarrow> (- 102, s)))"

inductive p3_reach :: "p3_env \<Rightarrow> p3 \<Rightarrow> bool" for E where
  boot: "add_list s = [] \<Longrightarrow> get_list s = [] \<Longrightarrow> update_list s = [] \<Longrightarrow> remove_list s = [] \<Longrightarrow>
    p3_reach E s"
| add: "p3_reach E s \<Longrightarrow> p3_reach E (snd (p3_add E p l s))"
| get: "p3_reach E s \<Longrightarrow> p3_reach E (snd (p3_get E U junk buf n ret s))"
| update: "p3_reach E s \<Longrightarrow> p3_reach E (snd (p3_update E p l s))"
| remove: "p3_reach E s \<Longrightarrow> p3_reach E (snd (p3_remove E p s))"
| other: "p3_reach E s \<Longrightarrow> p3_reach E (s\<lparr>p3_k := k, current_state := st\<rparr>)"

lemma p3_add_lists:
  "get_list (snd (p3_add E p l s)) = get_list s" "update_list (snd (p3_add E p l s)) = update_list s"
  "remove_list (snd (p3_add E p l s)) = remove_list s"
  by (simp_all add: p3_add_def add_to_memory_limit_list_def Let_def)

lemma p3_add_distinct:
  "distinct (map le_pid (add_list s)) \<Longrightarrow> distinct (map le_pid (add_list (snd (p3_add E p l s))))"
  by (auto simp: p3_add_def add_to_memory_limit_list_def Let_def)

lemma p3_get_lists:
  "get_list (snd (p3_get E U junk buf n ret s)) = get_list s
   \<and> update_list (snd (p3_get E U junk buf n ret s)) = update_list s
   \<and> remove_list (snd (p3_get E U junk buf n ret s)) = remove_list s
   \<and> add_list (snd (p3_get E U junk buf n ret s)) = add_list s"
  by (simp add: p3_get_def Let_def split: prod.splits)

definition p3_inv :: "p3 \<Rightarrow> bool" where
  "p3_inv s \<longleftrightarrow> get_list s = [] \<and> update_list s = [] \<and> remove_list s = []
     \<and> distinct (map le_pid (add_list s))"

lemma p3_reach_inv: "p3_reach E s \<Longrightarrow> p3_inv s"
proof (induction rule: p3_reach.induct)
  case (update s p l)
  then show ?case by (auto simp: p3_inv_def p3_update_def Let_def split: option.splits)
next
  case (remove s p)
  then show ?case by (auto simp: p3_inv_def p3_remove_def split: option.splits)
qed (simp_all add: p3_inv_def p3_add_lists p3_get_lists p3_add_distinct)

text \<open>
  (C35) The four files do not share a registry. Whatever was added, no sequence of calls ever
  makes an update or a remove succeed, and every successful listing reports zero processes.
\<close>

theorem p3_files_disconnected:
  assumes "p3_reach E s"
  shows "fst (p3_update E p l s) \<noteq> 0 \<and> fst (p3_remove E p s) \<noteq> 0
    \<and> (uaccess_laws U \<longrightarrow> fst (p3_get E U junk buf n ret s) = 0 \<longrightarrow>
        dec_int (load_bytes (umem (p3_k (snd (p3_get E U junk buf n ret s)))) ret 4) = 0)"
proof (intro conjI impI)
  note inv = p3_reach_inv [OF assms, unfolded p3_inv_def]
  show "fst (p3_update E p l s) \<noteq> 0" using inv by (simp add: p3_update_def Let_def split: option.splits)
  show "fst (p3_remove E p s) \<noteq> 0" using inv by (simp add: p3_remove_def)
  assume U: "uaccess_laws U" and ok: "fst (p3_get E U junk buf n ret s) = 0"
  from ok have "\<exists>m. umem (p3_k (snd (p3_get E U junk buf n ret s))) = store_bytes m ret (enc_int 0)"
    using inv uaccess_laws.kcopy_done [OF U]
    by (fastforce simp: p3_get_def Let_def split: prod.splits if_splits)
  moreover have "c_int 0" by (simp add: c_int_def)
  ultimately show "dec_int (load_bytes (umem (p3_k (snd (p3_get E U junk buf n ret s)))) ret 4) = 0"
    using load_store_bytes [of "enc_int 0" _ ret] by auto
qed

definition demo_p3_env :: p3_env where
  "demo_p3_env = \<lparr>p3_kmalloc = (\<lambda>_. True), p3_kmalloc_array = (\<lambda>_ _. True), p3_capable = (\<lambda>_. True)\<rparr>"

definition demo_p3 :: p3 where
  "demo_p3 = \<lparr>p3_k = demo_kernel, add_list = [], get_list = [], update_list = [], remove_list = [],
     current_state = TASK_RUNNING\<rparr>"

theorem p3_files_disconnected_witness:
  "add_list (snd (p3_add demo_p3_env 42 8192 demo_p3)) = [\<lparr>le_pid = 42, le_limit = 8192\<rparr>]
   \<and> fst (p3_remove demo_p3_env 42 (snd (p3_add demo_p3_env 42 8192 demo_p3))) \<noteq> 0"
proof -
  have "p3_reach demo_p3_env demo_p3" by (rule p3_reach.boot) (simp_all add: demo_p3_def)
  then have "p3_reach demo_p3_env (snd (p3_add demo_p3_env 42 8192 demo_p3))" by (rule p3_reach.add)
  moreover have "add_list (snd (p3_add demo_p3_env 42 8192 demo_p3)) = [\<lparr>le_pid = 42, le_limit = 8192\<rparr>]"
    by (simp add: p3_add_def add_to_memory_limit_list_def validate_memory_limit_def demo_p3_def
        demo_p3_env_def demo_defs)
  ultimately show ?thesis using p3_files_disconnected by blast
qed

text \<open>
  \<^verbatim>\<open>taro_add_memory_limit\<close> of this project stores the entry exactly when the caller is
  privileged, the process exists, is not yet listed, the allocation succeeds and the process
  has at most as many pages as the limit has bytes; in every other case it returns the first
  failing check's code and leaves the calling task marked \<^verbatim>\<open>TASK_INTERRUPTIBLE\<close>.
\<close>

theorem p3_add_correct:
  "p3_add E p l s =
     (if p3_capable E (p3_k s) \<and> 0 \<le> p \<and> (\<exists>t. vpids (p3_k s) p = Some t
          \<and> (\<forall>m. task_mm (tasks (p3_k s) t) = Some m \<longrightarrow> unat (total_vm (mms (p3_k s) m)) \<le> unat l))
        \<and> p \<notin> le_pid ` set (add_list s) \<and> p3_kmalloc E s
      then (0, s\<lparr>add_list := add_list s @ [\<lparr>le_pid = p, le_limit = l\<rparr>]\<rparr>)
      else (if \<not> p3_capable E (p3_k s) then - EPERM else if p < 0 then - EINVAL
            else if vpids (p3_k s) p = None then - ESRCH
            else if p \<in> le_pid ` set (add_list s) then - 101
            else if \<not> p3_kmalloc E s then - ENOMEM else - 100,
            s\<lparr>current_state := TASK_INTERRUPTIBLE\<rparr>))"
  by (cases "vpids (p3_k s) p"; cases "task_mm (tasks (p3_k s) (the (vpids (p3_k s) p)))")
    (auto simp: p3_add_def add_to_memory_limit_list_def validate_memory_limit_def Let_def
      word_less_nat_alt word_le_nat_alt not_less)

theorem p3_add_correct_witness:
  "fst (p3_add demo_p3_env 42 299 demo_p3) = - 100 \<and> fst (p3_add demo_p3_env 42 300 demo_p3) = 0"
  using p3_add_correct [of demo_p3_env 42 299 demo_p3] p3_add_correct [of demo_p3_env 42 300 demo_p3]
  by (simp add: demo_p3_def demo_p3_env_def demo_defs)

end
