(* ===== verification/Seq_Printf.thy ===== *)
theory Seq_Printf
  imports Kernel_Prelude
begin

text \<open>
  The conversions of \<^verbatim>\<open>seq_printf\<close> that the modules use: unsigned decimals (\<^verbatim>\<open>%u\<close>, \<^verbatim>\<open>%lu\<close>,
  \<^verbatim>\<open>%llu\<close>), two digits with leading zero (\<^verbatim>\<open>%02u\<close>) and strings. A reader for decimals
  shows that the text determines the number.
\<close>

definition digit :: "nat \<Rightarrow> char" where
  "digit d = char_of (48 + d)"

function show_dec :: "nat \<Rightarrow> string" where
  "show_dec n = (if n < 10 then [digit n] else show_dec (n div 10) @ [digit (n mod 10)])"
  by auto

termination by (relation "measure id") auto

declare show_dec.simps [simp del]

definition show_02 :: "nat \<Rightarrow> string" where
  "show_02 n = (if n < 10 then digit 0 # show_dec n else show_dec n)"

definition digit_val :: "char \<Rightarrow> nat" where
  "digit_val c = of_char c - 48"

definition read_dec :: "string \<Rightarrow> nat" where
  "read_dec cs = foldl (\<lambda>v c. 10 * v + digit_val c) 0 cs"

definition is_digit :: "char \<Rightarrow> bool" where
  "is_digit c \<longleftrightarrow> 48 \<le> (of_char c :: nat) \<and> (of_char c :: nat) \<le> 57"

lemma of_char_digit: "d < 10 \<Longrightarrow> (of_char (digit d) :: nat) = 48 + d"
  by (simp add: digit_def)

lemma digit_val_digit [simp]: "d < 10 \<Longrightarrow> digit_val (digit d) = d"
  by (simp add: digit_val_def of_char_digit)

lemma is_digit_digit [simp]: "d < 10 \<Longrightarrow> is_digit (digit d)"
  by (simp add: is_digit_def of_char_digit)

lemma read_dec_snoc: "read_dec (cs @ [c]) = 10 * read_dec cs + digit_val c"
  by (simp add: read_dec_def)

lemma read_show_dec [simp]: "read_dec (show_dec n) = n"
proof (induction n rule: show_dec.induct)
  case (1 n)
  show ?case
  proof (cases "n < 10")
    case True
    then show ?thesis by (simp add: show_dec.simps [of n]) (simp add: read_dec_def)
  next
    case False
    then show ?thesis using 1 by (simp add: show_dec.simps [of n] read_dec_snoc)
  qed
qed

lemma show_dec_digits: "list_all is_digit (show_dec n)"
proof (induction n rule: show_dec.induct)
  case (1 n)
  then show ?case by (cases "n < 10") (simp_all add: show_dec.simps [of n])
qed

lemma show_dec_inj: "show_dec m = show_dec n \<longleftrightarrow> m = n"
  by (metis read_show_dec)

lemma read_show_02 [simp]: "read_dec (show_02 n) = n"
proof -
  have "read_dec (digit 0 # cs) = read_dec cs" for cs by (simp add: read_dec_def)
  then show ?thesis by (simp add: show_02_def)
qed

lemma length_show_02: "n < 100 \<Longrightarrow> length (show_02 n) = 2"
  by (auto simp: show_02_def show_dec.simps [of n] show_dec.simps [of "n div 10"])

text \<open>Reading a number up to the first character that is not a digit.\<close>

lemma takeWhile_digits:
  "\<not> is_digit c \<Longrightarrow> takeWhile is_digit (show_dec n @ c # cs) = show_dec n"
  "\<not> is_digit c \<Longrightarrow> dropWhile is_digit (show_dec n @ c # cs) = c # cs"
  using show_dec_digits [of n] by (simp_all add: takeWhile_append2 dropWhile_append2 list_all_iff)

lemma show_02_digits: "list_all is_digit (show_02 n)"
  by (simp add: show_02_def show_dec_digits)

lemma takeWhile_02:
  "\<not> is_digit c \<Longrightarrow> takeWhile is_digit (show_02 n @ c # cs) = show_02 n"
  using show_02_digits [of n] by (simp add: takeWhile_append2 list_all_iff)

abbreviation (input) quot :: char where "quot \<equiv> CHR 0x22"
abbreviation (input) nl :: char where "nl \<equiv> CHR 0x0A"

end
