(* ===== verification/Proc_Modules.thy ===== *)
theory Proc_Modules
  imports Seq_Printf Sys_Info
begin

text \<open>
  The three loadable modules under \<^verbatim>\<open>Modulos\<close>: CPU usage, RAM usage and disk space, each a file
  under \<^verbatim>\<open>/proc\<close> whose text is produced by one function. The directory is the list of the
  names registered; what a file's open allocates and its release frees is counted, so that the
  operation tables can be compared. The kernel's accounting, the file system and \<^verbatim>\<open>proc_create\<close>'s
  success are parameters.
\<close>

section \<open>Registration\<close>

record proc_ops =
  proc_lseek :: bool
  proc_release :: bool  \<comment> \<open>\<^verbatim>\<open>single_release\<close> is installed\<close>

record procfs =
  entries_of :: "(string \<times> proc_ops) list"
  seq_allocated :: nat  \<comment> \<open>structures of \<^verbatim>\<open>single_open\<close> not yet freed\<close>

definition proc_create :: "bool \<Rightarrow> string \<Rightarrow> proc_ops \<Rightarrow> procfs \<Rightarrow> bool \<times> procfs" where
  "proc_create ok name ops p =
     (if ok then (True, p\<lparr>entries_of := (name, ops) # entries_of p\<rparr>) else (False, p))"

definition remove_proc_entry :: "string \<Rightarrow> procfs \<Rightarrow> procfs" where
  "remove_proc_entry name p = p\<lparr>entries_of := filter (\<lambda>e. fst e \<noteq> name) (entries_of p)\<rparr>"

definition cpu_ops :: proc_ops where "cpu_ops = \<lparr>proc_lseek = True, proc_release = True\<rparr>"
definition ram_ops :: proc_ops where "ram_ops = \<lparr>proc_lseek = False, proc_release = False\<rparr>"
definition disk_ops :: proc_ops where "disk_ops = \<lparr>proc_lseek = True, proc_release = True\<rparr>"

definition cpu_init :: "bool \<Rightarrow> procfs \<Rightarrow> int \<times> procfs" where
  "cpu_init ok p = (case proc_create ok ''cpu_so2_201602404'' cpu_ops p of
     (entry, p1) \<Rightarrow> if \<not> entry then (- ENOMEM, p1) else (0, p1))"

definition cpu_exit :: "procfs \<Rightarrow> procfs" where
  "cpu_exit p = remove_proc_entry ''cpu_so2_201602404'' p"

definition ram_init :: "bool \<Rightarrow> procfs \<Rightarrow> int \<times> procfs" where
  "ram_init ok p = (0, snd (proc_create ok ''ram_so2_201602404'' ram_ops p))"

definition ram_exit :: "procfs \<Rightarrow> procfs" where
  "ram_exit p = remove_proc_entry ''ram_so2_201602404'' p"

definition disk_init :: "bool \<Rightarrow> procfs \<Rightarrow> int \<times> procfs" where
  "disk_init ok p = (case proc_create ok ''disk_so2_201602404'' disk_ops p of
     (entry, p1) \<Rightarrow> if \<not> entry then (- ENOMEM, p1) else (0, p1))"

definition disk_exit :: "procfs \<Rightarrow> procfs" where
  "disk_exit p = remove_proc_entry ''disk_so2_201602404'' p"

text \<open>Opening a file allocates the structure of \<^verbatim>\<open>single_open\<close>; closing it runs the table's release.\<close>

definition abrir_aproc :: "procfs \<Rightarrow> procfs" where
  "abrir_aproc p = p\<lparr>seq_allocated := seq_allocated p + 1\<rparr>"

definition proc_close :: "proc_ops \<Rightarrow> procfs \<Rightarrow> procfs" where
  "proc_close ops p = (if proc_release ops then p\<lparr>seq_allocated := seq_allocated p - 1\<rparr> else p)"

text \<open>
  What loading and unloading a module must do; a sound module also reports the failure to
  create its file.
\<close>

locale proc_module =
  fixes name :: string and init :: "bool \<Rightarrow> procfs \<Rightarrow> int \<times> procfs" and exit :: "procfs \<Rightarrow> procfs"
  assumes init_ok: "\<And>p. fst (init True p) = 0 \<and> name \<in> fst ` set (entries_of (snd (init True p)))"
    and init_exit: "\<And>ok p. name \<notin> fst ` set (entries_of p) \<Longrightarrow> exit (snd (init ok p)) = p"
begin

lemma reload: "name \<notin> fst ` set (entries_of p) \<Longrightarrow>
    name \<in> fst ` set (entries_of (snd (init True (exit (snd (init ok p))))))"
  by (simp add: init_exit init_ok)

end

locale sound_module = proc_module +
  assumes init_fail: "\<And>p. fst (init False p) < 0 \<and> snd (init False p) = p"
begin

lemma init_iff: "name \<notin> fst ` set (entries_of p) \<Longrightarrow>
    fst (init ok p) = 0 \<longleftrightarrow> name \<in> fst ` set (entries_of (snd (init ok p)))"
  using init_ok [of p] init_fail [of p] by (cases ok) auto

end

lemmas module_defs = cpu_init_def cpu_exit_def ram_init_def ram_exit_def disk_init_def disk_exit_def
  proc_create_def remove_proc_entry_def

lemma filter_fst_absent: "n \<notin> fst ` set xs \<Longrightarrow> filter (\<lambda>e. fst e \<noteq> n) xs = xs"
  by (intro filter_True) force

interpretation cpu_module: sound_module "''cpu_so2_201602404''" cpu_init cpu_exit
  by unfold_locales (simp_all add: module_defs filter_fst_absent)

interpretation disk_module: sound_module "''disk_so2_201602404''" disk_init disk_exit
  by unfold_locales (simp_all add: module_defs filter_fst_absent)

interpretation ram_module: proc_module "''ram_so2_201602404''" ram_init ram_exit
  by unfold_locales (simp_all add: module_defs filter_fst_absent)


section \<open>CPU usage\<close>


record cpu_state =
  prev_total :: ulong
  prev_idle :: ulong




text \<open>\<^verbatim>\<open>usage\<close> is an \<^verbatim>\<open>unsigned int\<close>: the quotient is truncated to 32 bits.\<close>

definition cpu_usage :: "ulong \<Rightarrow> ulong \<Rightarrow> cpu_state \<Rightarrow> u32" where
  "cpu_usage tot idle s =
     (if prev_total s \<noteq> 0 \<and> prev_idle s \<noteq> 0 then
        (let delta_total = tot - prev_total s;
             delta_idle = idle - prev_idle s
         in if delta_total > 0 then ucast ((10000 * (delta_total - delta_idle)) div delta_total) else 0)
      else 0)"

definition cpu_text :: "u32 \<Rightarrow> string" where
  "cpu_text usage = CHR ''{'' # nl # quot # ''Uso del CPU'' @ quot # '': '' @ show_dec (unat (usage div 100))
     @ ''.'' @ show_02 (unat (usage mod 100)) @ ''%'' @ nl # CHR ''}'' # [nl]"



section \<open>RAM usage\<close>

text \<open>The percentage divides by the total: \<open>None\<close> is the fault of a division by zero.\<close>

definition ram_text :: "ulong \<Rightarrow> ulong \<Rightarrow> ulong \<Rightarrow> ulong \<Rightarrow> string" where
  "ram_text tot used porcentaje libre =
     CHR ''{'' # quot # ''totalRam'' @ quot # '':'' @ show_dec (unat tot)
     @ '', '' @ quot # ''memoriaEnUso'' @ quot # '':'' @ show_dec (unat used)
     @ '', '' @ quot # ''porcentaje'' @ quot # '':'' @ show_dec (unat porcentaje)
     @ '', '' @ quot # ''libre'' @ quot # '':'' @ show_dec (unat libre) @ '' }'' @ [nl]"

definition ram_escribir_a_proc ::
  "(sysinfo \<Rightarrow> sysinfo) \<Rightarrow> sysinfo \<Rightarrow> ((int \<times> string) option) \<times> sysinfo" where
  "ram_escribir_a_proc meminfo inf0 =
     (let inf = meminfo inf0;
          unit = ucast (mem_unit inf) :: ulong;
          tot = totalram inf * unit;
          used = tot - (freeram inf + bufferram inf + sharedram inf) * unit;
          free = freeram inf * unit
      in if tot = 0 then (None, inf)
         else (Some (0, ram_text tot used ((used * 100) div tot) free), inf))"


section \<open>Disk space\<close>

record kstatfs =
  f_blocks :: ulong
  f_bfree :: ulong
  f_bavail :: ulong
  f_bsize :: ulong

record disk_env =
  kern_path :: "string \<Rightarrow> nat option"
  vfs_statfs :: "nat \<Rightarrow> kstatfs option"

text \<open>
  \<^verbatim>\<open>kern_path\<close> returns with a reference on the path, which is the caller's to drop; the state
  counts the references held on each path.
\<close>

definition disk_error :: "string \<Rightarrow> string \<Rightarrow> string" where
  "disk_error msg part = CHR ''{'' # nl # quot # ''error'' @ quot # '': '' @ quot # msg @ part @ quot # nl # CHR ''}'' # [nl]"

definition particion :: string where
  "particion = ''partici'' @ CHR 0xC3 # CHR 0xB3 # ''n: ''"

definition disk_text :: "string \<Rightarrow> ulong \<Rightarrow> ulong \<Rightarrow> ulong \<Rightarrow> string" where
  "disk_text part tot free avail =
     CHR ''{'' # nl # quot # ''partition'' @ quot # '': '' @ quot # part @ quot # '','' @ nl #
     quot # ''total_space_gb'' @ quot # '': '' @ show_dec (unat tot) @ '','' @ nl #
     quot # ''free_space_gb'' @ quot # '': '' @ show_dec (unat free) @ '','' @ nl #
     quot # ''available_space_gb'' @ quot # '': '' @ show_dec (unat avail) @ nl # CHR ''}'' # [nl]"

definition space_gb :: "ulong \<Rightarrow> ulong \<Rightarrow> ulong" where
  "space_gb blocks bsize = drop_bit 30 (blocks * bsize)"

definition write_storage_stats ::
  "disk_env \<Rightarrow> string \<Rightarrow> (nat \<Rightarrow> nat) \<Rightarrow> int \<times> string \<times> (nat \<Rightarrow> nat)" where
  "write_storage_stats E part refs =
     (case kern_path E part of
        None \<Rightarrow> (0, disk_error (''No se pudo acceder a la '' @ particion) part, refs)
      | Some path \<Rightarrow>
        (let refs1 = refs(path := refs path + 1) in
         case vfs_statfs E path of
           None \<Rightarrow> (0, disk_error (''No se pudieron obtener estad'' @ CHR 0xC3 # CHR 0xAD #
                      ''sticas de la '' @ particion) part, refs1)
         | Some stats \<Rightarrow>
           (0, disk_text part (space_gb (f_blocks stats) (f_bsize stats))
                 (space_gb (f_bfree stats) (f_bsize stats))
                 (space_gb (f_bavail stats) (f_bsize stats)), refs1)))"

section \<open>Properties\<close>

text \<open>Reading the number of hundredths back from the text.\<close>

definition cpu_parse :: "string \<Rightarrow> nat" where
  "cpu_parse cs =
     (let body = drop 17 cs;
          whole = takeWhile is_digit body;
          frac = takeWhile is_digit (drop (length whole + 1) body)
      in 100 * read_dec whole + read_dec frac)"

lemma cpu_parse_text: "cpu_parse (cpu_text u) = unat u"
proof -
  let ?r = "show_02 (unat (u mod 100)) @ ''%'' @ nl # CHR ''}'' # [nl]"
  have "drop 17 (cpu_text u) = show_dec (unat (u div 100)) @ CHR ''.'' # ?r"
    by (simp add: cpu_text_def)
  moreover have "\<not> is_digit CHR ''.''" "\<not> is_digit CHR ''%''" by (simp_all add: is_digit_def)
  ultimately have "cpu_parse (cpu_text u) = 100 * unat (u div 100) + unat (u mod 100)"
    unfolding cpu_parse_def Let_def by (simp add: takeWhile_digits takeWhile_02)
  then show ?thesis by (simp add: unat_div unat_mod)
qed








text \<open>
  The product with 10000 is computed in 64 bits, and the counters are nanoseconds: when the readings are \<open>2 * 10 ^ 15\<close>
  nanoseconds of processor time apart (some 23 days on one processor, 6 on four) and nothing was idle, the file
  shows 7.76 instead of 100.00.
\<close>

lemma cpu_usage_wraps:
  "cpu_parse (cpu_text (cpu_usage (1 + 2000000000000000) 1 \<lparr>prev_total = 1, prev_idle = 1\<rparr>)) = 776"
  unfolding cpu_parse_text by (simp add: cpu_usage_def Let_def)

text \<open>
  When the parts \<^verbatim>\<open>si_meminfo\<close> reports fit in the total and nothing overflows, the RAM file
  shows bytes: the used bytes and the free, buffer and shared bytes add up to the total, and
  the percentage is the used share, at most 100. A total of zero is a division by zero.
\<close>

theorem ram_file_shows_usage:
  assumes si: "si = meminfo inf0" and u: "u = unat (mem_unit si)"
    and pos: "0 < unat (totalram si) * u" and fits: "100 * (unat (totalram si) * u) < 2 ^ 64"
    and parts: "unat (freeram si) + unat (bufferram si) + unat (sharedram si) \<le> unat (totalram si)"
  shows "\<exists>tot used pct free. ram_escribir_a_proc meminfo inf0 = (Some (0, ram_text tot used pct free), si)
    \<and> unat tot = unat (totalram si) * u \<and> unat free = unat (freeram si) * u
    \<and> unat used + (unat (freeram si) + unat (bufferram si) + unat (sharedram si)) * u = unat tot
    \<and> unat pct = unat used * 100 div unat tot \<and> unat pct \<le> 100"
proof -
  let ?U = "ucast (mem_unit si) :: ulong" and ?p = "freeram si + bufferram si + sharedram si"
  have "unat (mem_unit si) < 2 ^ 64" using unat_word32_lt [of "mem_unit si"] by simp
  then have U: "unat ?U = u" unfolding u by (simp add: unsigned_ucast_eq take_bit_eq_mod)
  have p: "unat ?p = unat (freeram si) + unat (bufferram si) + unat (sharedram si)"
    using parts unat_word64_lt [of "totalram si"] by (simp add: unat_add_64)
  have T: "unat (totalram si * ?U) = unat (totalram si) * u"
    using fits by (intro trans [OF unat_mult_64]; unfold U) (linarith | rule refl)+
  have le: "unat ?p * u \<le> unat (totalram si) * u" using parts p by (simp add: mult_le_mono1)
  then have P: "unat (?p * ?U) = unat ?p * u"
    using fits by (intro trans [OF unat_mult_64]; unfold U) (linarith | rule refl)+
  have F: "unat (freeram si * ?U) = unat (freeram si) * u"
    using fits le mult_le_mono1 [of "unat (freeram si)" "unat ?p" u] p
    by (intro trans [OF unat_mult_64]; unfold U) (linarith | rule refl)+
  let ?used = "totalram si * ?U - ?p * ?U"
  have used: "unat ?used = unat (totalram si) * u - unat ?p * u"
    using T P le by (subst unat_sub_64) (simp_all add: word_le_nat_alt)
  have "unat ?used * 100 < 2 ^ 64" unfolding used using fits by linarith
  then have h: "unat (?used * 100) = unat ?used * 100" by (intro trans [OF unat_mult_64]) simp_all
  have pct: "unat (?used * 100 div (totalram si * ?U)) = unat ?used * 100 div unat (totalram si * ?U)"
    by (simp only: unat_div h)
  have "unat ?used * 100 div unat (totalram si * ?U) \<le> unat (totalram si * ?U) * 100 div unat (totalram si * ?U)"
    using used T by (intro div_le_mono) simp
  also have "\<dots> \<le> 100" by simp
  finally have "unat (?used * 100 div (totalram si * ?U)) \<le> 100" unfolding pct .
  moreover have "totalram si * ?U \<noteq> 0" using T pos by (metis unat_0 less_irrefl)
  then have "ram_escribir_a_proc meminfo inf0 = (Some (0, ram_text (totalram si * ?U) ?used
      (?used * 100 div (totalram si * ?U)) (freeram si * ?U)), si)"
    by (simp add: ram_escribir_a_proc_def si [symmetric] Let_def)
  ultimately show ?thesis using T F used pct p le by (intro exI conjI) (assumption | simp)+
qed

theorem ram_file_shows_usage_witness:
  "\<exists>tot used pct free. fst (ram_escribir_a_proc (\<lambda>_. zero_sysinfo\<lparr>totalram := 1000, freeram := 400,
     bufferram := 50, sharedram := 50, mem_unit := 4096\<rparr>) zero_sysinfo) = Some (0, ram_text tot used pct free)
   \<and> unat tot = 4096000 \<and> unat used = 2048000 \<and> unat pct = 50"
proof -
  let ?i = "zero_sysinfo\<lparr>totalram := 1000, freeram := 400, bufferram := 50, sharedram := 50,
    mem_unit := 4096\<rparr>"
  obtain tot used pct free where
    run: "ram_escribir_a_proc (\<lambda>_. ?i) zero_sysinfo = (Some (0, ram_text tot used pct free), ?i)"
    and v: "unat tot = 4096000" "unat used + 2048000 = unat tot" "unat pct = unat used * 100 div unat tot"
    using ram_file_shows_usage [of ?i "\<lambda>_. ?i" zero_sysinfo 4096] by auto
  from v have "unat used = 2048000" by linarith
  with run v show ?thesis by (intro exI [of _ tot] exI [of _ used] exI [of _ pct] exI [of _ free]) simp
qed

fun disk_reads :: "disk_env \<Rightarrow> string \<Rightarrow> nat \<Rightarrow> (nat \<Rightarrow> nat) \<Rightarrow> nat \<Rightarrow> nat" where
  "disk_reads E part 0 refs = refs"
| "disk_reads E part (Suc n) refs = disk_reads E part n (snd (snd (write_storage_stats E part refs)))"

text \<open>
  The disk file shows whole gibibytes, rounded down, as long as the byte counts fit in 64
  bits. Every reading whose path resolves keeps one more reference to it: after \<open>n\<close> readings
  there are \<open>n\<close> references that nothing releases.
\<close>

theorem disk_file_shows_space:
  assumes path: "kern_path E part = Some path" and st: "vfs_statfs E path = Some st"
    and fits: "unat (f_blocks st) * unat (f_bsize st) < 2 ^ 64" "f_bfree st \<le> f_blocks st"
      "f_bavail st \<le> f_bfree st"
  shows "\<exists>tot free avail. write_storage_stats E part refs =
      (0, disk_text part tot free avail, refs(path := refs path + 1))
    \<and> unat tot = unat (f_blocks st) * unat (f_bsize st) div 2 ^ 30
    \<and> unat free = unat (f_bfree st) * unat (f_bsize st) div 2 ^ 30
    \<and> avail \<le> free \<and> free \<le> tot
    \<and> disk_reads E part n refs path = refs path + n"
proof -
  have le: "unat (f_bavail st) \<le> unat (f_bfree st)" "unat (f_bfree st) \<le> unat (f_blocks st)"
    using fits(2,3) by (simp_all add: word_le_nat_alt)
  then have m: "unat (f_bfree st) * unat (f_bsize st) \<le> unat (f_blocks st) * unat (f_bsize st)"
    "unat (f_bavail st) * unat (f_bsize st) \<le> unat (f_bfree st) * unat (f_bsize st)"
    by (simp_all add: mult_le_mono1)
  then have gb: "unat (space_gb (f_blocks st) (f_bsize st)) = unat (f_blocks st) * unat (f_bsize st) div 2 ^ 30"
    "unat (space_gb (f_bfree st) (f_bsize st)) = unat (f_bfree st) * unat (f_bsize st) div 2 ^ 30"
    "unat (space_gb (f_bavail st) (f_bsize st)) = unat (f_bavail st) * unat (f_bsize st) div 2 ^ 30"
    using fits(1) unfolding space_gb_def unat_drop_bit_64 by (auto simp only: unat_mult_64 le_less_trans)
  have "space_gb (f_bavail st) (f_bsize st) \<le> space_gb (f_bfree st) (f_bsize st)"
    "space_gb (f_bfree st) (f_bsize st) \<le> space_gb (f_blocks st) (f_bsize st)"
    unfolding word_le_nat_alt gb using m by (simp_all add: div_le_mono)
  moreover have "disk_reads E part n refs path = refs path + n"
    using path st by (induction n arbitrary: refs) (simp_all add: write_storage_stats_def Let_def)
  ultimately show ?thesis using path st gb
    by (intro exI [of _ "space_gb (f_blocks st) (f_bsize st)"] exI [of _ "space_gb (f_bfree st) (f_bsize st)"]
        exI [of _ "space_gb (f_bavail st) (f_bsize st)"]) (simp add: write_storage_stats_def Let_def)
qed

theorem disk_file_shows_space_witness:
  "disk_reads \<lparr>kern_path = (\<lambda>_. Some 1),
      vfs_statfs = (\<lambda>_. Some \<lparr>f_blocks = 1000000, f_bfree = 600000, f_bavail = 500000, f_bsize = 4096\<rparr>)\<rparr>
     ''/'' 5 (\<lambda>_. 0) 1 = 5"
  using disk_file_shows_space [of "\<lparr>kern_path = (\<lambda>_. Some 1),
      vfs_statfs = (\<lambda>_. Some \<lparr>f_blocks = 1000000, f_bfree = 600000, f_bavail = 500000, f_bsize = 4096\<rparr>)\<rparr>"
      "''/''" 1 "\<lparr>f_blocks = 1000000, f_bfree = 600000, f_bavail = 500000, f_bsize = 4096\<rparr>" "\<lambda>_. 0" 5]
  by auto

text \<open>
  Loading and unloading any of the modules leaves the directory as it was, and each can be
  loaded again. The CPU and disk modules load exactly when their file could be created; the RAM
  module reports success without a file, and its operation table has no release, so every
  opening of its file leaves an allocation behind, unlike the other two.
\<close>

theorem proc_modules_lifecycle:
  assumes "''cpu_so2_201602404'' \<notin> fst ` set (entries_of p)"
    and "''ram_so2_201602404'' \<notin> fst ` set (entries_of p)"
    and "''disk_so2_201602404'' \<notin> fst ` set (entries_of p)"
  shows "cpu_exit (snd (cpu_init ok p)) = p \<and> ram_exit (snd (ram_init ok p)) = p
    \<and> disk_exit (snd (disk_init ok p)) = p
    \<and> (fst (cpu_init ok p) = 0 \<longleftrightarrow> ''cpu_so2_201602404'' \<in> fst ` set (entries_of (snd (cpu_init ok p))))
    \<and> (fst (disk_init ok p) = 0 \<longleftrightarrow> ''disk_so2_201602404'' \<in> fst ` set (entries_of (snd (disk_init ok p))))
    \<and> ram_init False p = (0, p)
    \<and> proc_close cpu_ops (abrir_aproc p) = p \<and> proc_close disk_ops (abrir_aproc p) = p
    \<and> seq_allocated (proc_close ram_ops (abrir_aproc p)) = seq_allocated p + 1"
  using assms cpu_module.init_exit [of p ok] ram_module.init_exit [of p ok] disk_module.init_exit [of p ok]
    cpu_module.init_iff [of p ok] disk_module.init_iff [of p ok]
  by (simp add: proc_close_def abrir_aproc_def cpu_ops_def ram_ops_def disk_ops_def ram_init_def
      proc_create_def)

theorem proc_modules_lifecycle_witness:
  "ram_init False \<lparr>entries_of = [], seq_allocated = 0\<rparr> = (0, \<lparr>entries_of = [], seq_allocated = 0\<rparr>)"
  using proc_modules_lifecycle [of "\<lparr>entries_of = [], seq_allocated = 0\<rparr>" True] by simp

end
