(* ===== verification/Step_System.thy ===== *)
theory Step_System
  imports Kernel_Prelude
begin

text \<open>
  A component as a machine whose steps are system calls. What the steps can do to the state is
  a preorder: if every single call respects it, so does every sequence of calls. The locale
  proves this once; the components that confine privileges interpret it.
\<close>

fun run_calls :: "('c \<Rightarrow> 's \<Rightarrow> 's) \<Rightarrow> 'c list \<Rightarrow> 's \<Rightarrow> 's" where
  "run_calls step [] s = s"
| "run_calls step (x # xs) s = run_calls step xs (step x s)"

locale confined_steps =
  fixes step :: "'c \<Rightarrow> 's \<Rightarrow> 's" and within :: "'s \<Rightarrow> 's \<Rightarrow> bool"
  assumes within_refl: "\<And>s. within s s"
    and within_trans: "\<And>s t u. within s t \<Longrightarrow> within t u \<Longrightarrow> within s u"
    and step_within: "\<And>x s. within s (step x s)"
begin

lemma run_within: "within s (run_calls step xs s)"
proof (induction xs arbitrary: s)
  case (Cons x xs)
  then show ?case using step_within [of s x] by (auto intro: within_trans)
qed (simp add: within_refl)

end

text \<open>An invariant of every call is an invariant of every sequence of calls.\<close>

locale invariant_steps =
  fixes step :: "'c \<Rightarrow> 's \<Rightarrow> 's" and inv :: "'s \<Rightarrow> bool"
  assumes step_inv: "\<And>x s. inv s \<Longrightarrow> inv (step x s)"
begin

lemma run_inv: "inv s \<Longrightarrow> inv (run_calls step xs s)"
  by (induction xs arbitrary: s) (auto intro: step_inv)

sublocale confined_steps step "\<lambda>s t. inv s \<longrightarrow> inv t"
  by unfold_locales (auto intro: step_inv)

end

text \<open>Leaving a chain of checks: either a check stopped the call, or it went on.\<close>

lemma branchE:
  assumes "(if P then X else Y) = z"
  obtains (stop) "P" "X = z" | (go) "\<not> P" "Y = z"
  using assms by (cases P) auto

lemma guardE:
  assumes "(if P then (e, s) else X) = (r, s')"
  obtains (stop) "P" "r = e" "s' = s" | (go) "\<not> P" "X = (r, s')"
  using assms by (cases P) auto

end
