(* ===== verification/Sys_Creds.thy ===== *)
theory Sys_Creds
  imports Kernel_Tasks Step_System
begin

text \<open>
  The user and group ids of the current task: \<^verbatim>\<open>setreuid\<close>, \<^verbatim>\<open>setuid\<close>, \<^verbatim>\<open>setresuid\<close>,
  \<^verbatim>\<open>setfsuid\<close>, the same for groups, and the calls that read the ids (\<^verbatim>\<open>kernel/sys.c\<close>,
  lines 357 to 951 and 990 to 1012). Namespace translation, the capability test, the security
  hooks and the allocators are parameters. A call works on a copy of the credentials that is
  committed at the end, or dropped on an error.
\<close>

section \<open>Credentials\<close>

record cred =
  uid :: u32
  gid :: u32
  suid :: u32
  sgid :: u32
  euid :: u32
  egid :: u32
  fsuid :: u32
  fsgid :: u32
  user :: nat
  user_ns :: nat
  ucounts :: nat
  cred_caps :: nat

datatype setid_cap = CAP_SETUID | CAP_SETGID
datatype lsm_setid = LSM_SETID_ID | LSM_SETID_RE | LSM_SETID_RES | LSM_SETID_FS

text \<open>
  The hooks that see the new credentials may change capabilities (\<^verbatim>\<open>security_task_fix_*\<close>) and
  the counters object (\<^verbatim>\<open>set_cred_ucounts\<close>); they return those with their result code.
\<close>

record cred_env =
  make_kuid :: "nat \<Rightarrow> u32 \<Rightarrow> u32"
  make_kgid :: "nat \<Rightarrow> u32 \<Rightarrow> u32"
  from_kuid_munged :: "nat \<Rightarrow> u32 \<Rightarrow> u32"
  from_kgid_munged :: "nat \<Rightarrow> u32 \<Rightarrow> u32"
  ns_capable_setid :: "cred \<Rightarrow> setid_cap \<Rightarrow> bool"
  prepare_creds_ok :: "cred \<Rightarrow> bool"
  alloc_uid :: "u32 \<Rightarrow> nat option"
  fix_setuid :: "cred \<Rightarrow> cred \<Rightarrow> lsm_setid \<Rightarrow> int \<times> nat"
  fix_setgid :: "cred \<Rightarrow> cred \<Rightarrow> lsm_setid \<Rightarrow> int \<times> nat"
  set_cred_ucounts :: "cred \<Rightarrow> int \<times> nat"
  overlimit_nproc :: "nat \<Rightarrow> bool"

record cred_state =
  cur :: cred
  nproc_exceeded :: bool

abbreviation (input) INVALID_ID :: u32 where "INVALID_ID \<equiv> - 1"
abbreviation (input) INIT_USER :: nat where "INIT_USER \<equiv> 0"

definition id_valid :: "u32 \<Rightarrow> bool" where
  "id_valid k \<longleftrightarrow> k \<noteq> INVALID_ID"

definition commit_creds :: "cred \<Rightarrow> cred_state \<Rightarrow> int \<times> cred_state" where
  "commit_creds new s = (0, s\<lparr>cur := new\<rparr>)"

definition set_user :: "cred_env \<Rightarrow> cred \<Rightarrow> int \<times> cred" where
  "set_user E new = (case alloc_uid E (uid new) of
     None \<Rightarrow> (- EAGAIN, new)
   | Some new_user \<Rightarrow> (0, new\<lparr>user := new_user\<rparr>))"

definition flag_nproc_exceeded :: "cred_env \<Rightarrow> cred \<Rightarrow> cred_state \<Rightarrow> cred_state" where
  "flag_nproc_exceeded E new s =
     (if ucounts new = ucounts (cur s) then s
      else s\<lparr>nproc_exceeded := (overlimit_nproc E (ucounts new) \<and> user new \<noteq> INIT_USER)\<rparr>)"

text \<open>The common end of the three uid calls: security hook, counters, limit flag, commit.\<close>

definition finish_setuid :: "cred_env \<Rightarrow> lsm_setid \<Rightarrow> cred \<Rightarrow> cred_state \<Rightarrow> int \<times> cred_state" where
  "finish_setuid E flag new s =
     (case fix_setuid E new (cur s) flag of (retval, c) \<Rightarrow>
        if retval < 0 then (retval, s)
        else
          (let new1 = new\<lparr>cred_caps := c\<rparr> in
           case set_cred_ucounts E new1 of (retval, u) \<Rightarrow>
             if retval < 0 then (retval, s)
             else
               (let new2 = new1\<lparr>ucounts := u\<rparr>
                in commit_creds new2 (flag_nproc_exceeded E new2 s))))"

definition finish_setgid :: "cred_env \<Rightarrow> lsm_setid \<Rightarrow> cred \<Rightarrow> cred_state \<Rightarrow> int \<times> cred_state" where
  "finish_setgid E flag new s =
     (case fix_setgid E new (cur s) flag of (retval, c) \<Rightarrow>
        if retval < 0 then (retval, s) else commit_creds (new\<lparr>cred_caps := c\<rparr>) s)"


section \<open>Groups\<close>

text \<open>The credentials \<^verbatim>\<open>setregid\<close> builds once the ids are known to be permitted.\<close>

definition setregid_creds :: "u32 \<Rightarrow> u32 \<Rightarrow> u32 \<Rightarrow> u32 \<Rightarrow> cred \<Rightarrow> cred" where
  "setregid_creds rgid egid' krgid kegid old =
     (let new = (if rgid \<noteq> - 1 then old\<lparr>gid := krgid\<rparr> else old);
          new = (if egid' \<noteq> - 1 then new\<lparr>egid := kegid\<rparr> else new);
          new = (if rgid \<noteq> - 1 \<or> (egid' \<noteq> - 1 \<and> kegid \<noteq> gid old)
                 then new\<lparr>sgid := egid new\<rparr> else new)
      in new\<lparr>fsgid := egid new\<rparr>)"

definition sys_setregid :: "cred_env \<Rightarrow> u32 \<Rightarrow> u32 \<Rightarrow> cred_state \<Rightarrow> int \<times> cred_state" where
  "sys_setregid E rgid egid' s =
     (let old = cur s;
          krgid = make_kgid E (user_ns old) rgid;
          kegid = make_kgid E (user_ns old) egid'
      in if rgid \<noteq> - 1 \<and> \<not> id_valid krgid then (- EINVAL, s)
         else if egid' \<noteq> - 1 \<and> \<not> id_valid kegid then (- EINVAL, s)
         else if \<not> prepare_creds_ok E old then (- ENOMEM, s)
         else if rgid \<noteq> - 1 \<and> \<not> (gid old = krgid \<or> egid old = krgid
                   \<or> ns_capable_setid E old CAP_SETGID) then (- EPERM, s)
         else if egid' \<noteq> - 1 \<and> \<not> (gid old = kegid \<or> egid old = kegid \<or> sgid old = kegid
                   \<or> ns_capable_setid E old CAP_SETGID) then (- EPERM, s)
         else
           finish_setgid E LSM_SETID_RE (setregid_creds rgid egid' krgid kegid old) s)"

definition sys_setgid :: "cred_env \<Rightarrow> u32 \<Rightarrow> cred_state \<Rightarrow> int \<times> cred_state" where
  "sys_setgid E g s =
     (let old = cur s;
          kgid = make_kgid E (user_ns old) g
      in if \<not> id_valid kgid then (- EINVAL, s)
         else if \<not> prepare_creds_ok E old then (- ENOMEM, s)
         else if ns_capable_setid E old CAP_SETGID then
           finish_setgid E LSM_SETID_ID (old\<lparr>gid := kgid, egid := kgid, sgid := kgid, fsgid := kgid\<rparr>) s
         else if kgid = gid old \<or> kgid = sgid old then
           finish_setgid E LSM_SETID_ID (old\<lparr>egid := kgid, fsgid := kgid\<rparr>) s
         else (- EPERM, s))"

definition setresgid_creds :: "u32 \<Rightarrow> u32 \<Rightarrow> u32 \<Rightarrow> u32 \<Rightarrow> u32 \<Rightarrow> u32 \<Rightarrow> cred \<Rightarrow> cred" where
  "setresgid_creds rgid egid' sgid' krgid kegid ksgid old =
     (let new = (if rgid \<noteq> - 1 then old\<lparr>gid := krgid\<rparr> else old);
          new = (if egid' \<noteq> - 1 then new\<lparr>egid := kegid\<rparr> else new);
          new = (if sgid' \<noteq> - 1 then new\<lparr>sgid := ksgid\<rparr> else new)
      in new\<lparr>fsgid := egid new\<rparr>)"

text \<open>An id that is asked for and that the task does not hold yet.\<close>

definition id_new :: "u32 \<Rightarrow> u32 \<Rightarrow> u32 \<Rightarrow> u32 \<Rightarrow> u32 \<Rightarrow> bool" where
  "id_new arg k r e t \<longleftrightarrow> arg \<noteq> - 1 \<and> k \<noteq> r \<and> k \<noteq> e \<and> k \<noteq> t"

definition sys_setresgid :: "cred_env \<Rightarrow> u32 \<Rightarrow> u32 \<Rightarrow> u32 \<Rightarrow> cred_state \<Rightarrow> int \<times> cred_state" where
  "sys_setresgid E rgid egid' sgid' s =
     (let old = cur s;
          krgid = make_kgid E (user_ns old) rgid;
          kegid = make_kgid E (user_ns old) egid';
          ksgid = make_kgid E (user_ns old) sgid'
      in if rgid \<noteq> - 1 \<and> \<not> id_valid krgid then (- EINVAL, s)
         else if egid' \<noteq> - 1 \<and> \<not> id_valid kegid then (- EINVAL, s)
         else if sgid' \<noteq> - 1 \<and> \<not> id_valid ksgid then (- EINVAL, s)
         else if (rgid = - 1 \<or> krgid = gid old)
                 \<and> (egid' = - 1 \<or> (kegid = egid old \<and> kegid = fsgid old))
                 \<and> (sgid' = - 1 \<or> ksgid = sgid old) then (0, s)
         else
           (let rgid_new = id_new rgid krgid (gid old) (egid old) (sgid old);
                egid_new = id_new egid' kegid (gid old) (egid old) (sgid old);
                sgid_new = id_new sgid' ksgid (gid old) (egid old) (sgid old)
            in if (rgid_new \<or> egid_new \<or> sgid_new) \<and> \<not> ns_capable_setid E old CAP_SETGID
               then (- EPERM, s)
               else if \<not> prepare_creds_ok E old then (- ENOMEM, s)
               else
                 finish_setgid E LSM_SETID_RES (setresgid_creds rgid egid' sgid' krgid kegid ksgid old) s))"

text \<open>The file-system ids always return the old value, whatever happened.\<close>

definition sys_setfsgid :: "cred_env \<Rightarrow> u32 \<Rightarrow> cred_state \<Rightarrow> u32 \<times> cred_state" where
  "sys_setfsgid E g s =
     (let old = cur s;
          old_fsgid = from_kgid_munged E (user_ns old) (fsgid old);
          kgid = make_kgid E (user_ns old) g
      in if \<not> id_valid kgid then (old_fsgid, s)
         else if \<not> prepare_creds_ok E old then (old_fsgid, s)
         else if (kgid = gid old \<or> kgid = egid old \<or> kgid = sgid old \<or> kgid = fsgid old
                  \<or> ns_capable_setid E old CAP_SETGID) \<and> kgid \<noteq> fsgid old then
           (let new = old\<lparr>fsgid := kgid\<rparr> in
            case fix_setgid E new old LSM_SETID_FS of (r, c) \<Rightarrow>
              if r = 0 then (old_fsgid, snd (commit_creds (new\<lparr>cred_caps := c\<rparr>) s))
              else (old_fsgid, s))
         else (old_fsgid, s))"


section \<open>Users\<close>

text \<open>A change of the real uid needs the accounting structure of the new user.\<close>

definition set_new_user :: "cred_env \<Rightarrow> cred \<Rightarrow> cred \<Rightarrow> int \<times> cred" where
  "set_new_user E old new = (if uid new \<noteq> uid old then set_user E new else (0, new))"

definition setreuid_ids :: "u32 \<Rightarrow> u32 \<Rightarrow> u32 \<Rightarrow> u32 \<Rightarrow> cred \<Rightarrow> cred" where
  "setreuid_ids ruid euid' kruid keuid old =
     (let new = (if ruid \<noteq> - 1 then old\<lparr>uid := kruid\<rparr> else old)
      in if euid' \<noteq> - 1 then new\<lparr>euid := keuid\<rparr> else new)"

definition setreuid_saved :: "u32 \<Rightarrow> u32 \<Rightarrow> u32 \<Rightarrow> cred \<Rightarrow> cred \<Rightarrow> cred" where
  "setreuid_saved ruid euid' keuid old new =
     (let new = (if ruid \<noteq> - 1 \<or> (euid' \<noteq> - 1 \<and> keuid \<noteq> uid old) then new\<lparr>suid := euid new\<rparr> else new)
      in new\<lparr>fsuid := euid new\<rparr>)"

definition sys_setreuid :: "cred_env \<Rightarrow> u32 \<Rightarrow> u32 \<Rightarrow> cred_state \<Rightarrow> int \<times> cred_state" where
  "sys_setreuid E ruid euid' s =
     (let old = cur s;
          kruid = make_kuid E (user_ns old) ruid;
          keuid = make_kuid E (user_ns old) euid'
      in if ruid \<noteq> - 1 \<and> \<not> id_valid kruid then (- EINVAL, s)
         else if euid' \<noteq> - 1 \<and> \<not> id_valid keuid then (- EINVAL, s)
         else if \<not> prepare_creds_ok E old then (- ENOMEM, s)
         else if ruid \<noteq> - 1 \<and> uid old \<noteq> kruid \<and> euid old \<noteq> kruid
                 \<and> \<not> ns_capable_setid E old CAP_SETUID then (- EPERM, s)
         else if euid' \<noteq> - 1 \<and> uid old \<noteq> keuid \<and> euid old \<noteq> keuid \<and> suid old \<noteq> keuid
                 \<and> \<not> ns_capable_setid E old CAP_SETUID then (- EPERM, s)
         else
           (case set_new_user E old (setreuid_ids ruid euid' kruid keuid old) of (retval, new) \<Rightarrow>
              if retval < 0 then (retval, s)
              else finish_setuid E LSM_SETID_RE (setreuid_saved ruid euid' keuid old new) s))"

definition sys_setuid :: "cred_env \<Rightarrow> u32 \<Rightarrow> cred_state \<Rightarrow> int \<times> cred_state" where
  "sys_setuid E u s =
     (let old = cur s;
          kuid = make_kuid E (user_ns old) u
      in if \<not> id_valid kuid then (- EINVAL, s)
         else if \<not> prepare_creds_ok E old then (- ENOMEM, s)
         else if ns_capable_setid E old CAP_SETUID then
           (case set_new_user E old (old\<lparr>uid := kuid, suid := kuid\<rparr>) of (retval, new) \<Rightarrow>
              if retval < 0 then (retval, s)
              else finish_setuid E LSM_SETID_ID (new\<lparr>euid := kuid, fsuid := kuid\<rparr>) s)
         else if kuid \<noteq> uid old \<and> kuid \<noteq> suid old then (- EPERM, s)
         else finish_setuid E LSM_SETID_ID (old\<lparr>euid := kuid, fsuid := kuid\<rparr>) s)"

definition setresuid_rest :: "u32 \<Rightarrow> u32 \<Rightarrow> u32 \<Rightarrow> u32 \<Rightarrow> cred \<Rightarrow> cred" where
  "setresuid_rest euid' suid' keuid ksuid new =
     (let new = (if euid' \<noteq> - 1 then new\<lparr>euid := keuid\<rparr> else new);
          new = (if suid' \<noteq> - 1 then new\<lparr>suid := ksuid\<rparr> else new)
      in new\<lparr>fsuid := euid new\<rparr>)"

definition sys_setresuid :: "cred_env \<Rightarrow> u32 \<Rightarrow> u32 \<Rightarrow> u32 \<Rightarrow> cred_state \<Rightarrow> int \<times> cred_state" where
  "sys_setresuid E ruid euid' suid' s =
     (let old = cur s;
          kruid = make_kuid E (user_ns old) ruid;
          keuid = make_kuid E (user_ns old) euid';
          ksuid = make_kuid E (user_ns old) suid'
      in if ruid \<noteq> - 1 \<and> \<not> id_valid kruid then (- EINVAL, s)
         else if euid' \<noteq> - 1 \<and> \<not> id_valid keuid then (- EINVAL, s)
         else if suid' \<noteq> - 1 \<and> \<not> id_valid ksuid then (- EINVAL, s)
         else if (ruid = - 1 \<or> kruid = uid old)
                 \<and> (euid' = - 1 \<or> (keuid = euid old \<and> keuid = fsuid old))
                 \<and> (suid' = - 1 \<or> ksuid = suid old) then (0, s)
         else
           (let ruid_new = id_new ruid kruid (uid old) (euid old) (suid old);
                euid_new = id_new euid' keuid (uid old) (euid old) (suid old);
                suid_new = id_new suid' ksuid (uid old) (euid old) (suid old)
            in if (ruid_new \<or> euid_new \<or> suid_new) \<and> \<not> ns_capable_setid E old CAP_SETUID
               then (- EPERM, s)
               else if \<not> prepare_creds_ok E old then (- ENOMEM, s)
               else
                 (case set_new_user E old (if ruid \<noteq> - 1 then old\<lparr>uid := kruid\<rparr> else old) of (retval, new) \<Rightarrow>
                    if retval < 0 then (retval, s)
                    else finish_setuid E LSM_SETID_RES (setresuid_rest euid' suid' keuid ksuid new) s)))"

definition sys_setfsuid :: "cred_env \<Rightarrow> u32 \<Rightarrow> cred_state \<Rightarrow> u32 \<times> cred_state" where
  "sys_setfsuid E u s =
     (let old = cur s;
          old_fsuid = from_kuid_munged E (user_ns old) (fsuid old);
          kuid = make_kuid E (user_ns old) u
      in if \<not> id_valid kuid then (old_fsuid, s)
         else if \<not> prepare_creds_ok E old then (old_fsuid, s)
         else if (kuid = uid old \<or> kuid = euid old \<or> kuid = suid old \<or> kuid = fsuid old
                  \<or> ns_capable_setid E old CAP_SETUID) \<and> kuid \<noteq> fsuid old then
           (let new = old\<lparr>fsuid := kuid\<rparr> in
            case fix_setuid E new old LSM_SETID_FS of (r, c) \<Rightarrow>
              if r = 0 then (old_fsuid, snd (commit_creds (new\<lparr>cred_caps := c\<rparr>) s))
              else (old_fsuid, s))
         else (old_fsuid, s))"


section \<open>Reading the ids\<close>

definition enc_id :: "u32 \<Rightarrow> byte list" where
  "enc_id w = le_bytes 4 (unat w)"

definition dec_id :: "byte list \<Rightarrow> u32" where
  "dec_id bs = of_nat (le_val bs)"

text \<open>Three stores in order; the first failure ends the call.\<close>

definition put_three :: "uaccess \<Rightarrow> mem \<Rightarrow> (u32 \<times> addr) \<Rightarrow> (u32 \<times> addr) \<Rightarrow> (u32 \<times> addr) \<Rightarrow> mem \<times> int" where
  "put_three U m x y z =
     (case put_user U m (snd x) (enc_id (fst x)) of (m1, retval) \<Rightarrow>
        if retval = 0 then
          (case put_user U m1 (snd y) (enc_id (fst y)) of (m2, retval) \<Rightarrow>
             if retval = 0 then put_user U m2 (snd z) (enc_id (fst z)) else (m2, retval))
        else (m1, retval))"

definition sys_getresuid :: "cred_env \<Rightarrow> uaccess \<Rightarrow> addr \<Rightarrow> addr \<Rightarrow> addr \<Rightarrow> cred \<Rightarrow> mem \<Rightarrow> mem \<times> int" where
  "sys_getresuid E U ruidp euidp suidp c m =
     put_three U m (from_kuid_munged E (user_ns c) (uid c), ruidp)
       (from_kuid_munged E (user_ns c) (euid c), euidp) (from_kuid_munged E (user_ns c) (suid c), suidp)"

definition sys_getresgid :: "cred_env \<Rightarrow> uaccess \<Rightarrow> addr \<Rightarrow> addr \<Rightarrow> addr \<Rightarrow> cred \<Rightarrow> mem \<Rightarrow> mem \<times> int" where
  "sys_getresgid E U rgidp egidp sgidp c m =
     put_three U m (from_kgid_munged E (user_ns c) (gid c), rgidp)
       (from_kgid_munged E (user_ns c) (egid c), egidp) (from_kgid_munged E (user_ns c) (sgid c), sgidp)"

definition sys_getuid :: "cred_env \<Rightarrow> cred \<Rightarrow> u32" where
  "sys_getuid E c = from_kuid_munged E (user_ns c) (uid c)"

definition sys_geteuid :: "cred_env \<Rightarrow> cred \<Rightarrow> u32" where
  "sys_geteuid E c = from_kuid_munged E (user_ns c) (euid c)"

definition sys_getgid :: "cred_env \<Rightarrow> cred \<Rightarrow> u32" where
  "sys_getgid E c = from_kgid_munged E (user_ns c) (gid c)"

definition sys_getegid :: "cred_env \<Rightarrow> cred \<Rightarrow> u32" where
  "sys_getegid E c = from_kgid_munged E (user_ns c) (egid c)"

section \<open>Outcomes\<close>

definition uids :: "cred \<Rightarrow> u32 \<times> u32 \<times> u32 \<times> u32" where
  "uids c = (uid c, euid c, suid c, fsuid c)"
definition gids :: "cred \<Rightarrow> u32 \<times> u32 \<times> u32 \<times> u32" where
  "gids c = (gid c, egid c, sgid c, fsgid c)"
definition ruids :: "cred \<Rightarrow> u32 set" where "ruids c = {uid c, euid c, suid c}"
definition rgids :: "cred \<Rightarrow> u32 set" where "rgids c = {gid c, egid c, sgid c}"

lemmas ids_defs = ruids_def rgids_def uids_def gids_def

definition same_ids :: "cred \<Rightarrow> cred \<Rightarrow> bool" where
  "same_ids c c' \<longleftrightarrow> uids c' = uids c \<and> gids c' = gids c \<and> user_ns c' = user_ns c"

lemma same_ids_refl [simp]: "same_ids c c"
  by (simp add: same_ids_def)

text \<open>
  What a uid call may do to the credentials: without the capability the new ids come from the
  old ones, and the groups are never touched. Group calls are symmetric.
\<close>

definition uid_may :: "cred_env \<Rightarrow> cred \<Rightarrow> cred \<Rightarrow> bool" where
  "uid_may E old new \<longleftrightarrow> gids new = gids old \<and> user_ns new = user_ns old
     \<and> (\<not> ns_capable_setid E old CAP_SETUID \<longrightarrow>
         ruids new \<subseteq> ruids old \<and> fsuid new \<in> insert (fsuid old) (ruids old))"

definition gid_may :: "cred_env \<Rightarrow> cred \<Rightarrow> cred \<Rightarrow> bool" where
  "gid_may E old new \<longleftrightarrow> uids new = uids old \<and> user_ns new = user_ns old
     \<and> (\<not> ns_capable_setid E old CAP_SETGID \<longrightarrow>
         rgids new \<subseteq> rgids old \<and> fsgid new \<in> insert (fsgid old) (rgids old))"

lemmas may_defs = uid_may_def gid_may_def

lemma may_refl [simp]: "uid_may E c c" "gid_may E c c"
  by (auto simp: may_defs)

lemma uid_may_same: "same_ids c' c'' \<Longrightarrow> uid_may E c c' \<Longrightarrow> uid_may E c c''"
  by (simp add: uid_may_def same_ids_def ids_defs)

lemma gid_may_same: "same_ids c' c'' \<Longrightarrow> gid_may E c c' \<Longrightarrow> gid_may E c c''"
  by (simp add: gid_may_def same_ids_def ids_defs)

text \<open>Either the call failed and nothing changed, or the ids of the copy were committed.\<close>

lemma finish_setuid_cases:
  "finish_setuid E f new s = (r, s') \<Longrightarrow> (r < 0 \<and> s' = s) \<or> (r = 0 \<and> same_ids new (cur s'))"
  by (auto simp: finish_setuid_def commit_creds_def Let_def same_ids_def ids_defs
      split: prod.splits if_splits)

lemma finish_setgid_cases:
  "finish_setgid E f new s = (r, s') \<Longrightarrow> (r < 0 \<and> s' = s) \<or> (r = 0 \<and> same_ids new (cur s'))"
  by (auto simp: finish_setgid_def commit_creds_def same_ids_def ids_defs split: prod.splits if_splits)

lemma set_new_user_cases:
  "set_new_user E old new = (r, new') \<Longrightarrow> r < 0 \<or> (r = 0 \<and> same_ids new new')"
  by (auto simp: set_new_user_def set_user_def same_ids_def ids_defs split: option.splits if_splits)

text \<open>The credentials each call builds respect the rule.\<close>

lemma setregid_may:
  assumes "\<not> (r \<noteq> - 1 \<and> \<not> (gid old = kr \<or> egid old = kr \<or> ns_capable_setid E old CAP_SETGID))"
    and "\<not> (e \<noteq> - 1 \<and> \<not> (gid old = ke \<or> egid old = ke \<or> sgid old = ke \<or> ns_capable_setid E old CAP_SETGID))"
  shows "gid_may E old (setregid_creds r e kr ke old)"
  using assms by (auto simp: gid_may_def setregid_creds_def Let_def ids_defs)

lemma setresgid_may:
  assumes "\<not> ((id_new r kr (gid old) (egid old) (sgid old) \<or> id_new e ke (gid old) (egid old) (sgid old)
      \<or> id_new t kt (gid old) (egid old) (sgid old)) \<and> \<not> ns_capable_setid E old CAP_SETGID)"
  shows "gid_may E old (setresgid_creds r e t kr ke kt old)"
  using assms by (auto simp: gid_may_def setresgid_creds_def Let_def ids_defs id_new_def)

lemma setreuid_may:
  assumes "\<not> (r \<noteq> - 1 \<and> uid old \<noteq> kr \<and> euid old \<noteq> kr \<and> \<not> ns_capable_setid E old CAP_SETUID)"
    and "\<not> (e \<noteq> - 1 \<and> uid old \<noteq> ke \<and> euid old \<noteq> ke \<and> suid old \<noteq> ke \<and> \<not> ns_capable_setid E old CAP_SETUID)"
    and "same_ids (setreuid_ids r e kr ke old) new"
  shows "uid_may E old (setreuid_saved r e ke old new)"
proof -
  have "uid new = (if r \<noteq> - 1 then kr else uid old)" "euid new = (if e \<noteq> - 1 then ke else euid old)"
    "suid new = suid old" "fsuid new = fsuid old" "gids new = gids old" "user_ns new = user_ns old"
    using assms(3) by (auto simp: same_ids_def setreuid_ids_def Let_def ids_defs)
  then show ?thesis using assms(1,2)
    by (auto simp: uid_may_def setreuid_saved_def Let_def ids_defs)
qed

lemma setresuid_may:
  assumes "\<not> ((id_new r kr (uid old) (euid old) (suid old) \<or> id_new e ke (uid old) (euid old) (suid old)
      \<or> id_new t kt (uid old) (euid old) (suid old)) \<and> \<not> ns_capable_setid E old CAP_SETUID)"
    and "same_ids (if r \<noteq> - 1 then old\<lparr>uid := kr\<rparr> else old) new"
  shows "uid_may E old (setresuid_rest e t ke kt new)"
proof -
  have "uid new = (if r \<noteq> - 1 then kr else uid old)" "euid new = euid old" "suid new = suid old"
    "fsuid new = fsuid old" "gids new = gids old" "user_ns new = user_ns old"
    using assms(2) by (auto simp: same_ids_def ids_defs)
  then show ?thesis using assms(1)
    by (auto simp: uid_may_def setresuid_rest_def Let_def ids_defs id_new_def)
qed

lemma finish_uid_step:
  "finish_setuid E f new s = (x, s') \<Longrightarrow> uid_may E (cur s) new \<Longrightarrow>
   uid_may E (cur s) (cur s') \<and> (x = 0 \<or> x < 0 \<and> s' = s)"
  by (auto dest!: finish_setuid_cases intro: uid_may_same)

lemma finish_gid_step:
  "finish_setgid E f new s = (x, s') \<Longrightarrow> gid_may E (cur s) new \<Longrightarrow>
   gid_may E (cur s) (cur s') \<and> (x = 0 \<or> x < 0 \<and> s' = s)"
  by (auto dest!: finish_setgid_cases intro: gid_may_same)

lemma user_step:
  assumes "(case set_new_user E old new of (retval, new') \<Rightarrow>
      if retval < 0 then (retval, s) else finish_setuid E f (g new') s) = (x, s')"
    and "\<And>new'. same_ids new new' \<Longrightarrow> uid_may E (cur s) (g new')"
  shows "uid_may E (cur s) (cur s') \<and> (x = 0 \<or> x < 0 \<and> s' = s)"
  using assms(1) by (auto dest: set_new_user_cases finish_uid_step [OF _ assms(2)]
      split: prod.splits if_splits)

lemma setregid_outcome:
  assumes "sys_setregid E r e s = (x, s')"
  shows "gid_may E (cur s) (cur s') \<and> (x = 0 \<or> x < 0 \<and> s' = s)"
  using assms unfolding sys_setregid_def Let_def
  by (elim guardE) ((simp; fail) | (rule finish_gid_step, assumption, rule setregid_may; assumption))+

lemma setgid_outcome:
  assumes "sys_setgid E g s = (x, s')"
  shows "gid_may E (cur s) (cur s') \<and> (x = 0 \<or> x < 0 \<and> s' = s)"
proof -
  let ?k = "make_kgid E (user_ns (cur s)) g" and ?c = "cur s"
  have "ns_capable_setid E ?c CAP_SETGID \<Longrightarrow>
      gid_may E ?c (?c\<lparr>gid := ?k, egid := ?k, sgid := ?k, fsgid := ?k\<rparr>)"
    and "?k = gid ?c \<or> ?k = sgid ?c \<Longrightarrow> gid_may E ?c (?c\<lparr>egid := ?k, fsgid := ?k\<rparr>)"
    by (auto simp: gid_may_def ids_defs)
  then show ?thesis using assms unfolding sys_setgid_def Let_def
    by (auto split: if_splits dest!: finish_gid_step)
qed

lemma setresgid_outcome:
  assumes "sys_setresgid E r e t s = (x, s')"
  shows "gid_may E (cur s) (cur s') \<and> (x = 0 \<or> x < 0 \<and> s' = s)"
  using assms unfolding sys_setresgid_def Let_def
  by (elim guardE) ((simp; fail) | (rule finish_gid_step, assumption, rule setresgid_may, assumption))+

lemma setreuid_outcome:
  assumes "sys_setreuid E r e s = (x, s')"
  shows "uid_may E (cur s) (cur s') \<and> (x = 0 \<or> x < 0 \<and> s' = s)"
  using assms unfolding sys_setreuid_def Let_def
  by (elim guardE) ((simp; fail) | (rule user_step, assumption, rule setreuid_may; assumption))+

lemma setresuid_outcome:
  assumes "sys_setresuid E r e t s = (x, s')"
  shows "uid_may E (cur s) (cur s') \<and> (x = 0 \<or> x < 0 \<and> s' = s)"
  using assms unfolding sys_setresuid_def Let_def
  by (elim guardE) ((simp; fail) | (rule user_step, assumption, rule setresuid_may; assumption))+

lemma setuid_outcome:
  assumes "sys_setuid E u s = (x, s')"
  shows "uid_may E (cur s) (cur s') \<and> (x = 0 \<or> x < 0 \<and> s' = s)"
proof -
  let ?k = "make_kuid E (user_ns (cur s)) u" and ?c = "cur s"
  have 1: "ns_capable_setid E ?c CAP_SETUID \<Longrightarrow> same_ids (?c\<lparr>uid := ?k, suid := ?k\<rparr>) new' \<Longrightarrow>
      uid_may E ?c (new'\<lparr>euid := ?k, fsuid := ?k\<rparr>)" for new'
    by (auto simp: uid_may_def same_ids_def ids_defs)
  have 2: "\<not> (?k \<noteq> uid ?c \<and> ?k \<noteq> suid ?c) \<Longrightarrow> uid_may E ?c (?c\<lparr>euid := ?k, fsuid := ?k\<rparr>)"
    by (auto simp: uid_may_def ids_defs)
  from assms show ?thesis
    unfolding sys_setuid_def Let_def
    apply (elim guardE)
      apply simp_all [2]
    apply (cases "ns_capable_setid E ?c CAP_SETUID")
     apply (simp only: if_True)
     apply (erule user_step, erule 1, assumption)
    apply (simp only: if_False)
    apply (elim guardE)
     apply simp
    apply (erule finish_uid_step, erule 2)
    done
qed

lemma setfsgid_outcome: "gid_may E (cur s) (cur (snd (sys_setfsgid E g s)))"
  unfolding sys_setfsgid_def Let_def
  by (auto split: if_splits prod.splits simp: commit_creds_def gid_may_def ids_defs)

lemma setfsuid_outcome: "uid_may E (cur s) (cur (snd (sys_setfsuid E u s)))"
  unfolding sys_setfsuid_def Let_def
  by (auto split: if_splits prod.splits simp: commit_creds_def uid_may_def ids_defs)

section \<open>Properties\<close>

datatype setid_call =
    Setreuid u32 u32 | Setuid u32 | Setresuid u32 u32 u32 | Setfsuid u32
  | Setregid u32 u32 | Setgid u32 | Setresgid u32 u32 u32 | Setfsgid u32

fun setid :: "cred_env \<Rightarrow> setid_call \<Rightarrow> cred_state \<Rightarrow> cred_state" where
  "setid E (Setreuid r e) s = snd (sys_setreuid E r e s)"
| "setid E (Setuid u) s = snd (sys_setuid E u s)"
| "setid E (Setresuid r e t) s = snd (sys_setresuid E r e t s)"
| "setid E (Setfsuid u) s = snd (sys_setfsuid E u s)"
| "setid E (Setregid r e) s = snd (sys_setregid E r e s)"
| "setid E (Setgid g) s = snd (sys_setgid E g s)"
| "setid E (Setresgid r e t) s = snd (sys_setresgid E r e t s)"
| "setid E (Setfsgid g) s = snd (sys_setfsgid E g s)"

lemma setid_may: "uid_may E (cur s) (cur (setid E x s)) \<or> gid_may E (cur s) (cur (setid E x s))"
  using setreuid_outcome setuid_outcome setresuid_outcome setregid_outcome setgid_outcome
    setresgid_outcome setfsuid_outcome setfsgid_outcome
  by (cases x) (simp_all, (metis prod.collapse)+)

text \<open>
  A task without the capabilities holds afterwards only ids it held before: for the real,
  effective and saved ids among those three, for the file-system id among all four.
\<close>

definition ids_within :: "cred_env \<Rightarrow> cred_state \<Rightarrow> cred_state \<Rightarrow> bool" where
  "ids_within E s s' \<longleftrightarrow> (\<forall>c cap. \<not> ns_capable_setid E c cap) \<longrightarrow>
     ruids (cur s') \<subseteq> ruids (cur s) \<and> rgids (cur s') \<subseteq> rgids (cur s)
     \<and> fsuid (cur s') \<in> insert (fsuid (cur s)) (ruids (cur s))
     \<and> fsgid (cur s') \<in> insert (fsgid (cur s)) (rgids (cur s))"

interpretation setids: confined_steps "setid E" "ids_within E" for E
proof (unfold_locales, goal_cases)
  case (1 s)
  show ?case by (simp add: ids_within_def)
next
  case (2 s t u)
  then show ?case by (auto simp: ids_within_def)
next
  case (3 x s)
  then show ?case using setid_may [of E s x] by (auto simp: ids_within_def may_defs ids_defs)
qed

text \<open>
  (C3) No sequence of the eight calls that change ids lets a task without \<^verbatim>\<open>CAP_SETUID\<close> and
  \<^verbatim>\<open>CAP_SETGID\<close> acquire an id: its real, effective and saved ids stay among the three it
  started with, and its file-system ids among the four, for users and for groups.
\<close>

theorem setid_no_escalation:
  assumes "\<forall>c cap. \<not> ns_capable_setid E c cap" and "s' = run_calls (setid E) xs s"
  shows "{uid (cur s'), euid (cur s'), suid (cur s')} \<subseteq> {uid (cur s), euid (cur s), suid (cur s)}
    \<and> fsuid (cur s') \<in> {uid (cur s), euid (cur s), suid (cur s), fsuid (cur s)}
    \<and> {gid (cur s'), egid (cur s'), sgid (cur s')} \<subseteq> {gid (cur s), egid (cur s), sgid (cur s)}
    \<and> fsgid (cur s') \<in> {gid (cur s), egid (cur s), sgid (cur s), fsgid (cur s)}"
  using setids.run_within [of E s xs] assms unfolding ids_within_def ids_defs by auto

text \<open>A namespace that maps every id to itself, and a task of user 1000 running a program of user 0.\<close>

definition demo_cred_env :: cred_env where
  "demo_cred_env = \<lparr>make_kuid = (\<lambda>_ u. u), make_kgid = (\<lambda>_ g. g), from_kuid_munged = (\<lambda>_ u. u),
     from_kgid_munged = (\<lambda>_ g. g), ns_capable_setid = (\<lambda>_ _. False), prepare_creds_ok = (\<lambda>_. True),
     alloc_uid = (\<lambda>u. Some (unat u)), fix_setuid = (\<lambda>_ _ _. (0, 0)), fix_setgid = (\<lambda>_ _ _. (0, 0)),
     set_cred_ucounts = (\<lambda>_. (0, 1)), overlimit_nproc = (\<lambda>_. False)\<rparr>"

definition demo_cred_state :: cred_state where
  "demo_cred_state = \<lparr>cur = \<lparr>uid = 1000, gid = 100, suid = 0, sgid = 100, euid = 0, egid = 100,
     fsuid = 0, fsgid = 100, user = 1, user_ns = 0, ucounts = 1, cred_caps = 0\<rparr>, nproc_exceeded = False\<rparr>"

lemmas demo_cred_defs = demo_cred_env_def demo_cred_state_def

theorem setid_no_escalation_witness:
  "euid (cur (run_calls (setid demo_cred_env) [Setreuid 0 1000, Setresuid 5 5 5, Setuid 0] demo_cred_state))
     \<in> {1000, 0}"
proof -
  have "\<forall>c cap. \<not> ns_capable_setid demo_cred_env c cap" by (simp add: demo_cred_env_def)
  note setid_no_escalation [OF this refl, of "[Setreuid 0 1000, Setresuid 5 5 5, Setuid 0]" demo_cred_state]
  moreover have "{uid (cur demo_cred_state), euid (cur demo_cred_state), suid (cur demo_cred_state)} = {1000, 0}"
    by (auto simp: demo_cred_state_def)
  ultimately show ?thesis by blast
qed

lemma setuid_privileged:
  assumes "sys_setuid E u s = (0, s')" "ns_capable_setid E (cur s) CAP_SETUID"
  shows "uids (cur s') = (let k = make_kuid E (user_ns (cur s)) u in (k, k, k, k))"
proof -
  let ?k = "make_kuid E (user_ns (cur s)) u"
  obtain r new where n: "set_new_user E (cur s) (cur s\<lparr>uid := ?k, suid := ?k\<rparr>) = (r, new)"
    by fastforce
  with assms have "\<not> r < 0" and f: "finish_setuid E LSM_SETID_ID (new\<lparr>euid := ?k, fsuid := ?k\<rparr>) s = (0, s')"
    by (auto simp: sys_setuid_def Let_def split: if_splits)
  with set_new_user_cases [OF n] finish_setuid_cases [OF f] show ?thesis
    by (auto simp: same_ids_def ids_defs Let_def)
qed

text \<open>
  Dropping privileges with \<^verbatim>\<open>setuid\<close> is final: after a privileged task has set its uid,
  all four user ids are the new one, and once the capability is gone no sequence of id calls
  changes any of them again.
\<close>

theorem setuid_drop_is_final:
  assumes "sys_setuid E u s = (0, s')" "ns_capable_setid E (cur s) CAP_SETUID"
    and E': "\<forall>c cap. \<not> ns_capable_setid E' c cap" and "k = make_kuid E (user_ns (cur s)) u"
    and "s'' = run_calls (setid E') xs s'"
  shows "uid (cur s'') = k \<and> euid (cur s'') = k \<and> suid (cur s'') = k \<and> fsuid (cur s'') = k"
proof -
  have "uids (cur s') = (k, k, k, k)"
    using setuid_privileged [OF assms(1,2)] assms(4) by (simp add: Let_def)
  then show ?thesis
    using setids.run_within [of E' s' xs] E' assms(5) unfolding ids_within_def ids_defs by auto
qed

theorem setuid_drop_is_final_witness:
  "uid (cur (run_calls (setid demo_cred_env) [Setreuid 0 0, Setuid 0]
     (snd (sys_setuid (demo_cred_env\<lparr>ns_capable_setid := \<lambda>_ _. True\<rparr>) 33 demo_cred_state)))) = 33"
proof -
  let ?E = "demo_cred_env\<lparr>ns_capable_setid := \<lambda>_ _. True\<rparr>"
  have "sys_setuid ?E 33 demo_cred_state = (0, snd (sys_setuid ?E 33 demo_cred_state))"
    by (simp add: prod_eq_iff) (simp add: demo_cred_defs sys_setuid_def id_valid_def set_new_user_def
        set_user_def finish_setuid_def commit_creds_def Let_def)
  moreover have "\<forall>c cap. \<not> ns_capable_setid demo_cred_env c cap" by (simp add: demo_cred_env_def)
  moreover have "ns_capable_setid ?E (cur demo_cred_state) CAP_SETUID"
    "33 = make_kuid ?E (user_ns (cur demo_cred_state)) 33" by (simp_all add: demo_cred_defs)
  ultimately show ?thesis
    using setuid_drop_is_final [of ?E 33 demo_cred_state _ demo_cred_env 33 _ "[Setreuid 0 0, Setuid 0]"] by blast
qed

lemma setresuid_success:
  assumes "sys_setresuid E r e t s = (0, s')" "r \<noteq> - 1" "e \<noteq> - 1" "t \<noteq> - 1"
  shows "uid (cur s') = make_kuid E (user_ns (cur s)) r \<and> euid (cur s') = make_kuid E (user_ns (cur s)) e
    \<and> suid (cur s') = make_kuid E (user_ns (cur s)) t \<and> user_ns (cur s') = user_ns (cur s)
    \<and> id_valid (uid (cur s')) \<and> id_valid (euid (cur s')) \<and> id_valid (suid (cur s'))"
proof -
  let ?k = "make_kuid E (user_ns (cur s))"
  have valid: "id_valid (?k r)" "id_valid (?k e)" "id_valid (?k t)"
    using assms by (auto simp: sys_setresuid_def Let_def split: if_splits)
  show ?thesis
  proof (cases "?k r = uid (cur s) \<and> (?k e = euid (cur s) \<and> ?k e = fsuid (cur s)) \<and> ?k t = suid (cur s)")
    case True
    have "s' = s" using assms(1) True unfolding sys_setresuid_def Let_def
      by (elim guardE) ((simp; fail) | blast)+
    with True valid show ?thesis by simp
  next
    case False
    obtain x new where n: "set_new_user E (cur s) (cur s\<lparr>uid := ?k r\<rparr>) = (x, new)" by fastforce
    have f: "finish_setuid E LSM_SETID_RES (setresuid_rest e t (?k e) (?k t) new) s = (0, s')" and "\<not> x < 0"
      using assms valid False n
      by (simp_all add: sys_setresuid_def Let_def split: if_splits)
    with set_new_user_cases [OF n] finish_setuid_cases [OF f] assms valid show ?thesis
      by (auto simp: same_ids_def ids_defs Let_def setresuid_rest_def)
  qed
qed

lemma length_enc_id [simp]: "length (enc_id w) = 4"
  by (simp add: enc_id_def)

lemma dec_enc_id [simp]: "dec_id (enc_id w) = w"
  by (simp add: dec_id_def enc_id_def le_val_le_bytes unat_word32_lt)

context uaccess_laws
begin

lemma put_user_done: "put_user U m a bs = (m', 0) \<Longrightarrow> m' = store_bytes m a bs"
  using put [of m a bs m' 0] by auto

lemma put_three_done:
  "put_three U m x y z = (m', 0) \<Longrightarrow>
   m' = store_bytes (store_bytes (store_bytes m (snd x) (enc_id (fst x))) (snd y) (enc_id (fst y)))
     (snd z) (enc_id (fst z))"
  by (auto simp: put_three_def split: prod.splits if_splits dest!: put_user_done)

end

text \<open>Two objects of four bytes that do not overlap.\<close>

definition apart4 :: "addr \<Rightarrow> addr \<Rightarrow> bool" where
  "apart4 a b \<longleftrightarrow> (\<forall>i < 4. 4 \<le> unat (a + of_nat i - b))"

lemma load_store_apart4: "apart4 a b \<Longrightarrow> length bs = 4 \<Longrightarrow> load_bytes (store_bytes m b bs) a 4 = load_bytes m a 4"
  by (auto simp: load_bytes_def apart4_def intro!: map_cong store_bytes_outside)

text \<open>
  What \<^verbatim>\<open>setresuid\<close> sets, \<^verbatim>\<open>getresuid\<close> returns: if the namespace translates valid ids
  back, a successful call with three real ids is followed by a reading of exactly those ids,
  when the three places the caller names do not overlap.
\<close>

theorem setresuid_getresuid:
  assumes "uaccess_laws U"
    and set: "sys_setresuid E r e t s = (0, s')" "r \<noteq> - 1" "e \<noteq> - 1" "t \<noteq> - 1"
    and inverse: "\<forall>ns u. make_kuid E ns u \<noteq> - 1 \<longrightarrow> from_kuid_munged E ns (make_kuid E ns u) = u"
    and get: "sys_getresuid E U rp ep tp (cur s') m = (m', 0)"
    and "apart4 rp ep" "apart4 rp tp" "apart4 ep tp"
  shows "dec_id (load_bytes m' rp 4) = r \<and> dec_id (load_bytes m' ep 4) = e \<and> dec_id (load_bytes m' tp 4) = t"
proof -
  note ids = setresuid_success [OF set]
  have munged: "from_kuid_munged E (user_ns (cur s')) (uid (cur s')) = r"
    "from_kuid_munged E (user_ns (cur s')) (euid (cur s')) = e"
    "from_kuid_munged E (user_ns (cur s')) (suid (cur s')) = t"
    using ids inverse by (auto simp: id_valid_def)
  have m': "m' = store_bytes (store_bytes (store_bytes m rp (enc_id r)) ep (enc_id e)) tp (enc_id t)"
    using uaccess_laws.put_three_done [OF assms(1) get [unfolded sys_getresuid_def]] by (simp add: munged)
  have same: "load_bytes (store_bytes n a (enc_id w)) a 4 = enc_id w" for n a w
    using load_store_bytes [of "enc_id w" n a] by simp
  show ?thesis unfolding m' using assms(8-10) by (simp add: load_store_apart4 same)
qed

theorem setresuid_getresuid_witness:
  "dec_id (load_bytes (fst (sys_getresuid demo_cred_env demo_U 16 8 0
     (cur (snd (sys_setresuid demo_cred_env 0 1000 0 demo_cred_state))) (\<lambda>_. 0))) 8 4) = 1000"
proof -
  let ?s' = "snd (sys_setresuid demo_cred_env 0 1000 0 demo_cred_state)"
  let ?g = "sys_getresuid demo_cred_env demo_U 16 8 0 (cur ?s') (\<lambda>_. 0)"
  have set: "sys_setresuid demo_cred_env 0 1000 0 demo_cred_state = (0, ?s')"
    by (simp add: prod_eq_iff) (simp add: demo_cred_defs sys_setresuid_def id_valid_def id_new_def
        set_new_user_def set_user_def finish_setuid_def commit_creds_def Let_def)
  have inv: "\<forall>ns u. make_kuid demo_cred_env ns u \<noteq> - 1 \<longrightarrow>
      from_kuid_munged demo_cred_env ns (make_kuid demo_cred_env ns u) = u"
    by (simp add: demo_cred_env_def)
  have get: "?g = (fst ?g, 0)"
    by (simp add: prod_eq_iff) (simp add: sys_getresuid_def put_three_def page_uaccess_def)
  have "unat (of_nat k + of_nat i :: addr) = k + i" if "i < 4" "k < 1000" for i k
    using that by (simp add: unat_of_nat take_bit_eq_mod flip: of_nat_add)
  from this [where k = 8] this [where k = 16] this [where k = 0]
  have "apart4 16 8" "apart4 16 0" "apart4 8 0"
    unfolding apart4_def by auto
  with setresuid_getresuid [OF page.uaccess_laws_axioms set _ _ _ inv get] show ?thesis by simp
qed

end
