(* ===== verification/Sys_Rlimit.thy ===== *)
theory Sys_Rlimit
  imports Sys_Creds
begin

text \<open>
  Resource limits: \<^verbatim>\<open>do_prlimit\<close> and the system calls on top of it (\<^verbatim>\<open>kernel/sys.c\<close>, lines 1458
  to 1742), in their native, 32-bit and old forms. The limits live in the signal structures of
  the kernel state; the posix CPU timers that a CPU limit arms are a map from group leaders to
  limits. Capabilities and security hooks are parameters.
\<close>

section \<open>The core\<close>

record rlimit_state =
  rk :: kernel
  cpu_timers :: "nat \<Rightarrow> ulong option"

record rlimit_env =
  sysctl_nr_open :: ulong
  capable_resource :: bool
  ns_capable_resource :: "nat \<Rightarrow> bool"
  security_setrlimit :: "nat \<Rightarrow> nat \<Rightarrow> rlimit \<Rightarrow> int"
  security_prlimit :: "cred \<Rightarrow> cred \<Rightarrow> bool \<Rightarrow> bool \<Rightarrow> int"
  group_leader_of :: "nat \<Rightarrow> nat"
  cred_of :: "nat \<Rightarrow> cred"
  current_task :: nat

definition get_rlim :: "nat \<Rightarrow> nat \<Rightarrow> kernel \<Rightarrow> rlimit" where
  "get_rlim t res k = rlim (signals k (task_signal (tasks k t))) res"

definition set_rlim :: "nat \<Rightarrow> nat \<Rightarrow> rlimit \<Rightarrow> kernel \<Rightarrow> kernel" where
  "set_rlim t res rl k =
     (let g = task_signal (tasks k t) in
      k\<lparr>signals := (signals k)(g := (signals k g)\<lparr>rlim := (rlim (signals k g))(res := rl)\<rparr>)\<rparr>)"

text \<open>
  Result code, the old limit when it was asked for, and the state after the call. The lock of the group leader, taken
  around the comparison and the store, keeps the two together: here a call is one step.
\<close>

definition do_prlimit :: "rlimit_env \<Rightarrow> nat \<Rightarrow> nat \<Rightarrow> rlimit option \<Rightarrow> bool \<Rightarrow> rlimit_state \<Rightarrow>
    int \<times> rlimit option \<times> rlimit_state" where
  "do_prlimit E tsk resource new_rlim want_old s =
     (if resource \<ge> RLIM_NLIMITS then (- EINVAL, None, s)
      else if (case new_rlim of None \<Rightarrow> False | Some n \<Rightarrow> rlim_cur n > rlim_max n) then (- EINVAL, None, s)
      else if (case new_rlim of None \<Rightarrow> False
               | Some n \<Rightarrow> resource = RLIMIT_NOFILE \<and> rlim_max n > sysctl_nr_open E) then (- EPERM, None, s)
      else
        (let old = get_rlim tsk resource (rk s);
             retval = (case new_rlim of None \<Rightarrow> 0
               | Some n \<Rightarrow> if rlim_max n > rlim_max old \<and> \<not> capable_resource E then - EPERM
                           else security_setrlimit E tsk resource n)
         in if retval \<noteq> 0 then (retval, None, s)
            else
              (0, if want_old then Some old else None,
               case new_rlim of None \<Rightarrow> s
               | Some n \<Rightarrow>
                 (let s1 = s\<lparr>rk := set_rlim tsk resource n (rk s)\<rparr> in
                  if resource = RLIMIT_CPU \<and> rlim_cur n \<noteq> RLIM_INFINITY
                  then s1\<lparr>cpu_timers := (cpu_timers s1)(group_leader_of E tsk \<mapsto> rlim_cur n)\<rparr>
                  else s1))))"


section \<open>Object representations\<close>

definition enc_rlimit :: "rlimit \<Rightarrow> byte list" where
  "enc_rlimit r = enc_ulong (rlim_cur r) @ enc_ulong (rlim_max r)"

definition dec_rlimit :: "byte list \<Rightarrow> rlimit" where
  "dec_rlimit bs = \<lparr>rlim_cur = dec_ulong (take 8 bs), rlim_max = dec_ulong (drop 8 bs)\<rparr>"

abbreviation (input) COMPAT_RLIM_INFINITY :: ulong where "COMPAT_RLIM_INFINITY \<equiv> 0xffffffff"

definition enc_compat_rlimit :: "rlimit \<Rightarrow> byte list" where
  "enc_compat_rlimit r = le_bytes 4 (unat (rlim_cur r)) @ le_bytes 4 (unat (rlim_max r))"

definition dec_compat_rlimit :: "byte list \<Rightarrow> rlimit" where
  "dec_compat_rlimit bs = \<lparr>rlim_cur = of_nat (le_val (take 4 bs)), rlim_max = of_nat (le_val (drop 4 bs))\<rparr>"

definition rcopy_to_user :: "uaccess \<Rightarrow> addr \<Rightarrow> byte list \<Rightarrow> rlimit_state \<Rightarrow> nat \<times> rlimit_state" where
  "rcopy_to_user U a bs s = (case kcopy_to_user U a bs (rk s) of (left, k) \<Rightarrow> (left, s\<lparr>rk := k\<rparr>))"

definition rcopy_from_user :: "uaccess \<Rightarrow> nat \<Rightarrow> addr \<Rightarrow> rlimit_state \<Rightarrow> byte list \<times> nat" where
  "rcopy_from_user U n a s = copy_from_user U (umem (rk s)) (replicate n 0) a"


section \<open>The system calls\<close>

definition sys_getrlimit :: "rlimit_env \<Rightarrow> uaccess \<Rightarrow> nat \<Rightarrow> addr \<Rightarrow> rlimit_state \<Rightarrow> int \<times> rlimit_state" where
  "sys_getrlimit E U resource p s =
     (case do_prlimit E (current_task E) resource None True s of (ret, old, s1) \<Rightarrow>
        if ret = 0 then
          (case rcopy_to_user U p (enc_rlimit (the old)) s1 of (left, s2) \<Rightarrow>
             (if left \<noteq> 0 then - EFAULT else 0, s2))
        else (ret, s1))"

definition sys_setrlimit :: "rlimit_env \<Rightarrow> uaccess \<Rightarrow> nat \<Rightarrow> addr \<Rightarrow> rlimit_state \<Rightarrow> int \<times> rlimit_state" where
  "sys_setrlimit E U resource p s =
     (case rcopy_from_user U 16 p s of (bs, left) \<Rightarrow>
        if left \<noteq> 0 then (- EFAULT, s)
        else case do_prlimit E (current_task E) resource (Some (dec_rlimit bs)) False s of (ret, _, s1) \<Rightarrow> (ret, s1))"

text \<open>The 32-bit calls: the largest 32-bit value stands for no limit.\<close>

definition from_compat :: "ulong \<Rightarrow> ulong" where
  "from_compat v = (if v = COMPAT_RLIM_INFINITY then RLIM_INFINITY else v)"

definition to_compat :: "ulong \<Rightarrow> ulong" where
  "to_compat v = (if v > COMPAT_RLIM_INFINITY then COMPAT_RLIM_INFINITY else v)"

definition compat_sys_setrlimit ::
  "rlimit_env \<Rightarrow> uaccess \<Rightarrow> nat \<Rightarrow> addr \<Rightarrow> rlimit_state \<Rightarrow> int \<times> rlimit_state" where
  "compat_sys_setrlimit E U resource p s =
     (case rcopy_from_user U 8 p s of (bs, left) \<Rightarrow>
        if left \<noteq> 0 then (- EFAULT, s)
        else
          (let r32 = dec_compat_rlimit bs;
               r = \<lparr>rlim_cur = from_compat (rlim_cur r32), rlim_max = from_compat (rlim_max r32)\<rparr>
           in case do_prlimit E (current_task E) resource (Some r) False s of (ret, _, s1) \<Rightarrow> (ret, s1)))"

definition compat_sys_getrlimit ::
  "rlimit_env \<Rightarrow> uaccess \<Rightarrow> nat \<Rightarrow> addr \<Rightarrow> rlimit_state \<Rightarrow> int \<times> rlimit_state" where
  "compat_sys_getrlimit E U resource p s =
     (case do_prlimit E (current_task E) resource None True s of (ret, old, s1) \<Rightarrow>
        if ret = 0 then
          (let r = the old;
               r32 = \<lparr>rlim_cur = to_compat (rlim_cur r), rlim_max = to_compat (rlim_max r)\<rparr>
           in case rcopy_to_user U p (enc_compat_rlimit r32) s1 of (left, s2) \<Rightarrow>
             (if left \<noteq> 0 then - EFAULT else 0, s2))
        else (ret, s1))"

definition clamp_old :: "ulong \<Rightarrow> ulong" where
  "clamp_old v = (if v > 0x7FFFFFFF then 0x7FFFFFFF else v)"

definition sys_old_getrlimit ::
  "rlimit_env \<Rightarrow> uaccess \<Rightarrow> nat \<Rightarrow> addr \<Rightarrow> rlimit_state \<Rightarrow> int \<times> rlimit_state" where
  "sys_old_getrlimit E U resource p s =
     (if resource \<ge> RLIM_NLIMITS then (- EINVAL, s)
      else
        (let x = get_rlim (current_task E) resource (rk s);
             x = \<lparr>rlim_cur = clamp_old (rlim_cur x), rlim_max = clamp_old (rlim_max x)\<rparr>
         in case rcopy_to_user U p (enc_rlimit x) s of (left, s1) \<Rightarrow>
           (if left \<noteq> 0 then - EFAULT else 0, s1)))"

definition compat_sys_old_getrlimit ::
  "rlimit_env \<Rightarrow> uaccess \<Rightarrow> nat \<Rightarrow> addr \<Rightarrow> rlimit_state \<Rightarrow> int \<times> rlimit_state" where
  "compat_sys_old_getrlimit E U resource p s =
     (if resource \<ge> RLIM_NLIMITS then (- EINVAL, s)
      else
        (let r = get_rlim (current_task E) resource (rk s);
             (m1, e1) = put_user U (umem (rk s)) p (le_bytes 4 (unat (clamp_old (rlim_cur r))));
             s1 = s\<lparr>rk := (rk s)\<lparr>umem := m1\<rparr>\<rparr>
         in if e1 \<noteq> 0 then (- EFAULT, s1)
            else
              (let (m2, e2) = put_user U m1 (p + 4) (le_bytes 4 (unat (clamp_old (rlim_max r))));
                   s2 = s\<lparr>rk := (rk s)\<lparr>umem := m2\<rparr>\<rparr>
               in if e2 \<noteq> 0 then (- EFAULT, s2) else (0, s2))))"

text \<open>On a 64-bit kernel both infinities are the same number.\<close>

definition rlim64_is_infinity :: "ulong \<Rightarrow> bool" where
  "rlim64_is_infinity v \<longleftrightarrow> v = RLIM_INFINITY"

definition rlim_to_rlim64 :: "rlimit \<Rightarrow> rlimit" where
  "rlim_to_rlim64 r =
     \<lparr>rlim_cur = (if rlim_cur r = RLIM_INFINITY then RLIM_INFINITY else rlim_cur r),
      rlim_max = (if rlim_max r = RLIM_INFINITY then RLIM_INFINITY else rlim_max r)\<rparr>"

definition rlim64_to_rlim :: "rlimit \<Rightarrow> rlimit" where
  "rlim64_to_rlim r =
     \<lparr>rlim_cur = (if rlim64_is_infinity (rlim_cur r) then RLIM_INFINITY else rlim_cur r),
      rlim_max = (if rlim64_is_infinity (rlim_max r) then RLIM_INFINITY else rlim_max r)\<rparr>"

definition check_prlimit_permission :: "rlimit_env \<Rightarrow> nat \<Rightarrow> bool \<Rightarrow> bool \<Rightarrow> int" where
  "check_prlimit_permission E task rd wr =
     (if current_task E = task then 0
      else
        (let cred = cred_of E (current_task E);
             tcred = cred_of E task;
             id_match = (uid cred = euid tcred \<and> uid cred = suid tcred \<and> uid cred = uid tcred
                         \<and> gid cred = egid tcred \<and> gid cred = sgid tcred \<and> gid cred = gid tcred)
         in if \<not> id_match \<and> \<not> ns_capable_resource E (user_ns tcred) then - EPERM
            else security_prlimit E cred tcred rd wr))"

definition sys_prlimit64 ::
  "rlimit_env \<Rightarrow> uaccess \<Rightarrow> int \<Rightarrow> nat \<Rightarrow> addr \<Rightarrow> addr \<Rightarrow> rlimit_state \<Rightarrow> int \<times> rlimit_state" where
  "sys_prlimit64 E U pid resource new_rlim old_rlim s =
     (case (if new_rlim \<noteq> NULL then rcopy_from_user U 16 new_rlim s else ([], 0)) of (bs, left) \<Rightarrow>
      if left \<noteq> 0 then (- EFAULT, s)
      else
        (let new = (if new_rlim \<noteq> NULL then Some (rlim64_to_rlim (dec_rlimit bs)) else None);
             s1 = s\<lparr>rk := rcu_read_lock (rk s)\<rparr>
         in case (if pid \<noteq> 0 then vpids (rk s1) pid else Some (current_task E)) of
              None \<Rightarrow> (- ESRCH, s1\<lparr>rk := rcu_read_unlock (rk s1)\<rparr>)
            | Some tsk \<Rightarrow>
              (let ret = check_prlimit_permission E tsk (old_rlim \<noteq> NULL) (new_rlim \<noteq> NULL) in
               if ret \<noteq> 0 then (ret, s1\<lparr>rk := rcu_read_unlock (rk s1)\<rparr>)
               else
                 (let s2 = s1\<lparr>rk := rcu_read_unlock (get_task_struct tsk (rk s1))\<rparr> in
                  case do_prlimit E tsk resource new (old_rlim \<noteq> NULL) s2 of (ret, old, s3) \<Rightarrow>
                    (case (if ret = 0 \<and> old_rlim \<noteq> NULL
                           then (case rcopy_to_user U old_rlim (enc_rlimit (rlim_to_rlim64 (the old))) s3 of
                                   (left, s4) \<Rightarrow> (if left \<noteq> 0 then - EFAULT else ret, s4))
                           else (ret, s3)) of
                       (ret, s4) \<Rightarrow> (ret, s4\<lparr>rk := put_task_struct tsk (rk s4)\<rparr>))))))"

section \<open>Hard limits\<close>

text \<open>No hard limit is larger than before, and every soft limit is within its hard limit.\<close>

definition hard_within :: "rlimit_env \<Rightarrow> rlimit_state \<Rightarrow> rlimit_state \<Rightarrow> bool" where
  "hard_within E s s' \<longleftrightarrow> (\<not> capable_resource E \<longrightarrow>
     (\<forall>g res. rlim_max (rlim (signals (rk s') g) res) \<le> rlim_max (rlim (signals (rk s) g) res)))
   \<and> tasks (rk s') = tasks (rk s)"

definition soft_ok :: "rlimit_state \<Rightarrow> bool" where
  "soft_ok s \<longleftrightarrow> (\<forall>g res. rlim_cur (rlim (signals (rk s) g) res) \<le> rlim_max (rlim (signals (rk s) g) res))"

text \<open>States that differ only in user memory, locks and references.\<close>

definition same_limits :: "rlimit_state \<Rightarrow> rlimit_state \<Rightarrow> bool" where
  "same_limits s s' \<longleftrightarrow> signals (rk s') = signals (rk s) \<and> tasks (rk s') = tasks (rk s)"

lemma same_limits_refl [simp]: "same_limits s s"
  by (simp add: same_limits_def)

lemma same_limits_trans: "same_limits s t \<Longrightarrow> same_limits t u \<Longrightarrow> same_limits s u"
  by (simp add: same_limits_def)

lemma rcopy_same: "rcopy_to_user U a bs s = (left, s') \<Longrightarrow> same_limits s s'"
  by (auto simp: rcopy_to_user_def kcopy_to_user_def same_limits_def split: prod.splits)

definition limits_step :: "rlimit_env \<Rightarrow> rlimit_state \<Rightarrow> rlimit_state \<Rightarrow> bool" where
  "limits_step E s s' \<longleftrightarrow> hard_within E s s' \<and> (soft_ok s \<longrightarrow> soft_ok s')"

lemma limits_step_same: "same_limits s s' \<Longrightarrow> limits_step E s s'"
  by (simp add: same_limits_def limits_step_def hard_within_def soft_ok_def)

lemma limits_step_refl [simp]: "limits_step E s s"
  by (simp add: limits_step_same)

lemma hard_within_trans: "hard_within E s t \<Longrightarrow> hard_within E t u \<Longrightarrow> hard_within E s u"
proof -
  assume a: "hard_within E s t" "hard_within E t u"
  have "rlim_max (rlim (signals (rk u) g) res) \<le> rlim_max (rlim (signals (rk s) g) res)"
    if "\<not> capable_resource E" for g res
    by (rule order_trans [of _ "rlim_max (rlim (signals (rk t) g) res)"])
      (use a that in \<open>simp_all add: hard_within_def\<close>)
  with a show ?thesis by (simp add: hard_within_def)
qed

lemma limits_step_trans: "limits_step E s t \<Longrightarrow> limits_step E t u \<Longrightarrow> limits_step E s u"
  by (auto simp: limits_step_def intro: hard_within_trans)

lemma do_prlimit_step:
  assumes "do_prlimit E t res new w s = (r, old, s')"
  shows "limits_step E s s' \<and> (r \<noteq> 0 \<longrightarrow> s' = s) \<and> umem (rk s') = umem (rk s) \<and> balanced (rk s) (rk s')"
proof (cases "r = 0 \<and> new \<noteq> None")
  case False
  then have "s' = s" using assms by (auto simp: do_prlimit_def Let_def split: if_splits option.splits)
  then show ?thesis by simp
next
  case True
  then obtain n where n: "new = Some n" by auto
  from True assms n have rk: "rk s' = set_rlim t res n (rk s)" and cm: "rlim_cur n \<le> rlim_max n"
    and hard: "rlim_max n \<le> rlim_max (get_rlim t res (rk s)) \<or> capable_resource E"
    by (auto simp: do_prlimit_def Let_def split: if_splits)
  then have "limits_step E s s'"
    by (auto simp: limits_step_def hard_within_def soft_ok_def set_rlim_def get_rlim_def Let_def)
  then show ?thesis using True rk by (simp add: set_rlim_def Let_def balanced_def)
qed

text \<open>The calls as steps of one machine; between two calls the user may write its own memory.\<close>

datatype rlimit_call =
    Getrlimit nat addr | Setrlimit nat addr | Compat_setrlimit nat addr | Compat_getrlimit nat addr
  | Old_getrlimit nat addr | Compat_old_getrlimit nat addr | Prlimit64 int nat addr addr
  | User_writes mem

fun rlimit_step :: "rlimit_env \<Rightarrow> uaccess \<Rightarrow> rlimit_call \<Rightarrow> rlimit_state \<Rightarrow> rlimit_state" where
  "rlimit_step E U (Getrlimit res p) s = snd (sys_getrlimit E U res p s)"
| "rlimit_step E U (Setrlimit res p) s = snd (sys_setrlimit E U res p s)"
| "rlimit_step E U (Compat_setrlimit res p) s = snd (compat_sys_setrlimit E U res p s)"
| "rlimit_step E U (Compat_getrlimit res p) s = snd (compat_sys_getrlimit E U res p s)"
| "rlimit_step E U (Old_getrlimit res p) s = snd (sys_old_getrlimit E U res p s)"
| "rlimit_step E U (Compat_old_getrlimit res p) s = snd (compat_sys_old_getrlimit E U res p s)"
| "rlimit_step E U (Prlimit64 pid res new old) s = snd (sys_prlimit64 E U pid res new old s)"
| "rlimit_step E U (User_writes m) s = s\<lparr>rk := (rk s)\<lparr>umem := m\<rparr>\<rparr>"

lemma rcopy_step: "rcopy_to_user U a bs s = (left, s') \<Longrightarrow> limits_step E s s'"
  by (simp add: rcopy_same limits_step_same)

lemma do_prlimit_limits: "do_prlimit E t res new w s = (r, old, s') \<Longrightarrow> limits_step E s s'"
  using do_prlimit_step by blast

lemma lock_same: "same_limits s (s\<lparr>rk := rcu_read_lock (rk s)\<rparr>)" "same_limits s (s\<lparr>rk := rcu_read_unlock (rk s)\<rparr>)"
  "same_limits s (s\<lparr>rk := get_task_struct t (rk s)\<rparr>)" "same_limits s (s\<lparr>rk := put_task_struct t (rk s)\<rparr>)"
  by (simp_all add: same_limits_def lock_defs)

lemma prlimit64_step: "limits_step E s (snd (sys_prlimit64 E U pid res new old s))"
proof -
  let ?s1 = "s\<lparr>rk := rcu_read_lock (rk s)\<rparr>"
  have unlock: "limits_step E s (?s1\<lparr>rk := rcu_read_unlock (rk ?s1)\<rparr>)"
    by (simp add: limits_step_same same_limits_def lock_defs)
  have main: "limits_step E s (s4\<lparr>rk := put_task_struct t (rk s4)\<rparr>)"
    if d: "do_prlimit E t res n w (?s1\<lparr>rk := rcu_read_unlock (get_task_struct t (rk ?s1))\<rparr>) = (r, oo, s3)"
      and c: "s4 = s3 \<or> (\<exists>bs l. rcopy_to_user U old bs s3 = (l, s4))" for t n w r oo s3 s4
  proof -
    have 1: "limits_step E s (?s1\<lparr>rk := rcu_read_unlock (get_task_struct t (rk ?s1))\<rparr>)"
      by (simp add: limits_step_same same_limits_def lock_defs)
    have 2: "limits_step E s3 s4" using c by (auto intro: rcopy_step)
    have 3: "limits_step E s4 (s4\<lparr>rk := put_task_struct t (rk s4)\<rparr>)"
      by (simp add: limits_step_same lock_same)
    show ?thesis
      by (rule limits_step_trans [OF 1 limits_step_trans [OF do_prlimit_limits [OF d]
              limits_step_trans [OF 2 3]]])
  qed
  obtain bs left where c: "(if new \<noteq> NULL then rcopy_from_user U 16 new s else ([], 0)) = (bs, left)"
    by fastforce
  let ?n = "if new \<noteq> NULL then Some (rlim64_to_rlim (dec_rlimit bs)) else None"
  note def = sys_prlimit64_def [of E U pid res new old s, unfolded c Let_def prod.case]
  show ?thesis
  proof (cases "left \<noteq> 0")
    case False
    show ?thesis
    proof (cases "if pid \<noteq> 0 then vpids (rk ?s1) pid else Some (current_task E)")
      case None
      then show ?thesis using False unlock unfolding def by simp
    next
      case (Some t)
      let ?s2 = "?s1\<lparr>rk := rcu_read_unlock (get_task_struct t (rk ?s1))\<rparr>"
      obtain r oo s3 where d: "do_prlimit E t res ?n (old \<noteq> NULL) ?s2 = (r, oo, s3)" by (rule prod_cases3)
      obtain l s4 where cp: "rcopy_to_user U old (enc_rlimit (rlim_to_rlim64 (the oo))) s3 = (l, s4)"
        by fastforce
      have "limits_step E s (s3\<lparr>rk := put_task_struct t (rk s3)\<rparr>)"
        "limits_step E s (s4\<lparr>rk := put_task_struct t (rk s4)\<rparr>)"
        using main [OF d] cp by blast+
      then show ?thesis using False unlock unfolding def Some option.case d cp prod.case
        by (simp split: if_splits)
    qed
  qed (simp add: def)
qed

lemma rlimit_step_limits: "limits_step E s (rlimit_step E U x s)"
proof (cases x)
  case (Prlimit64 pid res new old)
  then show ?thesis by (simp add: prlimit64_step)
next
  case (User_writes m)
  then show ?thesis by (simp add: limits_step_same same_limits_def)
next
  case (Compat_old_getrlimit res p)
  then show ?thesis
    by (auto simp: compat_sys_old_getrlimit_def Let_def limits_step_same same_limits_def split: prod.splits)
qed (auto simp: sys_getrlimit_def sys_setrlimit_def compat_sys_setrlimit_def compat_sys_getrlimit_def
    sys_old_getrlimit_def Let_def split: prod.splits if_splits
    intro: rcopy_step do_prlimit_limits limits_step_trans)

interpretation rlimits: confined_steps "rlimit_step E U" "limits_step E" for E U
  by unfold_locales (auto intro: limits_step_trans rlimit_step_limits)

section \<open>Properties\<close>

text \<open>
  (C4) Without \<^verbatim>\<open>CAP_SYS_RESOURCE\<close> no sequence of the seven calls, on whatever tasks and with
  whatever the user writes to its memory in between, raises any hard limit of any process, and
  soft limits stay within hard limits.
\<close>

theorem hard_limits_only_fall:
  assumes "\<not> capable_resource E" and "s' = run_calls (rlimit_step E U) xs s"
  shows "(\<forall>g res. rlim_max (rlim (signals (rk s') g) res) \<le> rlim_max (rlim (signals (rk s) g) res))
    \<and> (soft_ok s \<longrightarrow> soft_ok s')"
  using rlimits.run_within [of E s U xs] assms by (simp add: limits_step_def hard_within_def)

definition demo_rlimit_env :: rlimit_env where
  "demo_rlimit_env = \<lparr>sysctl_nr_open = 1048576, capable_resource = False,
     ns_capable_resource = (\<lambda>_. False), security_setrlimit = (\<lambda>_ _ _. 0),
     security_prlimit = (\<lambda>_ _ _ _. 0), group_leader_of = (\<lambda>t. t),
     cred_of = (\<lambda>_. cur demo_cred_state), current_task = 1\<rparr>"

definition demo_rlimit_state :: rlimit_state where
  "demo_rlimit_state = \<lparr>rk = demo_kernel, cpu_timers = Map.empty\<rparr>"

theorem hard_limits_only_fall_witness:
  "rlim_max (rlim (signals (rk (run_calls (rlimit_step demo_rlimit_env demo_U)
     [Setrlimit 9 4096, Prlimit64 42 9 4096 0] demo_rlimit_state)) 1) 9) \<le> RLIM_INFINITY"
proof -
  have "\<not> capable_resource demo_rlimit_env" by (simp add: demo_rlimit_env_def)
  from conjunct1 [OF hard_limits_only_fall [OF this refl, of demo_U
        "[Setrlimit 9 4096, Prlimit64 42 9 4096 0]" demo_rlimit_state], THEN spec, of 1, THEN spec, of 9]
  show ?thesis by (rule order_trans) (simp add: demo_rlimit_state_def demo_defs)
qed

lemma length_enc_rlimit [simp]: "length (enc_rlimit r) = 16"
  by (simp add: enc_rlimit_def)

lemma dec_enc_rlimit [simp]: "dec_rlimit (enc_rlimit r) = r"
  by (simp add: dec_rlimit_def enc_rlimit_def)

lemma get_set_rlim [simp]: "get_rlim t res (set_rlim t res rl k) = rl"
  by (simp add: get_rlim_def set_rlim_def Let_def)

lemma do_prlimit_get:
  "do_prlimit E t res None True s = (r, old, s') \<Longrightarrow> r = 0 \<Longrightarrow> old = Some (get_rlim t res (rk s)) \<and> s' = s"
  by (auto simp: do_prlimit_def Let_def split: if_splits)

lemma do_prlimit_set:
  "do_prlimit E t res (Some n) w s = (0, old, s') \<Longrightarrow> rk s' = set_rlim t res n (rk s)"
  by (auto simp: do_prlimit_def Let_def split: if_splits)

lemma set_rlim_umem [simp]: "umem (set_rlim t res rl k) = umem k"
  by (simp add: set_rlim_def Let_def)

context uaccess_laws
begin

lemma rcopy_from_done:
  "rcopy_from_user U n a s = (bs, 0) \<Longrightarrow> bs = load_bytes (umem (rk s)) a n"
  unfolding rcopy_from_user_def by (drule copy_from_user_done) simp

lemma rcopy_to_done:
  "rcopy_to_user U a bs s = (0, s') \<Longrightarrow> umem (rk s') = store_bytes (umem (rk s)) a bs"
  by (auto simp: rcopy_to_user_def dest!: kcopy_done split: prod.splits)

end

text \<open>
  A limit that \<^verbatim>\<open>setrlimit\<close> accepted is what \<^verbatim>\<open>getrlimit\<close> reports: the caller reads back the
  sixteen bytes it passed, and \<^verbatim>\<open>RLIMIT\<close> of the task is the decoded pair.
\<close>

theorem setrlimit_getrlimit:
  assumes "uaccess_laws U" and set: "sys_setrlimit E U res p s = (0, s1)"
    and get: "sys_getrlimit E U res q s1 = (0, s2)"
  shows "dec_rlimit (load_bytes (umem (rk s2)) q 16) = dec_rlimit (load_bytes (umem (rk s)) p 16)
    \<and> get_rlim (current_task E) res (rk s1) = dec_rlimit (load_bytes (umem (rk s)) p 16)"
proof -
  obtain bs left where c: "rcopy_from_user U 16 p s = (bs, left)" by fastforce
  obtain r o1 t where d: "do_prlimit E (current_task E) res (Some (dec_rlimit bs)) False s = (r, o1, t)"
    by (rule prod_cases3)
  have l: "left = 0" "r = 0" "t = s1" using set c d by (auto simp: sys_setrlimit_def split: if_splits)
  then have rk: "rk s1 = set_rlim (current_task E) res (dec_rlimit bs) (rk s)" using d do_prlimit_set by blast
  have bs: "bs = load_bytes (umem (rk s)) p 16" using uaccess_laws.rcopy_from_done [OF assms(1)] c l by simp
  obtain r2 o2 t2 where g: "do_prlimit E (current_task E) res None True s1 = (r2, o2, t2)" by (rule prod_cases3)
  have "r2 = 0" using get g by (auto simp: sys_getrlimit_def split: if_splits)
  then have o2: "o2 = Some (dec_rlimit bs)" "t2 = s1" using do_prlimit_get [OF g] rk by simp_all
  obtain l2 t3 where cp: "rcopy_to_user U q (enc_rlimit (dec_rlimit bs)) s1 = (l2, t3)" by fastforce
  have "l2 = 0" "t3 = s2"
    using get g \<open>r2 = 0\<close> o2 cp by (auto simp: sys_getrlimit_def split: if_splits)
  then have "umem (rk s2) = store_bytes (umem (rk s1)) q (enc_rlimit (dec_rlimit bs))"
    using uaccess_laws.rcopy_to_done [OF assms(1)] cp by blast
  then have "load_bytes (umem (rk s2)) q 16 = enc_rlimit (dec_rlimit bs)"
    using load_store_bytes [of "enc_rlimit (dec_rlimit bs)"] by simp
  then show ?thesis using rk bs by simp
qed

lemma demo_do_prlimit:
  "res < RLIM_NLIMITS \<Longrightarrow> fst (do_prlimit E t res None w s) = 0"
  "fst (do_prlimit demo_rlimit_env 1 9 (Some (dec_rlimit (replicate 16 0))) w demo_rlimit_state) = 0"
  by (simp_all add: do_prlimit_def Let_def demo_rlimit_env_def demo_rlimit_state_def
      demo_defs get_rlim_def) (simp add: dec_rlimit_def)

theorem setrlimit_getrlimit_witness:
  "get_rlim 1 9 (rk (snd (sys_setrlimit demo_rlimit_env demo_U 9 4096 demo_rlimit_state)))
     = dec_rlimit (load_bytes (umem demo_kernel) 4096 16)"
proof -
  let ?s1 = "snd (sys_setrlimit demo_rlimit_env demo_U 9 4096 demo_rlimit_state)"
  have cur: "current_task demo_rlimit_env = 1" "rk demo_rlimit_state = demo_kernel"
    by (simp_all add: demo_rlimit_env_def demo_rlimit_state_def)
  have bs: "rcopy_from_user demo_U 16 4096 demo_rlimit_state = (replicate 16 0, 0)"
    by (simp add: rcopy_from_user_def copy_from_user_all_mapped cur demo_defs load_bytes_def map_replicate_const)
  have "sys_setrlimit demo_rlimit_env demo_U 9 4096 demo_rlimit_state = (0, ?s1)"
    using demo_do_prlimit(2) [of False]
    by (simp add: prod_eq_iff) (auto simp: sys_setrlimit_def bs cur split: prod.splits)
  moreover have "sys_getrlimit demo_rlimit_env demo_U 9 4096 ?s1
      = (0, snd (sys_getrlimit demo_rlimit_env demo_U 9 4096 ?s1))"
    using demo_do_prlimit(1) [of 9 demo_rlimit_env 1 True ?s1]
    by (simp add: prod_eq_iff)
      (auto simp: sys_getrlimit_def cur prod_eq_iff rcopy_to_user_def kcopy_all_mapped split: prod.splits)
  ultimately show ?thesis
    using setrlimit_getrlimit [OF page.uaccess_laws_axioms, THEN conjunct2] cur by fastforce
qed

lemma rlim64_identity: "rlim64_to_rlim r = r" "rlim_to_rlim64 r = r"
  by (simp_all add: rlim64_to_rlim_def rlim_to_rlim64_def rlim64_is_infinity_def)

lemma do_prlimit_usage:
  "do_prlimit E t res n w (s\<lparr>rk := get_task_struct t (rk s)\<rparr>) =
     (case do_prlimit E t res n w s of (r, old, s') \<Rightarrow> (r, old, s'\<lparr>rk := get_task_struct t (rk s')\<rparr>))"
  by (cases n) (simp_all add: do_prlimit_def Let_def get_rlim_def set_rlim_def get_task_struct_def)

lemma rcopy_to_user_usage:
  "rcopy_to_user U a bs (s\<lparr>rk := get_task_struct t (rk s)\<rparr>) =
     (case rcopy_to_user U a bs s of (left, s') \<Rightarrow> (left, s'\<lparr>rk := get_task_struct t (rk s')\<rparr>))"
  by (simp add: rcopy_to_user_def kcopy_to_user_def get_task_struct_def split: prod.split)

lemma rcu_around_get [simp]:
  "rcu_read_unlock (get_task_struct t (rcu_read_lock k)) = get_task_struct t k"
  by (simp add: lock_defs)

text \<open>
  \<^verbatim>\<open>prlimit64\<close> on the caller itself is \<^verbatim>\<open>setrlimit\<close> when only a new limit is given and
  \<^verbatim>\<open>getrlimit\<close> when only the old one is asked for: same result, same limits, same memory, same
  locks and references.
\<close>

theorem prlimit64_subsumes:
  assumes "p \<noteq> NULL"
  shows "sys_prlimit64 E U 0 res p NULL s = sys_setrlimit E U res p s
    \<and> sys_prlimit64 E U 0 res NULL p s = sys_getrlimit E U res p s"
  using assms
  by (simp add: sys_prlimit64_def sys_setrlimit_def sys_getrlimit_def check_prlimit_permission_def Let_def
      rlim64_identity do_prlimit_usage rcopy_to_user_usage split: prod.split)

theorem prlimit64_subsumes_witness:
  "sys_prlimit64 demo_rlimit_env demo_U 0 9 4096 NULL demo_rlimit_state
     = sys_setrlimit demo_rlimit_env demo_U 9 4096 demo_rlimit_state"
  using prlimit64_subsumes [of 4096] by simp

end
