(* ===== verification/Sys_Prio.thy ===== *)
theory Sys_Prio
  imports Sys_Creds
begin

text \<open>
  Scheduling priorities: \<^verbatim>\<open>setpriority\<close> and \<^verbatim>\<open>getpriority\<close> (\<^verbatim>\<open>kernel/sys.c\<close>, lines 181 to 355).
  The state holds the static priority of every thread, the read-side locks and the references
  that \<^verbatim>\<open>find_user\<close> takes. The scheduler (\<^verbatim>\<open>set_user_nice\<close>, \<^verbatim>\<open>can_nice\<close>, the conversion macros),
  the pid tables, the capability test and the security hook are parameters.
\<close>

section \<open>State and environment\<close>

abbreviation (input) PRIO_PROCESS :: int where "PRIO_PROCESS \<equiv> 0"
abbreviation (input) PRIO_PGRP :: int where "PRIO_PGRP \<equiv> 1"
abbreviation (input) PRIO_USER :: int where "PRIO_USER \<equiv> 2"
abbreviation (input) MIN_NICE :: int where "MIN_NICE \<equiv> - 20"
abbreviation (input) MAX_NICE :: int where "MAX_NICE \<equiv> 19"

record prio_state =
  static_prio :: "nat \<Rightarrow> int"
  prio_rcu :: nat
  tasklist_readers :: nat
  user_refs :: "u32 \<Rightarrow> int"

record prio_env =
  prio_current :: nat
  task_cred :: "nat \<Rightarrow> cred"
  ns_capable_nice :: "nat \<Rightarrow> bool"
  can_nice :: "nat \<Rightarrow> int \<Rightarrow> bool"
  security_task_setnice :: "nat \<Rightarrow> int \<Rightarrow> int"
  set_user_nice :: "nat \<Rightarrow> int \<Rightarrow> (nat \<Rightarrow> int) \<Rightarrow> nat \<Rightarrow> int"
  PRIO_TO_NICE :: "int \<Rightarrow> int"
  nice_to_rlimit :: "int \<Rightarrow> int"
  find_task_by_vpid :: "int \<Rightarrow> nat option"
  find_vpid :: "int \<Rightarrow> nat option"
  task_pgrp :: "nat \<Rightarrow> nat"
  pid_threads :: "nat option \<Rightarrow> nat list"
  process_threads :: "nat list"
  task_pid_vnr :: "nat \<Rightarrow> int"
  prio_make_kuid :: "nat \<Rightarrow> u32 \<Rightarrow> u32"
  find_user :: "u32 \<Rightarrow> bool"

definition task_nice :: "prio_env \<Rightarrow> nat \<Rightarrow> prio_state \<Rightarrow> int" where
  "task_nice E p s = PRIO_TO_NICE E (static_prio s p)"

definition prio_rcu_lock :: "prio_state \<Rightarrow> prio_state" where
  "prio_rcu_lock s = s\<lparr>prio_rcu := prio_rcu s + 1\<rparr>"

definition prio_rcu_unlock :: "prio_state \<Rightarrow> prio_state" where
  "prio_rcu_unlock s = s\<lparr>prio_rcu := prio_rcu s - 1\<rparr>"

definition read_lock_tasklist :: "prio_state \<Rightarrow> prio_state" where
  "read_lock_tasklist s = s\<lparr>tasklist_readers := tasklist_readers s + 1\<rparr>"

definition read_unlock_tasklist :: "prio_state \<Rightarrow> prio_state" where
  "read_unlock_tasklist s = s\<lparr>tasklist_readers := tasklist_readers s - 1\<rparr>"

definition ref_user :: "u32 \<Rightarrow> prio_state \<Rightarrow> prio_state" where
  "ref_user u s = s\<lparr>user_refs := (user_refs s)(u := user_refs s u + 1)\<rparr>"

definition free_uid :: "u32 \<Rightarrow> prio_state \<Rightarrow> prio_state" where
  "free_uid u s = s\<lparr>user_refs := (user_refs s)(u := user_refs s u - 1)\<rparr>"

lemmas prio_lock_defs = prio_rcu_lock_def prio_rcu_unlock_def read_lock_tasklist_def
  read_unlock_tasklist_def ref_user_def free_uid_def


section \<open>Setting the priority of one task\<close>

definition set_one_prio_perm :: "prio_env \<Rightarrow> nat \<Rightarrow> bool" where
  "set_one_prio_perm E p =
     (let cred = task_cred E (prio_current E); pcred = task_cred E p in
      if uid pcred = euid cred \<or> euid pcred = euid cred then True
      else if ns_capable_nice E (user_ns pcred) then True
      else False)"

definition set_one_prio :: "prio_env \<Rightarrow> nat \<Rightarrow> int \<Rightarrow> int \<Rightarrow> prio_state \<Rightarrow> int \<times> prio_state" where
  "set_one_prio E p niceval error s =
     (if \<not> set_one_prio_perm E p then (- EPERM, s)
      else if niceval < task_nice E p s \<and> \<not> can_nice E p niceval then (- EACCES, s)
      else
        (let no_nice = security_task_setnice E p niceval in
         if no_nice \<noteq> 0 then (no_nice, s)
         else (if error = - ESRCH then 0 else error,
               s\<lparr>static_prio := set_user_nice E p niceval (static_prio s)\<rparr>)))"

fun set_prios :: "prio_env \<Rightarrow> int \<Rightarrow> nat list \<Rightarrow> int \<Rightarrow> prio_state \<Rightarrow> int \<times> prio_state" where
  "set_prios E niceval [] error s = (error, s)"
| "set_prios E niceval (p # ps) error s =
     (case set_one_prio E p niceval error s of (error, s) \<Rightarrow> set_prios E niceval ps error s)"

definition threads_of_user :: "prio_env \<Rightarrow> u32 \<Rightarrow> nat list" where
  "threads_of_user E kuid =
     filter (\<lambda>p. uid (task_cred E p) = kuid \<and> task_pid_vnr E p \<noteq> 0) (process_threads E)"


section \<open>The system calls\<close>

definition sys_setpriority :: "prio_env \<Rightarrow> int \<Rightarrow> int \<Rightarrow> int \<Rightarrow> prio_state \<Rightarrow> int \<times> prio_state" where
  "sys_setpriority E which who niceval s =
     (let cred = task_cred E (prio_current E) in
      if which > PRIO_USER \<or> which < PRIO_PROCESS then (- EINVAL, s)
      else
        (let error = - ESRCH;
             niceval = (if niceval < MIN_NICE then MIN_NICE else niceval);
             niceval = (if niceval > MAX_NICE then MAX_NICE else niceval);
             s = prio_rcu_lock s
         in case
              (if which = PRIO_PROCESS then
                 (case (if who \<noteq> 0 then find_task_by_vpid E who else Some (prio_current E)) of
                    Some p \<Rightarrow> set_one_prio E p niceval error s
                  | None \<Rightarrow> (error, s))
               else if which = PRIO_PGRP then
                 (let pgrp = (if who \<noteq> 0 then find_vpid E who else Some (task_pgrp E (prio_current E))) in
                  case set_prios E niceval (pid_threads E pgrp) error (read_lock_tasklist s) of
                    (error, s) \<Rightarrow> (error, read_unlock_tasklist s))
               else
                 (let kuid = (if who = 0 then uid cred else prio_make_kuid E (user_ns cred) (of_int who)) in
                  if kuid \<noteq> uid cred \<and> \<not> find_user E kuid then (error, s)
                  else
                    (case set_prios E niceval (threads_of_user E kuid) error
                            (if kuid \<noteq> uid cred then ref_user kuid s else s) of
                       (error, s) \<Rightarrow> (error, if kuid \<noteq> uid cred then free_uid kuid s else s))))
            of (error, s) \<Rightarrow> (error, prio_rcu_unlock s)))"

text \<open>The largest converted nice value seen so far.\<close>

fun best_prio :: "prio_env \<Rightarrow> prio_state \<Rightarrow> nat list \<Rightarrow> int \<Rightarrow> int" where
  "best_prio E s [] retval = retval"
| "best_prio E s (p # ps) retval =
     (let niceval = nice_to_rlimit E (task_nice E p s) in
      best_prio E s ps (if niceval > retval then niceval else retval))"

definition sys_getpriority :: "prio_env \<Rightarrow> int \<Rightarrow> int \<Rightarrow> prio_state \<Rightarrow> int \<times> prio_state" where
  "sys_getpriority E which who s =
     (let cred = task_cred E (prio_current E) in
      if which > PRIO_USER \<or> which < PRIO_PROCESS then (- EINVAL, s)
      else
        (let retval = - ESRCH;
             s = prio_rcu_lock s
         in case
              (if which = PRIO_PROCESS then
                 (case (if who \<noteq> 0 then find_task_by_vpid E who else Some (prio_current E)) of
                    Some p \<Rightarrow>
                      (let niceval = nice_to_rlimit E (task_nice E p s) in
                       (if niceval > retval then niceval else retval, s))
                  | None \<Rightarrow> (retval, s))
               else if which = PRIO_PGRP then
                 (let pgrp = (if who \<noteq> 0 then find_vpid E who else Some (task_pgrp E (prio_current E)));
                      s = read_lock_tasklist s
                  in (best_prio E s (pid_threads E pgrp) retval, read_unlock_tasklist s))
               else
                 (let kuid = (if who = 0 then uid cred else prio_make_kuid E (user_ns cred) (of_int who)) in
                  if kuid \<noteq> uid cred \<and> \<not> find_user E kuid then (retval, s)
                  else
                    (let s = (if kuid \<noteq> uid cred then ref_user kuid s else s) in
                     (best_prio E s (threads_of_user E kuid) retval,
                      if kuid \<noteq> uid cred then free_uid kuid s else s))))
            of (retval, s) \<Rightarrow> (retval, prio_rcu_unlock s)))"


section \<open>The threads a call is about\<close>

text \<open>The threads that \<open>which\<close> and \<open>who\<close> select, and the nice value the call stores.\<close>

definition prio_targets :: "prio_env \<Rightarrow> int \<Rightarrow> int \<Rightarrow> nat list" where
  "prio_targets E which who =
     (let cred = task_cred E (prio_current E);
          kuid = (if who = 0 then uid cred else prio_make_kuid E (user_ns cred) (of_int who)) in
      if which = PRIO_PROCESS then
        (case (if who = 0 then Some (prio_current E) else find_task_by_vpid E who) of None \<Rightarrow> [] | Some p \<Rightarrow> [p])
      else if which = PRIO_PGRP then
        pid_threads E (if who = 0 then Some (task_pgrp E (prio_current E)) else find_vpid E who)
      else if kuid = uid cred \<or> find_user E kuid then threads_of_user E kuid else [])"

definition clamp_nice :: "int \<Rightarrow> int" where
  "clamp_nice n = max MIN_NICE (min MAX_NICE n)"

text \<open>A thread the caller may give the nice value \<open>n\<close>.\<close>

definition may_set_prio :: "prio_env \<Rightarrow> int \<Rightarrow> prio_state \<Rightarrow> nat \<Rightarrow> bool" where
  "may_set_prio E n s p \<longleftrightarrow> set_one_prio_perm E p \<and> (n < task_nice E p s \<longrightarrow> can_nice E p n)
     \<and> security_task_setnice E p n = 0"

text \<open>
  The documented behaviour of the scheduler: storing a nice value in range makes it the nice
  value of that thread and of no other; the conversion to the range of \<^verbatim>\<open>RLIMIT_NICE\<close> maps
  the nice values 19 to -20 to 1 to 40.
\<close>

definition nice_laws :: "prio_env \<Rightarrow> bool" where
  "nice_laws E \<longleftrightarrow>
     (\<forall>p n f. MIN_NICE \<le> n \<and> n \<le> MAX_NICE \<longrightarrow>
        PRIO_TO_NICE E (set_user_nice E p n f p) = n \<and> (\<forall>q. q \<noteq> p \<longrightarrow> set_user_nice E p n f q = f q))
   \<and> (\<forall>n. MIN_NICE \<le> n \<and> n \<le> MAX_NICE \<longrightarrow> nice_to_rlimit E n = 20 - n)"

section \<open>The calls as loops over their targets\<close>

lemma clamp_nice_ifs:
  "(let n = (if n < MIN_NICE then MIN_NICE else n) in if n > MAX_NICE then MAX_NICE else n) = clamp_nice n"
  by (simp add: clamp_nice_def Let_def)

lemma clamp_nice_range [simp]: "MIN_NICE \<le> clamp_nice n" "clamp_nice n \<le> MAX_NICE"
  by (simp_all add: clamp_nice_def)

text \<open>Locks and references neither influence the loop nor are touched by it.\<close>

lemma set_prios_frame:
  assumes "\<And>s. static_prio (L s) = static_prio s" "\<And>s f. L (s\<lparr>static_prio := f\<rparr>) = (L s)\<lparr>static_prio := f\<rparr>"
  shows "set_prios E n ps e (L s) = (case set_prios E n ps e s of (e, s) \<Rightarrow> (e, L s))"
proof (induction ps arbitrary: e s)
  case (Cons p ps)
  have "set_one_prio E p n e (L s) = (case set_one_prio E p n e s of (e, s) \<Rightarrow> (e, L s))"
    by (simp add: set_one_prio_def task_nice_def Let_def assms)
  then show ?case by (simp add: Cons.IH split: prod.split)
qed simp

lemma setpriority_loop:
  assumes "PRIO_PROCESS \<le> which" "which \<le> PRIO_USER"
  shows "sys_setpriority E which who n s = set_prios E (clamp_nice n) (prio_targets E which who) (- ESRCH) s"
proof -
  have rcu: "set_prios E m ps e (prio_rcu_lock t) = (case set_prios E m ps e t of (e, u) \<Rightarrow> (e, prio_rcu_lock u))"
    and tl: "set_prios E m ps e (read_lock_tasklist t) = (case set_prios E m ps e t of (e, u) \<Rightarrow> (e, read_lock_tasklist u))"
    and ru: "set_prios E m ps e (ref_user k t) = (case set_prios E m ps e t of (e, u) \<Rightarrow> (e, ref_user k u))"
    for m ps e t k
    by (rule set_prios_frame; simp add: prio_lock_defs)+
  have un: "prio_rcu_unlock (prio_rcu_lock t) = t" "read_unlock_tasklist (read_lock_tasklist t) = t"
    "free_uid k (ref_user k t) = t" for t k
    by (simp_all add: prio_lock_defs)
  have one: "set_one_prio E p m e t = set_prios E m [p] e t" for p m e t by (simp split: prod.split)
  show ?thesis using assms
    unfolding sys_setpriority_def clamp_nice_ifs [unfolded Let_def] Let_def
    by (auto simp: one rcu tl ru un prio_targets_def Let_def simp del: set_prios.simps(2)
        split: prod.split option.split)
qed

lemma getpriority_loop:
  assumes "PRIO_PROCESS \<le> which" "which \<le> PRIO_USER"
  shows "sys_getpriority E which who s = (best_prio E s (prio_targets E which who) (- ESRCH), s)"
proof -
  have frame: "best_prio E t ps r = best_prio E u ps r" if "static_prio t = static_prio u" for t u ps r
    using that by (induction ps arbitrary: r) (simp_all add: task_nice_def Let_def)
  show ?thesis using assms
    by (auto simp: sys_getpriority_def prio_targets_def Let_def prio_lock_defs task_nice_def
        intro: frame split: option.split)
qed

lemma best_prio_const:
  assumes "\<forall>p\<in>set ps. nice_to_rlimit E (task_nice E p s) = v" "ps \<noteq> []" "r < v"
  shows "best_prio E s ps r = v"
proof -
  have same: "\<forall>p\<in>set qs. nice_to_rlimit E (task_nice E p s) = v \<Longrightarrow> best_prio E s qs v = v" for qs
    by (induction qs) (simp_all add: Let_def)
  from assms same show ?thesis by (cases ps) (simp_all add: Let_def)
qed

lemma set_prios_outcome:
  assumes "nice_laws E" "MIN_NICE \<le> n" "n \<le> MAX_NICE" "\<forall>p. security_task_setnice E p n \<noteq> - ESRCH"
    and "distinct ps" "set_prios E n ps e s = (e', s')"
  shows "s' = s\<lparr>static_prio := static_prio s'\<rparr>
    \<and> (\<forall>q. task_nice E q s' = (if q \<in> set ps \<and> may_set_prio E n s q then n else task_nice E q s))
    \<and> (e' = 0 \<longleftrightarrow> (e = 0 \<or> e = - ESRCH \<and> ps \<noteq> []) \<and> (\<forall>p\<in>set ps. may_set_prio E n s p))"
  using assms(5,6)
proof (induction ps arbitrary: e s)
  case (Cons p ps)
  obtain e1 s1 where one: "set_one_prio E p n e s = (e1, s1)" by fastforce
  have s1: "s1 = s\<lparr>static_prio := static_prio s1\<rparr>"
    and nice: "task_nice E q s1 = (if q = p \<and> may_set_prio E n s p then n else task_nice E q s)"
    and e1: "e1 = (if may_set_prio E n s p then (if e = - ESRCH then 0 else e) else e1)"
    and err: "\<not> may_set_prio E n s p \<Longrightarrow> e1 \<noteq> 0 \<and> e1 \<noteq> - ESRCH" for q
    using one assms(1-4)
    by (auto simp: set_one_prio_def may_set_prio_def Let_def task_nice_def nice_laws_def split: if_splits)
  have may: "may_set_prio E n s1 q = may_set_prio E n s q" if "q \<in> set ps" for q
    using that Cons.prems(1) by (auto simp: may_set_prio_def nice)
  have rest: "set_prios E n ps e1 s1 = (e', s')" using Cons.prems(2) one by simp
  note IH = Cons.IH [OF _ rest]
  have "s' = s\<lparr>static_prio := static_prio s'\<rparr>" 
  proof -
    from s1 obtain f where "s1 = s\<lparr>static_prio := f\<rparr>" by blast
    with IH Cons.prems(1) show ?thesis by simp
  qed
  moreover have "task_nice E q s' = (if q \<in> set (p # ps) \<and> may_set_prio E n s q then n else task_nice E q s)" for q
    using IH Cons.prems(1) may nice by auto
  moreover have "e' = 0 \<longleftrightarrow> (e = 0 \<or> e = - ESRCH) \<and> (\<forall>p\<in>set (p # ps). may_set_prio E n s p)"
    using IH Cons.prems(1) may e1 err by (auto split: if_splits)
  ultimately show ?case by simp
qed simp



section \<open>Properties\<close>

text \<open>
  (C30) \<^verbatim>\<open>setpriority\<close> gives exactly the selected threads that the caller may change the nice
  value, cut to the range of nice values, leaves every other thread, every lock and every
  reference as it was, and returns 0 iff there was such a thread and none was refused.
\<close>

theorem setpriority_exact:
  assumes "nice_laws E" "\<forall>p. security_task_setnice E p (clamp_nice n) \<noteq> - ESRCH"
    and "PRIO_PROCESS \<le> which" "which \<le> PRIO_USER" "distinct (prio_targets E which who)"
    and "sys_setpriority E which who n s = (r, s')"
  shows "s' = s\<lparr>static_prio := static_prio s'\<rparr>
    \<and> (\<forall>p. task_nice E p s' = (if p \<in> set (prio_targets E which who) \<and> may_set_prio E (clamp_nice n) s p
                                then clamp_nice n else task_nice E p s))
    \<and> (r = 0 \<longleftrightarrow> prio_targets E which who \<noteq> [] \<and> (\<forall>p\<in>set (prio_targets E which who). may_set_prio E (clamp_nice n) s p))"
  using set_prios_outcome [OF assms(1) clamp_nice_range assms(2,5), of "- ESRCH" s r s'] assms(3,4,6)
  by (simp add: setpriority_loop)

definition demo_prio_env :: prio_env where
  "demo_prio_env = \<lparr>prio_current = 1, task_cred = (\<lambda>_. cur demo_cred_state), ns_capable_nice = (\<lambda>_. False),
     can_nice = (\<lambda>_ _. False), security_task_setnice = (\<lambda>_ _. 0),
     set_user_nice = (\<lambda>p n f. f(p := n + 120)), PRIO_TO_NICE = (\<lambda>x. x - 120),
     nice_to_rlimit = (\<lambda>n. 20 - n), find_task_by_vpid = (\<lambda>p. if p = 42 then Some 1 else None),
     find_vpid = (\<lambda>_. None), task_pgrp = (\<lambda>_. 1), pid_threads = (\<lambda>_. [1, 2]),
     process_threads = [1, 2, 3], task_pid_vnr = int, prio_make_kuid = (\<lambda>_ u. u), find_user = (\<lambda>_. False)\<rparr>"

definition demo_prio_state :: prio_state where
  "demo_prio_state = \<lparr>static_prio = (\<lambda>_. 120), prio_rcu = 0, tasklist_readers = 0, user_refs = (\<lambda>_. 0)\<rparr>"

lemmas demo_prio_defs = demo_prio_env_def demo_prio_state_def demo_cred_state_def

lemma demo_nice_laws: "nice_laws demo_prio_env"
  by (simp add: nice_laws_def demo_prio_env_def)

lemma demo_prio_targets: "prio_targets demo_prio_env PRIO_PGRP 0 = [1, 2]"
  by (simp add: prio_targets_def demo_prio_env_def Let_def)

lemma demo_may_set_prio: "may_set_prio demo_prio_env 19 demo_prio_state p"
  by (simp add: may_set_prio_def set_one_prio_perm_def task_nice_def demo_prio_defs)

theorem setpriority_exact_witness:
  "fst (sys_setpriority demo_prio_env PRIO_PGRP 0 100 demo_prio_state) = 0"
proof -
  have "clamp_nice 100 = 19" by (simp add: clamp_nice_def)
  moreover have "\<forall>p n. security_task_setnice demo_prio_env p n \<noteq> - ESRCH" by (simp add: demo_prio_env_def)
  ultimately show ?thesis
    using setpriority_exact [OF demo_nice_laws, of 100 PRIO_PGRP 0 demo_prio_state
        "fst (sys_setpriority demo_prio_env PRIO_PGRP 0 100 demo_prio_state)"
        "snd (sys_setpriority demo_prio_env PRIO_PGRP 0 100 demo_prio_state)"]
    by (simp add: demo_prio_targets demo_may_set_prio)
qed

text \<open>
  After a \<^verbatim>\<open>setpriority\<close> that returned 0, \<^verbatim>\<open>getpriority\<close> with the same arguments reports
  that nice value in its positive encoding, a number from 1 to 40.
\<close>

theorem setpriority_getpriority:
  assumes "nice_laws E" "\<forall>p. security_task_setnice E p (clamp_nice n) \<noteq> - ESRCH"
    and "distinct (prio_targets E which who)" "sys_setpriority E which who n s = (0, s')"
  shows "fst (sys_getpriority E which who s') = 20 - clamp_nice n
    \<and> 1 \<le> fst (sys_getpriority E which who s') \<and> fst (sys_getpriority E which who s') \<le> 40"
proof -
  have w: "PRIO_PROCESS \<le> which" "which \<le> PRIO_USER"
    using assms(4) by (auto simp: sys_setpriority_def Let_def split: if_splits)
  let ?ts = "prio_targets E which who"
  have "set_prios E (clamp_nice n) ?ts (- ESRCH) s = (0, s')" using assms(4) w by (simp add: setpriority_loop)
  note out = set_prios_outcome [OF assms(1) clamp_nice_range assms(2,3) this]
  then have "\<forall>p\<in>set ?ts. nice_to_rlimit E (task_nice E p s') = 20 - clamp_nice n" "?ts \<noteq> []"
    using assms(1) by (simp_all add: nice_laws_def)
  then have "best_prio E s' ?ts (- ESRCH) = 20 - clamp_nice n"
    by (rule best_prio_const) (use clamp_nice_range(2) [of n] in linarith)
  moreover have "1 \<le> 20 - clamp_nice n \<and> 20 - clamp_nice n \<le> 40"
    using clamp_nice_range [of n] by linarith
  ultimately show ?thesis using w by (simp only: getpriority_loop fst_conv simp_thms)
qed

theorem setpriority_getpriority_witness:
  "fst (sys_getpriority demo_prio_env PRIO_PGRP 0
     (snd (sys_setpriority demo_prio_env PRIO_PGRP 0 100 demo_prio_state))) = 1"
proof -
  have "sys_setpriority demo_prio_env PRIO_PGRP 0 100 demo_prio_state
      = (0, snd (sys_setpriority demo_prio_env PRIO_PGRP 0 100 demo_prio_state))"
    by (simp add: prod_eq_iff) (simp add: sys_setpriority_def set_one_prio_def set_one_prio_perm_def
        task_nice_def Let_def prio_lock_defs demo_prio_defs)
  moreover have "\<forall>p n. security_task_setnice demo_prio_env p n \<noteq> - ESRCH" by (simp add: demo_prio_env_def)
  ultimately show ?thesis
    using setpriority_getpriority [OF demo_nice_laws, of 100 PRIO_PGRP 0 demo_prio_state]
    by (simp add: demo_prio_targets clamp_nice_def)
qed

end
