(* ===== verification/Sys_Pgrp.thy ===== *)
theory Sys_Pgrp
  imports Kernel_Tasks Step_System
begin

text \<open>
  Process ids, process groups and sessions: \<^verbatim>\<open>getpid\<close>, \<^verbatim>\<open>gettid\<close>, \<^verbatim>\<open>getppid\<close>, \<^verbatim>\<open>setpgid\<close>,
  \<^verbatim>\<open>getpgid\<close>, \<^verbatim>\<open>getpgrp\<close>, \<^verbatim>\<open>getsid\<close> and \<^verbatim>\<open>setsid\<close> (\<^verbatim>\<open>kernel/sys.c\<close>, lines 953 to 988 and 1077 to
  1265) with the accessors of \<^verbatim>\<open>include/linux/sched/signal.h\<close>. The pid tables (\<^verbatim>\<open>kernel/pid.c\<close>)
  and the security hooks are parameters. A \<^verbatim>\<open>struct pid\<close> is a number, a null pointer to one is
  \<open>None\<close>. The calling task is an argument of every call.
\<close>

section \<open>Tasks and their signal structures\<close>

datatype pid_type = PIDTYPE_PID | PIDTYPE_TGID | PIDTYPE_PGID | PIDTYPE_SID

record pg_signal =
  pids :: "pid_type \<Rightarrow> nat option"
  session_leader :: bool
  sig_tty :: "nat option"

record pg_task =
  thread_pid :: "nat option"
  pg_signal_of :: nat
  group_leader :: nat
  real_parent :: nat
  exit_signal :: int
  forknoexec :: bool

record pg_state =
  pg_tasks :: "nat \<Rightarrow> pg_task"
  pg_signals :: "nat \<Rightarrow> pg_signal"
  tasklist_writers :: nat
  pg_rcu :: nat
  sid_events :: "nat list"

text \<open>
  The parameters: the tables from numbers to tasks and pids, the first task attached to a pid as
  its process group, the change of an attachment, the numbers that tasks and pids have in the
  namespace of the caller, and the security hooks.
\<close>

record pg_env =
  pg_find_task :: "int \<Rightarrow> nat option"
  pg_find_pid :: "int \<Rightarrow> nat option"
  pid_task_pgid :: "pg_state \<Rightarrow> nat option \<Rightarrow> nat option"
  change_pid :: "nat \<Rightarrow> pid_type \<Rightarrow> nat option \<Rightarrow> pg_state \<Rightarrow> pg_state"
  pid_vnr :: "nat option \<Rightarrow> int"
  pg_task_vnr :: "nat \<Rightarrow> int"
  pg_tgid_vnr :: "nat \<Rightarrow> int"
  security_task_setpgid :: "nat \<Rightarrow> int \<Rightarrow> int"
  security_task_getpgid :: "nat \<Rightarrow> int"
  security_task_getsid :: "nat \<Rightarrow> int"

definition pg_sig :: "pg_state \<Rightarrow> nat \<Rightarrow> pg_signal" where
  "pg_sig s t = pg_signals s (pg_signal_of (pg_tasks s t))"

definition task_pid_type :: "pg_state \<Rightarrow> nat \<Rightarrow> pid_type \<Rightarrow> nat option" where
  "task_pid_type s t ty =
     (if ty = PIDTYPE_PID then thread_pid (pg_tasks s t) else pids (pg_sig s t) ty)"

definition task_tgid :: "pg_state \<Rightarrow> nat \<Rightarrow> nat option" where
  "task_tgid s t = pids (pg_sig s t) PIDTYPE_TGID"

definition task_pgrp :: "pg_state \<Rightarrow> nat \<Rightarrow> nat option" where
  "task_pgrp s t = pids (pg_sig s t) PIDTYPE_PGID"

definition task_session :: "pg_state \<Rightarrow> nat \<Rightarrow> nat option" where
  "task_session s t = pids (pg_sig s t) PIDTYPE_SID"

definition thread_group_leader :: "pg_state \<Rightarrow> nat \<Rightarrow> bool" where
  "thread_group_leader s t \<longleftrightarrow> exit_signal (pg_tasks s t) \<ge> 0"

definition same_thread_group :: "pg_state \<Rightarrow> nat \<Rightarrow> nat \<Rightarrow> bool" where
  "same_thread_group s p1 p2 \<longleftrightarrow> pg_signal_of (pg_tasks s p1) = pg_signal_of (pg_tasks s p2)"

definition pg_rcu_lock :: "pg_state \<Rightarrow> pg_state" where
  "pg_rcu_lock s = s\<lparr>pg_rcu := pg_rcu s + 1\<rparr>"

definition pg_rcu_unlock :: "pg_state \<Rightarrow> pg_state" where
  "pg_rcu_unlock s = s\<lparr>pg_rcu := pg_rcu s - 1\<rparr>"

definition write_lock_tasklist :: "pg_state \<Rightarrow> pg_state" where
  "write_lock_tasklist s = s\<lparr>tasklist_writers := tasklist_writers s + 1\<rparr>"

definition write_unlock_tasklist :: "pg_state \<Rightarrow> pg_state" where
  "write_unlock_tasklist s = s\<lparr>tasklist_writers := tasklist_writers s - 1\<rparr>"

definition set_sig :: "nat \<Rightarrow> (pg_signal \<Rightarrow> pg_signal) \<Rightarrow> pg_state \<Rightarrow> pg_state" where
  "set_sig t f s =
     (let g = pg_signal_of (pg_tasks s t) in s\<lparr>pg_signals := (pg_signals s)(g := f (pg_signals s g))\<rparr>)"

lemmas pg_lock_defs = pg_rcu_lock_def pg_rcu_unlock_def write_lock_tasklist_def write_unlock_tasklist_def
lemmas pg_acc_defs = pg_sig_def task_pgrp_def task_session_def thread_group_leader_def same_thread_group_def


section \<open>The system calls\<close>

definition sys_getpid :: "pg_env \<Rightarrow> nat \<Rightarrow> int" where
  "sys_getpid E c = pg_tgid_vnr E c"

definition sys_gettid :: "pg_env \<Rightarrow> nat \<Rightarrow> int" where
  "sys_gettid E c = pg_task_vnr E c"

definition sys_getppid :: "pg_env \<Rightarrow> nat \<Rightarrow> pg_state \<Rightarrow> int \<times> pg_state" where
  "sys_getppid E c s =
     (let s = pg_rcu_lock s;
          pid = pg_tgid_vnr E (real_parent (pg_tasks s c))
      in (pid, pg_rcu_unlock s))"

text \<open>The body between the locks; every early exit goes through \<^verbatim>\<open>out\<close>, which releases them.\<close>

definition setpgid_locked :: "pg_env \<Rightarrow> nat \<Rightarrow> int \<Rightarrow> int \<Rightarrow> pg_state \<Rightarrow> int \<times> pg_state" where
  "setpgid_locked E gl pid pgid s =
     (case pg_find_task E pid of
        None \<Rightarrow> (- ESRCH, s)
      | Some p \<Rightarrow>
        if \<not> thread_group_leader s p then (- EINVAL, s)
        else if same_thread_group s (real_parent (pg_tasks s p)) gl \<and> task_session s p \<noteq> task_session s gl
        then (- EPERM, s)
        else if same_thread_group s (real_parent (pg_tasks s p)) gl \<and> \<not> forknoexec (pg_tasks s p)
        then (- EACCES, s)
        else if \<not> same_thread_group s (real_parent (pg_tasks s p)) gl \<and> p \<noteq> gl then (- ESRCH, s)
        else if session_leader (pg_sig s p) then (- EPERM, s)
        else
          (let pgrp = (if pgid \<noteq> pid then pg_find_pid E pgid else thread_pid (pg_tasks s p)) in
           if pgid \<noteq> pid \<and> (case pid_task_pgid E s pgrp of None \<Rightarrow> True
                              | Some g \<Rightarrow> task_session s g \<noteq> task_session s gl)
           then (- EPERM, s)
           else
             (let err = security_task_setpgid E p pgid in
              if err \<noteq> 0 then (err, s)
              else (0, if task_pgrp s p \<noteq> pgrp then change_pid E p PIDTYPE_PGID pgrp s else s))))"

definition sys_setpgid :: "pg_env \<Rightarrow> nat \<Rightarrow> int \<Rightarrow> int \<Rightarrow> pg_state \<Rightarrow> int \<times> pg_state" where
  "sys_setpgid E c pid pgid s =
     (let gl = group_leader (pg_tasks s c);
          pid = (if pid = 0 then pg_task_vnr E gl else pid);
          pgid = (if pgid = 0 then pid else pgid)
      in if pgid < 0 then (- EINVAL, s)
         else
           (case setpgid_locked E gl pid pgid (write_lock_tasklist (pg_rcu_lock s)) of
              (err, s) \<Rightarrow> (err, pg_rcu_unlock (write_unlock_tasklist s))))"

definition do_getpgid :: "pg_env \<Rightarrow> nat \<Rightarrow> int \<Rightarrow> pg_state \<Rightarrow> int \<times> pg_state" where
  "do_getpgid E c pid s =
     (let s = pg_rcu_lock s;
          retval =
            (if pid = 0 then pid_vnr E (task_pgrp s c)
             else
               (case pg_find_task E pid of
                  None \<Rightarrow> - ESRCH
                | Some p \<Rightarrow>
                  (let grp = task_pgrp s p in
                   if grp = None then - ESRCH
                   else
                     (let retval = security_task_getpgid E p in
                      if retval \<noteq> 0 then retval else pid_vnr E grp))))
      in (retval, pg_rcu_unlock s))"

definition sys_getpgid :: "pg_env \<Rightarrow> nat \<Rightarrow> int \<Rightarrow> pg_state \<Rightarrow> int \<times> pg_state" where
  "sys_getpgid E c pid s = do_getpgid E c pid s"

definition sys_getpgrp :: "pg_env \<Rightarrow> nat \<Rightarrow> pg_state \<Rightarrow> int \<times> pg_state" where
  "sys_getpgrp E c s = do_getpgid E c 0 s"

definition sys_getsid :: "pg_env \<Rightarrow> nat \<Rightarrow> int \<Rightarrow> pg_state \<Rightarrow> int \<times> pg_state" where
  "sys_getsid E c pid s =
     (let s = pg_rcu_lock s;
          retval =
            (if pid = 0 then pid_vnr E (task_session s c)
             else
               (case pg_find_task E pid of
                  None \<Rightarrow> - ESRCH
                | Some p \<Rightarrow>
                  (let sid = task_session s p in
                   if sid = None then - ESRCH
                   else
                     (let retval = security_task_getsid E p in
                      if retval \<noteq> 0 then retval else pid_vnr E sid))))
      in (retval, pg_rcu_unlock s))"

definition set_special_pids :: "pg_env \<Rightarrow> nat \<Rightarrow> nat option \<Rightarrow> pg_state \<Rightarrow> pg_state" where
  "set_special_pids E c pid s =
     (let curr = group_leader (pg_tasks s c);
          s = (if task_session s curr \<noteq> pid then change_pid E curr PIDTYPE_SID pid s else s)
      in if task_pgrp s curr \<noteq> pid then change_pid E curr PIDTYPE_PGID pid s else s)"

text \<open>
  \<^verbatim>\<open>proc_clear_tty\<close> drops the terminal of the process; the two notifications at the end
  (\<^verbatim>\<open>proc_sid_connector\<close>, \<^verbatim>\<open>sched_autogroup_create_attach\<close>) are recorded as one event.
\<close>

definition ksys_setsid :: "pg_env \<Rightarrow> nat \<Rightarrow> pg_state \<Rightarrow> int \<times> pg_state" where
  "ksys_setsid E c s =
     (let gl = group_leader (pg_tasks s c);
          sid = thread_pid (pg_tasks s gl);
          session = pid_vnr E sid;
          s1 = write_lock_tasklist s;
          (err, s2) =
            (if session_leader (pg_sig s1 gl) then (- EPERM, s1)
             else if pid_task_pgid E s1 sid \<noteq> None then (- EPERM, s1)
             else
               (session,
                set_sig gl (\<lambda>g. g\<lparr>sig_tty := None\<rparr>)
                  (set_special_pids E c sid (set_sig gl (\<lambda>g. g\<lparr>session_leader := True\<rparr>) s1))));
          s3 = write_unlock_tasklist s2
      in (err, if err > 0 then s3\<lparr>sid_events := gl # sid_events s3\<rparr> else s3))"

definition sys_setsid :: "pg_env \<Rightarrow> nat \<Rightarrow> pg_state \<Rightarrow> int \<times> pg_state" where
  "sys_setsid E c s = ksys_setsid E c s"

section \<open>Well-formed process tables\<close>

text \<open>
  \<open>pg_shape\<close>: what these calls never touch. Every task belongs to the thread group of a leader,
  shares its signal structure, and leaders have signal structures and pids of their own.
\<close>

definition pg_shape :: "nat set \<Rightarrow> pg_state \<Rightarrow> bool" where
  "pg_shape live s \<longleftrightarrow>
     (\<forall>t\<in>live. group_leader (pg_tasks s t) \<in> live \<and> thread_group_leader s (group_leader (pg_tasks s t))
        \<and> same_thread_group s t (group_leader (pg_tasks s t)))
   \<and> (\<forall>l\<in>live. thread_group_leader s l \<longrightarrow> thread_pid (pg_tasks s l) \<noteq> None)
   \<and> (\<forall>l\<in>live. \<forall>m\<in>live. thread_group_leader s l \<longrightarrow> thread_group_leader s m \<longrightarrow>
        same_thread_group s l m \<or> thread_pid (pg_tasks s l) = thread_pid (pg_tasks s m) \<longrightarrow> l = m)"

text \<open>
  \<open>sessions_ok\<close>: a process group lies within one session, also when it is named after a living
  process that has left it, and a session leader leads a group and a session of its own pid.
\<close>

definition sessions_ok :: "nat set \<Rightarrow> pg_state \<Rightarrow> bool" where
  "sessions_ok live s \<longleftrightarrow>
     (\<forall>t\<in>live. \<forall>u\<in>live. task_pgrp s t \<noteq> None \<longrightarrow> task_pgrp s t = task_pgrp s u
        \<longrightarrow> task_session s t = task_session s u)
   \<and> (\<forall>l\<in>live. \<forall>t\<in>live. thread_group_leader s l \<longrightarrow> task_pgrp s t = thread_pid (pg_tasks s l)
        \<longrightarrow> task_session s t = task_session s l)
   \<and> (\<forall>l\<in>live. thread_group_leader s l \<longrightarrow> session_leader (pg_sig s l) \<longrightarrow>
        task_pgrp s l = thread_pid (pg_tasks s l) \<and> task_session s l = thread_pid (pg_tasks s l))"

definition pg_wf :: "nat set \<Rightarrow> pg_state \<Rightarrow> bool" where
  "pg_wf live s \<longleftrightarrow> pg_shape live s \<and> sessions_ok live s"

text \<open>States with the same tasks and signal structures.\<close>

definition pg_same :: "pg_state \<Rightarrow> pg_state \<Rightarrow> bool" where
  "pg_same s s' \<longleftrightarrow> pg_tasks s' = pg_tasks s \<and> pg_signals s' = pg_signals s"

lemma pg_same_acc:
  "pg_same s s' \<Longrightarrow> task_pgrp s' = task_pgrp s \<and> task_session s' = task_session s \<and> pg_sig s' = pg_sig s
     \<and> thread_group_leader s' = thread_group_leader s \<and> same_thread_group s' = same_thread_group s"
  by (simp add: pg_same_def pg_acc_defs fun_eq_iff)

lemma pg_same_wf: "pg_same s s' \<Longrightarrow> pg_wf live s' = pg_wf live s"
  using pg_same_acc [of s s'] by (simp add: pg_wf_def pg_shape_def sessions_ok_def pg_same_def)

definition attach :: "nat \<Rightarrow> pid_type \<Rightarrow> nat option \<Rightarrow> pg_state \<Rightarrow> pg_state" where
  "attach t ty pid = set_sig t (\<lambda>g. g\<lparr>pids := (pids g)(ty := pid)\<rparr>)"

lemma set_sig_tasks [simp]: "pg_tasks (set_sig t f s) = pg_tasks s"
  by (simp add: set_sig_def Let_def)

lemma set_sig_sig:
  "pg_sig (set_sig t f s) u = (if same_thread_group s t u then f (pg_sig s t) else pg_sig s u)"
  by (auto simp: set_sig_def Let_def pg_sig_def same_thread_group_def)

lemma set_sig_frame [simp]:
  "thread_group_leader (set_sig t f s) = thread_group_leader s"
  "same_thread_group (set_sig t f s) = same_thread_group s"
  "pg_shape live (set_sig t f s) = pg_shape live s"
  by (simp_all add: pg_shape_def thread_group_leader_def same_thread_group_def fun_eq_iff)

lemma attach_simps [simp]:
  "pg_tasks (attach t ty pid s) = pg_tasks s"
  "thread_group_leader (attach t ty pid s) = thread_group_leader s"
  "same_thread_group (attach t ty pid s) = same_thread_group s"
  "pg_shape live (attach t ty pid s) = pg_shape live s"
  by (simp_all add: attach_def)

lemma attach_acc:
  "task_pgrp (attach t ty pid s) u =
     (if same_thread_group s t u \<and> ty = PIDTYPE_PGID then pid else task_pgrp s u)"
  "task_session (attach t ty pid s) u =
     (if same_thread_group s t u \<and> ty = PIDTYPE_SID then pid else task_session s u)"
  "session_leader (pg_sig (attach t ty pid s) u) = session_leader (pg_sig s u)"
  by (auto simp: attach_def task_pgrp_def task_session_def set_sig_sig)
    (simp_all add: pg_sig_def same_thread_group_def)

lemma same_thread_group_refl [simp]: "same_thread_group s t t"
  by (simp add: same_thread_group_def)

lemma same_group_acc:
  "same_thread_group s t u \<Longrightarrow> task_pgrp s t = task_pgrp s u \<and> task_session s t = task_session s u
     \<and> pg_sig s t = pg_sig s u"
  by (simp add: pg_acc_defs)

lemma set_flag_acc:
  "task_pgrp (set_sig t (session_leader_update h) s) u = task_pgrp s u"
  "task_session (set_sig t (session_leader_update h) s) u = task_session s u"
  "task_pgrp (set_sig t (sig_tty_update k) s) u = task_pgrp s u"
  "task_session (set_sig t (sig_tty_update k) s) u = task_session s u"
  "session_leader (pg_sig (set_sig t (sig_tty_update k) s) u) = session_leader (pg_sig s u)"
  using same_group_acc [of s t u] by (simp_all add: task_pgrp_def task_session_def set_sig_sig)

lemma pg_shape_leader:
  "pg_shape live s \<Longrightarrow> l \<in> live \<Longrightarrow> m \<in> live \<Longrightarrow> thread_group_leader s l \<Longrightarrow> thread_group_leader s m \<Longrightarrow>
   same_thread_group s l m \<or> thread_pid (pg_tasks s l) = thread_pid (pg_tasks s m) \<Longrightarrow> l = m"
  unfolding pg_shape_def by blast

lemma sessions_okD:
  assumes "sessions_ok live s"
  shows "t \<in> live \<Longrightarrow> u \<in> live \<Longrightarrow> task_pgrp s t \<noteq> None \<Longrightarrow> task_pgrp s t = task_pgrp s u \<Longrightarrow>
      task_session s t = task_session s u"
    and "l \<in> live \<Longrightarrow> t \<in> live \<Longrightarrow> thread_group_leader s l \<Longrightarrow> task_pgrp s t = thread_pid (pg_tasks s l) \<Longrightarrow>
      task_session s t = task_session s l"
    and "l \<in> live \<Longrightarrow> thread_group_leader s l \<Longrightarrow> session_leader (pg_sig s l) \<Longrightarrow>
      task_pgrp s l = thread_pid (pg_tasks s l) \<and> task_session s l = thread_pid (pg_tasks s l)"
  using assms unfolding sessions_ok_def by blast+

text \<open>A process that is no session leader may join a group of its own session, or one of its own pid.\<close>

lemma join_group_ok:
  assumes wf: "pg_wf live s" and p: "p \<in> live" "thread_group_leader s p" "\<not> session_leader (pg_sig s p)"
    and grp: "pgrp = thread_pid (pg_tasks s p)
      \<or> pgrp \<noteq> None \<and> (\<exists>g\<in>live. task_pgrp s g = pgrp \<and> task_session s g = task_session s p)"
  shows "pg_wf live (attach p PIDTYPE_PGID pgrp s)"
proof -
  have sh: "pg_shape live s" and ok: "sessions_ok live s" using wf by (simp_all add: pg_wf_def)
  note ok1 = sessions_okD(1) [OF ok] and ok2 = sessions_okD(2) [OF ok] and ok3 = sessions_okD(3) [OF ok]
  have in_group: "task_session s u = task_session s p" if u: "u \<in> live" "task_pgrp s u = pgrp" for u
    using grp
  proof
    assume "pgrp \<noteq> None \<and> (\<exists>g\<in>live. task_pgrp s g = pgrp \<and> task_session s g = task_session s p)"
    then obtain g where "g \<in> live" "task_pgrp s g = pgrp" "task_session s g = task_session s p" "pgrp \<noteq> None"
      by blast
    with ok1 [of u g] u show ?thesis by simp
  qed (use ok2 [of p u] u p in simp)
  have named: "task_session s p = task_session s l"
    if l: "l \<in> live" "thread_group_leader s l" "thread_pid (pg_tasks s l) = pgrp" for l
    using grp
  proof
    assume "pgrp \<noteq> None \<and> (\<exists>g\<in>live. task_pgrp s g = pgrp \<and> task_session s g = task_session s p)"
    then obtain g where "g \<in> live" "task_pgrp s g = pgrp" "task_session s g = task_session s p" by blast
    with ok2 [of l g] l show ?thesis by simp
  qed (use pg_shape_leader [OF sh l(1) p(1) l(2) p(2)] l in simp)
  have eff: "(if same_thread_group s p t then pgrp else task_pgrp s t) = g \<Longrightarrow> t \<in> live \<Longrightarrow>
      task_session s t = task_session s p \<and> g = pgrp \<or> task_pgrp s t = g" for t g
    using same_group_acc [of s p t] by (auto split: if_splits)
  have one: "task_session s t = task_session s u"
    if "t \<in> live" "u \<in> live" "(if same_thread_group s p t then pgrp else task_pgrp s t) = g"
      "(if same_thread_group s p u then pgrp else task_pgrp s u) = g" "g \<noteq> None" for t u g
    using eff [OF that(3,1)] eff [OF that(4,2)] in_group [of t] in_group [of u] ok1 [of t u] that(1,2,5) by auto
  have two: "task_session s t = task_session s l"
    if "l \<in> live" "t \<in> live" "thread_group_leader s l"
      "(if same_thread_group s p t then pgrp else task_pgrp s t) = thread_pid (pg_tasks s l)" for l t
    using eff [OF that(4,2)] named [OF that(1,3)] ok2 [OF that(1,2,3)] by auto
  have three: "\<not> same_thread_group s p l" if "session_leader (pg_sig s l)" for l
    using that p same_group_acc [of s p l] by auto
  have "sessions_ok live (attach p PIDTYPE_PGID pgrp s)"
    unfolding sessions_ok_def
  proof (intro conjI ballI impI, goal_cases)
    case (1 t u)
    then show ?case using one [of t u] by (simp add: attach_acc)
  next
    case (2 l t)
    then show ?case using two [of l t] by (simp add: attach_acc)
  next
    case (3 l)
    then show ?case using three [of l] ok3 [of l] by (simp add: attach_acc)
  next
    case (4 l)
    then show ?case using ok3 [of l] by (simp add: attach_acc)
  qed
  then show ?thesis using sh by (simp add: pg_wf_def)
qed

text \<open>A process whose pid names no group may found a session.\<close>

lemma found_session_ok:
  assumes wf: "pg_wf live s" and p: "p \<in> live" "thread_group_leader s p"
    and free: "\<forall>t\<in>live. task_pgrp s t \<noteq> thread_pid (pg_tasks s p)"
    and pg': "\<And>u. task_pgrp s' u = (if same_thread_group s p u then thread_pid (pg_tasks s p) else task_pgrp s u)"
    and se': "\<And>u. task_session s' u = (if same_thread_group s p u then thread_pid (pg_tasks s p) else task_session s u)"
    and lead': "\<And>u. session_leader (pg_sig s' u) = (same_thread_group s p u \<or> session_leader (pg_sig s u))"
    and tasks': "pg_tasks s' = pg_tasks s"
  shows "pg_wf live s'"
proof -
  have sh: "pg_shape live s" and ok: "sessions_ok live s" using wf by (simp_all add: pg_wf_def)
  have frame: "thread_group_leader s' = thread_group_leader s" "same_thread_group s' = same_thread_group s"
    by (simp_all add: tasks' fun_eq_iff thread_group_leader_def same_thread_group_def)
  have self: "same_thread_group s p l \<longleftrightarrow> p = l" "thread_pid (pg_tasks s p) = thread_pid (pg_tasks s l) \<longleftrightarrow> p = l"
    if "l \<in> live" "thread_group_leader s l" for l
    using pg_shape_leader [OF sh p(1) that(1) p(2) that(2)] by (auto simp: same_thread_group_def)
  have "task_session s' t = task_session s' u"
    if "t \<in> live" "u \<in> live" "task_pgrp s' t \<noteq> None" "task_pgrp s' t = task_pgrp s' u" for t u
    using that free sessions_okD(1) [OF ok that(1,2)] unfolding pg' se' by (auto split: if_splits)
  moreover have "task_session s' t = task_session s' l"
    if "l \<in> live" "t \<in> live" "thread_group_leader s l" "task_pgrp s' t = thread_pid (pg_tasks s l)" for l t
    using that free sessions_okD(2) [OF ok that(1-3)] self [OF that(1,3)] unfolding pg' se'
    by (auto split: if_splits)
  moreover have "task_pgrp s' l = thread_pid (pg_tasks s l) \<and> task_session s' l = thread_pid (pg_tasks s l)"
    if "l \<in> live" "thread_group_leader s l" "session_leader (pg_sig s' l)" for l
    using that sessions_okD(3) [OF ok that(1,2)] self [OF that(1,2)] unfolding pg' se' lead' by auto
  ultimately have "sessions_ok live s'" unfolding sessions_ok_def frame tasks' by blast
  moreover have "pg_shape live s'" using sh by (simp add: pg_shape_def frame tasks')
  ultimately show ?thesis by (simp add: pg_wf_def)
qed

section \<open>The pid tables\<close>

text \<open>
  The contract of \<^verbatim>\<open>kernel/pid.c\<close> that the calls rely on: lookups find living tasks, \<^verbatim>\<open>pid_task\<close>
  finds a member of a group iff there is one, \<^verbatim>\<open>change_pid\<close> moves the whole thread group, and
  numbers and pids of the caller's namespace correspond.
\<close>

locale pid_tables =
  fixes E :: pg_env and live :: "nat set"
  assumes find_live: "\<And>v t. pg_find_task E v = Some t \<Longrightarrow> t \<in> live"
    and pid_task_some: "\<And>s pid g. pid_task_pgid E s pid = Some g \<Longrightarrow>
      pid \<noteq> None \<and> g \<in> live \<and> task_pgrp s g = pid"
    and pid_task_none: "\<And>s pid t. pid_task_pgid E s pid = None \<Longrightarrow> t \<in> live \<Longrightarrow> pid \<noteq> None \<Longrightarrow>
      task_pgrp s t \<noteq> pid"
    and change: "\<And>t ty pid s. change_pid E t ty pid s = attach t ty pid s"
begin

lemma setpgid_locked_step:
  assumes "setpgid_locked E gl pid pgid s = (r, s')"
  obtains (refused) "r \<noteq> 0" "s' = s"
  | (moved) p pgrp where "r = 0" "p \<in> live" "thread_group_leader s p" "\<not> session_leader (pg_sig s p)"
      "pg_find_task E pid = Some p" "pgrp = (if pgid \<noteq> pid then pg_find_pid E pgid else thread_pid (pg_tasks s p))"
      "pgrp = thread_pid (pg_tasks s p)
        \<or> pgrp \<noteq> None \<and> (\<exists>g\<in>live. task_pgrp s g = pgrp \<and> task_session s g = task_session s p)"
      "s' = attach p PIDTYPE_PGID pgrp s \<or> s' = s \<and> task_pgrp s p = pgrp"
proof (cases "pg_find_task E pid")
  case None
  then show ?thesis using assms refused by (simp add: setpgid_locked_def)
next
  case (Some p)
  let ?grp = "if pgid \<noteq> pid then pg_find_pid E pgid else thread_pid (pg_tasks s p)"
  note def = assms [unfolded setpgid_locked_def Some option.case Let_def]
  from def show ?thesis
  proof (elim guardE)
    assume leader: "\<not> \<not> thread_group_leader s p"
      and sess: "\<not> (same_thread_group s (real_parent (pg_tasks s p)) gl \<and> task_session s p \<noteq> task_session s gl)"
      and kin: "\<not> (\<not> same_thread_group s (real_parent (pg_tasks s p)) gl \<and> p \<noteq> gl)"
      and nl: "\<not> session_leader (pg_sig s p)"
      and grp: "\<not> (pgid \<noteq> pid \<and> (case pid_task_pgid E s ?grp of None \<Rightarrow> True
                 | Some g \<Rightarrow> task_session s g \<noteq> task_session s gl))"
      and fin: "(0, if task_pgrp s p \<noteq> ?grp then change_pid E p PIDTYPE_PGID ?grp s else s) = (r, s')"
    have same: "task_session s p = task_session s gl" using sess kin by blast
    have "?grp = thread_pid (pg_tasks s p)
        \<or> ?grp \<noteq> None \<and> (\<exists>g\<in>live. task_pgrp s g = ?grp \<and> task_session s g = task_session s p)"
    proof (cases "pgid = pid")
      case False
      with grp obtain g where "pid_task_pgid E s ?grp = Some g" "task_session s g = task_session s gl"
        by (auto split: option.splits)
      with pid_task_some [of s ?grp g] same show ?thesis by auto
    qed simp
    then show ?thesis
      using moved [of p ?grp] fin leader nl find_live [OF Some] Some
      by (simp only: change) (auto split: if_splits)
  qed (rule refused; simp)+
qed

lemma setpgid_keeps:
  assumes "pg_wf live s"
  shows "pg_wf live (snd (sys_setpgid E c pid pgid s))"
proof -
  let ?gl = "group_leader (pg_tasks s c)"
  let ?pid = "if pid = 0 then pg_task_vnr E ?gl else pid"
  let ?pgid = "if pgid = 0 then ?pid else pgid"
  let ?s1 = "write_lock_tasklist (pg_rcu_lock s)"
  obtain r s' where l: "setpgid_locked E ?gl ?pid ?pgid ?s1 = (r, s')" by fastforce
  have "pg_same s ?s1" by (simp add: pg_same_def pg_lock_defs)
  then have wf: "pg_wf live ?s1" using assms pg_same_wf by blast
  from l have "pg_wf live s'"
  proof (cases rule: setpgid_locked_step)
    case (moved p pgrp)
    then show ?thesis using join_group_ok [OF wf, of p pgrp] wf by blast
  qed (use wf in simp)
  moreover have "pg_same s' (pg_rcu_unlock (write_unlock_tasklist s'))" by (simp add: pg_same_def pg_lock_defs)
  ultimately show ?thesis using l assms pg_same_wf by (simp add: sys_setpgid_def Let_def)
qed

end

context pid_tables
begin

lemma set_special_pids_acc:
  assumes "gl = group_leader (pg_tasks s c)"
  shows "pg_tasks (set_special_pids E c sid s) = pg_tasks s"
    "task_pgrp (set_special_pids E c sid s) u = (if same_thread_group s gl u then sid else task_pgrp s u)"
    "task_session (set_special_pids E c sid s) u = (if same_thread_group s gl u then sid else task_session s u)"
    "session_leader (pg_sig (set_special_pids E c sid s) u) = session_leader (pg_sig s u)"
    "same_thread_group (set_special_pids E c sid s) = same_thread_group s"
  using same_group_acc [of s gl u] by (auto simp: set_special_pids_def change attach_acc Let_def simp flip: assms)

lemma setsid_outcome:
  assumes wf: "pg_wf live s" "c \<in> live" and run: "ksys_setsid E c s = (r, s')"
    and gl: "gl = group_leader (pg_tasks s c)" and sid: "sid = thread_pid (pg_tasks s gl)"
  obtains (refused) "r = - EPERM" "pg_same s s'" "session_leader (pg_sig s gl) \<or> (\<exists>t\<in>live. task_pgrp s t = sid)"
  | (founded) "r = pid_vnr E sid" "\<not> session_leader (pg_sig s gl)" "\<forall>t\<in>live. task_pgrp s t \<noteq> sid"
      "pg_tasks s' = pg_tasks s"
      "\<And>u. task_pgrp s' u = (if same_thread_group s gl u then sid else task_pgrp s u)"
      "\<And>u. task_session s' u = (if same_thread_group s gl u then sid else task_session s u)"
      "\<And>u. session_leader (pg_sig s' u) = (same_thread_group s gl u \<or> session_leader (pg_sig s u))"
      "sig_tty (pg_sig s' gl) = None"
proof -
  let ?s1 = "write_lock_tasklist s"
  have s1: "pg_same s ?s1" by (simp add: pg_same_def pg_lock_defs)
  note a1 = pg_same_acc [OF s1]
  have gl': "group_leader (pg_tasks ?s1 c) = gl" by (simp add: gl pg_lock_defs)
  have "gl \<in> live" "thread_group_leader s gl" using wf by (auto simp: pg_wf_def pg_shape_def gl)
  then have "sid \<noteq> None" using wf by (auto simp: pg_wf_def pg_shape_def sid)
  show ?thesis
  proof (cases "session_leader (pg_sig ?s1 gl) \<or> pid_task_pgid E ?s1 sid \<noteq> None")
    case True
    then have "r = - EPERM" "s' = write_unlock_tasklist ?s1"
      using run by (auto simp: ksys_setsid_def Let_def gl sid split: if_splits)
    moreover have "session_leader (pg_sig s gl) \<or> (\<exists>t\<in>live. task_pgrp s t = sid)"
      using True pid_task_some [of ?s1 sid] a1 by auto
    ultimately show ?thesis using refused by (simp add: pg_same_def pg_lock_defs)
  next
    case False
    let ?s2 = "set_sig gl (\<lambda>g. g\<lparr>session_leader := True\<rparr>) ?s1"
    let ?s3 = "set_sig gl (\<lambda>g. g\<lparr>sig_tty := None\<rparr>) (set_special_pids E c sid ?s2)"
    have r: "r = pid_vnr E sid" and same: "pg_same ?s3 s'"
      using run False by (auto simp: ksys_setsid_def Let_def gl sid pg_same_def pg_lock_defs)
    note a3 = pg_same_acc [OF same]
    have gl2: "gl = group_leader (pg_tasks ?s2 c)" by (simp add: gl')
    note sp = set_special_pids_acc [OF gl2, of sid]
    have free: "\<forall>t\<in>live. task_pgrp s t \<noteq> sid"
      using False pid_task_none [of ?s1 sid] a1 \<open>sid \<noteq> None\<close> by auto
    have t3: "pg_tasks ?s3 = pg_tasks s" using sp(1) s1 by (simp add: pg_same_def)
    show ?thesis
    proof (rule founded [OF r _ free])
      show "\<not> session_leader (pg_sig s gl)" using False a1 by simp
      show "pg_tasks s' = pg_tasks s" using same t3 by (simp add: pg_same_def)
      show "sig_tty (pg_sig s' gl) = None" using a3 by (simp add: set_sig_sig same_thread_group_def)
    qed (use a1 a3 same_group_acc [of s gl] in \<open>auto simp: sp set_flag_acc set_sig_sig\<close>)
  qed
qed

lemma setsid_keeps:
  assumes "pg_wf live s" "c \<in> live"
  shows "pg_wf live (snd (sys_setsid E c s))"
proof -
  let ?gl = "group_leader (pg_tasks s c)"
  obtain r s' where run: "ksys_setsid E c s = (r, s')" by fastforce
  have gl: "?gl \<in> live" "thread_group_leader s ?gl" using assms by (auto simp: pg_wf_def pg_shape_def)
  from assms run refl refl have "pg_wf live s'"
  proof (cases rule: setsid_outcome)
    case refused
    then show ?thesis using assms pg_same_wf by blast
  next
    case founded
    show ?thesis by (rule found_session_ok [OF assms(1) gl founded(3,5,6,7,4)])
  qed
  then show ?thesis using run by (simp add: sys_setsid_def)
qed

end

text \<open>
  Tables over a list of living tasks, where every number names the pid of the same number. This
  is the instance that the concrete runs use.
\<close>

definition table_env :: "nat list \<Rightarrow> pg_env" where
  "table_env ts = \<lparr>pg_find_task = (\<lambda>v. find (\<lambda>t. int t = v) ts),
     pg_find_pid = (\<lambda>v. if v > 0 then Some (nat v) else None),
     pid_task_pgid = (\<lambda>s pid. if pid = None then None else find (\<lambda>t. task_pgrp s t = pid) ts),
     change_pid = attach, pid_vnr = (\<lambda>p. case p of None \<Rightarrow> 0 | Some n \<Rightarrow> int n),
     pg_task_vnr = int, pg_tgid_vnr = int, security_task_setpgid = (\<lambda>_ _. 0),
     security_task_getpgid = (\<lambda>_. 0), security_task_getsid = (\<lambda>_. 0)\<rparr>"

interpretation tables: pid_tables "table_env ts" "set ts" for ts
proof (unfold_locales, goal_cases)
  case (1 v t)
  then show ?case by (auto simp: table_env_def find_Some_iff)
next
  case (2 s pid g)
  then show ?case by (auto simp: table_env_def find_Some_iff split: if_splits)
next
  case (3 s pid t)
  then show ?case by (auto simp: table_env_def find_None_iff)
next
  case (4 t ty pid s)
  then show ?case by (simp add: table_env_def)
qed


section \<open>Sequences of calls\<close>

datatype pg_call = Setpgid nat int int | Setsid nat

fun pg_step :: "pg_env \<Rightarrow> nat set \<Rightarrow> pg_call \<Rightarrow> pg_state \<Rightarrow> pg_state" where
  "pg_step E live (Setpgid c pid pgid) s = snd (sys_setpgid E c pid pgid s)"
| "pg_step E live (Setsid c) s = (if c \<in> live then snd (sys_setsid E c s) else s)"

context pid_tables
begin

sublocale pgsteps: invariant_steps "pg_step E live" "pg_wf live"
proof
  fix x s assume "pg_wf live s"
  then show "pg_wf live (pg_step E live x s)"
    by (cases x) (simp_all add: setpgid_keeps setsid_keeps)
qed

lemma run_wf: "pg_wf live s \<Longrightarrow> pg_wf live (run_calls (pg_step E live) xs s)"
  by (rule pgsteps.run_inv)

end


section \<open>Properties\<close>

text \<open>
  (C6) Whatever sequence of \<^verbatim>\<open>setpgid\<close> and \<^verbatim>\<open>setsid\<close> calls living tasks make, every process group
  stays within one session, and every session leader stays the leader of a group and of a
  session that bear its pid.
\<close>

theorem groups_within_sessions:
  assumes "pid_tables E live" "pg_wf live s" "s' = run_calls (pg_step E live) xs s"
  shows "(\<forall>t\<in>live. \<forall>u\<in>live. task_pgrp s' t \<noteq> None \<longrightarrow> task_pgrp s' t = task_pgrp s' u
           \<longrightarrow> task_session s' t = task_session s' u)
    \<and> (\<forall>l\<in>live. thread_group_leader s' l \<longrightarrow> session_leader (pg_sig s' l) \<longrightarrow>
        task_pgrp s' l = thread_pid (pg_tasks s' l) \<and> task_session s' l = thread_pid (pg_tasks s' l))"
proof -
  have "sessions_ok live s'"
    using pid_tables.run_wf [OF assms(1,2)] assms(3) by (simp add: pg_wf_def)
  then show ?thesis unfolding sessions_ok_def by (elim conjE) (intro conjI; assumption)
qed

text \<open>Process 1 leads a session; 2 and 3 are its children, in its group.\<close>

definition demo_pg_state :: pg_state where
  "demo_pg_state =
     \<lparr>pg_tasks = (\<lambda>t. \<lparr>thread_pid = Some t, pg_signal_of = t, group_leader = t, real_parent = 1,
        exit_signal = 17, forknoexec = True\<rparr>),
      pg_signals = (\<lambda>g. \<lparr>pids = (\<lambda>ty. Some 1), session_leader = (g = 1), sig_tty = Some 5\<rparr>),
      tasklist_writers = 0, pg_rcu = 0, sid_events = []\<rparr>"

abbreviation demo_pg_env :: pg_env where "demo_pg_env \<equiv> table_env [1, 2, 3]"

lemma demo_pg_wf: "pg_wf (set [1, 2, 3]) demo_pg_state"
  by (simp add: pg_wf_def pg_shape_def sessions_ok_def pg_acc_defs demo_pg_state_def)

theorem groups_within_sessions_witness:
  "let s = run_calls (pg_step demo_pg_env (set [1, 2, 3])) [Setpgid 1 2 2, Setsid 3, Setpgid 1 3 2] demo_pg_state
   in task_pgrp s 2 \<noteq> None \<longrightarrow> task_pgrp s 2 = task_pgrp s 3 \<longrightarrow> task_session s 2 = task_session s 3"
proof -
  have "2 \<in> set [1, 2, 3 :: nat]" "3 \<in> set [1, 2, 3 :: nat]" by simp_all
  then show ?thesis
    using groups_within_sessions [OF tables.pid_tables_axioms demo_pg_wf refl,
        THEN conjunct1, THEN bspec, of 2, THEN bspec, of 3] unfolding Let_def by blast
qed

text \<open>
  \<^verbatim>\<open>setsid\<close> either founds a session: it returns the pid of the process, which \<^verbatim>\<open>getsid\<close> and
  \<^verbatim>\<open>getpgrp\<close> then report, and the process has no terminal; or it returns \<^verbatim>\<open>-EPERM\<close> because the
  process leads a session or its pid names a group, and no task has changed.
\<close>

theorem setsid_correct:
  assumes "pid_tables E live" "pg_wf live s" "c \<in> live" "sys_setsid E c s = (r, s')"
    and gl: "gl = group_leader (pg_tasks s c)" and pos: "0 < pid_vnr E (thread_pid (pg_tasks s gl))"
  shows "if session_leader (pg_sig s gl) \<or> (\<exists>t\<in>live. task_pgrp s t = thread_pid (pg_tasks s gl))
    then r = - EPERM \<and> pg_signals s' = pg_signals s
    else r = pid_vnr E (thread_pid (pg_tasks s gl)) \<and> fst (sys_getsid E c 0 s') = r
      \<and> fst (sys_getpgrp E c s') = r \<and> sig_tty (pg_sig s' gl) = None"
proof -
  have run: "ksys_setsid E c s = (r, s')" using assms(4) by (simp add: sys_setsid_def)
  have same: "same_thread_group s gl c"
    using assms(2,3) by (auto simp: pg_wf_def pg_shape_def same_thread_group_def gl)
  have lock: "pg_same s' (pg_rcu_lock s')" by (simp add: pg_same_def pg_lock_defs)
  show ?thesis
  proof (cases rule: pid_tables.setsid_outcome [OF assms(1-3) run gl refl, case_names refused founded])
    case refused
    then show ?thesis by (auto simp: pg_same_def)
  next
    case founded
    then have "fst (sys_getsid E c 0 s') = r" "fst (sys_getpgrp E c s') = r"
      using same pg_same_acc [OF lock]
      by (simp_all add: sys_getsid_def sys_getpgrp_def do_getpgid_def Let_def)
    then show ?thesis using founded by simp
  qed
qed

lemma demo_setsid:
  "\<not> (session_leader (pg_sig demo_pg_state 2) \<or> (\<exists>t\<in>set [1, 2, 3]. task_pgrp demo_pg_state t = Some 2))"
  by (simp add: demo_pg_state_def pg_acc_defs)

theorem setsid_correct_witness:
  "fst (sys_setsid demo_pg_env 2 demo_pg_state) = 2
    \<and> fst (sys_getsid demo_pg_env 2 0 (snd (sys_setsid demo_pg_env 2 demo_pg_state))) = 2"
proof -
  have c: "2 \<in> set [1, 2, 3 :: nat]" by simp
  have t: "group_leader (pg_tasks demo_pg_state 2) = 2" "thread_pid (pg_tasks demo_pg_state 2) = Some 2"
    "pid_vnr demo_pg_env (Some 2) = 2"
    by (simp_all add: demo_pg_state_def table_env_def)
  show ?thesis
    using setsid_correct [OF tables.pid_tables_axioms demo_pg_wf c surjective_pairing refl] demo_setsid
    unfolding t by simp
qed

text \<open>
  A process that \<^verbatim>\<open>setpgid\<close> moved is in the group that was asked for: \<^verbatim>\<open>getpgid\<close> of its pid
  returns the group number, where 0 stood for the caller's pid and for the process's own pid.
\<close>

theorem setpgid_getpgid:
  assumes "pid_tables E live" "pg_wf live s" "sys_setpgid E c pid pgid s = (0, s')"
    and pid': "pid' = (if pid = 0 then pg_task_vnr E (group_leader (pg_tasks s c)) else pid)" "pid' \<noteq> 0"
    and pgid': "pgid' = (if pgid = 0 then pid' else pgid)"
    and numbers: "\<And>v t. pg_find_task E v = Some t \<Longrightarrow> pid_vnr E (thread_pid (pg_tasks s t)) = v"
      "\<And>v x. pg_find_pid E v = Some x \<Longrightarrow> pid_vnr E (Some x) = v"
    and "\<forall>t. security_task_getpgid E t = 0"
  shows "fst (sys_getpgid E c pid' s') = pgid'"
proof -
  let ?gl = "group_leader (pg_tasks s c)"
  let ?s1 = "write_lock_tasklist (pg_rcu_lock s)"
  obtain r t where l: "setpgid_locked E ?gl pid' pgid' ?s1 = (r, t)" by fastforce
  then have r: "r = 0" and s': "pg_same t s'"
    using assms(3) by (auto simp: sys_setpgid_def Let_def pid'(1) pgid' pg_same_def pg_lock_defs split: if_splits)
  have lock: "pg_same t (pg_rcu_lock s')" using s' by (simp add: pg_same_def pg_lock_defs)
  have s1: "pg_same s ?s1" by (simp add: pg_same_def pg_lock_defs)
  then have tasks: "pg_tasks ?s1 = pg_tasks s" by (simp add: pg_same_def)
  show ?thesis
  proof (cases rule: pid_tables.setpgid_locked_step [OF assms(1) l, case_names refused moved])
    case refused
    then show ?thesis using r by simp
  next
    case (moved p pgrp)
    have "pg_shape live ?s1" using assms(2) pg_same_wf [OF s1] unfolding pg_wf_def by blast
    then have "pgrp \<noteq> None" using moved(2,3,7) by (auto simp: pg_shape_def)
    moreover have "task_pgrp t p = pgrp" using moved(8) by (auto simp: attach_acc)
    moreover have "pid_vnr E pgrp = pgid'"
      using moved(5,6) numbers \<open>pgrp \<noteq> None\<close> by (auto simp: tasks split: if_splits)
    ultimately show ?thesis
      using pg_same_acc [OF lock] moved(5) assms(9) pid'(2)
      by (auto simp: sys_getpgid_def do_getpgid_def Let_def)
  qed
qed

theorem setpgid_getpgid_witness:
  "fst (sys_getpgid demo_pg_env 1 2 (snd (sys_setpgid demo_pg_env 1 2 0 demo_pg_state))) = 2"
proof -
  have run: "sys_setpgid demo_pg_env 1 2 0 demo_pg_state = (0, snd (sys_setpgid demo_pg_env 1 2 0 demo_pg_state))"
    by (simp add: prod_eq_iff) (simp add: sys_setpgid_def setpgid_locked_def Let_def demo_pg_state_def table_env_def
        pg_acc_defs pg_lock_defs)
  have "pid_vnr demo_pg_env (thread_pid (pg_tasks demo_pg_state t)) = v" if "pg_find_task demo_pg_env v = Some t" for v t
    using that by (auto simp: table_env_def demo_pg_state_def split: if_splits)
  moreover have "pid_vnr demo_pg_env (Some x) = v" if "pg_find_pid demo_pg_env v = Some x" for v x
    using that by (auto simp: table_env_def split: if_splits)
  moreover have "\<forall>t. security_task_getpgid demo_pg_env t = 0" by (simp add: table_env_def)
  ultimately show ?thesis
    using setpgid_getpgid [OF tables.pid_tables_axioms demo_pg_wf run refl _ refl] by simp
qed

end
