(* ===== verification/Sys_Uts.thy ===== *)
theory Sys_Uts
  imports Kernel_Tasks Seq_Printf Step_System
begin

text \<open>
  The names of the system: \<^verbatim>\<open>newuname\<close>, \<^verbatim>\<open>uname\<close>, \<^verbatim>\<open>olduname\<close>, \<^verbatim>\<open>sethostname\<close>, \<^verbatim>\<open>gethostname\<close> and
  \<^verbatim>\<open>setdomainname\<close> (\<^verbatim>\<open>kernel/sys.c\<close>, lines 1267 to 1456, and \<^verbatim>\<open>include/linux/uts.h\<close>). A name is an
  array of 65 bytes, of which a C string uses the part before its first zero byte. The capability
  test, the personality bits, the release text and the machine text of the build are parameters.
\<close>

section \<open>State\<close>

abbreviation (input) NEW_UTS_LEN :: nat where "NEW_UTS_LEN \<equiv> 64"
abbreviation (input) OLD_UTS_LEN :: nat where "OLD_UTS_LEN \<equiv> 8"

record new_utsname =
  sysname :: "byte list"
  nodename :: "byte list"
  release :: "byte list"
  version :: "byte list"
  machine :: "byte list"
  domainname :: "byte list"

datatype uts_proc = UTS_PROC_HOSTNAME | UTS_PROC_DOMAINNAME

record uts_state =
  uts :: new_utsname
  uts_mem :: mem
  uts_readers :: nat
  uts_writers :: nat
  randomness :: "byte list list"
  uts_notified :: "uts_proc list"

record uts_env =
  capable_uts :: bool
  uname26 :: bool
  linux32 :: bool
  UTS_RELEASE :: string
  LINUX_VERSION_PATCHLEVEL :: nat
  COMPAT_UTS_MACHINE :: "byte list"

definition bytes_of :: "string \<Rightarrow> byte list" where
  "bytes_of cs = map of_char cs"

definition UTS_SYSNAME :: string where "UTS_SYSNAME = ''Linux -- Kevin Secaida''"
definition UTS_DOMAINNAME :: string where "UTS_DOMAINNAME = ''(none)''"

definition strlen :: "byte list \<Rightarrow> nat" where
  "strlen bs = length (takeWhile (\<lambda>b. b \<noteq> 0) bs)"

definition down_read :: "uts_state \<Rightarrow> uts_state" where "down_read s = s\<lparr>uts_readers := uts_readers s + 1\<rparr>"
definition up_read :: "uts_state \<Rightarrow> uts_state" where "up_read s = s\<lparr>uts_readers := uts_readers s - 1\<rparr>"
definition down_write :: "uts_state \<Rightarrow> uts_state" where "down_write s = s\<lparr>uts_writers := uts_writers s + 1\<rparr>"
definition up_write :: "uts_state \<Rightarrow> uts_state" where "up_write s = s\<lparr>uts_writers := uts_writers s - 1\<rparr>"

lemmas uts_lock_defs = down_read_def up_read_def down_write_def up_write_def

definition ucopy_to_user :: "uaccess \<Rightarrow> addr \<Rightarrow> byte list \<Rightarrow> uts_state \<Rightarrow> nat \<times> uts_state" where
  "ucopy_to_user U a bs s = (case copy_to_user U (uts_mem s) a bs of (m, left) \<Rightarrow> (left, s\<lparr>uts_mem := m\<rparr>))"


section \<open>Overrides for old programs\<close>

definition override_architecture ::
  "uts_env \<Rightarrow> uaccess \<Rightarrow> addr \<Rightarrow> uts_state \<Rightarrow> bool \<times> uts_state" where
  "override_architecture E U machine_at s =
     (if linux32 E
      then (case ucopy_to_user U machine_at (COMPAT_UTS_MACHINE E) s of (left, s) \<Rightarrow> (left \<noteq> 0, s))
      else (False, s))"

text \<open>What follows the first three numbers of a release text.\<close>

fun skip_version :: "nat \<Rightarrow> string \<Rightarrow> string" where
  "skip_version ndots [] = []"
| "skip_version ndots (c # cs) =
     (let ndots' = (if c = CHR ''.'' then ndots + 1 else ndots) in
      if c = CHR ''.'' \<and> ndots' \<ge> 3 then c # cs
      else if \<not> is_digit c \<and> c \<noteq> CHR ''.'' then c # cs
      else skip_version ndots' cs)"

text \<open>\<^verbatim>\<open>scnprintf\<close>: the text cut to \<open>n - 1\<close> characters and ended by a zero byte.\<close>

definition scnprintf :: "nat \<Rightarrow> string \<Rightarrow> string" where
  "scnprintf n cs = take (n - 1) cs"

definition clamp_size :: "nat \<Rightarrow> nat \<Rightarrow> nat \<Rightarrow> nat" where
  "clamp_size v lo hi = (if v < lo then lo else if v > hi then hi else v)"

definition override_release :: "uts_env \<Rightarrow> uaccess \<Rightarrow> addr \<Rightarrow> nat \<Rightarrow> uts_state \<Rightarrow> nat \<times> uts_state" where
  "override_release E U release_at len s =
     (if uname26 E then
        (let rest = skip_version 0 (UTS_RELEASE E);
             v = LINUX_VERSION_PATCHLEVEL E + 60;
             copy = clamp_size len 1 65;
             buf = scnprintf copy (''2.6.'' @ show_dec v @ rest)
         in ucopy_to_user U release_at (bytes_of buf @ [0]) s)
      else (0, s))"


section \<open>The system calls\<close>

definition enc_new_utsname :: "new_utsname \<Rightarrow> byte list" where
  "enc_new_utsname u = sysname u @ nodename u @ release u @ version u @ machine u @ domainname u"

definition enc_old_utsname :: "new_utsname \<Rightarrow> byte list" where
  "enc_old_utsname u = sysname u @ nodename u @ release u @ version u @ machine u"

definition sys_newuname :: "uts_env \<Rightarrow> uaccess \<Rightarrow> addr \<Rightarrow> uts_state \<Rightarrow> int \<times> uts_state" where
  "sys_newuname E U name s =
     (let s = down_read s;
          tmp = enc_new_utsname (uts s);
          s = up_read s
      in case ucopy_to_user U name tmp s of (left, s) \<Rightarrow>
         if left \<noteq> 0 then (- EFAULT, s)
         else case override_release E U (name + 130) 65 s of (left, s) \<Rightarrow>
         if left \<noteq> 0 then (- EFAULT, s)
         else case override_architecture E U (name + 260) s of (bad, s) \<Rightarrow>
         if bad then (- EFAULT, s) else (0, s))"

definition sys_uname :: "uts_env \<Rightarrow> uaccess \<Rightarrow> addr \<Rightarrow> uts_state \<Rightarrow> int \<times> uts_state" where
  "sys_uname E U name s =
     (if name = NULL then (- EFAULT, s)
      else
        (let s = down_read s;
             tmp = enc_old_utsname (uts s);
             s = up_read s
         in case ucopy_to_user U name tmp s of (left, s) \<Rightarrow>
            if left \<noteq> 0 then (- EFAULT, s)
            else case override_release E U (name + 130) 65 s of (left, s) \<Rightarrow>
            if left \<noteq> 0 then (- EFAULT, s)
            else case override_architecture E U (name + 260) s of (bad, s) \<Rightarrow>
            if bad then (- EFAULT, s) else (0, s)))"

text \<open>The oldest form: five fields of nine bytes, the last of each zero.\<close>

definition old_field :: "byte list \<Rightarrow> byte list" where
  "old_field bs = take OLD_UTS_LEN bs @ [0]"

definition enc_oldold_utsname :: "new_utsname \<Rightarrow> byte list" where
  "enc_oldold_utsname u =
     old_field (sysname u) @ old_field (nodename u) @ old_field (release u) @ old_field (version u) @ old_field (machine u)"

definition sys_olduname :: "uts_env \<Rightarrow> uaccess \<Rightarrow> addr \<Rightarrow> uts_state \<Rightarrow> int \<times> uts_state" where
  "sys_olduname E U name s =
     (if name = NULL then (- EFAULT, s)
      else
        (let s = down_read s;
             tmp = enc_oldold_utsname (uts s);
             s = up_read s
         in case ucopy_to_user U name tmp s of (left, s) \<Rightarrow>
            if left \<noteq> 0 then (- EFAULT, s)
            else case override_architecture E U (name + 36) s of (bad, s) \<Rightarrow>
            if bad then (- EFAULT, s)
            else case override_release E U (name + 18) 9 s of (left, s) \<Rightarrow>
            if left \<noteq> 0 then (- EFAULT, s) else (0, s)))"

text \<open>\<open>set_name tmp old\<close>: the first bytes of the array replaced, the rest cleared.\<close>

definition set_name :: "byte list \<Rightarrow> byte list \<Rightarrow> byte list" where
  "set_name tmp old = tmp @ replicate (length old - length tmp) 0"

definition sys_sethostname :: "uts_env \<Rightarrow> uaccess \<Rightarrow> addr \<Rightarrow> int \<Rightarrow> uts_state \<Rightarrow> int \<times> uts_state" where
  "sys_sethostname E U name len s =
     (if \<not> capable_uts E then (- EPERM, s)
      else if len < 0 \<or> len > int NEW_UTS_LEN then (- EINVAL, s)
      else
        (case copy_from_user U (uts_mem s) (replicate (nat len) 0) name of (tmp, left) \<Rightarrow>
         if left \<noteq> 0 then (- EFAULT, s)
         else
           (let s = s\<lparr>randomness := tmp # randomness s\<rparr>;
                s = down_write s;
                s = s\<lparr>uts := (uts s)\<lparr>nodename := set_name tmp (nodename (uts s))\<rparr>\<rparr>;
                s = s\<lparr>uts_notified := UTS_PROC_HOSTNAME # uts_notified s\<rparr>
            in (0, up_write s))))"

definition sys_gethostname :: "uts_env \<Rightarrow> uaccess \<Rightarrow> addr \<Rightarrow> int \<Rightarrow> uts_state \<Rightarrow> int \<times> uts_state" where
  "sys_gethostname E U name len s =
     (if len < 0 then (- EINVAL, s)
      else
        (let s = down_read s;
             i = 1 + int (strlen (nodename (uts s)));
             i = (if i > len then len else i);
             tmp = take (nat i) (nodename (uts s));
             s = up_read s
         in case ucopy_to_user U name tmp s of (left, s) \<Rightarrow>
            if left \<noteq> 0 then (- EFAULT, s) else (0, s)))"

definition sys_setdomainname :: "uts_env \<Rightarrow> uaccess \<Rightarrow> addr \<Rightarrow> int \<Rightarrow> uts_state \<Rightarrow> int \<times> uts_state" where
  "sys_setdomainname E U name len s =
     (if \<not> capable_uts E then (- EPERM, s)
      else if len < 0 \<or> len > int NEW_UTS_LEN then (- EINVAL, s)
      else
        (case copy_from_user U (uts_mem s) (replicate (nat len) 0) name of (tmp, left) \<Rightarrow>
         if left \<noteq> 0 then (- EFAULT, s)
         else
           (let s = s\<lparr>randomness := tmp # randomness s\<rparr>;
                s = down_write s;
                s = s\<lparr>uts := (uts s)\<lparr>domainname := set_name tmp (domainname (uts s))\<rparr>\<rparr>;
                s = s\<lparr>uts_notified := UTS_PROC_DOMAINNAME # uts_notified s\<rparr>
            in (0, up_write s))))"

section \<open>Well-formed names\<close>

definition name_wf :: "byte list \<Rightarrow> bool" where
  "name_wf bs \<longleftrightarrow> length bs = 65 \<and> bs ! 64 = 0"

definition uts_wf :: "new_utsname \<Rightarrow> bool" where
  "uts_wf u \<longleftrightarrow> name_wf (sysname u) \<and> name_wf (nodename u) \<and> name_wf (release u) \<and> name_wf (version u)
     \<and> name_wf (machine u) \<and> name_wf (domainname u)"

lemma set_name_wf: "length tmp \<le> NEW_UTS_LEN \<Longrightarrow> name_wf old \<Longrightarrow> name_wf (set_name tmp old)"
  by (auto simp: name_wf_def set_name_def nth_append)

lemma strlen_le: "name_wf bs \<Longrightarrow> strlen bs \<le> NEW_UTS_LEN"
proof (rule ccontr)
  assume wf: "name_wf bs" and "\<not> strlen bs \<le> NEW_UTS_LEN"
  then have n: "64 < length (takeWhile (\<lambda>b. b \<noteq> 0) bs)" by (simp add: strlen_def)
  then have "takeWhile (\<lambda>b. b \<noteq> 0) bs ! 64 = bs ! 64" by (rule takeWhile_nth)
  moreover have "takeWhile (\<lambda>b. b \<noteq> 0) bs ! 64 \<noteq> 0"
    using n nth_mem [OF n] set_takeWhileD by fastforce
  ultimately show False using wf by (simp add: name_wf_def)
qed

lemma ucopy_uts [simp]: "uts (snd (ucopy_to_user U a bs s)) = uts s"
  by (simp add: ucopy_to_user_def split: prod.split)

lemma ucopy_cases: "ucopy_to_user U a bs s = (left, s') \<Longrightarrow> \<exists>m. s' = s\<lparr>uts_mem := m\<rparr>"
  by (auto simp: ucopy_to_user_def split: prod.splits)

lemma overrides_frame:
  "override_release E U a n s = (left, s') \<Longrightarrow> \<exists>m. s' = s\<lparr>uts_mem := m\<rparr>"
  "override_architecture E U b s = (bad, s') \<Longrightarrow> \<exists>m. s' = s\<lparr>uts_mem := m\<rparr>"
  by (auto simp: override_release_def override_architecture_def Let_def dest!: ucopy_cases
      intro: exI [of _ "uts_mem s"] split: if_splits prod.splits)

datatype uts_call =
  Newuname addr | Uname addr | Olduname addr | Sethostname addr int | Gethostname addr int | Setdomainname addr int

fun uts_step :: "uts_env \<Rightarrow> uaccess \<Rightarrow> uts_call \<Rightarrow> uts_state \<Rightarrow> uts_state" where
  "uts_step E U (Newuname a) s = snd (sys_newuname E U a s)"
| "uts_step E U (Uname a) s = snd (sys_uname E U a s)"
| "uts_step E U (Olduname a) s = snd (sys_olduname E U a s)"
| "uts_step E U (Sethostname a n) s = snd (sys_sethostname E U a n s)"
| "uts_step E U (Gethostname a n) s = snd (sys_gethostname E U a n s)"
| "uts_step E U (Setdomainname a n) s = snd (sys_setdomainname E U a n s)"

definition uts_inv :: "uts_state \<Rightarrow> bool" where
  "uts_inv s \<longleftrightarrow> uts_wf (uts s) \<and> uts_readers s = 0 \<and> uts_writers s = 0"

lemma reads_keep_uts:
  "uts_inv s \<Longrightarrow> uts_inv (snd (sys_newuname E U a s))"
  "uts_inv s \<Longrightarrow> uts_inv (snd (sys_uname E U a s))"
  "uts_inv s \<Longrightarrow> uts_inv (snd (sys_olduname E U a s))"
  "uts_inv s \<Longrightarrow> uts_inv (snd (sys_gethostname E U a n s))"
  by (auto simp: sys_newuname_def sys_uname_def sys_olduname_def sys_gethostname_def Let_def uts_inv_def
      uts_lock_defs dest!: ucopy_cases overrides_frame split: prod.splits)

context uaccess_laws
begin

lemma sethostname_done:
  assumes "sys_sethostname E U p len s = (r, s')"
  shows "if r = 0 then 0 \<le> len \<and> len \<le> 64 \<and> uts s' = (uts s)\<lparr>nodename :=
      set_name (load_bytes (uts_mem s) p (nat len)) (nodename (uts s))\<rparr>
      \<and> uts_readers s' = uts_readers s \<and> uts_writers s' = uts_writers s \<and> uts_mem s' = uts_mem s
    else s' = s"
  using assms
  by (auto simp: sys_sethostname_def Let_def uts_lock_defs dest: copy_from_user_done split: if_splits prod.splits)

lemma setdomainname_done:
  assumes "sys_setdomainname E U p len s = (r, s')"
  shows "if r = 0 then 0 \<le> len \<and> len \<le> 64 \<and> uts s' = (uts s)\<lparr>domainname :=
      set_name (load_bytes (uts_mem s) p (nat len)) (domainname (uts s))\<rparr>
      \<and> uts_readers s' = uts_readers s \<and> uts_writers s' = uts_writers s \<and> uts_mem s' = uts_mem s
    else s' = s"
  using assms
  by (auto simp: sys_setdomainname_def Let_def uts_lock_defs dest: copy_from_user_done split: if_splits prod.splits)

lemma uts_step_inv: "uts_inv s \<Longrightarrow> uts_inv (uts_step E U x s)"
proof (cases x)
  case (Sethostname a n)
  assume inv: "uts_inv s"
  obtain r s' where run: "sys_sethostname E U a n s = (r, s')" by fastforce
  with inv sethostname_done [OF run] Sethostname show ?thesis
    by (cases "r = 0") (auto simp: uts_inv_def uts_wf_def intro!: set_name_wf)
next
  case (Setdomainname a n)
  assume inv: "uts_inv s"
  obtain r s' where run: "sys_setdomainname E U a n s = (r, s')" by fastforce
  with inv setdomainname_done [OF run] Setdomainname show ?thesis
    by (cases "r = 0") (auto simp: uts_inv_def uts_wf_def intro!: set_name_wf)
qed (simp_all add: reads_keep_uts)

sublocale utssteps: invariant_steps "uts_step E U" uts_inv for E
  by unfold_locales (rule uts_step_inv)

lemma run_uts_inv: "uts_inv s \<Longrightarrow> uts_inv (run_calls (uts_step E U) xs s)"
  by (rule utssteps.run_inv)

end

section \<open>Properties\<close>

text \<open>
  (C36) The names are always arrays of 65 bytes that end in a zero byte, and the semaphore is
  released after every call: an invariant of any sequence of the six calls with any arguments. So
  \<^verbatim>\<open>strlen\<close> in \<^verbatim>\<open>gethostname\<close> stays within the array, and the copy within the 65 bytes of its buffer.
\<close>

theorem uts_names_wf:
  assumes "uaccess_laws U" "uts_inv s" "s' = run_calls (uts_step E U) xs s"
  shows "uts_wf (uts s') \<and> uts_readers s' = 0 \<and> uts_writers s' = 0 \<and> 1 + strlen (nodename (uts s')) \<le> 65"
  using uaccess_laws.run_uts_inv [OF assms(1,2), of E xs] strlen_le [of "nodename (uts s')"] assms(3)
  by (simp add: uts_inv_def uts_wf_def)

definition demo_uts_state :: uts_state where
  "demo_uts_state =
     \<lparr>uts = \<lparr>sysname = set_name (bytes_of UTS_SYSNAME) (replicate 65 0), nodename = replicate 65 0,
        release = set_name (bytes_of ''6.8.0'') (replicate 65 0), version = replicate 65 0,
        machine = set_name (bytes_of ''x86_64'') (replicate 65 0),
        domainname = set_name (bytes_of UTS_DOMAINNAME) (replicate 65 0)\<rparr>,
      uts_mem = (\<lambda>a. if a = 4096 then 104 else if a = 4097 then 105 else 0), uts_readers = 0, uts_writers = 0,
      randomness = [], uts_notified = []\<rparr>"

definition demo_uts_env :: uts_env where
  "demo_uts_env = \<lparr>capable_uts = True, uname26 = True, linux32 = False, UTS_RELEASE = ''6.8.0-so2'',
     LINUX_VERSION_PATCHLEVEL = 8, COMPAT_UTS_MACHINE = bytes_of ''i686''\<rparr>"

lemma demo_uts_inv: "uts_inv demo_uts_state"
  by (simp add: uts_inv_def uts_wf_def demo_uts_state_def set_name_wf name_wf_def bytes_of_def
      UTS_SYSNAME_def UTS_DOMAINNAME_def set_name_def)

theorem uts_names_wf_witness:
  "uts_wf (uts (run_calls (uts_step demo_uts_env demo_U)
     [Sethostname 4096 64, Newuname 8192, Setdomainname 0 65] demo_uts_state))"
  using uts_names_wf [OF page.uaccess_laws_axioms demo_uts_inv refl] by blast

definition uname26_text :: "uts_env \<Rightarrow> string" where
  "uname26_text E = take 64 (''2.6.'' @ show_dec (LINUX_VERSION_PATCHLEVEL E + 60) @ skip_version 0 (UTS_RELEASE E))"

lemma length_uname26_text: "length (uname26_text E) \<le> 64"
  by (simp add: uname26_text_def)

context uaccess_laws
begin

lemma ucopy_done:
  "ucopy_to_user U a bs s = (0, s') \<Longrightarrow> s' = s\<lparr>uts_mem := store_bytes (uts_mem s) a bs\<rparr>"
  by (auto simp: ucopy_to_user_def dest: copy_to_user_done split: prod.splits)

lemma newuname_memory:
  assumes "sys_newuname E U q s = (0, s')"
  obtains m1 m2 where "m1 = store_bytes (uts_mem s) q (enc_new_utsname (uts s))"
    "m2 = (if uname26 E then store_bytes m1 (q + 130) (bytes_of (uname26_text E) @ [0]) else m1)"
    "uts_mem s' = (if linux32 E then store_bytes m2 (q + 260) (COMPAT_UTS_MACHINE E) else m2)"
proof -
  let ?s0 = "up_read (down_read s)"
  have s0: "?s0 = s" by (simp add: uts_lock_defs)
  have u0: "uts (down_read s) = uts s" by (simp add: uts_lock_defs)
  obtain l1 s1 where c1: "ucopy_to_user U q (enc_new_utsname (uts s)) s = (l1, s1)" by fastforce
  obtain l2 s2 where c2: "override_release E U (q + 130) 65 s1 = (l2, s2)" by fastforce
  obtain b s3 where c3: "override_architecture E U (q + 260) s2 = (b, s3)" by fastforce
  have z: "l1 = 0" "l2 = 0" "\<not> b" "s3 = s'"
    using assms c1 c2 c3 by (auto simp: sys_newuname_def Let_def s0 u0 split: if_splits)
  let ?m1 = "store_bytes (uts_mem s) q (enc_new_utsname (uts s))"
  have m1: "uts_mem s1 = ?m1" using ucopy_done c1 z by fastforce
  have m2: "uts_mem s2 = (if uname26 E then store_bytes ?m1 (q + 130) (bytes_of (uname26_text E) @ [0]) else ?m1)"
    using c2 z m1 by (auto simp: override_release_def Let_def clamp_size_def scnprintf_def uname26_text_def
        dest!: ucopy_done split: if_splits)
  have "uts_mem s' = (if linux32 E then store_bytes (uts_mem s2) (q + 260) (COMPAT_UTS_MACHINE E) else uts_mem s2)"
    using c3 z by (auto simp: override_architecture_def dest!: ucopy_done split: if_splits prod.splits)
  with m2 show ?thesis using that by blast
qed

end

lemma enc_new_utsname_fields:
  assumes "uts_wf u"
  shows "length (enc_new_utsname u) = 390"
    "take 65 (enc_new_utsname u) = sysname u" "take 65 (drop 65 (enc_new_utsname u)) = nodename u"
    "take 65 (drop 130 (enc_new_utsname u)) = release u" "take 65 (drop 195 (enc_new_utsname u)) = version u"
    "take 65 (drop 260 (enc_new_utsname u)) = machine u" "take 65 (drop 325 (enc_new_utsname u)) = domainname u"
  using assms by (simp_all add: enc_new_utsname_def uts_wf_def name_wf_def)

text \<open>
  \<^verbatim>\<open>newuname\<close> fills the caller's structure: each of the six fields holds the kernel's name,
  except that a task with the old-version personality reads the release 2.6 followed by the
  patch level plus 60 and ended by a zero byte, and a 32-bit task the 32-bit machine text. The
  replacements never reach a neighbouring field.
\<close>

theorem newuname_fields:
  assumes "uaccess_laws U" "uts_wf (uts s)" "sys_newuname E U q s = (0, s')"
    and mach: "length (COMPAT_UTS_MACHINE E) \<le> 65"
  shows "load_bytes (uts_mem s') q 65 = sysname (uts s) \<and> load_bytes (uts_mem s') (q + 65) 65 = nodename (uts s)
    \<and> (if uname26 E
       then load_bytes (uts_mem s') (q + 130) (length (uname26_text E) + 1) = bytes_of (uname26_text E) @ [0]
       else load_bytes (uts_mem s') (q + 130) 65 = release (uts s))
    \<and> load_bytes (uts_mem s') (q + 195) 65 = version (uts s)
    \<and> (if linux32 E
       then load_bytes (uts_mem s') (q + 260) (length (COMPAT_UTS_MACHINE E)) = COMPAT_UTS_MACHINE E
       else load_bytes (uts_mem s') (q + 260) 65 = machine (uts s))
    \<and> load_bytes (uts_mem s') (q + 325) 65 = domainname (uts s)"
proof -
  note f = enc_new_utsname_fields [OF assms(2)]
  let ?rel = "bytes_of (uname26_text E) @ [0]" and ?mac = "COMPAT_UTS_MACHINE E"
  have rl: "length ?rel = length (uname26_text E) + 1" "length ?rel \<le> 65"
    using length_uname26_text [of E] by (simp_all add: bytes_of_def)
  obtain m1 m2 where m1: "m1 = store_bytes (uts_mem s) q (enc_new_utsname (uts s))"
    and m2: "m2 = (if uname26 E then store_bytes m1 (q + 130) ?rel else m1)"
    and m3: "uts_mem s' = (if linux32 E then store_bytes m2 (q + 260) ?mac else m2)"
    using uaccess_laws.newuname_memory [OF assms(1,3)] by metis
  have part: "load_bytes m1 (q + of_nat i) 65 = take 65 (drop i (enc_new_utsname (uts s)))" if "i \<le> 325" for i
    unfolding m1 by (rule load_bytes_store_sub) (use that f(1) in simp_all)
  have rel: "load_bytes m2 (q + of_nat i) n = load_bytes m1 (q + of_nat i) n"
    if "i + n \<le> 130 \<or> 195 \<le> i" "i + n \<le> 390" for i n
    using load_bytes_store_apart [of i n 130 ?rel m1 q] that rl by (auto simp: m2)
  have mac: "load_bytes (uts_mem s') (q + of_nat i) n = load_bytes m2 (q + of_nat i) n"
    if "i + n \<le> 260 \<or> 325 \<le> i" "i + n \<le> 390" for i n
    using load_bytes_store_apart [of i n 260 ?mac m2 q] that mach by (auto simp: m3)
  have kept: "load_bytes (uts_mem s') (q + of_nat i) 65 = take 65 (drop i (enc_new_utsname (uts s)))"
    if "i \<in> {0, 65, 195, 325}" for i
    using that mac [of i 65] rel [of i 65] part [of i] by auto
  have r: "load_bytes m2 (q + 130) (length ?rel) = ?rel" if "uname26 E"
    unfolding m2 using that rl load_store_bytes [of ?rel m1 "q + 130"] by simp
  have "load_bytes (uts_mem s') (q + 260) (length ?mac) = ?mac" if "linux32 E"
    unfolding m3 using that mach load_store_bytes [of ?mac m2 "q + 260"] by simp
  moreover have "load_bytes (uts_mem s') (q + 260) 65 = machine (uts s)" if "\<not> linux32 E"
    using that m3 rel [of 260 65] part [of 260] f by simp
  moreover have "load_bytes (uts_mem s') (q + 130) (length ?rel) = ?rel" if "uname26 E"
    using r [OF that] mac [of 130 "length ?rel"] rl by simp
  moreover have "load_bytes (uts_mem s') (q + 130) 65 = release (uts s)" if "\<not> uname26 E"
    using that m2 mac [of 130 65] part [of 130] f by simp
  ultimately show ?thesis
    using kept [of 0] kept [of 65] kept [of 195] kept [of 325] f rl(1) by simp
qed

theorem newuname_fields_witness:
  "load_bytes (uts_mem (snd (sys_newuname demo_uts_env demo_U 8192 demo_uts_state))) 8192 65
     = sysname (uts demo_uts_state)"
proof -
  have "uts_wf (uts demo_uts_state)" using demo_uts_inv by (simp add: uts_inv_def)
  moreover have "length (COMPAT_UTS_MACHINE demo_uts_env) \<le> 65" by (simp add: demo_uts_env_def bytes_of_def)
  moreover have "sys_newuname demo_uts_env demo_U 8192 demo_uts_state
      = (0, snd (sys_newuname demo_uts_env demo_U 8192 demo_uts_state))"
    using enc_new_utsname_fields(1) [OF calculation(1)] length_uname26_text [of demo_uts_env]
    by (simp add: prod_eq_iff)
      (simp add: sys_newuname_def Let_def ucopy_to_user_def uts_lock_defs copy_to_user_all_mapped
        override_release_def override_architecture_def scnprintf_def clamp_size_def demo_uts_env_def bytes_of_def)
  ultimately show ?thesis using newuname_fields [OF page.uaccess_laws_axioms] by blast
qed

text \<open>
  A host name that \<^verbatim>\<open>sethostname\<close> accepted, of up to 64 bytes without a zero byte, is what
  \<^verbatim>\<open>gethostname\<close> copies out: the whole name with its final zero byte when the buffer is longer
  than the name, and its first bytes otherwise.
\<close>

theorem sethostname_gethostname:
  assumes "uaccess_laws U" "uts_wf (uts s)" and set: "sys_sethostname E U p len s = (0, s1)"
    and get: "sys_gethostname E U q len' s1 = (0, s2)"
    and name: "name = load_bytes (uts_mem s) p (nat len)" "0 \<notin> set name"
  shows "load_bytes (uts_mem s2) q (nat (min len' (len + 1))) = take (nat len') (name @ [0])"
proof -
  note named = uaccess_laws.sethostname_done [OF assms(1) set]
  then have len: "0 \<le> len" "len \<le> 64" "length name = nat len" by (simp_all add: name)
  have node: "nodename (uts s1) = name @ replicate (65 - nat len) 0"
    using named assms(2) by (simp add: name(1) set_name_def uts_wf_def name_wf_def)
  have "takeWhile (\<lambda>b. b \<noteq> 0) (nodename (uts s1)) = name"
    using name(2) len by (subst node, subst takeWhile_append2) (auto simp: replicate_eq_replicate split: nat.splits)
  then have i: "strlen (nodename (uts s1)) = nat len" using len by (simp add: strlen_def)
  have l': "0 \<le> len'" using get by (auto simp: sys_gethostname_def split: if_splits)
  let ?tmp = "take (nat (min len' (len + 1))) (nodename (uts s1))"
  obtain l t where c: "ucopy_to_user U q ?tmp s1 = (l, t)" by fastforce
  have lk: "up_read (down_read s1) = s1" "uts (down_read s1) = uts s1" by (simp_all add: uts_lock_defs)
  have "(if 1 + int (nat len) > len' then len' else 1 + int (nat len)) = min len' (len + 1)" using len by auto
  then have "l = 0" "t = s2"
    using get c l' by (auto simp: sys_gethostname_def Let_def lk i split: if_splits)
  then have "uts_mem s2 = store_bytes (uts_mem s1) q ?tmp"
    using uaccess_laws.ucopy_done [OF assms(1)] c by fastforce
  moreover have k: "nat (min len' (len + 1)) \<le> 65" using len by simp
  moreover have "length (nodename (uts s1)) = 65" using node len by simp
  then have "length ?tmp = nat (min len' (len + 1))" using k by (simp only: length_take min_absorb2)
  ultimately have "load_bytes (uts_mem s2) q (nat (min len' (len + 1))) = ?tmp"
    using load_store_bytes [of ?tmp "uts_mem s1" q] by simp
  also have "\<dots> = take (nat len') (name @ [0])"
  proof -
    have "nodename (uts s1) = (name @ [0]) @ replicate (64 - nat len) 0"
      using len by (simp add: node Suc_diff_le flip: replicate_Suc)
    moreover have "nat (min len' (len + 1)) = min (nat len') (length (name @ [0]))" using len l' by (simp add: min_def) linarith
    moreover have "take (min k (length xs)) (xs @ ys) = take k xs" for k and xs ys :: "byte list"
      by (simp add: min_def)
    ultimately show ?thesis by (simp only:)
  qed
  finally show ?thesis .
qed

theorem sethostname_gethostname_witness:
  "load_bytes (uts_mem (snd (sys_gethostname demo_uts_env demo_U 8192 10
     (snd (sys_sethostname demo_uts_env demo_U 4096 2 demo_uts_state))))) 8192 3 = [104, 105, 0]"
proof -
  let ?s1 = "snd (sys_sethostname demo_uts_env demo_U 4096 2 demo_uts_state)"
  let ?s2 = "snd (sys_gethostname demo_uts_env demo_U 8192 10 ?s1)"
  have wf: "uts_wf (uts demo_uts_state)" using demo_uts_inv by (simp add: uts_inv_def)
  have name: "load_bytes (uts_mem demo_uts_state) 4096 (nat 2) = [104, 105]"
    by (simp add: load_bytes_def demo_uts_state_def upt_rec)
  have 1: "sys_sethostname demo_uts_env demo_U 4096 2 demo_uts_state = (0, ?s1)"
    by (simp add: prod_eq_iff) (simp add: sys_sethostname_def copy_from_user_all_mapped Let_def demo_uts_env_def)
  have 2: "sys_gethostname demo_uts_env demo_U 8192 10 ?s1 = (0, ?s2)"
    by (simp add: prod_eq_iff) (simp add: sys_gethostname_def ucopy_to_user_def copy_to_user_all_mapped Let_def)
  show ?thesis
    using sethostname_gethostname [OF page.uaccess_laws_axioms wf 1 2 name [symmetric]] by simp
qed

end
