(* ===== verification/Sys_Rusage.thy ===== *)
theory Sys_Rusage
  imports Kernel_Tasks
begin

text \<open>
  Resource usage: \<^verbatim>\<open>times\<close>, \<^verbatim>\<open>getrusage\<close>, their 32-bit forms, \<^verbatim>\<open>umask\<close> and \<^verbatim>\<open>getcpu\<close> (\<^verbatim>\<open>kernel/sys.c\<close>,
  lines 1014 to 1063, 1777 to 1901 and 2770 to 2782). Time accounting, the time conversions and the
  sequence lock are parameters. Writers may run while \<^verbatim>\<open>getrusage\<close> reads without the lock, so what
  a pass reads is a function of the pass: 0 is the pass without the lock, 1 the one with it.
\<close>

section \<open>State\<close>

text \<open>Context switches, page faults and blocks, of a thread or summed up in a signal structure.\<close>

record rcounts =
  nvcsw :: ulong
  nivcsw :: ulong
  minflt :: ulong
  majflt :: ulong
  inblock :: ulong
  oublock :: ulong

record rsignal =
  dead_threads :: rcounts
  maxrss :: ulong
  children :: rcounts
  cmaxrss :: ulong
  cutime :: ulong
  cstime :: ulong
  live_threads :: "rcounts list"

record rusage =
  ru_utime :: "ulong \<times> ulong"
  ru_stime :: "ulong \<times> ulong"
  ru_maxrss :: ulong
  ru_counts :: rcounts

record rusage_env =
  sig_pass :: "nat \<Rightarrow> rsignal"
  need_seqretry :: "nat \<Rightarrow> bool"
  task_counts :: rcounts
  task_cputime_adjusted :: "ulong \<times> ulong"
  thread_group_cputime_adjusted :: "ulong \<times> ulong"
  ns_to_kernel_old_timeval :: "ulong \<Rightarrow> ulong \<times> ulong"
  nsec_to_clock_t :: "ulong \<Rightarrow> ulong"
  jiffies :: ulong
  jiffies_64_to_clock_t :: "ulong \<Rightarrow> ulong"
  clock_t_to_jiffies :: "ulong \<Rightarrow> ulong"
  compat_jiffies_to_clock_t :: "ulong \<Rightarrow> u32"

abbreviation (input) RUSAGE_SELF :: int where "RUSAGE_SELF \<equiv> 0"
abbreviation (input) RUSAGE_CHILDREN :: int where "RUSAGE_CHILDREN \<equiv> - 1"
abbreviation (input) RUSAGE_BOTH :: int where "RUSAGE_BOTH \<equiv> - 2"
abbreviation (input) RUSAGE_THREAD :: int where "RUSAGE_THREAD \<equiv> 1"

definition zero_counts :: rcounts where
  "zero_counts = \<lparr>nvcsw = 0, nivcsw = 0, minflt = 0, majflt = 0, inblock = 0, oublock = 0\<rparr>"


section \<open>times\<close>

definition do_sys_times :: "rusage_env \<Rightarrow> ulong \<times> ulong \<times> ulong \<times> ulong" where
  "do_sys_times E =
     (case thread_group_cputime_adjusted E of (tgutime, tgstime) \<Rightarrow>
        (nsec_to_clock_t E tgutime, nsec_to_clock_t E tgstime,
         nsec_to_clock_t E (cutime (sig_pass E 0)), nsec_to_clock_t E (cstime (sig_pass E 0))))"

definition enc_tms :: "ulong \<times> ulong \<times> ulong \<times> ulong \<Rightarrow> byte list" where
  "enc_tms t = (case t of (u, s, cu, cs) \<Rightarrow> enc_ulong u @ enc_ulong s @ enc_ulong cu @ enc_ulong cs)"

definition sys_times :: "rusage_env \<Rightarrow> uaccess \<Rightarrow> addr \<Rightarrow> kernel \<Rightarrow> int \<times> kernel" where
  "sys_times E U tbuf k =
     (case (if tbuf \<noteq> NULL then kcopy_to_user U tbuf (enc_tms (do_sys_times E)) k else (0, k)) of (left, k) \<Rightarrow>
      if left \<noteq> 0 then (- EFAULT, k) else (sint (jiffies_64_to_clock_t E (jiffies E)), k))"

definition enc_u32 :: "u32 \<Rightarrow> byte list" where
  "enc_u32 w = le_bytes 4 (unat w)"

definition clock_t_to_compat_clock_t :: "rusage_env \<Rightarrow> ulong \<Rightarrow> u32" where
  "clock_t_to_compat_clock_t E x = compat_jiffies_to_clock_t E (clock_t_to_jiffies E x)"

definition compat_sys_times :: "rusage_env \<Rightarrow> uaccess \<Rightarrow> addr \<Rightarrow> kernel \<Rightarrow> int \<times> kernel" where
  "compat_sys_times E U tbuf k =
     (case (if tbuf \<noteq> NULL then
              (case do_sys_times E of (u, s, cu, cs) \<Rightarrow>
                 kcopy_to_user U tbuf
                   (enc_u32 (clock_t_to_compat_clock_t E u) @ enc_u32 (clock_t_to_compat_clock_t E s)
                    @ enc_u32 (clock_t_to_compat_clock_t E cu) @ enc_u32 (clock_t_to_compat_clock_t E cs)) k)
            else (0, k)) of (left, k) \<Rightarrow>
      if left \<noteq> 0 then (- EFAULT, k) else (sint (compat_jiffies_to_clock_t E (jiffies E)), k))"


section \<open>getrusage\<close>

definition accumulate_thread_rusage :: "rcounts \<Rightarrow> rcounts \<Rightarrow> rcounts" where
  "accumulate_thread_rusage t r =
     \<lparr>nvcsw = nvcsw r + nvcsw t, nivcsw = nivcsw r + nivcsw t, minflt = minflt r + minflt t,
      majflt = majflt r + majflt t, inblock = inblock r + inblock t, oublock = oublock r + oublock t\<rparr>"

text \<open>The switch: user and system time, counters and peak of the resident set.\<close>

definition rusage_switch :: "int \<Rightarrow> rsignal \<Rightarrow> (ulong \<times> ulong \<times> rcounts \<times> ulong) option" where
  "rusage_switch who sig =
     (let both = (who = RUSAGE_BOTH \<or> who = RUSAGE_CHILDREN);
          utime = (if both then cutime sig else 0);
          stime = (if both then cstime sig else 0);
          r = (if both then children sig else zero_counts);
          rss = (if both then cmaxrss sig else 0)
      in if who = RUSAGE_CHILDREN then Some (utime, stime, r, rss)
         else if who = RUSAGE_BOTH \<or> who = RUSAGE_SELF then
           (let r = accumulate_thread_rusage (dead_threads sig) r;
                rss = (if rss < maxrss sig then maxrss sig else rss);
                r = fold accumulate_thread_rusage (live_threads sig) r
            in Some (utime, stime, r, rss))
         else None)"

text \<open>\<open>None\<close>: the call does not return (\<^verbatim>\<open>BUG\<close>, or a loop without end).\<close>

partial_function (option) rusage_loop ::
  "rusage_env \<Rightarrow> int \<Rightarrow> nat \<Rightarrow> (ulong \<times> ulong \<times> rcounts \<times> ulong) option" where
  "rusage_loop E who seq =
     (case rusage_switch who (sig_pass E seq) of
        None \<Rightarrow> None
      | Some x \<Rightarrow> if need_seqretry E seq then rusage_loop E who 1 else Some x)"

text \<open>The part from \<^verbatim>\<open>out_thread\<close> on: the peak of the address space, then the conversions.\<close>

definition rusage_result :: "rusage_env \<Rightarrow> ulong \<Rightarrow> ulong \<Rightarrow> rcounts \<Rightarrow> ulong \<Rightarrow> rusage" where
  "rusage_result E utime stime r rss =
     \<lparr>ru_utime = ns_to_kernel_old_timeval E utime, ru_stime = ns_to_kernel_old_timeval E stime,
      ru_maxrss = rss * (PAGE_SIZE div 1024), ru_counts = r\<rparr>"

definition rusage_mm :: "nat \<Rightarrow> ulong \<Rightarrow> kernel \<Rightarrow> ulong \<times> kernel" where
  "rusage_mm p rss k =
     (case get_task_mm p k of
        (Some m, k1) \<Rightarrow> (setmax_mm_hiwater_rss rss (mms k1 m), mmput m k1)
      | (None, k1) \<Rightarrow> (rss, k1))"

definition getrusage :: "rusage_env \<Rightarrow> nat \<Rightarrow> int \<Rightarrow> kernel \<Rightarrow> (rusage \<times> kernel) option" where
  "getrusage E p who k =
     (if who = RUSAGE_THREAD then
        (case task_cputime_adjusted E of (utime, stime) \<Rightarrow>
         case rusage_mm p (maxrss (sig_pass E 0)) k of (rss, k) \<Rightarrow>
           Some (rusage_result E utime stime (accumulate_thread_rusage (task_counts E) zero_counts) rss, k))
      else case rusage_loop E who 0 of
        None \<Rightarrow> None
      | Some (utime, stime, r, rss) \<Rightarrow>
        if who = RUSAGE_CHILDREN then Some (rusage_result E utime stime r rss, k)
        else
          (case thread_group_cputime_adjusted E of (tgutime, tgstime) \<Rightarrow>
           case rusage_mm p rss k of (rss, k) \<Rightarrow>
             Some (rusage_result E (utime + tgutime) (stime + tgstime) r rss, k)))"

text \<open>\<^verbatim>\<open>struct rusage\<close>: two times of two words, then fourteen words, six of which stay zero.\<close>

definition enc_rusage :: "rusage \<Rightarrow> byte list" where
  "enc_rusage r =
     concat (map enc_ulong
       [fst (ru_utime r), snd (ru_utime r), fst (ru_stime r), snd (ru_stime r), ru_maxrss r, 0, 0, 0,
        minflt (ru_counts r), majflt (ru_counts r), 0, inblock (ru_counts r), oublock (ru_counts r), 0, 0, 0,
        nvcsw (ru_counts r), nivcsw (ru_counts r)])"

definition sys_getrusage :: "rusage_env \<Rightarrow> uaccess \<Rightarrow> nat \<Rightarrow> int \<Rightarrow> addr \<Rightarrow> kernel \<Rightarrow> (int \<times> kernel) option" where
  "sys_getrusage E U cur who ru k =
     (if who \<noteq> RUSAGE_SELF \<and> who \<noteq> RUSAGE_CHILDREN \<and> who \<noteq> RUSAGE_THREAD then Some (- EINVAL, k)
      else case getrusage E cur who k of
        None \<Rightarrow> None
      | Some (r, k) \<Rightarrow>
        (case kcopy_to_user U ru (enc_rusage r) k of (left, k) \<Rightarrow> Some (if left \<noteq> 0 then - EFAULT else 0, k)))"

text \<open>The 32-bit form differs in the copy, \<^verbatim>\<open>put_compat_rusage\<close>, a parameter here.\<close>

definition compat_sys_getrusage ::
  "rusage_env \<Rightarrow> (rusage \<Rightarrow> addr \<Rightarrow> kernel \<Rightarrow> int \<times> kernel) \<Rightarrow> nat \<Rightarrow> int \<Rightarrow> addr \<Rightarrow> kernel \<Rightarrow> (int \<times> kernel) option" where
  "compat_sys_getrusage E put_compat_rusage cur who ru k =
     (if who \<noteq> RUSAGE_SELF \<and> who \<noteq> RUSAGE_CHILDREN \<and> who \<noteq> RUSAGE_THREAD then Some (- EINVAL, k)
      else case getrusage E cur who k of
        None \<Rightarrow> None
      | Some (r, k) \<Rightarrow> Some (put_compat_rusage r ru k))"


section \<open>umask and getcpu\<close>

abbreviation (input) S_IRWXUGO :: u32 where "S_IRWXUGO \<equiv> 511"

definition sys_umask :: "u32 \<Rightarrow> u32 \<Rightarrow> u32 \<times> u32" where
  "sys_umask new fs_umask = (fs_umask, and new S_IRWXUGO)"

definition sys_getcpu :: "uaccess \<Rightarrow> (int \<Rightarrow> int) \<Rightarrow> int \<Rightarrow> addr \<Rightarrow> addr \<Rightarrow> kernel \<Rightarrow> int \<times> kernel" where
  "sys_getcpu U cpu_to_node cpu cpup nodep k =
     (case (if cpup \<noteq> NULL then put_user U (umem k) cpup (enc_int cpu) else (umem k, 0)) of (m1, e1) \<Rightarrow>
      case (if nodep \<noteq> NULL then put_user U m1 nodep (enc_int (cpu_to_node cpu)) else (m1, 0)) of (m2, e2) \<Rightarrow>
        (if or e1 e2 \<noteq> 0 then - EFAULT else 0, k\<lparr>umem := m2\<rparr>))"

section \<open>Properties\<close>

text \<open>Sums of counters, as natural numbers modulo the word size.\<close>

lemma fold_accumulate:
  "nvcsw (fold accumulate_thread_rusage ts r) = nvcsw r + sum_list (map nvcsw ts)"
  "nivcsw (fold accumulate_thread_rusage ts r) = nivcsw r + sum_list (map nivcsw ts)"
  "minflt (fold accumulate_thread_rusage ts r) = minflt r + sum_list (map minflt ts)"
  "majflt (fold accumulate_thread_rusage ts r) = majflt r + sum_list (map majflt ts)"
  "inblock (fold accumulate_thread_rusage ts r) = inblock r + sum_list (map inblock ts)"
  "oublock (fold accumulate_thread_rusage ts r) = oublock r + sum_list (map oublock ts)"
  by (induction ts arbitrary: r) (simp_all add: accumulate_thread_rusage_def algebra_simps)

lemma rusage_loop_locked: "\<not> need_seqretry E 1 \<Longrightarrow> rusage_loop E who 1 = rusage_switch who (sig_pass E 1)"
  by (subst rusage_loop.simps) (simp split: option.split)

lemma rusage_loop_cases:
  assumes "\<not> need_seqretry E 1" "who \<in> {RUSAGE_SELF, RUSAGE_CHILDREN, RUSAGE_BOTH}"
  shows "rusage_loop E who 0 = rusage_switch who (sig_pass E (if need_seqretry E 0 then 1 else 0))"
proof -
  have "rusage_switch who sig \<noteq> None" for sig using assms(2) by (auto simp: rusage_switch_def Let_def)
  then obtain x where "rusage_switch who (sig_pass E 0) = Some x" by blast
  then show ?thesis using rusage_loop_locked [OF assms(1)] by (simp add: rusage_loop.simps [of E who 0])
qed

text \<open>
  (C31) \<^verbatim>\<open>getrusage\<close> always returns, whatever \<open>who\<close> is and however often writers interfere: a pass
  under the lock is not repeated, and the \<^verbatim>\<open>BUG\<close> of the switch is unreachable from the system call.
\<close>

theorem getrusage_returns:
  assumes "\<not> need_seqretry E 1"
  shows "\<exists>r k'. sys_getrusage E U cur who ru k = Some (r, k')"
proof (cases "who = RUSAGE_SELF \<or> who = RUSAGE_CHILDREN")
  case True
  then have "\<exists>x. rusage_loop E who 0 = Some x"
    using rusage_loop_cases [OF assms, of who] by (auto simp: rusage_switch_def Let_def)
  then show ?thesis by (auto simp: sys_getrusage_def getrusage_def split: prod.split)
qed (auto simp: sys_getrusage_def getrusage_def split: prod.split)

definition demo_rusage_env :: rusage_env where
  "demo_rusage_env =
     \<lparr>sig_pass = (\<lambda>i. \<lparr>dead_threads = zero_counts\<lparr>nvcsw := 5\<rparr>, maxrss = 100, children = zero_counts\<lparr>nvcsw := 7\<rparr>,
        cmaxrss = 30, cutime = 1, cstime = 2, live_threads = [zero_counts\<lparr>nvcsw := 10\<rparr>, zero_counts\<lparr>nvcsw := of_nat i\<rparr>]\<rparr>),
      need_seqretry = (\<lambda>i. i = 0), task_counts = zero_counts, task_cputime_adjusted = (3, 4),
      thread_group_cputime_adjusted = (10, 20), ns_to_kernel_old_timeval = (\<lambda>n. (n div 1000000000, n div 1000 mod 1000000)),
      nsec_to_clock_t = (\<lambda>n. n div 10000000), jiffies = 0, jiffies_64_to_clock_t = id, clock_t_to_jiffies = id,
      compat_jiffies_to_clock_t = ucast\<rparr>"

theorem getrusage_returns_witness:
  "\<exists>r k'. sys_getrusage demo_rusage_env demo_U 1 RUSAGE_SELF 4096 demo_kernel = Some (r, k')"
  using getrusage_returns [of demo_rusage_env] by (simp add: demo_rusage_env_def)

text \<open>
  What \<^verbatim>\<open>getrusage\<close> reports: for the process, the counters of its exited threads plus those of
  every living thread; for the children, their counters; for both, the sum of the two. The peak
  resident set is the larger of what the signal structure and the address space recorded, in
  KiB. The report is a single consistent reading, and references are returned.
\<close>

theorem getrusage_totals:
  assumes "\<not> need_seqretry E 1" "sig = sig_pass E (if need_seqretry E 0 then 1 else 0)"
    and "who \<in> {RUSAGE_SELF, RUSAGE_CHILDREN, RUSAGE_BOTH}" "getrusage E p who k = Some (r, k')"
  shows "k' = k
    \<and> nvcsw (ru_counts r) = (if who = RUSAGE_SELF then 0 else nvcsw (children sig))
        + (if who = RUSAGE_CHILDREN then 0 else nvcsw (dead_threads sig) + sum_list (map nvcsw (live_threads sig)))
    \<and> majflt (ru_counts r) = (if who = RUSAGE_SELF then 0 else majflt (children sig))
        + (if who = RUSAGE_CHILDREN then 0 else majflt (dead_threads sig) + sum_list (map majflt (live_threads sig)))
    \<and> ru_maxrss r = 4 * (if who = RUSAGE_CHILDREN then cmaxrss sig
        else max (max (maxrss sig) (if who = RUSAGE_SELF then 0 else cmaxrss sig))
               (case user_mm k p of None \<Rightarrow> 0 | Some m \<Rightarrow> get_mm_hiwater_rss (mms k m)))"
proof -
  have loop: "rusage_loop E who 0 = rusage_switch who sig"
    using rusage_loop_cases [OF assms(1,3)] assms(2) by simp
  have mm: "rusage_mm p rss k = (max rss (case user_mm k p of None \<Rightarrow> 0 | Some m \<Rightarrow> get_mm_hiwater_rss (mms k m)), k)"
    for rss
    by (auto simp: rusage_mm_def lock_defs setmax_mm_hiwater_rss_max split: option.split)
  have mx: "(if a < b then b else a) = max b a" for a b :: ulong by (auto simp: max_def)
  have z: "max 0 a = a" "(0 < a) = (a \<noteq> 0)" for a :: ulong by (simp_all add: max_def word_gt_0)
  show ?thesis
    using assms(3,4) loop
    by (auto simp: getrusage_def rusage_switch_def Let_def mm mx z rusage_result_def fold_accumulate zero_counts_def
        accumulate_thread_rusage_def mult.commute split: prod.splits)
qed

theorem getrusage_totals_witness:
  "nvcsw (ru_counts (fst (the (getrusage demo_rusage_env 1 RUSAGE_BOTH demo_kernel)))) = 23"
proof -
  have 1: "\<not> need_seqretry demo_rusage_env 1" and 2: "need_seqretry demo_rusage_env 0"
    by (simp_all add: demo_rusage_env_def)
  have "rusage_loop demo_rusage_env RUSAGE_BOTH 0 \<noteq> None"
    using rusage_loop_cases [OF 1, of RUSAGE_BOTH] by (simp add: rusage_switch_def Let_def)
  then have "getrusage demo_rusage_env 1 RUSAGE_BOTH demo_kernel \<noteq> None"
    by (auto simp: getrusage_def split: prod.splits)
  then have "getrusage demo_rusage_env 1 RUSAGE_BOTH demo_kernel =
      Some (fst (the (getrusage demo_rusage_env 1 RUSAGE_BOTH demo_kernel)),
        snd (the (getrusage demo_rusage_env 1 RUSAGE_BOTH demo_kernel)))"
    by simp
  from getrusage_totals [OF 1 refl _ this] 2 show ?thesis
    by (simp add: demo_rusage_env_def zero_counts_def)
qed

end
