(* ===== verification/Prctl_Mm.thy ===== *)
theory Prctl_Mm
  imports Kernel_Tasks Step_System
begin

text \<open>
  The memory map of a process as \<^verbatim>\<open>prctl(PR_SET_MM, ...)\<close> changes it, and \<^verbatim>\<open>PR_GET_AUXV\<close>
  (\<^verbatim>\<open>kernel/sys.c\<close>, lines 1905 to 2278 and 2440 to 2449, \<^verbatim>\<open>check_data_rlimit\<close> of \<^verbatim>\<open>include/linux/mm.h\<close>).
  The kernel is built with \<^verbatim>\<open>CONFIG_CHECKPOINT_RESTORE\<close>. Files, capabilities, the address-space
  bounds and \<^verbatim>\<open>find_vma\<close> are parameters.
\<close>

section \<open>State\<close>

record mm_map =
  start_code :: ulong
  end_code :: ulong
  start_data :: ulong
  end_data :: ulong
  start_brk :: ulong
  brk :: ulong
  start_stack :: ulong
  arg_start :: ulong
  arg_end :: ulong
  env_start :: ulong
  env_end :: ulong

record prctl_mm_map =
  pr_map :: mm_map
  pr_auxv :: addr
  pr_auxv_size :: u32
  pr_exe_fd :: u32

record pm_state =
  mm_of :: mm_map
  saved_auxv :: "byte list"
  exe_file :: nat
  pm_mem :: mem
  mmap_readers :: nat
  arg_locks :: nat
  task_locks :: nat
  fd_refs :: "nat \<Rightarrow> int"

record pm_env =
  TASK_SIZE :: ulong
  mmap_min_addr :: ulong
  rlimit_data :: ulong
  AT_VECTOR_SIZE :: nat
  capable_sys_resource :: bool
  checkpoint_restore_capable :: bool
  find_vma :: "addr \<Rightarrow> bool"
  fdget_file :: "u32 \<Rightarrow> nat option"
  S_ISREG_file :: "nat \<Rightarrow> bool"
  path_noexec :: "nat \<Rightarrow> bool"
  may_exec :: "nat \<Rightarrow> int"
  replace_mm_exe_file :: "nat \<Rightarrow> nat \<Rightarrow> int"

abbreviation (input) PR_SET_MM_START_CODE :: int where "PR_SET_MM_START_CODE \<equiv> 1"
abbreviation (input) PR_SET_MM_END_CODE :: int where "PR_SET_MM_END_CODE \<equiv> 2"
abbreviation (input) PR_SET_MM_START_DATA :: int where "PR_SET_MM_START_DATA \<equiv> 3"
abbreviation (input) PR_SET_MM_END_DATA :: int where "PR_SET_MM_END_DATA \<equiv> 4"
abbreviation (input) PR_SET_MM_START_STACK :: int where "PR_SET_MM_START_STACK \<equiv> 5"
abbreviation (input) PR_SET_MM_START_BRK :: int where "PR_SET_MM_START_BRK \<equiv> 6"
abbreviation (input) PR_SET_MM_BRK :: int where "PR_SET_MM_BRK \<equiv> 7"
abbreviation (input) PR_SET_MM_ARG_START :: int where "PR_SET_MM_ARG_START \<equiv> 8"
abbreviation (input) PR_SET_MM_ARG_END :: int where "PR_SET_MM_ARG_END \<equiv> 9"
abbreviation (input) PR_SET_MM_ENV_START :: int where "PR_SET_MM_ENV_START \<equiv> 10"
abbreviation (input) PR_SET_MM_ENV_END :: int where "PR_SET_MM_ENV_END \<equiv> 11"
abbreviation (input) PR_SET_MM_AUXV :: int where "PR_SET_MM_AUXV \<equiv> 12"
abbreviation (input) PR_SET_MM_EXE_FILE :: int where "PR_SET_MM_EXE_FILE \<equiv> 13"
abbreviation (input) PR_SET_MM_MAP :: int where "PR_SET_MM_MAP \<equiv> 14"
abbreviation (input) PR_SET_MM_MAP_SIZE :: int where "PR_SET_MM_MAP_SIZE \<equiv> 15"

definition auxv_bytes :: "pm_env \<Rightarrow> nat" where
  "auxv_bytes E = 8 * AT_VECTOR_SIZE E"

definition mmap_read_lock :: "pm_state \<Rightarrow> pm_state" where
  "mmap_read_lock s = s\<lparr>mmap_readers := mmap_readers s + 1\<rparr>"

definition mmap_read_unlock :: "pm_state \<Rightarrow> pm_state" where
  "mmap_read_unlock s = s\<lparr>mmap_readers := mmap_readers s - 1\<rparr>"

definition lock_args :: "pm_state \<Rightarrow> pm_state" where "lock_args s = s\<lparr>arg_locks := arg_locks s + 1\<rparr>"
definition unlock_args :: "pm_state \<Rightarrow> pm_state" where "unlock_args s = s\<lparr>arg_locks := arg_locks s - 1\<rparr>"

definition task_lock :: "pm_state \<Rightarrow> pm_state" where "task_lock s = s\<lparr>task_locks := task_locks s + 1\<rparr>"

definition task_unlock :: "pm_state \<Rightarrow> pm_state" where "task_unlock s = s\<lparr>task_locks := task_locks s - 1\<rparr>"

lemmas pm_lock_defs = mmap_read_lock_def mmap_read_unlock_def lock_args_def unlock_args_def task_lock_def task_unlock_def

text \<open>The 104 bytes of \<^verbatim>\<open>struct prctl_mm_map\<close>: eleven addresses, a pointer and two 32-bit words.\<close>

definition word_at :: "nat \<Rightarrow> byte list \<Rightarrow> ulong" where
  "word_at i bs = dec_ulong (take 8 (drop (8 * i) bs))"

definition dec_mm_map :: "byte list \<Rightarrow> prctl_mm_map" where
  "dec_mm_map bs =
     \<lparr>pr_map = \<lparr>start_code = word_at 0 bs, end_code = word_at 1 bs, start_data = word_at 2 bs,
        end_data = word_at 3 bs, start_brk = word_at 4 bs, brk = word_at 5 bs, start_stack = word_at 6 bs,
        arg_start = word_at 7 bs, arg_end = word_at 8 bs, env_start = word_at 9 bs, env_end = word_at 10 bs\<rparr>,
      pr_auxv = word_at 11 bs, pr_auxv_size = of_nat (le_val (take 4 (drop 96 bs))),
      pr_exe_fd = of_nat (le_val (take 4 (drop 100 bs)))\<rparr>"


section \<open>Validation\<close>

definition check_data_rlimit :: "ulong \<Rightarrow> ulong \<Rightarrow> ulong \<Rightarrow> ulong \<Rightarrow> ulong \<Rightarrow> int" where
  "check_data_rlimit lim new start e_data s_data =
     (if lim < RLIM_INFINITY
      then if (new - start) + (e_data - s_data) > lim then - ENOSPC else 0
      else 0)"

definition map_addrs :: "mm_map \<Rightarrow> ulong list" where
  "map_addrs m = [start_code m, end_code m, start_data m, end_data m, start_brk m, brk m, start_stack m,
     arg_start m, arg_end m, env_start m, env_end m]"

definition validate_prctl_map_addr :: "pm_env \<Rightarrow> mm_map \<Rightarrow> int" where
  "validate_prctl_map_addr E m =
     (if list_ex (\<lambda>val. val \<ge> TASK_SIZE E \<or> val < mmap_min_addr E) (map_addrs m) then - EINVAL
      else if \<not> (start_code m < end_code m \<and> start_data m \<le> end_data m \<and> start_brk m \<le> brk m
                 \<and> arg_start m \<le> arg_end m \<and> env_start m \<le> env_end m) then - EINVAL
      else if check_data_rlimit (rlimit_data E) (brk m) (start_brk m) (end_data m) (start_data m) \<noteq> 0
      then - EINVAL
      else 0)"


section \<open>The operations\<close>

definition prctl_set_mm_exe_file :: "pm_env \<Rightarrow> u32 \<Rightarrow> pm_state \<Rightarrow> int \<times> pm_state" where
  "prctl_set_mm_exe_file E fd s =
     (case fdget_file E fd of
        None \<Rightarrow> (- EBADF, s)
      | Some f \<Rightarrow>
        (let s1 = s\<lparr>fd_refs := (fd_refs s)(f := fd_refs s f + 1)\<rparr>;
             (err, s2) =
               (if \<not> S_ISREG_file E f \<or> path_noexec E f then (- EACCES, s1)
                else
                  (let err = may_exec E f in
                   if err \<noteq> 0 then (err, s1)
                   else
                     (let err = replace_mm_exe_file E (exe_file s1) f in
                      (err, if err = 0 then s1\<lparr>exe_file := f\<rparr> else s1))))
         in (err, s2\<lparr>fd_refs := (fd_refs s2)(f := fd_refs s2 f - 1)\<rparr>)))"

text \<open>The last two words of an auxiliary vector are \<^verbatim>\<open>AT_NULL\<close>.\<close>

definition end_auxv :: "pm_env \<Rightarrow> byte list \<Rightarrow> byte list" where
  "end_auxv E bs = take (8 * (AT_VECTOR_SIZE E - 2)) bs @ replicate 16 0"

definition prctl_set_mm_map ::
  "pm_env \<Rightarrow> uaccess \<Rightarrow> int \<Rightarrow> addr \<Rightarrow> ulong \<Rightarrow> pm_state \<Rightarrow> int \<times> pm_state" where
  "prctl_set_mm_map E U opt a data_size s =
     (if opt = PR_SET_MM_MAP_SIZE then
        (case put_user U (pm_mem s) a (enc_int 104) of (m, e) \<Rightarrow> (e, s\<lparr>pm_mem := m\<rparr>))
      else if data_size \<noteq> 104 then (- EINVAL, s)
      else case copy_from_user U (pm_mem s) (replicate 104 0) a of (bs, left) \<Rightarrow>
        if left \<noteq> 0 then (- EFAULT, s)
        else
          (let pm = dec_mm_map bs; error = validate_prctl_map_addr E (pr_map pm) in
           if error \<noteq> 0 then (error, s)
           else if pr_auxv_size pm \<noteq> 0 \<and> (pr_auxv pm = NULL \<or> unat (pr_auxv_size pm) > auxv_bytes E)
           then (- EINVAL, s)
           else case (if pr_auxv_size pm \<noteq> 0
                      then copy_from_user U (pm_mem s) (replicate (unat (pr_auxv_size pm)) 0) (pr_auxv pm)
                      else ([], 0)) of (av, left) \<Rightarrow>
             if left \<noteq> 0 then (- EFAULT, s)
             else
               (let user_auxv = end_auxv E (av @ replicate (auxv_bytes E - length av) 0) in
                if pr_exe_fd pm \<noteq> - 1 \<and> \<not> checkpoint_restore_capable E then (- EPERM, s)
                else case (if pr_exe_fd pm \<noteq> - 1 then prctl_set_mm_exe_file E (pr_exe_fd pm) s else (0, s)) of
                  (error, s) \<Rightarrow>
                  if error \<noteq> 0 then (error, s)
                  else
                    (let s = mmap_read_lock s;
                         s = lock_args s;
                         s = s\<lparr>mm_of := pr_map pm\<rparr>;
                         s = unlock_args s;
                         s = (if pr_auxv_size pm \<noteq> 0 then s\<lparr>saved_auxv := user_auxv\<rparr> else s)
                     in (0, mmap_read_unlock s)))))"

definition prctl_set_auxv :: "pm_env \<Rightarrow> uaccess \<Rightarrow> addr \<Rightarrow> ulong \<Rightarrow> pm_state \<Rightarrow> int \<times> pm_state" where
  "prctl_set_auxv E U a len s =
     (if unat len > auxv_bytes E then (- EINVAL, s)
      else case copy_from_user U (pm_mem s) (replicate (unat len) 0) a of (bs, left) \<Rightarrow>
        if left \<noteq> 0 then (- EFAULT, s)
        else
          (let user_auxv = end_auxv E (bs @ replicate (auxv_bytes E - length bs) 0);
               s = task_lock s;
               s = s\<lparr>saved_auxv := take (unat len) user_auxv @ drop (unat len) (saved_auxv s)\<rparr>
           in (0, task_unlock s)))"

text \<open>The field that an option names; \<open>None\<close> for an option that names none.\<close>

definition set_map_field :: "int \<Rightarrow> addr \<Rightarrow> mm_map \<Rightarrow> mm_map option" where
  "set_map_field opt a m =
     (if opt = PR_SET_MM_START_CODE then Some (m\<lparr>start_code := a\<rparr>)
      else if opt = PR_SET_MM_END_CODE then Some (m\<lparr>end_code := a\<rparr>)
      else if opt = PR_SET_MM_START_DATA then Some (m\<lparr>start_data := a\<rparr>)
      else if opt = PR_SET_MM_END_DATA then Some (m\<lparr>end_data := a\<rparr>)
      else if opt = PR_SET_MM_START_STACK then Some (m\<lparr>start_stack := a\<rparr>)
      else if opt = PR_SET_MM_START_BRK then Some (m\<lparr>start_brk := a\<rparr>)
      else if opt = PR_SET_MM_BRK then Some (m\<lparr>brk := a\<rparr>)
      else if opt = PR_SET_MM_ARG_START then Some (m\<lparr>arg_start := a\<rparr>)
      else if opt = PR_SET_MM_ARG_END then Some (m\<lparr>arg_end := a\<rparr>)
      else if opt = PR_SET_MM_ENV_START then Some (m\<lparr>env_start := a\<rparr>)
      else if opt = PR_SET_MM_ENV_END then Some (m\<lparr>env_end := a\<rparr>)
      else None)"

definition prctl_set_mm ::
  "pm_env \<Rightarrow> uaccess \<Rightarrow> int \<Rightarrow> ulong \<Rightarrow> ulong \<Rightarrow> ulong \<Rightarrow> pm_state \<Rightarrow> int \<times> pm_state" where
  "prctl_set_mm E U opt a arg4 arg5 s =
     (if arg5 \<noteq> 0 \<or> arg4 \<noteq> 0 \<and> opt \<noteq> PR_SET_MM_AUXV \<and> opt \<noteq> PR_SET_MM_MAP \<and> opt \<noteq> PR_SET_MM_MAP_SIZE
      then (- EINVAL, s)
      else if opt = PR_SET_MM_MAP \<or> opt = PR_SET_MM_MAP_SIZE then prctl_set_mm_map E U opt a arg4 s
      else if \<not> capable_sys_resource E then (- EPERM, s)
      else if opt = PR_SET_MM_EXE_FILE then prctl_set_mm_exe_file E (ucast a) s
      else if opt = PR_SET_MM_AUXV then prctl_set_auxv E U a arg4 s
      else if a \<ge> TASK_SIZE E \<or> a < mmap_min_addr E then (- EINVAL, s)
      else
        (let s = mmap_read_lock s;
             vma = find_vma E a;
             s = lock_args s;
             (error, s) =
               (case set_map_field opt a (mm_of s) of
                  None \<Rightarrow> (- EINVAL, s)
                | Some m \<Rightarrow>
                  (let error = validate_prctl_map_addr E m in
                   if error \<noteq> 0 then (error, s)
                   else if opt \<in> {PR_SET_MM_START_STACK, PR_SET_MM_ARG_START, PR_SET_MM_ARG_END,
                                  PR_SET_MM_ENV_START, PR_SET_MM_ENV_END} \<and> \<not> vma
                   then (- EFAULT, s)
                   else (0, s\<lparr>mm_of := m\<rparr>)))
         in (error, mmap_read_unlock (unlock_args s))))"

definition prctl_get_auxv :: "pm_env \<Rightarrow> uaccess \<Rightarrow> addr \<Rightarrow> ulong \<Rightarrow> pm_state \<Rightarrow> int \<times> pm_state" where
  "prctl_get_auxv E U a len s =
     (let sz = min (auxv_bytes E) (unat len) in
      if sz \<noteq> 0 then
        (case copy_to_user U (pm_mem s) a (take sz (saved_auxv s)) of (m, left) \<Rightarrow>
           (if left \<noteq> 0 then - EFAULT else int (auxv_bytes E), s\<lparr>pm_mem := m\<rparr>))
      else (int (auxv_bytes E), s))"

section \<open>A sound layout\<close>

text \<open>
  The layout in natural numbers: every address is in the user range, every area ends after its
  start, and heap and data together respect \<^verbatim>\<open>RLIMIT_DATA\<close>.
\<close>

definition layout_ok :: "pm_env \<Rightarrow> mm_map \<Rightarrow> bool" where
  "layout_ok E m \<longleftrightarrow>
     (\<forall>v\<in>set (map_addrs m). unat (mmap_min_addr E) \<le> unat v \<and> unat v < unat (TASK_SIZE E))
   \<and> unat (start_code m) < unat (end_code m) \<and> unat (start_data m) \<le> unat (end_data m)
   \<and> unat (start_brk m) \<le> unat (brk m) \<and> unat (arg_start m) \<le> unat (arg_end m)
   \<and> unat (env_start m) \<le> unat (env_end m)
   \<and> (rlimit_data E \<noteq> RLIM_INFINITY \<longrightarrow>
        (unat (brk m) - unat (start_brk m)) + (unat (end_data m) - unat (start_data m)) \<le> unat (rlimit_data E))"

text \<open>\<^verbatim>\<open>AT_NULL\<close> ends the auxiliary vector, which has its fixed size.\<close>

definition auxv_ok :: "pm_env \<Rightarrow> byte list \<Rightarrow> bool" where
  "auxv_ok E bs \<longleftrightarrow> length bs = auxv_bytes E \<and> (\<forall>i<auxv_bytes E. auxv_bytes E \<le> i + 16 \<longrightarrow> bs ! i = 0)"

lemma data_size_exact:
  assumes "unat (sb :: ulong) \<le> unat b" "unat (sd :: ulong) \<le> unat e" "unat b < 2 ^ 63" "unat e < 2 ^ 63"
  shows "unat ((b - sb) + (e - sd)) = (unat b - unat sb) + (unat e - unat sd)"
proof -
  have s: "unat (b - sb) = unat b - unat sb" "unat (e - sd) = unat e - unat sd"
    using assms by (simp_all add: unat_sub word_le_nat_alt)
  show ?thesis by (rule trans [OF unat_add_64]) (use s assms in simp_all)
qed

lemma validate_layout:
  assumes "unat (TASK_SIZE E) \<le> 2 ^ 63"
  shows "validate_prctl_map_addr E m = 0 \<longleftrightarrow> layout_ok E m"
proof -
  have top: "rlimit_data E < RLIM_INFINITY \<longleftrightarrow> rlimit_data E \<noteq> RLIM_INFINITY"
    by (simp add: word_order.not_eq_extremum)
  have range: "list_ex (\<lambda>val. val \<ge> TASK_SIZE E \<or> val < mmap_min_addr E) (map_addrs m) \<longleftrightarrow>
      \<not> (\<forall>v\<in>set (map_addrs m). unat (mmap_min_addr E) \<le> unat v \<and> unat v < unat (TASK_SIZE E))"
    unfolding list_ex_iff word_le_nat_alt word_less_nat_alt by (meson not_le)
  have size: "unat ((brk m - start_brk m) + (end_data m - start_data m))
      = (unat (brk m) - unat (start_brk m)) + (unat (end_data m) - unat (start_data m))"
    if "\<forall>v\<in>set (map_addrs m). unat v < unat (TASK_SIZE E)"
      "unat (start_brk m) \<le> unat (brk m)" "unat (start_data m) \<le> unat (end_data m)"
    using that assms by (intro data_size_exact) (auto simp: map_addrs_def)
  let ?R = "\<forall>v\<in>set (map_addrs m). unat (mmap_min_addr E) \<le> unat v \<and> unat v < unat (TASK_SIZE E)"
  have "check_data_rlimit (rlimit_data E) (brk m) (start_brk m) (end_data m) (start_data m) = 0 \<longleftrightarrow>
      (rlimit_data E \<noteq> RLIM_INFINITY \<longrightarrow>
        (unat (brk m) - unat (start_brk m)) + (unat (end_data m) - unat (start_data m)) \<le> unat (rlimit_data E))"
    if ?R "start_brk m \<le> brk m" "start_data m \<le> end_data m"
  proof -
    have "unat ((brk m - start_brk m) + (end_data m - start_data m))
      = (unat (brk m) - unat (start_brk m)) + (unat (end_data m) - unat (start_data m))"
      by (rule size) (use that in \<open>simp_all add: word_le_nat_alt\<close>)
    then show ?thesis unfolding check_data_rlimit_def top unfolding word_less_nat_alt by simp
  qed
  then show ?thesis
    unfolding validate_prctl_map_addr_def layout_ok_def range
    unfolding word_le_nat_alt [symmetric] word_less_nat_alt [symmetric] by auto
qed

section \<open>What the operations change\<close>

definition same_mm :: "pm_state \<Rightarrow> pm_state \<Rightarrow> bool" where
  "same_mm s s' \<longleftrightarrow> mm_of s' = mm_of s \<and> saved_auxv s' = saved_auxv s \<and> exe_file s' = exe_file s"

definition pm_balanced :: "pm_state \<Rightarrow> pm_state \<Rightarrow> bool" where
  "pm_balanced s s' \<longleftrightarrow> mmap_readers s' = mmap_readers s \<and> arg_locks s' = arg_locks s \<and> task_locks s' = task_locks s
     \<and> fd_refs s' = fd_refs s"

lemma set_exe_outcome:
  "prctl_set_mm_exe_file E fd s = (r, s') \<Longrightarrow>
   pm_balanced s s' \<and> (r \<noteq> 0 \<longrightarrow> same_mm s s') \<and> mm_of s' = mm_of s \<and> saved_auxv s' = saved_auxv s \<and> pm_mem s' = pm_mem s"
  by (auto simp: prctl_set_mm_exe_file_def Let_def pm_balanced_def same_mm_def split: option.splits if_splits)

lemma length_end_auxv: "2 \<le> AT_VECTOR_SIZE E \<Longrightarrow> length bs = auxv_bytes E \<Longrightarrow> length (end_auxv E bs) = auxv_bytes E"
  by (simp add: end_auxv_def auxv_bytes_def)

lemma end_auxv_ok: "2 \<le> AT_VECTOR_SIZE E \<Longrightarrow> length bs = auxv_bytes E \<Longrightarrow> auxv_ok E (end_auxv E bs)"
  by (auto simp: auxv_ok_def end_auxv_def auxv_bytes_def nth_append)

lemma patch_auxv_ok:
  "auxv_ok E new \<Longrightarrow> auxv_ok E old \<Longrightarrow> n \<le> auxv_bytes E \<Longrightarrow> auxv_ok E (take n new @ drop n old)"
  by (auto simp: auxv_ok_def nth_append)

text \<open>What one call may do, whatever its arguments.\<close>

definition pm_may :: "pm_env \<Rightarrow> pm_state \<Rightarrow> int \<Rightarrow> pm_state \<Rightarrow> bool" where
  "pm_may E s r s' \<longleftrightarrow> pm_balanced s s' \<and> (r \<noteq> 0 \<longrightarrow> same_mm s s')
     \<and> (mm_of s' = mm_of s \<or> validate_prctl_map_addr E (mm_of s') = 0)
     \<and> (auxv_ok E (saved_auxv s) \<longrightarrow> auxv_ok E (saved_auxv s'))"

lemma pm_may_same: "pm_balanced s s' \<Longrightarrow> same_mm s s' \<Longrightarrow> pm_may E s r s'"
  by (simp add: pm_may_def same_mm_def)

lemma pm_refl [simp]: "pm_balanced s s" "same_mm s s" "pm_may E s r s"
  by (simp_all add: pm_may_def pm_balanced_def same_mm_def)

lemma set_exe_may: "prctl_set_mm_exe_file E fd s = (r, s') \<Longrightarrow> pm_may E s r s'"
  using set_exe_outcome [of E fd s r s'] by (auto simp: pm_may_def)

context uaccess_laws
begin

lemma copied_length: "copy_from_user U m (replicate n 0) a = (bs, 0) \<Longrightarrow> length bs = n"
  by (drule copy_from_user_done) simp

lemma set_auxv_may:
  assumes "2 \<le> AT_VECTOR_SIZE E" "prctl_set_auxv E U a len s = (r, s')"
  shows "pm_may E s r s'"
proof -
  obtain bs left where c: "copy_from_user U (pm_mem s) (replicate (unat len) 0) a = (bs, left)" by fastforce
  let ?av = "end_auxv E (bs @ replicate (auxv_bytes E - length bs) 0)"
  note def = assms(2) [unfolded prctl_set_auxv_def c prod.case Let_def]
  from def show ?thesis
  proof (elim guardE)
    assume len: "\<not> unat len > auxv_bytes E" and "\<not> left \<noteq> 0"
      and fin: "(0, task_unlock ((task_lock s)\<lparr>saved_auxv := take (unat len) ?av @ drop (unat len) (saved_auxv (task_lock s))\<rparr>)) = (r, s')"
    with copied_length c have "length bs = unat len" by simp
    then have "auxv_ok E ?av" by (intro end_auxv_ok assms(1)) (use len in simp)
    with patch_auxv_ok [OF this] fin len show ?thesis by (auto simp: pm_may_def pm_balanced_def pm_lock_defs)
  qed simp_all
qed

lemma set_mm_map_may:
  assumes "2 \<le> AT_VECTOR_SIZE E" "prctl_set_mm_map E U opt a n s = (r, s')"
  shows "pm_may E s r s'"
proof (cases "opt = PR_SET_MM_MAP_SIZE")
  case True
  then show ?thesis using assms(2)
    by (auto simp: prctl_set_mm_map_def pm_may_def pm_balanced_def same_mm_def split: prod.splits)
next
  case False
  obtain bs left where c: "copy_from_user U (pm_mem s) (replicate 104 0) a = (bs, left)" by fastforce
  let ?pm = "dec_mm_map bs"
  obtain av l2 where c2: "(if pr_auxv_size ?pm \<noteq> 0
      then copy_from_user U (pm_mem s) (replicate (unat (pr_auxv_size ?pm)) 0) (pr_auxv ?pm) else ([], 0)) = (av, l2)"
    by fastforce
  obtain e s1 where c3: "(if pr_exe_fd ?pm \<noteq> - 1 then prctl_set_mm_exe_file E (pr_exe_fd ?pm) s else (0, s)) = (e, s1)"
    by fastforce
  have exe: "pm_may E s e s1" "mm_of s1 = mm_of s" "saved_auxv s1 = saved_auxv s" "pm_balanced s s1"
    using c3 set_exe_may [of E "pr_exe_fd ?pm" s e s1] set_exe_outcome [of E "pr_exe_fd ?pm" s e s1]
    by (auto split: if_splits)
  let ?av = "end_auxv E (av @ replicate (auxv_bytes E - length av) 0)"
  note def = assms(2) [unfolded prctl_set_mm_map_def c c2 c3 prod.case Let_def if_not_P [OF False]]
  from def show ?thesis
  proof (elim guardE)
    assume val: "\<not> validate_prctl_map_addr E (pr_map ?pm) \<noteq> 0"
      and fits: "\<not> (pr_auxv_size ?pm \<noteq> 0 \<and> (pr_auxv ?pm = NULL \<or> unat (pr_auxv_size ?pm) > auxv_bytes E))"
      and l2: "\<not> l2 \<noteq> 0"
    let ?t = "unlock_args (lock_args (mmap_read_lock s1)\<lparr>mm_of := pr_map ?pm\<rparr>)"
    assume fin: "(0, mmap_read_unlock (if pr_auxv_size ?pm \<noteq> 0 then ?t\<lparr>saved_auxv := ?av\<rparr> else ?t)) = (r, s')"
    have "auxv_ok E ?av" if "pr_auxv_size ?pm \<noteq> 0"
    proof (intro end_auxv_ok assms(1))
      from that c2 l2 copied_length have "length av = unat (pr_auxv_size ?pm)" by simp
      then show "length (av @ replicate (auxv_bytes E - length av) 0) = auxv_bytes E" using fits that by simp
    qed
    with fin val exe show ?thesis by (auto simp: pm_may_def pm_balanced_def pm_lock_defs)
  qed (use exe in simp_all)
qed

lemma set_mm_may:
  assumes "2 \<le> AT_VECTOR_SIZE E" "prctl_set_mm E U opt a arg4 arg5 s = (r, s')"
  shows "pm_may E s r s'"
proof -
  let ?s = "lock_args (mmap_read_lock s)"
  have un: "mmap_read_unlock (unlock_args ?s) = s" by (simp add: pm_lock_defs)
  have last: "pm_may E s r s'"
    if "(case (case set_map_field opt a (mm_of ?s) of None \<Rightarrow> (- EINVAL, ?s)
          | Some m \<Rightarrow> if validate_prctl_map_addr E m \<noteq> 0 then (validate_prctl_map_addr E m, ?s)
              else if P then (- EFAULT, ?s) else (0, ?s\<lparr>mm_of := m\<rparr>))
         of (error, s) \<Rightarrow> (error, mmap_read_unlock (unlock_args s))) = (r, s')" for P
    using that un
    by (auto simp: pm_may_def pm_balanced_def same_mm_def pm_lock_defs split: option.splits if_splits)
  from assms(2) show ?thesis
    unfolding prctl_set_mm_def Let_def
    by (elim branchE) ((simp; fail) | rule set_mm_map_may set_exe_may set_auxv_may last, (rule assms(1) | assumption)+)+
qed

end

section \<open>Sequences of calls\<close>

datatype pm_call = Set_mm int ulong ulong ulong | Get_auxv addr ulong

fun pm_step :: "pm_env \<Rightarrow> uaccess \<Rightarrow> pm_call \<Rightarrow> pm_state \<Rightarrow> pm_state" where
  "pm_step E U (Set_mm opt a arg4 arg5) s = snd (prctl_set_mm E U opt a arg4 arg5 s)"
| "pm_step E U (Get_auxv a len) s = snd (prctl_get_auxv E U a len s)"

definition pm_inv :: "pm_env \<Rightarrow> pm_state \<Rightarrow> bool" where
  "pm_inv E s \<longleftrightarrow> layout_ok E (mm_of s) \<and> auxv_ok E (saved_auxv s) \<and> mmap_readers s = 0 \<and> arg_locks s = 0"

lemma get_auxv_same: "same_mm s (snd (prctl_get_auxv E U a len s)) \<and> pm_balanced s (snd (prctl_get_auxv E U a len s))"
  by (simp add: prctl_get_auxv_def Let_def same_mm_def pm_balanced_def split: prod.split)

text \<open>The bounds of a 64-bit machine: user addresses have the top bit clear, the vector has an end entry.\<close>

locale pm_machine = uaccess_laws +
  fixes E :: pm_env
  assumes task_size: "unat (TASK_SIZE E) \<le> 2 ^ 63" and vector: "2 \<le> AT_VECTOR_SIZE E"
begin

lemma pm_step_inv: "pm_inv E s \<Longrightarrow> pm_inv E (pm_step E U x s)"
proof (cases x)
  case (Set_mm opt a arg4 arg5)
  assume inv: "pm_inv E s"
  obtain r s' where run: "prctl_set_mm E U opt a arg4 arg5 s = (r, s')" by fastforce
  from set_mm_may [OF vector run] inv show ?thesis
    by (auto simp: Set_mm run pm_may_def pm_inv_def pm_balanced_def validate_layout [OF task_size])
next
  case (Get_auxv a len)
  assume "pm_inv E s"
  then show ?thesis using get_auxv_same [of s E U a len]
    by (simp add: Get_auxv pm_inv_def same_mm_def pm_balanced_def)
qed

lemma pm_step_balanced: "pm_balanced s (pm_step E U x s)"
proof (cases x)
  case (Set_mm opt a arg4 arg5)
  obtain r s' where run: "prctl_set_mm E U opt a arg4 arg5 s = (r, s')" by fastforce
  from set_mm_may [OF vector run] show ?thesis by (simp add: Set_mm run pm_may_def)
qed (simp add: get_auxv_same)

sublocale pmsteps: invariant_steps "pm_step E U" "pm_inv E"
  by unfold_locales (rule pm_step_inv)

lemma run_pm_inv: "pm_inv E s \<Longrightarrow> pm_inv E (run_calls (pm_step E U) xs s)"
  by (rule pmsteps.run_inv)

end

definition demo_pm_env :: pm_env where
  "demo_pm_env = \<lparr>TASK_SIZE = 0x7ffffffff000, mmap_min_addr = 0x10000, rlimit_data = 0x100000, AT_VECTOR_SIZE = 4,
     capable_sys_resource = True, checkpoint_restore_capable = False, find_vma = (\<lambda>_. True),
     fdget_file = (\<lambda>fd. if fd = 3 then Some 7 else None), S_ISREG_file = (\<lambda>_. True), path_noexec = (\<lambda>_. False),
     may_exec = (\<lambda>_. 0), replace_mm_exe_file = (\<lambda>_ _. 0)\<rparr>"

definition demo_pm_state :: pm_state where
  "demo_pm_state = \<lparr>mm_of = \<lparr>start_code = 0x400000, end_code = 0x401000, start_data = 0x402000, end_data = 0x403000,
       start_brk = 0x404000, brk = 0x405000, start_stack = 0x7fff0000, arg_start = 0x7fff1000, arg_end = 0x7fff1100,
       env_start = 0x7fff1100, env_end = 0x7fff2000\<rparr>,
     saved_auxv = replicate 32 0, exe_file = 1, pm_mem = (\<lambda>a. if a < 4112 then 1 else 2), mmap_readers = 0, arg_locks = 0, task_locks = 0,
     fd_refs = (\<lambda>_. 0)\<rparr>"

interpretation pm_demo: pm_machine demo_U demo_pm_env
  by unfold_locales (simp_all add: demo_pm_env_def)

lemma demo_pm_inv: "pm_inv demo_pm_env demo_pm_state"
  by (simp add: pm_inv_def layout_ok_def map_addrs_def auxv_ok_def auxv_bytes_def demo_pm_env_def demo_pm_state_def)


section \<open>Properties\<close>

text \<open>
  (C7) No sequence of \<^verbatim>\<open>PR_SET_MM\<close> calls, privileged or not, leaves a process with a bad layout:
  every boundary stays between \<^verbatim>\<open>mmap_min_addr\<close> and \<^verbatim>\<open>TASK_SIZE\<close>, no area ends before it starts,
  heap and data together never exceed \<^verbatim>\<open>RLIMIT_DATA\<close> (as whole numbers: the sums of the check do
  not wrap), and the auxiliary vector ends in \<^verbatim>\<open>AT_NULL\<close>.
\<close>

theorem set_mm_layout:
  assumes "pm_machine U E" "pm_inv E s" "s' = run_calls (pm_step E U) xs s"
  shows "layout_ok E (mm_of s') \<and> auxv_ok E (saved_auxv s')"
  using pm_machine.run_pm_inv [OF assms(1,2), of xs] assms(3) by (simp add: pm_inv_def)

theorem set_mm_layout_witness:
  "layout_ok demo_pm_env (mm_of (run_calls (pm_step demo_pm_env demo_U)
     [Set_mm PR_SET_MM_BRK 0x500000 0 0, Set_mm PR_SET_MM_START_CODE 1 0 0, Set_mm PR_SET_MM_AUXV 4096 24 0] demo_pm_state))"
  using set_mm_layout [OF pm_demo.pm_machine_axioms demo_pm_inv refl] by blast

text \<open>
  A \<^verbatim>\<open>PR_SET_MM\<close> call is all or nothing: when it fails, the map, the auxiliary vector and the
  executable are as before; when an option for one boundary succeeds, exactly that boundary has
  changed; locks and file references are released in every case.
\<close>

theorem set_mm_all_or_nothing:
  assumes "pm_machine U E" "prctl_set_mm E U opt a arg4 arg5 s = (r, s')"
  shows "pm_balanced s s' \<and> (r \<noteq> 0 \<longrightarrow> same_mm s s')
    \<and> (r = 0 \<and> opt \<le> PR_SET_MM_ENV_END \<longrightarrow>
        set_map_field opt a (mm_of s) = Some (mm_of s') \<and> saved_auxv s' = saved_auxv s \<and> exe_file s' = exe_file s)"
proof -
  have "2 \<le> AT_VECTOR_SIZE E" "uaccess_laws U"
    using assms(1) by (simp_all add: pm_machine_def pm_machine_axioms_def)
  then have may: "pm_may E s r s'" using uaccess_laws.set_mm_may assms(2) by blast
  have "set_map_field opt a (mm_of s) = Some (mm_of s') \<and> saved_auxv s' = saved_auxv s \<and> exe_file s' = exe_file s"
    if "r = 0" "opt \<le> PR_SET_MM_ENV_END"
    using assms(2) that
    by (auto simp: prctl_set_mm_def Let_def pm_lock_defs split: if_splits option.splits)
  with may show ?thesis by (simp add: pm_may_def)
qed

theorem set_mm_all_or_nothing_witness:
  "Some (mm_of (snd (prctl_set_mm demo_pm_env demo_U PR_SET_MM_BRK 0x405800 0 0 demo_pm_state)))
     = Some ((mm_of demo_pm_state)\<lparr>brk := 0x405800\<rparr>)"
proof -
  have "prctl_set_mm demo_pm_env demo_U PR_SET_MM_BRK 0x405800 0 0 demo_pm_state
      = (0, snd (prctl_set_mm demo_pm_env demo_U PR_SET_MM_BRK 0x405800 0 0 demo_pm_state))"
    by (simp add: prod_eq_iff)
      (simp add: prctl_set_mm_def Let_def set_map_field_def validate_prctl_map_addr_def map_addrs_def
        check_data_rlimit_def pm_lock_defs demo_pm_env_def demo_pm_state_def)
  from set_mm_all_or_nothing [OF pm_demo.pm_machine_axioms this] show ?thesis
    by (simp add: set_map_field_def)
qed

text \<open>
  \<^verbatim>\<open>PR_GET_AUXV\<close> reads back what \<^verbatim>\<open>PR_SET_MM_AUXV\<close> stored: a full vector comes back as it was
  given, except that its last two words are \<^verbatim>\<open>AT_NULL\<close>, and the call returns its size.
\<close>

theorem set_auxv_get_auxv:
  assumes "pm_machine U E" "auxv_ok E (saved_auxv s)" and small: "auxv_bytes E < 2 ^ 64"
    and n: "n = of_nat (auxv_bytes E)"
    and set: "prctl_set_mm E U PR_SET_MM_AUXV p n 0 s = (0, s1)" and get: "prctl_get_auxv E U q n s1 = (r, s2)" "0 \<le> r"
  shows "r = int (auxv_bytes E)
    \<and> load_bytes (pm_mem s2) q (auxv_bytes E) = end_auxv E (load_bytes (pm_mem s) p (auxv_bytes E))"
proof -
  have ax: "2 \<le> AT_VECTOR_SIZE E" "uaccess_laws U"
    using assms(1) by (simp_all add: pm_machine_def pm_machine_axioms_def)
  have un: "unat n = auxv_bytes E" using small by (simp add: n unat_of_nat take_bit_eq_mod)
  obtain bs left where c: "copy_from_user U (pm_mem s) (replicate (unat n) 0) p = (bs, left)" by fastforce
  have "left = 0" using set c by (auto simp: prctl_set_mm_def prctl_set_auxv_def Let_def split: if_splits)
  then have bs: "bs = load_bytes (pm_mem s) p (auxv_bytes E)"
    using uaccess_laws.copy_from_user_done [OF ax(2)] c un by fastforce
  have len: "length (end_auxv E bs) = auxv_bytes E" by (rule length_end_auxv [OF ax(1)]) (simp add: bs)
  have sv: "saved_auxv s1 = end_auxv E bs"
    using set c \<open>left = 0\<close> len assms(2) bs
    by (auto simp: prctl_set_mm_def prctl_set_auxv_def pm_lock_defs Let_def un auxv_ok_def split: if_splits)
  have pos: "auxv_bytes E \<noteq> 0" using ax(1) by (simp add: auxv_bytes_def)
  obtain m l2 where c2: "copy_to_user U (pm_mem s1) q (end_auxv E bs) = (m, l2)" by fastforce
  have r: "l2 = 0" "r = int (auxv_bytes E)" "pm_mem s2 = m"
    using get c2 len pos by (auto simp: prctl_get_auxv_def Let_def un sv split: if_splits)
  then have "load_bytes (pm_mem s2) q (length (end_auxv E bs)) = end_auxv E bs"
    using uaccess_laws.copy_to_user_load [OF ax(2), of "pm_mem s1" q "end_auxv E bs" m] c2 len small by simp
  with r len show ?thesis by (simp add: bs)
qed

theorem set_auxv_get_auxv_witness:
  "fst (prctl_get_auxv demo_pm_env demo_U 8192 32
     (snd (prctl_set_mm demo_pm_env demo_U PR_SET_MM_AUXV 4096 32 0 demo_pm_state))) = 32"
proof -
  have b: "auxv_bytes demo_pm_env = 32" by (simp add: auxv_bytes_def demo_pm_env_def)
  let ?set = "prctl_set_mm demo_pm_env demo_U PR_SET_MM_AUXV 4096 32 0 demo_pm_state"
  let ?get = "prctl_get_auxv demo_pm_env demo_U 8192 32 (snd ?set)"
  have "auxv_ok demo_pm_env (saved_auxv demo_pm_state)" using demo_pm_inv by (simp add: pm_inv_def)
  moreover have "?set = (0, snd ?set)"
    by (simp add: prod_eq_iff) (simp add: prctl_set_mm_def prctl_set_auxv_def b copy_from_user_all_mapped Let_def,
        simp add: demo_pm_env_def)
  moreover have "0 \<le> fst ?get"
    by (simp add: prctl_get_auxv_def Let_def b copy_to_user_all_mapped)
  ultimately show ?thesis
    using set_auxv_get_auxv [OF pm_demo.pm_machine_axioms, of demo_pm_state 32 4096 "snd ?set" 8192 "fst ?get" "snd ?get"]
    by (simp add: b)
qed

end
