(* ===== verification/Prctl.thy ===== *)
theory Prctl
  imports Prctl_Mm
begin

text \<open>
  The system call \<^verbatim>\<open>prctl\<close> (\<^verbatim>\<open>kernel/sys.c\<close>, lines 78 to 143 and 2281 to 2768), with one definition
  per group of options of its switch and one per helper; \<^verbatim>\<open>PR_SET_MM\<close> is in Prctl_Mm. What other
  parts of the kernel and the architecture implement (seccomp, performance events, KSM, speculation
  control, \<^verbatim>\<open>strncpy_from_user\<close>, \<^verbatim>\<open>set_task_comm\<close> and \<^verbatim>\<open>get_task_comm\<close>, the walk over the process tree) are
  parameters.
\<close>

section \<open>State\<close>

record pr_state =
  pr_pm :: pm_state
  pdeath_signal :: ulong
  dumpable :: ulong
  comm :: "byte list"
  comm_events :: nat
  timer_slack_ns :: ulong
  default_timer_slack_ns :: ulong
  task_flags :: u32
  clear_child_tid :: addr
  is_child_subreaper :: bool
  has_child_subreaper :: "nat \<Rightarrow> bool"
  no_new_privs :: bool
  mmf_disable_thp :: bool
  mmf_has_mdwe :: bool
  mmf_has_mdwe_no_inherit :: bool
  mmf_vm_merge_any :: bool
  mmap_writers :: nat
  vma_names :: "(addr \<times> ulong \<times> byte list option) list"
  name_copies :: int     \<comment> \<open>buffers of \<^verbatim>\<open>strndup_user\<close> not yet freed\<close>
  anon_name_refs :: int  \<comment> \<open>references from \<^verbatim>\<open>anon_vma_name_alloc\<close> not yet put\<close>

record pr_env =
  pr_pm_env :: pm_env
  security_task_prctl :: "int \<Rightarrow> ulong \<Rightarrow> ulong \<Rightarrow> ulong \<Rightarrow> ulong \<Rightarrow> int"
  arch_ctl :: "int \<Rightarrow> (ulong \<Rightarrow> ulong \<Rightarrow> int) option"
  spec_ctrl_get :: "(ulong \<Rightarrow> int) option"
  spec_ctrl_set :: "(ulong \<Rightarrow> ulong \<Rightarrow> int) option"
  elsewhere :: "int \<Rightarrow> ulong \<Rightarrow> ulong \<Rightarrow> ulong \<Rightarrow> ulong \<Rightarrow> int"
  strncpy_from_user :: "mem \<Rightarrow> addr \<Rightarrow> nat \<Rightarrow> byte list option"
  strndup_user :: "mem \<Rightarrow> addr \<Rightarrow> nat \<Rightarrow> int + byte list"
  anon_vma_name_alloc :: "byte list \<Rightarrow> bool"
  madvise_set_anon_name :: "addr \<Rightarrow> ulong \<Rightarrow> byte list option \<Rightarrow> int"
  mmap_lock_killed :: bool
  ksm_merge_any :: "bool \<Rightarrow> bool \<Rightarrow> int \<times> bool"
  walk_process_tree :: "(nat \<Rightarrow> (nat \<Rightarrow> bool) \<Rightarrow> int \<times> (nat \<Rightarrow> bool)) \<Rightarrow> nat \<Rightarrow> (nat \<Rightarrow> bool) \<Rightarrow> nat \<Rightarrow> bool"
  pr_current :: nat
  is_child_reaper :: "nat \<Rightarrow> bool"
  comm_junk :: "nat \<Rightarrow> byte"
  set_task_comm :: "byte list \<Rightarrow> byte list"
  get_task_comm :: "byte list \<Rightarrow> byte list"

text \<open>The option numbers.\<close>

abbreviation (input) PR_SET_PDEATHSIG :: int where "PR_SET_PDEATHSIG \<equiv> 1"
abbreviation (input) PR_GET_PDEATHSIG :: int where "PR_GET_PDEATHSIG \<equiv> 2"
abbreviation (input) PR_GET_DUMPABLE :: int where "PR_GET_DUMPABLE \<equiv> 3"
abbreviation (input) PR_SET_DUMPABLE :: int where "PR_SET_DUMPABLE \<equiv> 4"
abbreviation (input) PR_GET_UNALIGN :: int where "PR_GET_UNALIGN \<equiv> 5"
abbreviation (input) PR_SET_UNALIGN :: int where "PR_SET_UNALIGN \<equiv> 6"
abbreviation (input) PR_GET_FPEMU :: int where "PR_GET_FPEMU \<equiv> 9"
abbreviation (input) PR_SET_FPEMU :: int where "PR_SET_FPEMU \<equiv> 10"
abbreviation (input) PR_GET_FPEXC :: int where "PR_GET_FPEXC \<equiv> 11"
abbreviation (input) PR_SET_FPEXC :: int where "PR_SET_FPEXC \<equiv> 12"
abbreviation (input) PR_GET_TIMING :: int where "PR_GET_TIMING \<equiv> 13"
abbreviation (input) PR_SET_TIMING :: int where "PR_SET_TIMING \<equiv> 14"
abbreviation (input) PR_SET_NAME :: int where "PR_SET_NAME \<equiv> 15"
abbreviation (input) PR_GET_NAME :: int where "PR_GET_NAME \<equiv> 16"
abbreviation (input) PR_GET_ENDIAN :: int where "PR_GET_ENDIAN \<equiv> 19"
abbreviation (input) PR_SET_ENDIAN :: int where "PR_SET_ENDIAN \<equiv> 20"
abbreviation (input) PR_GET_SECCOMP :: int where "PR_GET_SECCOMP \<equiv> 21"
abbreviation (input) PR_SET_SECCOMP :: int where "PR_SET_SECCOMP \<equiv> 22"
abbreviation (input) PR_GET_TSC :: int where "PR_GET_TSC \<equiv> 25"
abbreviation (input) PR_SET_TSC :: int where "PR_SET_TSC \<equiv> 26"
abbreviation (input) PR_SET_TIMERSLACK :: int where "PR_SET_TIMERSLACK \<equiv> 29"
abbreviation (input) PR_GET_TIMERSLACK :: int where "PR_GET_TIMERSLACK \<equiv> 30"
abbreviation (input) PR_TASK_PERF_EVENTS_DISABLE :: int where "PR_TASK_PERF_EVENTS_DISABLE \<equiv> 31"
abbreviation (input) PR_TASK_PERF_EVENTS_ENABLE :: int where "PR_TASK_PERF_EVENTS_ENABLE \<equiv> 32"
abbreviation (input) PR_MCE_KILL :: int where "PR_MCE_KILL \<equiv> 33"
abbreviation (input) PR_MCE_KILL_GET :: int where "PR_MCE_KILL_GET \<equiv> 34"
abbreviation (input) PR_SET_MM :: int where "PR_SET_MM \<equiv> 35"
abbreviation (input) PR_SET_CHILD_SUBREAPER :: int where "PR_SET_CHILD_SUBREAPER \<equiv> 36"
abbreviation (input) PR_GET_CHILD_SUBREAPER :: int where "PR_GET_CHILD_SUBREAPER \<equiv> 37"
abbreviation (input) PR_SET_NO_NEW_PRIVS :: int where "PR_SET_NO_NEW_PRIVS \<equiv> 38"
abbreviation (input) PR_GET_NO_NEW_PRIVS :: int where "PR_GET_NO_NEW_PRIVS \<equiv> 39"
abbreviation (input) PR_GET_TID_ADDRESS :: int where "PR_GET_TID_ADDRESS \<equiv> 40"
abbreviation (input) PR_SET_THP_DISABLE :: int where "PR_SET_THP_DISABLE \<equiv> 41"
abbreviation (input) PR_GET_THP_DISABLE :: int where "PR_GET_THP_DISABLE \<equiv> 42"
abbreviation (input) PR_MPX_ENABLE_MANAGEMENT :: int where "PR_MPX_ENABLE_MANAGEMENT \<equiv> 43"
abbreviation (input) PR_MPX_DISABLE_MANAGEMENT :: int where "PR_MPX_DISABLE_MANAGEMENT \<equiv> 44"
abbreviation (input) PR_SET_FP_MODE :: int where "PR_SET_FP_MODE \<equiv> 45"
abbreviation (input) PR_GET_FP_MODE :: int where "PR_GET_FP_MODE \<equiv> 46"
abbreviation (input) PR_SVE_SET_VL :: int where "PR_SVE_SET_VL \<equiv> 50"
abbreviation (input) PR_SVE_GET_VL :: int where "PR_SVE_GET_VL \<equiv> 51"
abbreviation (input) PR_GET_SPECULATION_CTRL :: int where "PR_GET_SPECULATION_CTRL \<equiv> 52"
abbreviation (input) PR_SET_SPECULATION_CTRL :: int where "PR_SET_SPECULATION_CTRL \<equiv> 53"
abbreviation (input) PR_PAC_RESET_KEYS :: int where "PR_PAC_RESET_KEYS \<equiv> 54"
abbreviation (input) PR_SET_TAGGED_ADDR_CTRL :: int where "PR_SET_TAGGED_ADDR_CTRL \<equiv> 55"
abbreviation (input) PR_GET_TAGGED_ADDR_CTRL :: int where "PR_GET_TAGGED_ADDR_CTRL \<equiv> 56"
abbreviation (input) PR_SET_IO_FLUSHER :: int where "PR_SET_IO_FLUSHER \<equiv> 57"
abbreviation (input) PR_GET_IO_FLUSHER :: int where "PR_GET_IO_FLUSHER \<equiv> 58"
abbreviation (input) PR_SET_SYSCALL_USER_DISPATCH :: int where "PR_SET_SYSCALL_USER_DISPATCH \<equiv> 59"
abbreviation (input) PR_PAC_SET_ENABLED_KEYS :: int where "PR_PAC_SET_ENABLED_KEYS \<equiv> 60"
abbreviation (input) PR_PAC_GET_ENABLED_KEYS :: int where "PR_PAC_GET_ENABLED_KEYS \<equiv> 61"
abbreviation (input) PR_SCHED_CORE :: int where "PR_SCHED_CORE \<equiv> 62"
abbreviation (input) PR_SME_SET_VL :: int where "PR_SME_SET_VL \<equiv> 63"
abbreviation (input) PR_SME_GET_VL :: int where "PR_SME_GET_VL \<equiv> 64"
abbreviation (input) PR_SET_MDWE :: int where "PR_SET_MDWE \<equiv> 65"
abbreviation (input) PR_GET_MDWE :: int where "PR_GET_MDWE \<equiv> 66"
abbreviation (input) PR_SET_MEMORY_MERGE :: int where "PR_SET_MEMORY_MERGE \<equiv> 67"
abbreviation (input) PR_GET_MEMORY_MERGE :: int where "PR_GET_MEMORY_MERGE \<equiv> 68"
abbreviation (input) PR_RISCV_V_SET_CONTROL :: int where "PR_RISCV_V_SET_CONTROL \<equiv> 69"
abbreviation (input) PR_RISCV_V_GET_CONTROL :: int where "PR_RISCV_V_GET_CONTROL \<equiv> 70"
abbreviation (input) PR_SET_VMA :: int where "PR_SET_VMA \<equiv> 0x53564d41"
abbreviation (input) PR_GET_AUXV :: int where "PR_GET_AUXV \<equiv> 0x41555856"

abbreviation (input) PF_MCE_PROCESS :: u32 where "PF_MCE_PROCESS \<equiv> 0x00000080"
abbreviation (input) PF_MCE_EARLY :: u32 where "PF_MCE_EARLY \<equiv> 0x08000000"
abbreviation (input) PR_IO_FLUSHER :: u32 where "PR_IO_FLUSHER \<equiv> 0x00180000"


section \<open>Helpers\<close>

text \<open>A control that the architecture does not define returns \<^verbatim>\<open>-EINVAL\<close>.\<close>

definition arch_call :: "pr_env \<Rightarrow> int \<Rightarrow> ulong \<Rightarrow> ulong \<Rightarrow> int" where
  "arch_call E opt a b = (case arch_ctl E opt of None \<Rightarrow> - EINVAL | Some f \<Rightarrow> f a b)"

definition arch_prctl_spec_ctrl_get :: "pr_env \<Rightarrow> ulong \<Rightarrow> int" where
  "arch_prctl_spec_ctrl_get E which = (case spec_ctrl_get E of None \<Rightarrow> - EINVAL | Some f \<Rightarrow> f which)"

definition arch_prctl_spec_ctrl_set :: "pr_env \<Rightarrow> ulong \<Rightarrow> ulong \<Rightarrow> int" where
  "arch_prctl_spec_ctrl_set E which ctrl = (case spec_ctrl_set E of None \<Rightarrow> - EINVAL | Some f \<Rightarrow> f which ctrl)"

definition pr_put_user :: "uaccess \<Rightarrow> addr \<Rightarrow> byte list \<Rightarrow> pr_state \<Rightarrow> int \<times> pr_state" where
  "pr_put_user U a bs s =
     (case put_user U (pm_mem (pr_pm s)) a bs of (m, e) \<Rightarrow> (e, s\<lparr>pr_pm := (pr_pm s)\<lparr>pm_mem := m\<rparr>\<rparr>))"

definition prctl_get_tid_address :: "uaccess \<Rightarrow> addr \<Rightarrow> pr_state \<Rightarrow> int \<times> pr_state" where
  "prctl_get_tid_address U tid_addr s = pr_put_user U tid_addr (enc_ulong (clear_child_tid s)) s"

definition propagate_has_child_subreaper ::
  "pr_env \<Rightarrow> nat \<Rightarrow> (nat \<Rightarrow> bool) \<Rightarrow> int \<times> (nat \<Rightarrow> bool)" where
  "propagate_has_child_subreaper E p has =
     (if has p \<or> is_child_reaper E p then (0, has) else (1, has(p := True)))"

abbreviation (input) ANON_VMA_NAME_MAX_LEN :: nat where "ANON_VMA_NAME_MAX_LEN \<equiv> 80"

text \<open>Printable ASCII except backslash, backquote, dollar and square brackets.\<close>

definition is_valid_name_char :: "byte \<Rightarrow> bool" where
  "is_valid_name_char ch \<longleftrightarrow> ch > 0x1f \<and> ch < 0x7f \<and> ch \<notin> {0x5c, 0x60, 0x24, 0x5b, 0x5d}"

definition mmap_write_lock :: "pr_state \<Rightarrow> pr_state" where
  "mmap_write_lock s = s\<lparr>mmap_writers := mmap_writers s + 1\<rparr>"

definition mmap_write_unlock :: "pr_state \<Rightarrow> pr_state" where
  "mmap_write_unlock s = s\<lparr>mmap_writers := mmap_writers s - 1\<rparr>"

text \<open>\<^verbatim>\<open>mmap_write_lock_killable\<close> fails when the task is killed while it waits.\<close>

definition mmap_write_lock_killable :: "pr_env \<Rightarrow> pr_state \<Rightarrow> bool \<times> pr_state" where
  "mmap_write_lock_killable E s = (if mmap_lock_killed E then (True, s) else (False, mmap_write_lock s))"

text \<open>Putting no name does nothing.\<close>

definition anon_vma_name_put :: "byte list option \<Rightarrow> pr_state \<Rightarrow> pr_state" where
  "anon_vma_name_put nm s = (if nm = None then s else s\<lparr>anon_name_refs := anon_name_refs s - 1\<rparr>)"

lemmas write_lock_defs = mmap_write_lock_def mmap_write_unlock_def mmap_write_lock_killable_def anon_vma_name_put_def

definition prctl_set_vma :: "pr_env \<Rightarrow> ulong \<Rightarrow> addr \<Rightarrow> ulong \<Rightarrow> addr \<Rightarrow> pr_state \<Rightarrow> int \<times> pr_state" where
  "prctl_set_vma E opt a sz uname s =
     (if opt \<noteq> 0 then (- EINVAL, s)
      else
        (let locked = (\<lambda>anon_name s.
               let s = mmap_write_lock s;
                   error = madvise_set_anon_name E a sz anon_name;
                   s = (if error = 0 then s\<lparr>vma_names := (a, sz, anon_name) # vma_names s\<rparr> else s);
                   s = mmap_write_unlock s
               in (error, anon_vma_name_put anon_name s))
         in if uname \<noteq> NULL then
              (case strndup_user E (pm_mem (pr_pm s)) uname ANON_VMA_NAME_MAX_LEN of
                 Inl err \<Rightarrow> (err, s)
               | Inr nm \<Rightarrow>
                 (let s = s\<lparr>name_copies := name_copies s + 1\<rparr> in
                  if \<not> list_all is_valid_name_char nm then (- EINVAL, s\<lparr>name_copies := name_copies s - 1\<rparr>)
                  else
                    (let ok = anon_vma_name_alloc E nm;
                         s = (if ok then s\<lparr>anon_name_refs := anon_name_refs s + 1\<rparr> else s);
                         s = s\<lparr>name_copies := name_copies s - 1\<rparr>
                     in if \<not> ok then (- ENOMEM, s) else locked (Some nm) s)))
            else locked None s))"

abbreviation (input) PR_MDWE_REFUSE_EXEC_GAIN :: ulong where "PR_MDWE_REFUSE_EXEC_GAIN \<equiv> 1"
abbreviation (input) PR_MDWE_NO_INHERIT :: ulong where "PR_MDWE_NO_INHERIT \<equiv> 2"

definition get_current_mdwe :: "pr_state \<Rightarrow> ulong" where
  "get_current_mdwe s =
     (let ret = 0;
          ret = (if mmf_has_mdwe s then or ret PR_MDWE_REFUSE_EXEC_GAIN else ret)
      in if mmf_has_mdwe_no_inherit s then or ret PR_MDWE_NO_INHERIT else ret)"

definition prctl_set_mdwe :: "ulong \<Rightarrow> ulong \<Rightarrow> ulong \<Rightarrow> ulong \<Rightarrow> pr_state \<Rightarrow> int \<times> pr_state" where
  "prctl_set_mdwe bits arg3 arg4 arg5 s =
     (if arg3 \<noteq> 0 \<or> arg4 \<noteq> 0 \<or> arg5 \<noteq> 0 then (- EINVAL, s)
      else if and bits (not (or PR_MDWE_REFUSE_EXEC_GAIN PR_MDWE_NO_INHERIT)) \<noteq> 0 then (- EINVAL, s)
      else if and bits PR_MDWE_NO_INHERIT \<noteq> 0 \<and> and bits PR_MDWE_REFUSE_EXEC_GAIN = 0 then (- EINVAL, s)
      else
        (let current_bits = get_current_mdwe s in
         if current_bits \<noteq> 0 \<and> current_bits \<noteq> bits then (- EPERM, s)
         else
           (let s = (if and bits PR_MDWE_NO_INHERIT \<noteq> 0 then s\<lparr>mmf_has_mdwe_no_inherit := True\<rparr> else s);
                s = (if and bits PR_MDWE_REFUSE_EXEC_GAIN \<noteq> 0 then s\<lparr>mmf_has_mdwe := True\<rparr> else s)
            in (0, s))))"

definition prctl_get_mdwe :: "ulong \<Rightarrow> ulong \<Rightarrow> ulong \<Rightarrow> ulong \<Rightarrow> pr_state \<Rightarrow> int" where
  "prctl_get_mdwe arg2 arg3 arg4 arg5 s =
     (if arg2 \<noteq> 0 \<or> arg3 \<noteq> 0 \<or> arg4 \<noteq> 0 \<or> arg5 \<noteq> 0 then - EINVAL else sint (get_current_mdwe s))"

section \<open>The options\<close>

text \<open>
  Every group returns \<open>None\<close> for an option it does not handle. \<^verbatim>\<open>return -EINVAL\<close> and an \<^verbatim>\<open>error\<close> that
  reaches the end of the switch are the same.
\<close>

definition args_zero :: "ulong list \<Rightarrow> bool" where
  "args_zero as \<longleftrightarrow> list_all (\<lambda>a. a = 0) as"

definition prctl_signals :: "uaccess \<Rightarrow> int \<Rightarrow> ulong \<Rightarrow> pr_state \<Rightarrow> (int \<times> pr_state) option" where
  "prctl_signals U opt arg2 s =
     (if opt = PR_SET_PDEATHSIG then
        Some (if \<not> arg2 \<le> 64 then (- EINVAL, s) else (0, s\<lparr>pdeath_signal := arg2\<rparr>))
      else if opt = PR_GET_PDEATHSIG then Some (pr_put_user U arg2 (enc_int (sint (pdeath_signal s))) s)
      else if opt = PR_GET_DUMPABLE then Some (sint (dumpable s), s)
      else if opt = PR_SET_DUMPABLE then
        Some (if arg2 \<noteq> 0 \<and> arg2 \<noteq> 1 then (- EINVAL, s) else (0, s\<lparr>dumpable := arg2\<rparr>))
      else None)"

definition prctl_arch :: "pr_env \<Rightarrow> int \<Rightarrow> ulong \<Rightarrow> pr_state \<Rightarrow> (int \<times> pr_state) option" where
  "prctl_arch E opt arg2 s =
     (if opt \<in> {PR_SET_UNALIGN, PR_GET_UNALIGN, PR_SET_FPEMU, PR_GET_FPEMU, PR_SET_FPEXC, PR_GET_FPEXC}
      then Some (arch_call E opt arg2 0, s)
      else if opt = PR_GET_TIMING then Some (0, s)
      else if opt = PR_SET_TIMING then Some (if arg2 \<noteq> 0 then - EINVAL else 0, s)
      else None)"

text \<open>The buffer holds what was copied, then bytes that were never written, then a zero byte.\<close>

definition prctl_name :: "pr_env \<Rightarrow> uaccess \<Rightarrow> int \<Rightarrow> ulong \<Rightarrow> pr_state \<Rightarrow> (int \<times> pr_state) option" where
  "prctl_name E U opt arg2 s =
     (if opt = PR_SET_NAME then
        Some (case strncpy_from_user E (pm_mem (pr_pm s)) arg2 15 of
                None \<Rightarrow> (- EFAULT, s)
              | Some bs \<Rightarrow>
                (0, s\<lparr>comm := set_task_comm E (bs @ pad (comm_junk E) (15 - length bs) @ [0]),
                      comm_events := comm_events s + 1\<rparr>))
      else if opt = PR_GET_NAME then
        Some (case copy_to_user U (pm_mem (pr_pm s)) arg2 (get_task_comm E (comm s)) of (m, left) \<Rightarrow>
                (if left \<noteq> 0 then - EFAULT else 0, s\<lparr>pr_pm := (pr_pm s)\<lparr>pm_mem := m\<rparr>\<rparr>))
      else None)"

definition prctl_elsewhere ::
  "pr_env \<Rightarrow> int \<Rightarrow> ulong \<Rightarrow> ulong \<Rightarrow> pr_state \<Rightarrow> (int \<times> pr_state) option" where
  "prctl_elsewhere E opt arg2 arg3 s =
     (if opt \<in> {PR_GET_ENDIAN, PR_SET_ENDIAN, PR_GET_TSC, PR_SET_TSC} then Some (arch_call E opt arg2 0, s)
      else if opt = PR_GET_SECCOMP then Some (elsewhere E opt 0 0 0 0, s)
      else if opt = PR_SET_SECCOMP then Some (elsewhere E opt arg2 arg3 0 0, s)
      else if opt = PR_TASK_PERF_EVENTS_DISABLE \<or> opt = PR_TASK_PERF_EVENTS_ENABLE
      then Some (elsewhere E opt 0 0 0 0, s)
      else None)"

definition prctl_timerslack :: "int \<Rightarrow> ulong \<Rightarrow> pr_state \<Rightarrow> (int \<times> pr_state) option" where
  "prctl_timerslack opt arg2 s =
     (if opt = PR_GET_TIMERSLACK then Some (sint (timer_slack_ns s), s)
      else if opt = PR_SET_TIMERSLACK then
        Some (0, s\<lparr>timer_slack_ns := (if arg2 \<le> 0 then default_timer_slack_ns s else arg2)\<rparr>)
      else None)"

definition prctl_mce ::
  "int \<Rightarrow> ulong \<Rightarrow> ulong \<Rightarrow> ulong \<Rightarrow> ulong \<Rightarrow> pr_state \<Rightarrow> (int \<times> pr_state) option" where
  "prctl_mce opt arg2 arg3 arg4 arg5 s =
     (if opt = PR_MCE_KILL then
        Some (if or arg4 arg5 \<noteq> 0 then (- EINVAL, s)
              else if arg2 = 0 then
                (if arg3 \<noteq> 0 then (- EINVAL, s)
                 else (0, s\<lparr>task_flags := and (task_flags s) (not PF_MCE_PROCESS)\<rparr>))
              else if arg2 = 1 then
                (let s = s\<lparr>task_flags := or (task_flags s) PF_MCE_PROCESS\<rparr> in
                 if arg3 = 1 then (0, s\<lparr>task_flags := or (task_flags s) PF_MCE_EARLY\<rparr>)
                 else if arg3 = 0 then (0, s\<lparr>task_flags := and (task_flags s) (not PF_MCE_EARLY)\<rparr>)
                 else if arg3 = 2 then
                   (0, s\<lparr>task_flags := and (task_flags s) (not (or PF_MCE_EARLY PF_MCE_PROCESS))\<rparr>)
                 else (- EINVAL, s))
              else (- EINVAL, s))
      else if opt = PR_MCE_KILL_GET then
        Some (if or (or arg2 arg3) (or arg4 arg5) \<noteq> 0 then - EINVAL
              else if and (task_flags s) PF_MCE_PROCESS \<noteq> 0
              then if and (task_flags s) PF_MCE_EARLY \<noteq> 0 then 1 else 0
              else 2, s)
      else None)"

definition prctl_process ::
  "pr_env \<Rightarrow> uaccess \<Rightarrow> int \<Rightarrow> ulong \<Rightarrow> ulong \<Rightarrow> ulong \<Rightarrow> ulong \<Rightarrow> pr_state \<Rightarrow> (int \<times> pr_state) option" where
  "prctl_process E U opt arg2 arg3 arg4 arg5 s =
     (if opt = PR_SET_MM then
        Some (case prctl_set_mm (pr_pm_env E) U (sint (ucast arg2 :: u32)) arg3 arg4 arg5 (pr_pm s) of
                (e, m) \<Rightarrow> (e, s\<lparr>pr_pm := m\<rparr>))
      else if opt = PR_GET_TID_ADDRESS then Some (prctl_get_tid_address U arg2 s)
      else if opt = PR_SET_CHILD_SUBREAPER then
        (let s = s\<lparr>is_child_subreaper := (arg2 \<noteq> 0)\<rparr> in
         Some (0, if arg2 = 0 then s
                  else s\<lparr>has_child_subreaper := walk_process_tree E (propagate_has_child_subreaper E) (pr_current E)
                          (has_child_subreaper s)\<rparr>))
      else if opt = PR_GET_CHILD_SUBREAPER then
        Some (pr_put_user U arg2 (enc_int (if is_child_subreaper s then 1 else 0)) s)
      else if opt = PR_SET_NO_NEW_PRIVS then
        Some (if arg2 \<noteq> 1 \<or> \<not> args_zero [arg3, arg4, arg5] then (- EINVAL, s) else (0, s\<lparr>no_new_privs := True\<rparr>))
      else if opt = PR_GET_NO_NEW_PRIVS then
        Some (if \<not> args_zero [arg2, arg3, arg4, arg5] then - EINVAL else if no_new_privs s then 1 else 0, s)
      else if opt = PR_GET_THP_DISABLE then
        Some (if \<not> args_zero [arg2, arg3, arg4, arg5] then - EINVAL else if mmf_disable_thp s then 1 else 0, s)
      else if opt = PR_SET_THP_DISABLE then
        Some (if \<not> args_zero [arg3, arg4, arg5] then (- EINVAL, s)
              else case mmap_write_lock_killable E s of (killed, s) \<Rightarrow>
                if killed then (- EINTR, s)
                else (0, mmap_write_unlock (s\<lparr>mmf_disable_thp := (arg2 \<noteq> 0)\<rparr>)))
      else if opt = PR_MPX_ENABLE_MANAGEMENT \<or> opt = PR_MPX_DISABLE_MANAGEMENT then Some (- EINVAL, s)
      else None)"

definition prctl_machine ::
  "pr_env \<Rightarrow> int \<Rightarrow> ulong \<Rightarrow> ulong \<Rightarrow> ulong \<Rightarrow> ulong \<Rightarrow> pr_state \<Rightarrow> (int \<times> pr_state) option" where
  "prctl_machine E opt arg2 arg3 arg4 arg5 s =
     (if opt \<in> {PR_SET_FP_MODE, PR_SVE_SET_VL, PR_SME_SET_VL} then Some (arch_call E opt arg2 0, s)
      else if opt \<in> {PR_GET_FP_MODE, PR_SVE_GET_VL, PR_SME_GET_VL} then Some (arch_call E opt 0 0, s)
      else if opt = PR_GET_SPECULATION_CTRL then
        Some (if \<not> args_zero [arg3, arg4, arg5] then - EINVAL else arch_prctl_spec_ctrl_get E arg2, s)
      else if opt = PR_SET_SPECULATION_CTRL then
        Some (if \<not> args_zero [arg4, arg5] then - EINVAL else arch_prctl_spec_ctrl_set E arg2 arg3, s)
      else if opt = PR_PAC_RESET_KEYS \<or> opt = PR_SET_TAGGED_ADDR_CTRL then
        Some (if \<not> args_zero [arg3, arg4, arg5] then - EINVAL else arch_call E opt arg2 0, s)
      else if opt = PR_PAC_SET_ENABLED_KEYS then
        Some (if \<not> args_zero [arg4, arg5] then - EINVAL else arch_call E opt arg2 arg3, s)
      else if opt = PR_PAC_GET_ENABLED_KEYS \<or> opt = PR_GET_TAGGED_ADDR_CTRL then
        Some (if \<not> args_zero [arg2, arg3, arg4, arg5] then - EINVAL else arch_call E opt 0 0, s)
      else None)"

definition prctl_flusher ::
  "pr_env \<Rightarrow> int \<Rightarrow> ulong \<Rightarrow> ulong \<Rightarrow> ulong \<Rightarrow> ulong \<Rightarrow> pr_state \<Rightarrow> (int \<times> pr_state) option" where
  "prctl_flusher E opt arg2 arg3 arg4 arg5 s =
     (if opt = PR_SET_IO_FLUSHER then
        Some (if \<not> capable_sys_resource (pr_pm_env E) then (- EPERM, s)
              else if \<not> args_zero [arg3, arg4, arg5] then (- EINVAL, s)
              else if arg2 = 1 then (0, s\<lparr>task_flags := or (task_flags s) PR_IO_FLUSHER\<rparr>)
              else if arg2 = 0 then (0, s\<lparr>task_flags := and (task_flags s) (not PR_IO_FLUSHER)\<rparr>)
              else (- EINVAL, s))
      else if opt = PR_GET_IO_FLUSHER then
        Some (if \<not> capable_sys_resource (pr_pm_env E) then - EPERM
              else if \<not> args_zero [arg2, arg3, arg4, arg5] then - EINVAL
              else if and (task_flags s) PR_IO_FLUSHER = PR_IO_FLUSHER then 1 else 0, s)
      else if opt = PR_SET_SYSCALL_USER_DISPATCH \<or> opt = PR_SCHED_CORE then
        Some (elsewhere E opt arg2 arg3 arg4 arg5, s)
      else None)"

definition prctl_memory ::
  "pr_env \<Rightarrow> uaccess \<Rightarrow> int \<Rightarrow> ulong \<Rightarrow> ulong \<Rightarrow> ulong \<Rightarrow> ulong \<Rightarrow> pr_state \<Rightarrow> (int \<times> pr_state) option" where
  "prctl_memory E U opt arg2 arg3 arg4 arg5 s =
     (if opt = PR_SET_MDWE then Some (prctl_set_mdwe arg2 arg3 arg4 arg5 s)
      else if opt = PR_GET_MDWE then Some (prctl_get_mdwe arg2 arg3 arg4 arg5 s, s)
      else if opt = PR_SET_VMA then Some (prctl_set_vma E arg2 arg3 arg4 arg5 s)
      else if opt = PR_GET_AUXV then
        Some (if \<not> args_zero [arg4, arg5] then (- EINVAL, s)
              else case prctl_get_auxv (pr_pm_env E) U arg2 arg3 (pr_pm s) of (e, m) \<Rightarrow> (e, s\<lparr>pr_pm := m\<rparr>))
      else if opt = PR_SET_MEMORY_MERGE then
        Some (if \<not> args_zero [arg3, arg4, arg5] then (- EINVAL, s)
              else case mmap_write_lock_killable E s of (killed, s) \<Rightarrow>
                if killed then (- EINTR, s)
                else case ksm_merge_any E (arg2 \<noteq> 0) (mmf_vm_merge_any s) of
                       (e, b) \<Rightarrow> (e, mmap_write_unlock (s\<lparr>mmf_vm_merge_any := b\<rparr>)))
      else if opt = PR_GET_MEMORY_MERGE then
        Some (if \<not> args_zero [arg2, arg3, arg4, arg5] then - EINVAL else if mmf_vm_merge_any s then 1 else 0, s)
      else if opt = PR_RISCV_V_SET_CONTROL then Some (arch_call E opt arg2 0, s)
      else if opt = PR_RISCV_V_GET_CONTROL then Some (arch_call E opt 0 0, s)
      else None)"

fun first_of :: "'a option list \<Rightarrow> 'a \<Rightarrow> 'a" where
  "first_of [] d = d"
| "first_of (x # xs) d = (case x of Some r \<Rightarrow> r | None \<Rightarrow> first_of xs d)"

definition sys_prctl ::
  "pr_env \<Rightarrow> uaccess \<Rightarrow> int \<Rightarrow> ulong \<Rightarrow> ulong \<Rightarrow> ulong \<Rightarrow> ulong \<Rightarrow> pr_state \<Rightarrow> int \<times> pr_state" where
  "sys_prctl E U opt arg2 arg3 arg4 arg5 s =
     (let error = security_task_prctl E opt arg2 arg3 arg4 arg5 in
      if error \<noteq> - ENOSYS then (error, s)
      else first_of
        [prctl_signals U opt arg2 s, prctl_arch E opt arg2 s, prctl_name E U opt arg2 s,
         prctl_elsewhere E opt arg2 arg3 s, prctl_timerslack opt arg2 s, prctl_mce opt arg2 arg3 arg4 arg5 s,
         prctl_process E U opt arg2 arg3 arg4 arg5 s, prctl_machine E opt arg2 arg3 arg4 arg5 s,
         prctl_flusher E opt arg2 arg3 arg4 arg5 s, prctl_memory E U opt arg2 arg3 arg4 arg5 s]
        (- EINVAL, s))"

section \<open>What the options keep\<close>

definition valid_name_opt :: "byte list option \<Rightarrow> bool" where
  "valid_name_opt nm = (case nm of None \<Rightarrow> True | Some n \<Rightarrow> list_all is_valid_name_char n)"

text \<open>
  What \<^verbatim>\<open>set_task_comm\<close> and \<^verbatim>\<open>get_task_comm\<close> are documented to do (both are \<^verbatim>\<open>strscpy_pad\<close> to 16 bytes): the
  string, cut off after 15 bytes, filled up with zero bytes.
\<close>

definition strscpy_pad :: "nat \<Rightarrow> byte list \<Rightarrow> byte list" where
  "strscpy_pad n buf = (let nm = take (n - 1) (takeWhile (\<lambda>b. b \<noteq> 0) buf) in nm @ replicate (n - length nm) 0)"

definition comm_law :: "pr_env \<Rightarrow> bool" where
  "comm_law E \<longleftrightarrow> set_task_comm E = strscpy_pad 16 \<and> get_task_comm E = strscpy_pad 16"

text \<open>Well-formed: the layout, the name, the signal, the names of areas.\<close>

definition pr_inv :: "pr_env \<Rightarrow> pr_state \<Rightarrow> bool" where
  "pr_inv E s \<longleftrightarrow> pm_inv (pr_pm_env E) (pr_pm s) \<and> length (comm s) = 16 \<and> comm s ! 15 = 0
     \<and> pdeath_signal s \<le> 64
     \<and> list_all (\<lambda>x. valid_name_opt (snd (snd x))) (vma_names s)"

text \<open>Flags that only ever get set.\<close>

definition sticky :: "pr_state \<Rightarrow> pr_state \<Rightarrow> bool" where
  "sticky s s' \<longleftrightarrow> (no_new_privs s \<longrightarrow> no_new_privs s')
     \<and> (get_current_mdwe s \<noteq> 0 \<longrightarrow> get_current_mdwe s' = get_current_mdwe s)"

text \<open>Every lock, buffer and reference that was taken is given back.\<close>

definition pr_balanced :: "pr_state \<Rightarrow> pr_state \<Rightarrow> bool" where
  "pr_balanced s s' \<longleftrightarrow> pm_balanced (pr_pm s) (pr_pm s') \<and> mmap_writers s' = mmap_writers s
     \<and> name_copies s' = name_copies s \<and> anon_name_refs s' = anon_name_refs s"

definition pr_keeps :: "pr_env \<Rightarrow> pr_state \<Rightarrow> pr_state \<Rightarrow> bool" where
  "pr_keeps E s s' \<longleftrightarrow> (pr_inv E s \<longrightarrow> pr_inv E s') \<and> sticky s s' \<and> pr_balanced s s'"

lemma pr_keeps_refl [simp]: "pr_keeps E s s"
  by (simp add: pr_keeps_def sticky_def pr_balanced_def)

lemma pr_keeps_trans: "pr_keeps E s t \<Longrightarrow> pr_keeps E t u \<Longrightarrow> pr_keeps E s u"
  by (auto simp: pr_keeps_def sticky_def pr_balanced_def pm_balanced_def)

lemma takeWhile_cut: "\<not> P y \<Longrightarrow> takeWhile P (takeWhile P xs @ y # ys) = takeWhile P xs"
  by (induction xs) simp_all

lemma strscpy_pad_wf: "length (strscpy_pad 16 b) = 16 \<and> strscpy_pad 16 b ! 15 = 0"
  by (auto simp: strscpy_pad_def Let_def nth_append)

lemma pr_inv_frame [simp]:
  "pr_inv E (s\<lparr>mmf_has_mdwe := b\<rparr>) = pr_inv E s" "pr_inv E (s\<lparr>mmf_has_mdwe_no_inherit := b\<rparr>) = pr_inv E s"
  by (simp_all add: pr_inv_def)

lemma pr_put_keeps: "pr_put_user U a bs s = (r, s') \<Longrightarrow> pr_keeps E s s'"
  by (auto simp: pr_put_user_def pr_keeps_def pr_inv_def pm_inv_def sticky_def get_current_mdwe_def pr_balanced_def
      pm_balanced_def split: prod.splits)

lemma set_mdwe_keeps:
  assumes "prctl_set_mdwe b arg3 arg4 arg5 s = (r, s')"
  shows "pr_keeps E s s'"
proof -
  have inv: "pr_inv E s' = pr_inv E s" "no_new_privs s' = no_new_privs s" "pr_balanced s s'"
    using assms by (auto simp: prctl_set_mdwe_def Let_def pr_balanced_def split: if_splits)
  have "get_current_mdwe s' = get_current_mdwe s" if "get_current_mdwe s \<noteq> 0"
  proof (cases "s' = s")
    case False
    then have "get_current_mdwe s = b"
      using assms that by (auto simp: prctl_set_mdwe_def Let_def split: if_splits)
    then show ?thesis using assms that
      by (cases "mmf_has_mdwe s"; cases "mmf_has_mdwe_no_inherit s")
        (auto simp: prctl_set_mdwe_def get_current_mdwe_def Let_def split: if_splits)
  qed simp
  with inv show ?thesis by (simp add: pr_keeps_def sticky_def)
qed

lemmas keep_defs = pr_keeps_def pr_inv_def sticky_def get_current_mdwe_def pr_balanced_def

lemma set_vma_keeps: "prctl_set_vma E opt a sz u s = (r, s') \<Longrightarrow> pr_keeps E s s'"
  by (auto simp: prctl_set_vma_def write_lock_defs Let_def keep_defs valid_name_opt_def
      split: if_splits sum.splits)

lemma pr_keeps_fields [simp]:
  "pr_keeps E s (s\<lparr>task_flags := w\<rparr>)"
  "pr_keeps E s (s\<lparr>task_flags := v, task_flags := w\<rparr>)"
  "pr_keeps E s (s\<lparr>dumpable := d\<rparr>)"
  "pr_keeps E s (s\<lparr>timer_slack_ns := t\<rparr>)"
  "pr_keeps E s (s\<lparr>is_child_subreaper := b\<rparr>)"
  "pr_keeps E s (s\<lparr>is_child_subreaper := b, has_child_subreaper := h\<rparr>)"
  "pr_keeps E s (s\<lparr>no_new_privs := True\<rparr>)"
  "pr_keeps E s (mmap_write_unlock ((mmap_write_lock s)\<lparr>mmf_disable_thp := b\<rparr>))"
  "pr_keeps E s (mmap_write_unlock ((mmap_write_lock s)\<lparr>mmf_vm_merge_any := b\<rparr>))"
  "g \<le> 64 \<Longrightarrow> pr_keeps E s (s\<lparr>pdeath_signal := g\<rparr>)"
  "pr_keeps E s (s\<lparr>comm := strscpy_pad 16 c, comm_events := n\<rparr>)"
  by (simp_all add: keep_defs strscpy_pad_wf write_lock_defs)

lemma pr_keeps_pm:
  "(pm_inv (pr_pm_env E) (pr_pm s) \<Longrightarrow> pm_inv (pr_pm_env E) m) \<Longrightarrow> pm_balanced (pr_pm s) m \<Longrightarrow>
    pr_keeps E s (s\<lparr>pr_pm := m\<rparr>)"
  by (simp add: keep_defs)

lemma pr_keeps_mem [simp]: "pr_keeps E s (s\<lparr>pr_pm := (pr_pm s)\<lparr>pm_mem := m\<rparr>\<rparr>)"
  by (rule pr_keeps_pm) (simp_all add: pm_inv_def pm_balanced_def)

lemma simple_groups_keep:
  "prctl_signals U opt arg2 s = Some (r, s') \<Longrightarrow> pr_keeps E s s'"
  "prctl_arch E opt arg2 s = Some (r, s') \<Longrightarrow> pr_keeps E s s'"
  "prctl_elsewhere E opt arg2 arg3 s = Some (r, s') \<Longrightarrow> pr_keeps E s s'"
  "prctl_timerslack opt arg2 s = Some (r, s') \<Longrightarrow> pr_keeps E s s'"
  "prctl_mce opt arg2 arg3 arg4 arg5 s = Some (r, s') \<Longrightarrow> pr_keeps E s s'"
  "prctl_machine E opt arg2 arg3 arg4 arg5 s = Some (r, s') \<Longrightarrow> pr_keeps E s s'"
  "prctl_flusher E opt arg2 arg3 arg4 arg5 s = Some (r, s') \<Longrightarrow> pr_keeps E s s'"
  "comm_law E \<Longrightarrow> prctl_name E U opt arg2 s = Some (r, s') \<Longrightarrow> pr_keeps E s s'"
  subgoal by (auto simp: prctl_signals_def intro: pr_put_keeps split: if_split_asm)
  subgoal by (auto simp: prctl_arch_def split: if_split_asm)
  subgoal by (auto simp: prctl_elsewhere_def split: if_split_asm)
  subgoal by (auto simp: prctl_timerslack_def split: if_split_asm)
  subgoal by (auto simp: prctl_mce_def Let_def split: if_split_asm)
  subgoal by (auto simp: prctl_machine_def split: if_split_asm)
  subgoal by (auto simp: prctl_flusher_def split: if_split_asm)
  subgoal by (auto simp: prctl_name_def comm_law_def split: if_split_asm option.splits prod.splits)
  done

lemma first_of_all:
  "list_all (\<lambda>x. \<forall>r s'. x = Some (r, s') \<longrightarrow> P s') xs \<Longrightarrow> P (snd d) \<Longrightarrow> P (snd (first_of xs d))"
  by (induction xs) (auto split: option.splits)

context uaccess_laws
begin

lemma process_keeps:
  assumes "pm_machine U (pr_pm_env E)" "prctl_process E U opt arg2 arg3 arg4 arg5 s = Some (r, s')"
  shows "pr_keeps E s s'"
proof -
  let ?P = "pr_pm_env E" and ?o = "sint (ucast arg2 :: u32)"
  have mm: "pr_keeps E s (s\<lparr>pr_pm := snd (prctl_set_mm ?P U ?o arg3 arg4 arg5 (pr_pm s))\<rparr>)"
    by (rule pr_keeps_pm)
      (use pm_machine.pm_step_inv [OF assms(1), of "pr_pm s" "Set_mm ?o arg3 arg4 arg5"]
        pm_machine.pm_step_balanced [OF assms(1), of "pr_pm s" "Set_mm ?o arg3 arg4 arg5"] in simp_all)
  have "pr_keeps E s s'" if "prctl_get_tid_address U arg2 s = (r, s')"
    using that unfolding prctl_get_tid_address_def by (rule pr_put_keeps)
  with mm assms(2) show ?thesis
    by (auto simp: prctl_process_def mmap_write_lock_killable_def Let_def intro: pr_put_keeps split: if_split_asm prod.splits)
qed

lemma memory_keeps:
  assumes "pm_machine U (pr_pm_env E)" "prctl_memory E U opt arg2 arg3 arg4 arg5 s = Some (r, s')"
  shows "pr_keeps E s s'"
proof -
  have "pr_keeps E s (s\<lparr>pr_pm := snd (prctl_get_auxv (pr_pm_env E) U arg2 arg3 (pr_pm s))\<rparr>)"
    by (rule pr_keeps_pm)
      (use pm_machine.pm_step_inv [OF assms(1), of "pr_pm s" "Get_auxv arg2 arg3"]
        pm_machine.pm_step_balanced [OF assms(1), of "pr_pm s" "Get_auxv arg2 arg3"] in simp_all)
  with assms(2) show ?thesis
    by (auto simp: prctl_memory_def mmap_write_lock_killable_def intro: set_mdwe_keeps set_vma_keeps split: if_split_asm prod.splits)
qed

lemma prctl_keeps:
  assumes "pm_machine U (pr_pm_env E)" "comm_law E"
  shows "pr_keeps E s (snd (sys_prctl E U opt arg2 arg3 arg4 arg5 s))"
proof (cases "security_task_prctl E opt arg2 arg3 arg4 arg5 = - ENOSYS")
  case True
  then have no: "\<not> security_task_prctl E opt arg2 arg3 arg4 arg5 \<noteq> - ENOSYS" by blast
  show ?thesis
    unfolding sys_prctl_def Let_def if_not_P [OF no] list.pred_inject
    by (rule first_of_all, simp only: list.pred_inject, intro conjI allI impI TrueI)
      ((erule simple_groups_keep(1-7) simple_groups_keep(8) [OF assms(2)] process_keeps [OF assms(1)]
        memory_keeps [OF assms(1)])+, simp)
qed (simp add: sys_prctl_def)

end

section \<open>Properties\<close>

fun prctl_step :: "pr_env \<Rightarrow> uaccess \<Rightarrow> int \<times> ulong \<times> ulong \<times> ulong \<times> ulong \<Rightarrow> pr_state \<Rightarrow> pr_state" where
  "prctl_step E U (opt, arg2, arg3, arg4, arg5) s = snd (sys_prctl E U opt arg2 arg3 arg4 arg5 s)"

locale prctl_machine_laws =
  fixes E :: pr_env and U :: uaccess
  assumes machine: "pm_machine U (pr_pm_env E)"
    and names: "comm_law E"
begin

sublocale prsteps: confined_steps "prctl_step E U" "pr_keeps E"
proof
  fix x s
  have "uaccess_laws U" using machine by (simp add: pm_machine_def)
  then show "pr_keeps E s (prctl_step E U x s)"
    by (cases x) (simp add: uaccess_laws.prctl_keeps machine names)
qed (auto intro: pr_keeps_trans)

lemma prctl_run: "pr_keeps E s (run_calls (prctl_step E U) xs s)"
  by (rule prsteps.run_within)

end

definition demo_pr_env :: pr_env where
  "demo_pr_env = \<lparr>pr_pm_env = demo_pm_env, security_task_prctl = (\<lambda>_ _ _ _ _. - ENOSYS), arch_ctl = (\<lambda>_. None),
     spec_ctrl_get = None, spec_ctrl_set = None, elsewhere = (\<lambda>_ _ _ _ _. - EINVAL),
     strncpy_from_user = (\<lambda>m a n. Some (load_bytes m a n)),
     strndup_user = (\<lambda>m a n. Inl (- EINVAL)), anon_vma_name_alloc = (\<lambda>_. True),
     madvise_set_anon_name = (\<lambda>_ _ _. 0), mmap_lock_killed = False, ksm_merge_any = (\<lambda>b _. (0, b)),
     walk_process_tree = (\<lambda>_ _ has. has), pr_current = 1, is_child_reaper = (\<lambda>_. False), comm_junk = (\<lambda>_. 7),
     set_task_comm = strscpy_pad 16, get_task_comm = strscpy_pad 16\<rparr>"

definition demo_pr_state :: pr_state where
  "demo_pr_state = \<lparr>pr_pm = demo_pm_state, pdeath_signal = 0, dumpable = 1, comm = replicate 16 0, comm_events = 0,
     timer_slack_ns = 50000, default_timer_slack_ns = 50000, task_flags = 0, clear_child_tid = 0,
     is_child_subreaper = False, has_child_subreaper = (\<lambda>_. False), no_new_privs = True, mmf_disable_thp = False,
     mmf_has_mdwe = True, mmf_has_mdwe_no_inherit = False, mmf_vm_merge_any = False, mmap_writers = 0,
     vma_names = [], name_copies = 0, anon_name_refs = 0\<rparr>"

interpretation pr_demo: prctl_machine_laws demo_pr_env demo_U
  by unfold_locales (simp_all add: demo_pr_env_def demo_pm_env_def comm_law_def)

lemma demo_pr_inv: "pr_inv demo_pr_env demo_pr_state"
  using demo_pm_inv by (simp add: pr_inv_def demo_pr_env_def demo_pr_state_def)

text \<open>
  (C8) Over any sequence of \<^verbatim>\<open>prctl\<close> calls with any arguments: once set, no-new-privileges stays set
  and the memory-deny-write-execute policy stays exactly as it is. When it was so before, the process name stays a
  string of at most 15 bytes, the parent-death signal a signal number, every name given to a memory area
  printable and the memory layout sound. Every call gives back what it took: the memory map's lock for reading and
  for writing, the argument lock and the task lock, the copy of the name, and the references to files
  and to the area name. The hypotheses are the bounds of a 64-bit machine and that \<^verbatim>\<open>set_task_comm\<close> and
  \<^verbatim>\<open>get_task_comm\<close>, defined elsewhere, are \<^verbatim>\<open>strscpy_pad\<close> to 16 bytes.
\<close>

theorem prctl_run_keeps:
  assumes "prctl_machine_laws E U" "s' = run_calls (prctl_step E U) xs s"
  shows "(no_new_privs s \<longrightarrow> no_new_privs s')
    \<and> (get_current_mdwe s \<noteq> 0 \<longrightarrow> get_current_mdwe s' = get_current_mdwe s)
    \<and> (pr_inv E s \<longrightarrow> pr_inv E s')
    \<and> mmap_readers (pr_pm s') = mmap_readers (pr_pm s) \<and> mmap_writers s' = mmap_writers s
    \<and> arg_locks (pr_pm s') = arg_locks (pr_pm s) \<and> task_locks (pr_pm s') = task_locks (pr_pm s)
    \<and> name_copies s' = name_copies s \<and> fd_refs (pr_pm s') = fd_refs (pr_pm s) \<and> anon_name_refs s' = anon_name_refs s"
  using prctl_machine_laws.prctl_run [OF assms(1), of s xs] assms(2)
  by (simp add: pr_keeps_def sticky_def pr_balanced_def pm_balanced_def)

theorem prctl_run_keeps_witness:
  "let s' = run_calls (prctl_step demo_pr_env demo_U)
     [(PR_SET_NO_NEW_PRIVS, 0, 0, 0, 0), (PR_SET_MDWE, 0, 0, 0, 0), (PR_SET_NAME, 4096, 0, 0, 0),
      (PR_SET_THP_DISABLE, 1, 0, 0, 0), (PR_SET_VMA, 0, 4096, 4096, 0)] demo_pr_state
   in no_new_privs s' \<and> pr_inv demo_pr_env s' \<and> mmap_writers s' = 0"
proof -
  have "no_new_privs demo_pr_state" "mmap_writers demo_pr_state = 0" by (simp_all add: demo_pr_state_def)
  with prctl_run_keeps [OF pr_demo.prctl_machine_laws_axioms refl] demo_pr_inv show ?thesis
    unfolding Let_def by metis
qed

text \<open>
  A name set with \<^verbatim>\<open>PR_SET_NAME\<close> is what \<^verbatim>\<open>PR_GET_NAME\<close> copies out: the bytes before the first
  zero, at most 15, filled up with zero bytes to 16. No byte of the uninitialised buffer gets out.
\<close>

theorem prctl_name_roundtrip:
  assumes "uaccess_laws U" "\<forall>a b c d e. security_task_prctl E a b c d e = - ENOSYS" and law: "comm_law E"
    and copied: "strncpy_from_user E (pm_mem (pr_pm s)) p 15 = Some bs"
      "length bs = 15 \<or> (\<exists>n<length bs. length bs \<le> 15 \<and> bs ! n = 0)"
    and set: "sys_prctl E U PR_SET_NAME p 0 0 0 s = (0, s1)" and get: "sys_prctl E U PR_GET_NAME q 0 0 0 s1 = (0, s2)"
    and nm: "nm = takeWhile (\<lambda>b. b \<noteq> 0) bs"
  shows "load_bytes (pm_mem (pr_pm s2)) q 16 = nm @ replicate (16 - length nm) 0"
proof -
  have len: "length bs \<le> 15" using copied(2) by auto
  have tw: "takeWhile (\<lambda>b. b \<noteq> 0) (bs @ pad (comm_junk E) (15 - length bs) @ [0]) = nm"
  proof (cases "\<exists>n<length bs. bs ! n = 0")
    case True
    then obtain x where "x \<in> set bs" "x = 0" by (auto simp: in_set_conv_nth)
    then show ?thesis by (simp add: nm takeWhile_append1)
  next
    case False
    then have "\<forall>x\<in>set bs. x \<noteq> 0" "length bs = 15" using copied(2) by (auto simp: in_set_conv_nth)
    moreover from this have "takeWhile (\<lambda>b. b \<noteq> 0) bs = bs" by (simp only: takeWhile_eq_all_conv)
    ultimately show ?thesis by (simp only: nm takeWhile_append pad_def) simp
  qed
  have "length nm \<le> 15" using len length_takeWhile_le [of "\<lambda>b. b \<noteq> 0" bs] by (simp add: nm)
  then have comm: "comm s1 = nm @ replicate (16 - length nm) 0"
    using set assms(2) copied(1) tw
    by (simp add: sys_prctl_def prctl_signals_def prctl_arch_def prctl_name_def strscpy_pad_def law [unfolded comm_law_def] Let_def)
      (auto)
  obtain m left where c: "copy_to_user U (pm_mem (pr_pm s1)) q (get_task_comm E (comm s1)) = (m, left)" by fastforce
  have "left = 0 \<and> pm_mem (pr_pm s2) = m"
    using get assms(2) c
    by (simp add: sys_prctl_def prctl_signals_def prctl_arch_def prctl_name_def Let_def split: if_splits) auto
  moreover have "takeWhile (\<lambda>b. b \<noteq> 0) (comm s1) = nm"
    using \<open>length nm \<le> 15\<close> unfolding comm by (cases "16 - length nm") (simp_all add: nm takeWhile_cut)
  then have "get_task_comm E (comm s1) = comm s1"
    using \<open>length nm \<le> 15\<close> by (simp add: law [unfolded comm_law_def] strscpy_pad_def comm Let_def)
  moreover have "length (comm s1) = 16" using comm \<open>length nm \<le> 15\<close> by simp
  ultimately show ?thesis
    using uaccess_laws.copy_to_user_load [OF assms(1), of "pm_mem (pr_pm s1)" q "comm s1" m] c comm by simp
qed

text \<open>
  \<^verbatim>\<open>PR_MCE_KILL_SET\<close> with an unknown policy returns \<^verbatim>\<open>-EINVAL\<close> after it has set the flag that makes
  the per-process policy apply.
\<close>

lemma mce_kill_set_fails_late:
  assumes "arg3 \<notin> {0, 1, 2}"
  shows "prctl_mce PR_MCE_KILL 1 arg3 0 0 s = Some (- EINVAL, s\<lparr>task_flags := or (task_flags s) PF_MCE_PROCESS\<rparr>)"
  using assms by (simp add: prctl_mce_def Let_def)

lemma demo_name:
  "sys_prctl demo_pr_env demo_U PR_SET_NAME 4096 0 0 0 demo_pr_state
     = (0, demo_pr_state\<lparr>comm := strscpy_pad 16 (load_bytes (pm_mem demo_pm_state) 4096 15 @ [0]), comm_events := 1\<rparr>)"
  by (simp add: sys_prctl_def prctl_signals_def prctl_arch_def prctl_name_def pad_def Let_def demo_pr_env_def)
    (simp add: demo_pr_state_def)

theorem prctl_name_roundtrip_witness:
  "load_bytes (pm_mem (pr_pm (snd (sys_prctl demo_pr_env demo_U PR_GET_NAME 8192 0 0 0
     (snd (sys_prctl demo_pr_env demo_U PR_SET_NAME 4096 0 0 0 demo_pr_state)))))) 8192 16
     = replicate 15 1 @ [0]"
proof -
  let ?s1 = "snd (sys_prctl demo_pr_env demo_U PR_SET_NAME 4096 0 0 0 demo_pr_state)"
  let ?get = "sys_prctl demo_pr_env demo_U PR_GET_NAME 8192 0 0 0 ?s1"
  have bs: "strncpy_from_user demo_pr_env (pm_mem (pr_pm demo_pr_state)) 4096 15 = Some (replicate 15 1)"
    by (simp add: demo_pr_env_def demo_pr_state_def demo_pm_state_def load_bytes_def upt_rec)
      (simp add: numeral_eq_Suc)
  have sec: "\<forall>a b c d e. security_task_prctl demo_pr_env a b c d e = - ENOSYS" by (simp add: demo_pr_env_def)
  have set: "sys_prctl demo_pr_env demo_U PR_SET_NAME 4096 0 0 0 demo_pr_state = (0, ?s1)" by (simp add: demo_name)
  have "fst (sys_prctl demo_pr_env demo_U PR_GET_NAME 8192 0 0 0 s) = 0" for s
  proof -
    have "length (get_task_comm demo_pr_env (comm s)) = 16" by (simp add: demo_pr_env_def strscpy_pad_wf)
    then show ?thesis
      by (simp add: sys_prctl_def prctl_signals_def prctl_arch_def prctl_name_def sec Let_def copy_to_user_all_mapped)
  qed
  then have get: "?get = (0, snd ?get)" by (simp add: prod_eq_iff)
  from prctl_name_roundtrip [OF page.uaccess_laws_axioms sec pr_demo.names bs _ set get refl] show ?thesis by simp
qed

end
