(* ===== verification/Fs_Files.thy ===== *)
theory Fs_Files
  imports Syscall_Tracking Step_System
begin

text \<open>
  Open files and their positions: the state that the file system calls share, and the seek
  operations of \<^verbatim>\<open>fs/read_write.c\<close> (lines 39 to 382). An offset (\<^verbatim>\<open>loff_t\<close>) is a 64-bit word read as
  a signed number; sums wrap, and the code tests for it. The methods of the file systems and the
  security hooks are parameters.
\<close>

section \<open>Files\<close>

type_synonym loff = "64 word"

record fmode =
  FMODE_READ :: bool
  FMODE_WRITE :: bool
  FMODE_CAN_READ :: bool
  FMODE_CAN_WRITE :: bool
  FMODE_LSEEK :: bool
  FMODE_PREAD :: bool
  FMODE_PWRITE :: bool
  FMODE_STREAM :: bool
  FMODE_UNSIGNED_OFFSET :: bool
  FMODE_BUF_WASYNC :: bool
  FMODE_PATH :: bool
  FMODE_OPENED :: bool
  FMODE_WRITER :: bool
  FMODE_BACKING :: bool
  FMODE_ATOMIC_POS :: bool
  FMODE_CAN_ODIRECT :: bool

text \<open>Which seek operation a file has: one of this file, one of its file system, or a null pointer.\<close>

datatype seek_op =
  Generic_file_llseek | Fixed_size_llseek loff | No_seek_end_llseek | No_seek_end_llseek_size loff
  | Noop_llseek | Default_llseek | Fs_llseek | No_llseek

text \<open>\<open>i_data\<close> stands for the contents, which only the methods of a file system use.\<close>

record inode =
  i_size :: loff
  i_data :: "byte list"
  i_sb :: nat
  s_maxbytes :: loff
  is_reg :: bool
  is_dir :: bool
  immutable :: bool
  swapfile :: bool

record struct_file =
  f_mode :: fmode
  f_pos :: loff
  f_version :: ulong
  f_inode :: nat
  f_mapping_host :: nat
  f_flags :: u32
  op_llseek :: seek_op
  op_read :: bool
  op_read_iter :: bool
  op_write :: bool
  op_write_iter :: bool
  op_copy_file_range :: "nat option"
  op_remap_file_range :: bool

text \<open>The flags of an open file that these calls look at.\<close>

definition O_APPEND :: "struct_file \<Rightarrow> bool" where
  "O_APPEND x \<longleftrightarrow> and (f_flags x) 0x400 \<noteq> 0"

definition O_NONBLOCK :: "struct_file \<Rightarrow> bool" where
  "O_NONBLOCK x \<longleftrightarrow> and (f_flags x) 0x800 \<noteq> 0"

definition O_LARGEFILE :: "struct_file \<Rightarrow> bool" where
  "O_LARGEFILE x \<longleftrightarrow> and (f_flags x) 0x8000 \<noteq> 0"

datatype fs_event = Fsnotify_access nat | Fsnotify_modify nat | Sigxfsz

text \<open>
  The state of the calls: open files, inodes, the descriptor table; for each file the lookups of a
  descriptor not yet put back, the calls of \<^verbatim>\<open>file_start_write\<close> not yet ended and the locks of its position that are held; user memory and the
  kernel's buffers; the accounting of the task; the events sent; the call counters of
  \<^verbatim>\<open>track_syscalls.c\<close> with their clock. \<open>stuck\<close> is set where the code would stop the machine: a
  failed \<^verbatim>\<open>BUG_ON\<close>, a store outside an array, a loop that does not end.
\<close>

record fs_state =
  files :: "nat \<Rightarrow> struct_file"
  inodes :: "nat \<Rightarrow> inode"
  fdtable :: "u32 \<Rightarrow> nat option"
  file_refs :: "nat \<Rightarrow> int"
  file_writers :: "nat \<Rightarrow> int"
  pos_locks :: "nat \<Rightarrow> int"
  fs_mem :: mem
  kbuf :: mem
  rchar :: ulong
  wchar :: ulong
  syscr :: ulong
  syscw :: ulong
  fs_events :: "fs_event list"
  tracking :: tracker
  clock :: timespec64
  stuck :: bool

record kiocb =
  ki_filp :: nat
  ki_pos :: loff
  ki_complete :: bool
  IOCB_APPEND :: bool
  IOCB_NOWAIT :: bool
  IOCB_DIRECT :: bool
  ki_more_flags :: u32

record iov_iter =
  iter_kernel :: bool
  iter_count :: ulong
  iter_segs :: "(addr \<times> ulong) list"

text \<open>
  What the file takes from elsewhere: the methods of a file system, the hooks of security modules
  and of notification, the iterators over segments, and splicing. A method returns its result, the
  position after it and the state.
\<close>

record fs_env =
  fs_llseek :: "nat \<Rightarrow> loff \<Rightarrow> int \<Rightarrow> fs_state \<Rightarrow> loff \<times> fs_state"
  fs_read :: "nat \<Rightarrow> addr \<Rightarrow> ulong \<Rightarrow> loff option \<Rightarrow> fs_state \<Rightarrow> int \<times> loff option \<times> fs_state"
  fs_write :: "nat \<Rightarrow> addr \<Rightarrow> ulong \<Rightarrow> loff option \<Rightarrow> fs_state \<Rightarrow> int \<times> loff option \<times> fs_state"
  fs_read_iter :: "kiocb \<Rightarrow> iov_iter \<Rightarrow> fs_state \<Rightarrow> int \<times> kiocb \<times> fs_state"
  fs_write_iter :: "kiocb \<Rightarrow> iov_iter \<Rightarrow> fs_state \<Rightarrow> int \<times> kiocb \<times> fs_state"
  security_file_permission :: "nat \<Rightarrow> bool \<Rightarrow> int"
  fsnotify_file_area_perm :: "nat \<Rightarrow> bool \<Rightarrow> loff option \<Rightarrow> ulong \<Rightarrow> int"
  init_sync_kiocb :: "nat \<Rightarrow> struct_file \<Rightarrow> kiocb"
  kiocb_set_rw_flags :: "kiocb \<Rightarrow> u32 \<Rightarrow> int \<times> kiocb"
  import_iovec :: "mem \<Rightarrow> bool \<Rightarrow> addr \<Rightarrow> ulong \<Rightarrow> int \<times> iov_iter"
  iter_iov :: "iov_iter \<Rightarrow> addr \<times> ulong"
  iov_iter_advance :: "iov_iter \<Rightarrow> ulong \<Rightarrow> iov_iter"
  iov_iter_truncate :: "iov_iter \<Rightarrow> ulong \<Rightarrow> iov_iter"
  rlimit_fsize :: ulong
  get_user :: "mem \<Rightarrow> addr \<Rightarrow> int \<times> loff"
  get_pipe_info :: "nat \<Rightarrow> bool"
  do_splice_direct :: "nat \<Rightarrow> loff \<Rightarrow> nat \<Rightarrow> loff \<Rightarrow> ulong \<Rightarrow> fs_state \<Rightarrow> int \<times> loff \<times> loff \<times> fs_state"
  splice_file_to_pipe :: "nat \<Rightarrow> nat \<Rightarrow> loff \<Rightarrow> ulong \<Rightarrow> bool \<Rightarrow> fs_state \<Rightarrow> int \<times> loff \<times> fs_state"
  fs_copy_file_range :: "nat \<Rightarrow> loff \<Rightarrow> nat \<Rightarrow> loff \<Rightarrow> ulong \<Rightarrow> u32 \<Rightarrow> fs_state \<Rightarrow> int \<times> fs_state"
  fs_remap_file_range :: "nat \<Rightarrow> loff \<Rightarrow> nat \<Rightarrow> loff \<Rightarrow> loff \<Rightarrow> fs_state \<Rightarrow> int \<times> fs_state"

definition inode_of :: "fs_state \<Rightarrow> nat \<Rightarrow> inode" where
  "inode_of s f = inodes s (f_inode (files s f))"

definition host_of :: "fs_state \<Rightarrow> nat \<Rightarrow> inode" where
  "host_of s f = inodes s (f_mapping_host (files s f))"

definition upd_file :: "nat \<Rightarrow> (struct_file \<Rightarrow> struct_file) \<Rightarrow> fs_state \<Rightarrow> fs_state" where
  "upd_file f g s = s\<lparr>files := (files s)(f := g (files s f))\<rparr>"

text \<open>
  The lookup of a descriptor. A file opened with \<^verbatim>\<open>O_PATH\<close> is only found by the calls that use
  \<^verbatim>\<open>fdget_raw\<close>.
\<close>

definition fdlookup :: "fs_state \<Rightarrow> u32 \<Rightarrow> nat option" where
  "fdlookup s fd = (case fdtable s fd of
     None \<Rightarrow> None
   | Some f \<Rightarrow> if FMODE_PATH (f_mode (files s f)) then None else Some f)"

definition fdget :: "u32 \<Rightarrow> fs_state \<Rightarrow> nat option \<times> fs_state" where
  "fdget fd s = (case fdlookup s fd of
     None \<Rightarrow> (None, s)
   | Some f \<Rightarrow> (Some f, s\<lparr>file_refs := (file_refs s)(f := file_refs s f + 1)\<rparr>))"

definition fdget_raw :: "u32 \<Rightarrow> fs_state \<Rightarrow> nat option \<times> fs_state" where
  "fdget_raw fd s = (case fdtable s fd of
     None \<Rightarrow> (None, s)
   | Some f \<Rightarrow> (Some f, s\<lparr>file_refs := (file_refs s)(f := file_refs s f + 1)\<rparr>))"

definition fdput :: "nat \<Rightarrow> fs_state \<Rightarrow> fs_state" where
  "fdput f s = s\<lparr>file_refs := (file_refs s)(f := file_refs s f - 1)\<rparr>"

text \<open>
  The calls that use the position of a file look it up with \<^verbatim>\<open>fdget_pos\<close>, which also takes the lock of the position
  of a file with \<^verbatim>\<open>FMODE_ATOMIC_POS\<close>. It may leave the lock out for a file that nobody shares, which makes no
  difference to a single caller.
\<close>

definition lock_pos :: "nat \<Rightarrow> int \<Rightarrow> fs_state \<Rightarrow> fs_state" where
  "lock_pos f d s = s\<lparr>pos_locks := (pos_locks s)(f := pos_locks s f + (if FMODE_ATOMIC_POS (f_mode (files s f)) then d else 0))\<rparr>"

definition fdget_pos :: "u32 \<Rightarrow> fs_state \<Rightarrow> nat option \<times> fs_state" where
  "fdget_pos fd s = (case fdget fd s of (None, s) \<Rightarrow> (None, s) | (Some f, s) \<Rightarrow> (Some f, lock_pos f 1 s))"

definition fdput_pos :: "nat \<Rightarrow> fs_state \<Rightarrow> fs_state" where
  "fdput_pos f s = fdput f (lock_pos f (- 1) s)"

abbreviation (input) SEEK_SET :: int where "SEEK_SET \<equiv> 0"
abbreviation (input) SEEK_CUR :: int where "SEEK_CUR \<equiv> 1"
abbreviation (input) SEEK_END :: int where "SEEK_END \<equiv> 2"
abbreviation (input) SEEK_DATA :: int where "SEEK_DATA \<equiv> 3"
abbreviation (input) SEEK_HOLE :: int where "SEEK_HOLE \<equiv> 4"
abbreviation (input) SEEK_MAX :: int where "SEEK_MAX \<equiv> 4"
abbreviation (input) OFFSET_MAX :: loff where "OFFSET_MAX \<equiv> 0x7fffffffffffffff"

definition unsigned_offsets :: "struct_file \<Rightarrow> bool" where
  "unsigned_offsets f = FMODE_UNSIGNED_OFFSET (f_mode f)"


section \<open>Seeking\<close>

text \<open>A negative result is an error number.\<close>

definition vfs_setpos :: "nat \<Rightarrow> loff \<Rightarrow> loff \<Rightarrow> fs_state \<Rightarrow> loff \<times> fs_state" where
  "vfs_setpos f off maxsize s =
     (if sint off < 0 \<and> \<not> unsigned_offsets (files s f) then (- of_int EINVAL, s)
      else if sint off > sint maxsize then (- of_int EINVAL, s)
      else (off, if off \<noteq> f_pos (files s f) then upd_file f (\<lambda>x. x\<lparr>f_pos := off, f_version := 0\<rparr>) s else s))"

definition generic_file_llseek_size ::
  "nat \<Rightarrow> loff \<Rightarrow> int \<Rightarrow> loff \<Rightarrow> loff \<Rightarrow> fs_state \<Rightarrow> loff \<times> fs_state" where
  "generic_file_llseek_size f off whence maxsize eof s =
     (if whence = SEEK_END then vfs_setpos f (off + eof) maxsize s
      else if whence = SEEK_CUR then
        if off = 0 then (f_pos (files s f), s) else vfs_setpos f (f_pos (files s f) + off) maxsize s
      else if whence = SEEK_DATA then
        if off \<ge> eof then (- of_int ENXIO, s) else vfs_setpos f off maxsize s
      else if whence = SEEK_HOLE then
        if off \<ge> eof then (- of_int ENXIO, s) else vfs_setpos f eof maxsize s
      else vfs_setpos f off maxsize s)"

definition generic_file_llseek :: "nat \<Rightarrow> loff \<Rightarrow> int \<Rightarrow> fs_state \<Rightarrow> loff \<times> fs_state" where
  "generic_file_llseek f off whence s =
     generic_file_llseek_size f off whence (s_maxbytes (host_of s f)) (i_size (host_of s f)) s"

definition fixed_size_llseek :: "nat \<Rightarrow> loff \<Rightarrow> int \<Rightarrow> loff \<Rightarrow> fs_state \<Rightarrow> loff \<times> fs_state" where
  "fixed_size_llseek f off whence sz s =
     (if whence = SEEK_SET \<or> whence = SEEK_CUR \<or> whence = SEEK_END
      then generic_file_llseek_size f off whence sz sz s
      else (- of_int EINVAL, s))"

definition no_seek_end_llseek :: "nat \<Rightarrow> loff \<Rightarrow> int \<Rightarrow> fs_state \<Rightarrow> loff \<times> fs_state" where
  "no_seek_end_llseek f off whence s =
     (if whence = SEEK_SET \<or> whence = SEEK_CUR then generic_file_llseek_size f off whence OFFSET_MAX 0 s
      else (- of_int EINVAL, s))"

definition no_seek_end_llseek_size :: "nat \<Rightarrow> loff \<Rightarrow> int \<Rightarrow> loff \<Rightarrow> fs_state \<Rightarrow> loff \<times> fs_state" where
  "no_seek_end_llseek_size f off whence sz s =
     (if whence = SEEK_SET \<or> whence = SEEK_CUR then generic_file_llseek_size f off whence sz 0 s
      else (- of_int EINVAL, s))"

definition noop_llseek :: "nat \<Rightarrow> loff \<Rightarrow> int \<Rightarrow> fs_state \<Rightarrow> loff \<times> fs_state" where
  "noop_llseek f off whence s = (f_pos (files s f), s)"

definition default_llseek :: "nat \<Rightarrow> loff \<Rightarrow> int \<Rightarrow> fs_state \<Rightarrow> loff \<times> fs_state" where
  "default_llseek f off whence s =
     (let fin = (\<lambda>off.
            if sint off \<ge> 0 \<or> unsigned_offsets (files s f)
            then (off, if off \<noteq> f_pos (files s f) then upd_file f (\<lambda>x. x\<lparr>f_pos := off, f_version := 0\<rparr>) s else s)
            else (- of_int EINVAL, s))
      in if whence = SEEK_END then fin (off + i_size (inode_of s f))
         else if whence = SEEK_CUR then
           if off = 0 then (f_pos (files s f), s) else fin (off + f_pos (files s f))
         else if whence = SEEK_DATA then
           if sint off \<ge> sint (i_size (inode_of s f)) then (- of_int ENXIO, s) else fin off
         else if whence = SEEK_HOLE then
           if sint off \<ge> sint (i_size (inode_of s f)) then (- of_int ENXIO, s) else fin (i_size (inode_of s f))
         else fin off)"

definition vfs_llseek :: "fs_env \<Rightarrow> nat \<Rightarrow> loff \<Rightarrow> int \<Rightarrow> fs_state \<Rightarrow> loff \<times> fs_state" where
  "vfs_llseek E f off whence s =
     (if \<not> FMODE_LSEEK (f_mode (files s f)) then (- of_int ESPIPE, s)
      else case op_llseek (files s f) of
        Generic_file_llseek \<Rightarrow> generic_file_llseek f off whence s
      | Fixed_size_llseek sz \<Rightarrow> fixed_size_llseek f off whence sz s
      | No_seek_end_llseek \<Rightarrow> no_seek_end_llseek f off whence s
      | No_seek_end_llseek_size sz \<Rightarrow> no_seek_end_llseek_size f off whence sz s
      | Noop_llseek \<Rightarrow> noop_llseek f off whence s
      | Default_llseek \<Rightarrow> default_llseek f off whence s
      | Fs_llseek \<Rightarrow> fs_llseek E f off whence s
      | No_llseek \<Rightarrow> (0, s\<lparr>stuck := True\<rparr>))"

definition ksys_lseek :: "fs_env \<Rightarrow> u32 \<Rightarrow> loff \<Rightarrow> u32 \<Rightarrow> fs_state \<Rightarrow> int \<times> fs_state" where
  "ksys_lseek E fd off whence s =
     (case fdget_pos fd s of
        (None, s) \<Rightarrow> (- EBADF, s)
      | (Some f, s) \<Rightarrow>
        (case (if uint whence \<le> SEEK_MAX
               then (case vfs_llseek E f off (uint whence) s of (res, s) \<Rightarrow> (sint res, s))
               else (- EINVAL, s)) of
           (retval, s) \<Rightarrow> (retval, fdput_pos f s)))"

definition sys_lseek :: "fs_env \<Rightarrow> u32 \<Rightarrow> loff \<Rightarrow> u32 \<Rightarrow> fs_state \<Rightarrow> int \<times> fs_state" where
  "sys_lseek E fd off whence s = ksys_lseek E fd off whence s"

definition compat_sys_lseek :: "fs_env \<Rightarrow> u32 \<Rightarrow> u32 \<Rightarrow> u32 \<Rightarrow> fs_state \<Rightarrow> int \<times> fs_state" where
  "compat_sys_lseek E fd off whence s = ksys_lseek E fd (of_int (sint off)) whence s"

definition sys_llseek ::
  "fs_env \<Rightarrow> uaccess \<Rightarrow> u32 \<Rightarrow> ulong \<Rightarrow> ulong \<Rightarrow> addr \<Rightarrow> u32 \<Rightarrow> fs_state \<Rightarrow> int \<times> fs_state" where
  "sys_llseek E U fd offset_high offset_low res_at whence s =
     (case fdget_pos fd s of
        (None, s) \<Rightarrow> (- EBADF, s)
      | (Some f, s) \<Rightarrow>
        (case (if uint whence > SEEK_MAX then (- EINVAL, s)
               else case vfs_llseek E f (or (push_bit 32 offset_high) offset_low) (uint whence) s of (off, s) \<Rightarrow>
                 if sint off \<ge> 0 then
                   (case copy_to_user U (fs_mem s) res_at (enc_ulong off) of (m, left) \<Rightarrow>
                      (if left = 0 then 0 else - EFAULT, s\<lparr>fs_mem := m\<rparr>))
                 else (sint (ucast off :: u32), s)) of
           (retval, s) \<Rightarrow> (retval, fdput_pos f s)))"


section \<open>Checks before a transfer\<close>

text \<open>\<open>wr\<close> says whether the transfer is a write.\<close>

definition rw_verify_area :: "fs_env \<Rightarrow> bool \<Rightarrow> nat \<Rightarrow> loff option \<Rightarrow> ulong \<Rightarrow> fs_state \<Rightarrow> int" where
  "rw_verify_area E wr f ppos cnt s =
     (if sint cnt < 0 then - EINVAL
      else
        (let bad = (case ppos of
               None \<Rightarrow> 0
             | Some pos \<Rightarrow>
               if sint pos < 0 then
                 if \<not> unsigned_offsets (files s f) then - EINVAL
                 else if cnt \<ge> - pos then - EOVERFLOW else 0
               else if sint (pos + cnt) < 0 then
                 if \<not> unsigned_offsets (files s f) then - EINVAL else 0
               else 0)
         in if bad \<noteq> 0 then bad
            else
              (let ret = security_file_permission E f wr in
               if ret \<noteq> 0 then ret else fsnotify_file_area_perm E f wr ppos cnt)))"

section \<open>Signed sums\<close>

text \<open>A sum of offsets is exact, or it wraps to the other sign.\<close>

lemma sint_range_64: "- (2 ^ 63) \<le> sint (a :: loff)" "sint (a :: loff) < 2 ^ 63"
  using sint_ge [of a] sint_lt [of a] by simp_all

lemma sint_of_int_64: "- (2 ^ 63) \<le> n \<Longrightarrow> n < 2 ^ 63 \<Longrightarrow> sint (of_int n :: loff) = n"
  using int_word_sint [where 'a = 64, of n] by simp

lemma sint_add_64:
  "sint (a + b :: loff) =
     (if 2 ^ 63 \<le> sint a + sint b then sint a + sint b - 2 ^ 64
      else if sint a + sint b < - (2 ^ 63) then sint a + sint b + 2 ^ 64
      else sint a + sint b)"
proof -
  let ?n = "sint a + sint b"
  have key: "sint (a + b) = m" if "of_int m = a + b" "- (2 ^ 63) \<le> m" "m < 2 ^ 63" for m
    using sint_of_int_64 [of m] that by metis
  have "of_int ?n = a + b" "of_int (?n - 2 ^ 64) = a + b" "of_int (?n + 2 ^ 64) = a + b"
    by simp_all
  from key [OF this(1)] key [OF this(2)] key [OF this(3)] show ?thesis
    using sint_range_64 [of a] sint_range_64 [of b] by (simp split: if_splits)
qed

lemma sint_add_exact: "- (2 ^ 63) \<le> sint a + sint b \<Longrightarrow> sint a + sint b < 2 ^ 63
    \<Longrightarrow> sint (a + b :: loff) = sint a + sint b"
  by (simp add: sint_add_64)

lemma unat_neg_64:
  assumes "a \<noteq> 0"
  shows "unat (- a :: loff) = 2 ^ 64 - unat a"
proof -
  have "unat a \<le> 2 ^ 64" using unat_word64_lt [of a] by simp
  moreover have "of_nat (2 ^ 64 - unat a) = (- a :: loff)"
    using calculation by (simp only: of_nat_diff) simp
  moreover have "2 ^ 64 - unat a < 2 ^ 64" using assms by (simp add: unat_gt_0)
  ultimately show ?thesis using of_nat_inverse [of "2 ^ 64 - unat a" "- a"] by simp
qed

lemma sint_errno: "0 < e \<Longrightarrow> e < 4096 \<Longrightarrow> sint (- of_int e :: loff) = - e"
  using sint_of_int_64 [of "- e"] by simp

lemma sint_zero_iff: "sint (a :: loff) = 0 \<longleftrightarrow> a = 0"
proof
  assume "sint a = 0"
  then have "(of_int (sint a) :: loff) = of_int 0" by (simp only:)
  then show "a = 0" by simp
qed simp

text \<open>Compared as unsigned numbers, a negative offset lies beyond every file.\<close>

lemma beyond_eof: "0 \<le> sint eof \<Longrightarrow> (eof \<le> (off :: loff)) \<longleftrightarrow> sint off < 0 \<or> sint eof \<le> sint off"
  unfolding sint_64 word_le_nat_alt using unat_word64_lt [of eof] unat_word64_lt [of off]
  by (auto simp del: of_nat_unat split: if_splits)

section \<open>What a seek promises\<close>

text \<open>
  The specification is over unbounded integers: which position a seek asks for, and which error
  it deserves. \<open>limit\<close> is the largest position of the file.
\<close>

definition seek_check :: "int \<Rightarrow> int \<Rightarrow> int + int" where
  "seek_check limit t = (if 0 \<le> t \<and> t \<le> limit then Inr t else Inl EINVAL)"

definition seek_spec :: "int \<Rightarrow> int \<Rightarrow> int \<Rightarrow> int \<Rightarrow> int \<Rightarrow> int + int" where
  "seek_spec limit eof pos off whence =
     (if whence = SEEK_END then seek_check limit (eof + off)
      else if whence = SEEK_CUR then if off = 0 then Inr pos else seek_check limit (pos + off)
      else if whence = SEEK_DATA then if 0 \<le> off \<and> off < eof then seek_check limit off else Inl ENXIO
      else if whence = SEEK_HOLE then if 0 \<le> off \<and> off < eof then seek_check limit eof else Inl ENXIO
      else seek_check limit off)"

definition move_to :: "nat \<Rightarrow> loff \<Rightarrow> fs_state \<Rightarrow> fs_state" where
  "move_to f p s = upd_file f (\<lambda>x. x\<lparr>f_pos := p, f_version := (if p = f_pos x then f_version x else 0)\<rparr>) s"

definition apply_seek :: "nat \<Rightarrow> int + int \<Rightarrow> fs_state \<Rightarrow> loff \<times> fs_state" where
  "apply_seek f r s = (case r of Inl e \<Rightarrow> (- of_int e, s) | Inr t \<Rightarrow> (of_int t, move_to f (of_int t) s))"

lemma move_to_if: "(if p \<noteq> f_pos (files s f) then upd_file f (\<lambda>x. x\<lparr>f_pos := p, f_version := 0\<rparr>) s else s)
    = move_to f p s"
  by (simp add: move_to_def upd_file_def)

lemma move_to_same [simp]: "move_to f (f_pos (files s f)) s = s"
  using move_to_if [of "f_pos (files s f)" s f] by simp

lemma apply_seek_check:
  assumes "- (2 ^ 64) < t" "t < 2 ^ 64" "limit < 2 ^ 63" "\<not> (0 \<le> t \<and> t < 2 ^ 63) \<Longrightarrow> sint p < 0"
    and "0 \<le> t \<Longrightarrow> t < 2 ^ 63 \<Longrightarrow> sint p = t"
  shows "apply_seek f (seek_check limit t) s =
    (if sint p < 0 \<or> limit < sint p then (- of_int EINVAL, s) else (p, move_to f p s))"
proof (cases "0 \<le> t \<and> t < 2 ^ 63")
  case True
  then have t: "t = sint p" using assms(5) by simp
  show ?thesis using True unfolding t by (auto simp: apply_seek_def seek_check_def)
next
  case False
  with assms show ?thesis by (auto simp: apply_seek_def seek_check_def)
qed

lemma apply_seek_sum:
  fixes a off limit :: loff
  assumes "0 \<le> sint a"
  shows "apply_seek f (seek_check (sint limit) (sint a + sint off)) s =
    (if sint (a + off) < 0 \<or> sint limit < sint (a + off) then (- of_int EINVAL, s)
     else (a + off, move_to f (a + off) s))"
  by (rule apply_seek_check)
    (use assms sint_range_64 [of a] sint_range_64 [of off] sint_range_64 [of limit] in \<open>auto simp: sint_add_64\<close>)

lemma apply_seek_here:
  fixes a limit :: loff
  shows "apply_seek f (seek_check (sint limit) (sint a)) s =
    (if sint a < 0 \<or> sint limit < sint a then (- of_int EINVAL, s) else (a, move_to f a s))"
  by (simp add: apply_seek_def seek_check_def)

lemma vfs_setpos_signed:
  "\<not> unsigned_offsets (files s f) \<Longrightarrow> vfs_setpos f off limit s =
    (if sint off < 0 \<or> sint limit < sint off then (- of_int EINVAL, s) else (off, move_to f off s))"
  by (simp add: vfs_setpos_def move_to_if [symmetric])

lemma generic_seek_refines:
  assumes "\<not> unsigned_offsets (files s f)" "0 \<le> sint (f_pos (files s f))" "0 \<le> sint eof"
  shows "generic_file_llseek_size f off whence limit eof s =
    apply_seek f (seek_spec (sint limit) (sint eof) (sint (f_pos (files s f))) (sint off) whence) s"
proof -
  note defs = generic_file_llseek_size_def seek_spec_def vfs_setpos_signed [OF assms(1)]
  consider "whence = SEEK_END" | "whence = SEEK_CUR" | "whence = SEEK_DATA" | "whence = SEEK_HOLE"
    | "whence \<notin> {SEEK_END, SEEK_CUR, SEEK_DATA, SEEK_HOLE}" by auto
  then show ?thesis
  proof cases
    case 1
    then show ?thesis by (simp add: defs apply_seek_sum [OF assms(3)] add.commute)
  next
    case 2
    then show ?thesis by (simp add: defs apply_seek_sum [OF assms(2)] sint_zero_iff) (simp add: apply_seek_def)
  next
    case 3
    then show ?thesis
      by (simp add: defs apply_seek_here beyond_eof [OF assms(3)]) (auto simp: apply_seek_def)
  next
    case 4
    then show ?thesis
      by (simp add: defs apply_seek_here beyond_eof [OF assms(3)]) (auto simp: apply_seek_def)
  next
    case 5
    then show ?thesis by (simp add: defs apply_seek_here)
  qed
qed

lemma fdlookup_refs [simp]: "fdlookup (s\<lparr>file_refs := x\<rparr>) fd = fdlookup s fd"
  by (simp add: fdlookup_def split: option.splits)

text \<open>The state in which a call on the file runs, and what the lookup leaves alone.\<close>

abbreviation (input) taken :: "nat \<Rightarrow> fs_state \<Rightarrow> fs_state" where
  "taken f s \<equiv> s\<lparr>file_refs := (file_refs s)(f := file_refs s f + 1)\<rparr>"

lemma lock_pos_fields [simp]:
  "files (lock_pos f d s) = files s" "inodes (lock_pos f d s) = inodes s" "fdtable (lock_pos f d s) = fdtable s"
  "file_refs (lock_pos f d s) = file_refs s" "file_writers (lock_pos f d s) = file_writers s" "fs_mem (lock_pos f d s) = fs_mem s"
  "kbuf (lock_pos f d s) = kbuf s" "rchar (lock_pos f d s) = rchar s" "wchar (lock_pos f d s) = wchar s"
  "syscr (lock_pos f d s) = syscr s" "syscw (lock_pos f d s) = syscw s" "fs_events (lock_pos f d s) = fs_events s"
  "tracking (lock_pos f d s) = tracking s" "clock (lock_pos f d s) = clock s" "stuck (lock_pos f d s) = stuck s"
  by (simp_all add: lock_pos_def)

lemma fdget_pos_some: "fdlookup s fd = Some f \<Longrightarrow> fdget_pos fd s = (Some f, lock_pos f 1 (taken f s))"
  and fdget_pos_none: "fdlookup s fd = None \<Longrightarrow> fdget_pos fd s = (None, s)"
  by (simp_all add: fdget_pos_def fdget_def)

lemma fdput_move: "fdput_pos f (move_to f p (lock_pos f 1 (taken f s))) = move_to f p s"
  by (simp add: fdput_pos_def fdput_def lock_pos_def move_to_def upd_file_def)

lemma fdput_same: "fdput_pos f (lock_pos f 1 (taken f s)) = s"
  by (simp add: fdput_pos_def fdput_def lock_pos_def)

lemma seek_spec_range:
  assumes "seek_spec limit eof pos off w = Inr t" "0 \<le> pos" "pos < 2 ^ 63" "limit < 2 ^ 63"
  shows "0 \<le> t" and "t < 2 ^ 63"
  using assms unfolding seek_spec_def seek_check_def by (auto split: if_splits)

lemma seek_spec_errno: "seek_spec limit eof pos off w = Inl e \<Longrightarrow> e = EINVAL \<or> e = ENXIO"
  unfolding seek_spec_def seek_check_def by (auto split: if_splits)

lemma ksys_lseek_generic:
  assumes "fdlookup s fd = Some f" "op_llseek (files s f) = Generic_file_llseek"
    and "FMODE_LSEEK (f_mode (files s f))" "\<not> unsigned_offsets (files s f)"
    and pos: "0 \<le> sint (f_pos (files s f))" "0 \<le> sint (i_size (host_of s f))" "uint whence \<le> SEEK_MAX"
  shows "ksys_lseek E fd off whence s =
    (case seek_spec (sint (s_maxbytes (host_of s f))) (sint (i_size (host_of s f)))
            (sint (f_pos (files s f))) (sint off) (uint whence) of
       Inl e \<Rightarrow> (- e, s) | Inr t \<Rightarrow> (t, move_to f (of_int t) s))"
proof -
  let ?s = "lock_pos f 1 (taken f s)"
  let ?r = "seek_spec (sint (s_maxbytes (host_of s f))) (sint (i_size (host_of s f)))
            (sint (f_pos (files s f))) (sint off) (uint whence)"
  have host: "host_of ?s f = host_of s f" by (simp add: host_of_def)
  have "vfs_llseek E f off (uint whence) ?s = apply_seek f ?r ?s"
    using generic_seek_refines [of ?s f "i_size (host_of s f)" off "uint whence" "s_maxbytes (host_of s f)"] assms
    by (simp add: vfs_llseek_def generic_file_llseek_def host)
  then have eq: "ksys_lseek E fd off whence s =
      (case apply_seek f ?r ?s of (res, u) \<Rightarrow> (sint res, fdput_pos f u))"
    using assms by (simp add: ksys_lseek_def fdget_pos_some split: prod.splits)
  show ?thesis
  proof (cases ?r)
    case (Inl e)
    then show ?thesis
      using seek_spec_errno [OF Inl] by (auto simp: eq apply_seek_def fdput_same)
  next
    case (Inr t)
    then show ?thesis
      using seek_spec_range [OF Inr pos(1)] sint_range_64 sint_of_int_64 [of t]
      by (simp add: eq apply_seek_def fdput_move)
  qed
qed

text \<open>
  \<^verbatim>\<open>default_llseek\<close> has no limit but the range of an offset, and compares offsets with a sign: a
  negative one is before the end of the file, so that \<^verbatim>\<open>SEEK_HOLE\<close> from it finds the end.
\<close>

lemma default_llseek_refines:
  assumes "\<not> unsigned_offsets (files s f)" "0 \<le> sint (f_pos (files s f))" "0 \<le> sint (i_size (inode_of s f))"
    and w: "whence \<in> {SEEK_SET, SEEK_CUR, SEEK_END}"
  shows "default_llseek f off whence s =
    apply_seek f (seek_spec (sint OFFSET_MAX) (sint (i_size (inode_of s f))) (sint (f_pos (files s f))) (sint off) whence) s"
proof -
  have top: "\<not> 9223372036854775807 < sint (p :: loff)" for p using sint_range_64 [of p] by simp
  have here: "apply_seek f (seek_check 9223372036854775807 (sint p)) s =
      (if sint p < 0 then (- of_int EINVAL, s) else (p, move_to f p s))" for p :: loff
    using apply_seek_here [of f OFFSET_MAX p s] by (simp add: top)
  have sum: "apply_seek f (seek_check 9223372036854775807 (sint p + sint off)) s =
      (if sint (p + off) < 0 then (- of_int EINVAL, s) else (p + off, move_to f (p + off) s))"
    if "0 \<le> sint p" for p :: loff
    using apply_seek_sum [OF that, of f OFFSET_MAX off s] by (simp add: top)
  note defs = default_llseek_def seek_spec_def Let_def move_to_if [unfolded if_not_P] not_le
  consider "whence = SEEK_END" | "whence = SEEK_CUR" | "whence = SEEK_SET" using w by auto
  then show ?thesis
  proof cases
    case 1
    then show ?thesis
      using assms(1) by (simp add: defs sum [OF assms(3)] add.commute [of off])
  next
    case 2
    then show ?thesis
      using assms(1) by (simp add: defs sum [OF assms(2)] sint_zero_iff add.commute [of off])
        (simp add: apply_seek_def move_to_def upd_file_def)
  next
    case 3
    then show ?thesis using assms(1) by (simp add: defs here)
  qed
qed

section \<open>Positions\<close>

text \<open>A transfer that the check lets through does not wrap: not as a signed range, and for a file
  with unsigned offsets not as an unsigned one.\<close>

lemma rw_verify_area_no_wrap:
  assumes "0 \<le> rw_verify_area E wr f (Some pos) cnt s"
  shows "0 \<le> sint cnt" and "unat pos + unat cnt < 2 ^ 64"
    and "\<not> unsigned_offsets (files s f) \<Longrightarrow> 0 \<le> sint pos \<and> sint pos + sint cnt < 2 ^ 63"
proof -
  from assms show c: "0 \<le> sint cnt"
    by (simp add: rw_verify_area_def split: if_splits)
  have neg: "sint pos < 0 \<Longrightarrow> unsigned_offsets (files s f) \<and> cnt < - pos"
    using assms c by (auto simp: rw_verify_area_def Let_def not_le split: if_splits)
  have pos: "0 \<le> sint pos \<Longrightarrow> \<not> unsigned_offsets (files s f) \<Longrightarrow> 0 \<le> sint (pos + cnt)"
    using assms c by (auto simp: rw_verify_area_def Let_def not_le split: if_splits)
  have "unat (- pos) = 2 ^ 64 - unat pos" if "sint pos < 0"
    using that by (intro unat_neg_64) auto
  then show "unat pos + unat cnt < 2 ^ 64"
    using neg c unat_word64_lt [of pos] unat_word64_lt [of cnt]
    by (cases "sint pos < 0") (auto simp: sint_64 word_less_nat_alt simp del: of_nat_unat split: if_splits)
  show "0 \<le> sint pos \<and> sint pos + sint cnt < 2 ^ 63" if "\<not> unsigned_offsets (files s f)"
    using that neg pos sint_range_64 [of pos] sint_range_64 [of cnt] by (cases "sint pos < 0") (auto simp: sint_add_64 split: if_splits)
qed

text \<open>
  A position is valid when it is not negative, or when the file reads its offsets as unsigned. A
  seek changes the position of its file and nothing else, and keeps it valid.
\<close>

definition pos_ok :: "struct_file \<Rightarrow> bool" where
  "pos_ok x \<longleftrightarrow> unsigned_offsets x \<or> 0 \<le> sint (f_pos x)"

definition sought :: "nat \<Rightarrow> fs_state \<Rightarrow> fs_state \<Rightarrow> bool" where
  "sought f s t \<longleftrightarrow> (\<exists>p v. t = upd_file f (\<lambda>x. x\<lparr>f_pos := p, f_version := v\<rparr>) s
     \<and> (pos_ok (files s f) \<longrightarrow> pos_ok (files t f)))"

lemma sought_same: "sought f s s"
  unfolding sought_def upd_file_def by (intro exI [of _ "f_pos (files s f)"] exI [of _ "f_version (files s f)"]) simp

lemma sought_move:
  assumes "0 \<le> sint p \<or> unsigned_offsets (files s f)"
  shows "sought f s (upd_file f (\<lambda>x. x\<lparr>f_pos := p, f_version := 0\<rparr>) s)"
  unfolding sought_def using assms by (auto simp: pos_ok_def unsigned_offsets_def upd_file_def)

lemma vfs_setpos_sought: "vfs_setpos f off limit s = (r, t) \<Longrightarrow> sought f s t"
  unfolding vfs_setpos_def by (auto simp: not_less intro: sought_same sought_move split: if_splits)

lemma generic_sought: "generic_file_llseek_size f off w limit eof s = (r, t) \<Longrightarrow> sought f s t"
  unfolding generic_file_llseek_size_def
  by (auto intro: sought_same dest: vfs_setpos_sought split: if_splits)

lemma default_sought: "default_llseek f off w s = (r, t) \<Longrightarrow> sought f s t"
  unfolding default_llseek_def Let_def by (auto intro: sought_same sought_move split: if_splits)

text \<open>What opening a file establishes: it is only marked seekable when it has a seek operation.\<close>

definition file_wf :: "struct_file \<Rightarrow> bool" where
  "file_wf x \<longleftrightarrow> (FMODE_LSEEK (f_mode x) \<longrightarrow> op_llseek x \<noteq> No_llseek)"

locale fs_seek =
  fixes E :: fs_env
  assumes llseek_law: "\<And>f off w s r t. fs_llseek E f off w s = (r, t) \<Longrightarrow> sought f s t"
begin

lemma vfs_llseek_sought: "vfs_llseek E f off w s = (r, t) \<Longrightarrow> file_wf (files s f) \<Longrightarrow> sought f s t"
  unfolding file_wf_def vfs_llseek_def generic_file_llseek_def fixed_size_llseek_def no_seek_end_llseek_def
    no_seek_end_llseek_size_def noop_llseek_def
  by (auto intro: sought_same dest: generic_sought default_sought llseek_law split: if_splits seek_op.splits)

end

end
