(* ===== verification/Fs_Read_Write.thy ===== *)
theory Fs_Read_Write
  imports Fs_Files
begin

text \<open>
  Reading and writing: lines 385 to 1225 of \<^verbatim>\<open>fs/read_write.c\<close>, from the transfers that kernel code
  asks for to the system calls, with the calls of \<^verbatim>\<open>track_syscall\<close> that were added to \<^verbatim>\<open>read\<close> and
  \<^verbatim>\<open>write\<close>. A position is passed as an option, \<open>None\<close> for a null pointer, and returned as the code
  leaves it.
\<close>

section \<open>Calls into the rest of the kernel\<close>

text \<open>Accounting, notification and write protection are recorded in the state.\<close>

definition fsnotify_access :: "nat \<Rightarrow> fs_state \<Rightarrow> fs_state" where
  "fsnotify_access f s = s\<lparr>fs_events := fs_events s @ [Fsnotify_access f]\<rparr>"

definition fsnotify_modify :: "nat \<Rightarrow> fs_state \<Rightarrow> fs_state" where
  "fsnotify_modify f s = s\<lparr>fs_events := fs_events s @ [Fsnotify_modify f]\<rparr>"

definition add_rchar :: "int \<Rightarrow> fs_state \<Rightarrow> fs_state" where
  "add_rchar n s = s\<lparr>rchar := rchar s + of_int n\<rparr>"

definition add_wchar :: "int \<Rightarrow> fs_state \<Rightarrow> fs_state" where
  "add_wchar n s = s\<lparr>wchar := wchar s + of_int n\<rparr>"

definition inc_syscr :: "fs_state \<Rightarrow> fs_state" where
  "inc_syscr s = s\<lparr>syscr := syscr s + 1\<rparr>"

definition inc_syscw :: "fs_state \<Rightarrow> fs_state" where
  "inc_syscw s = s\<lparr>syscw := syscw s + 1\<rparr>"

definition file_start_write :: "nat \<Rightarrow> fs_state \<Rightarrow> fs_state" where
  "file_start_write f s = s\<lparr>file_writers := (file_writers s)(f := file_writers s f + 1)\<rparr>"

definition file_end_write :: "nat \<Rightarrow> fs_state \<Rightarrow> fs_state" where
  "file_end_write f s = s\<lparr>file_writers := (file_writers s)(f := file_writers s f - 1)\<rparr>"

definition BUG_ON :: "bool \<Rightarrow> fs_state \<Rightarrow> fs_state" where
  "BUG_ON b s = (if b then s\<lparr>stuck := True\<rparr> else s)"

abbreviation (input) EIOCBQUEUED :: int where "EIOCBQUEUED \<equiv> 529"
abbreviation (input) MAX_RW_COUNT :: ulong where "MAX_RW_COUNT \<equiv> 0x7ffff000"
abbreviation (input) RWF_HIPRI :: u32 where "RWF_HIPRI \<equiv> 1"

definition or_zero :: "loff option \<Rightarrow> loff" where
  "or_zero ppos = (case ppos of None \<Rightarrow> 0 | Some p \<Rightarrow> p)"

definition put_pos :: "loff option \<Rightarrow> loff \<Rightarrow> loff option" where
  "put_pos ppos p = map_option (\<lambda>_. p) ppos"


section \<open>Transfers\<close>

definition one_seg :: "bool \<Rightarrow> addr \<Rightarrow> ulong \<Rightarrow> iov_iter" where
  "one_seg kern buf n = \<lparr>iter_kernel = kern, iter_count = n, iter_segs = [(buf, n)]\<rparr>"

definition sync_kiocb :: "fs_env \<Rightarrow> nat \<Rightarrow> loff option \<Rightarrow> fs_state \<Rightarrow> kiocb" where
  "sync_kiocb E f ppos s = (init_sync_kiocb E f (files s f))\<lparr>ki_pos := or_zero ppos\<rparr>"

definition new_sync_read ::
  "fs_env \<Rightarrow> nat \<Rightarrow> addr \<Rightarrow> ulong \<Rightarrow> loff option \<Rightarrow> fs_state \<Rightarrow> int \<times> loff option \<times> fs_state" where
  "new_sync_read E f buf n ppos s =
     (case fs_read_iter E (sync_kiocb E f ppos s) (one_seg False buf n) s of (ret, k, s) \<Rightarrow>
        (ret, put_pos ppos (ki_pos k), BUG_ON (ret = - EIOCBQUEUED) s))"

definition warn_unsupported :: int where
  "warn_unsupported = - EINVAL"

definition kernel_read_unchecked ::
  "fs_env \<Rightarrow> nat \<Rightarrow> addr \<Rightarrow> ulong \<Rightarrow> loff option \<Rightarrow> fs_state \<Rightarrow> int \<times> loff option \<times> fs_state" where
  "kernel_read_unchecked E f buf cnt ppos s =
     (if \<not> FMODE_READ (f_mode (files s f)) then (- EINVAL, ppos, s)
      else if \<not> FMODE_CAN_READ (f_mode (files s f)) then (- EINVAL, ppos, s)
      else if \<not> op_read_iter (files s f) \<or> op_read (files s f) then (warn_unsupported, ppos, s)
      else case fs_read_iter E (sync_kiocb E f ppos s) (one_seg True buf (min cnt MAX_RW_COUNT)) s of
        (ret, k, s) \<Rightarrow>
          if ret > 0
          then (ret, put_pos ppos (ki_pos k), inc_syscr (add_rchar ret (fsnotify_access f s)))
          else (ret, ppos, inc_syscr s))"

definition kernel_read ::
  "fs_env \<Rightarrow> nat \<Rightarrow> addr \<Rightarrow> ulong \<Rightarrow> loff option \<Rightarrow> fs_state \<Rightarrow> int \<times> loff option \<times> fs_state" where
  "kernel_read E f buf cnt ppos s =
     (let ret = rw_verify_area E False f ppos cnt s in
      if ret \<noteq> 0 then (ret, ppos, s) else kernel_read_unchecked E f buf cnt ppos s)"

definition vfs_read ::
  "fs_env \<Rightarrow> uaccess \<Rightarrow> nat \<Rightarrow> addr \<Rightarrow> ulong \<Rightarrow> loff option \<Rightarrow> fs_state \<Rightarrow> int \<times> loff option \<times> fs_state" where
  "vfs_read E U f buf cnt ppos s =
     (if \<not> FMODE_READ (f_mode (files s f)) then (- EBADF, ppos, s)
      else if \<not> FMODE_CAN_READ (f_mode (files s f)) then (- EINVAL, ppos, s)
      else if \<not> access_ok U buf (unat cnt) then (- EFAULT, ppos, s)
      else
        (let ret = rw_verify_area E False f ppos cnt s in
         if ret \<noteq> 0 then (ret, ppos, s)
         else
           (let n = (if cnt > MAX_RW_COUNT then MAX_RW_COUNT else cnt) in
            case (if op_read (files s f) then fs_read E f buf n ppos s
                  else if op_read_iter (files s f) then new_sync_read E f buf n ppos s
                  else (- EINVAL, ppos, s)) of
              (ret, ppos, s) \<Rightarrow>
                (ret, ppos, inc_syscr (if ret > 0 then add_rchar ret (fsnotify_access f s) else s)))))"

definition new_sync_write ::
  "fs_env \<Rightarrow> nat \<Rightarrow> addr \<Rightarrow> ulong \<Rightarrow> loff option \<Rightarrow> fs_state \<Rightarrow> int \<times> loff option \<times> fs_state" where
  "new_sync_write E f buf n ppos s =
     (case fs_write_iter E (sync_kiocb E f ppos s) (one_seg False buf n) s of (ret, k, s) \<Rightarrow>
        (ret, if ret > 0 then put_pos ppos (ki_pos k) else ppos, BUG_ON (ret = - EIOCBQUEUED) s))"

definition kernel_write_iter_unchecked ::
  "fs_env \<Rightarrow> nat \<Rightarrow> iov_iter \<Rightarrow> loff option \<Rightarrow> fs_state \<Rightarrow> int \<times> loff option \<times> fs_state" where
  "kernel_write_iter_unchecked E f it ppos s =
     (if \<not> FMODE_WRITE (f_mode (files s f)) then (- EBADF, ppos, s)
      else if \<not> FMODE_CAN_WRITE (f_mode (files s f)) then (- EINVAL, ppos, s)
      else if \<not> op_write_iter (files s f) \<or> op_write (files s f) then (warn_unsupported, ppos, s)
      else case fs_write_iter E (sync_kiocb E f ppos s) it s of
        (ret, k, s) \<Rightarrow>
          if ret > 0
          then (ret, put_pos ppos (ki_pos k), inc_syscw (add_wchar ret (fsnotify_modify f s)))
          else (ret, ppos, inc_syscw s))"

definition kernel_write_unchecked ::
  "fs_env \<Rightarrow> nat \<Rightarrow> addr \<Rightarrow> ulong \<Rightarrow> loff option \<Rightarrow> fs_state \<Rightarrow> int \<times> loff option \<times> fs_state" where
  "kernel_write_unchecked E f buf cnt ppos s =
     kernel_write_iter_unchecked E f (one_seg True buf (min cnt MAX_RW_COUNT)) ppos s"

definition kernel_write ::
  "fs_env \<Rightarrow> nat \<Rightarrow> addr \<Rightarrow> ulong \<Rightarrow> loff option \<Rightarrow> fs_state \<Rightarrow> int \<times> loff option \<times> fs_state" where
  "kernel_write E f buf cnt ppos s =
     (let ret = rw_verify_area E True f ppos cnt s in
      if ret \<noteq> 0 then (ret, ppos, s)
      else case kernel_write_unchecked E f buf cnt ppos (file_start_write f s) of
        (ret, ppos, s) \<Rightarrow> (ret, ppos, file_end_write f s))"

definition vfs_write ::
  "fs_env \<Rightarrow> uaccess \<Rightarrow> nat \<Rightarrow> addr \<Rightarrow> ulong \<Rightarrow> loff option \<Rightarrow> fs_state \<Rightarrow> int \<times> loff option \<times> fs_state" where
  "vfs_write E U f buf cnt ppos s =
     (if \<not> FMODE_WRITE (f_mode (files s f)) then (- EBADF, ppos, s)
      else if \<not> FMODE_CAN_WRITE (f_mode (files s f)) then (- EINVAL, ppos, s)
      else if \<not> access_ok U buf (unat cnt) then (- EFAULT, ppos, s)
      else
        (let ret = rw_verify_area E True f ppos cnt s in
         if ret \<noteq> 0 then (ret, ppos, s)
         else
           (let n = (if cnt > MAX_RW_COUNT then MAX_RW_COUNT else cnt);
                s = file_start_write f s in
            case (if op_write (files s f) then fs_write E f buf n ppos s
                  else if op_write_iter (files s f) then new_sync_write E f buf n ppos s
                  else (- EINVAL, ppos, s)) of
              (ret, ppos, s) \<Rightarrow>
                (ret, ppos, file_end_write f
                   (inc_syscw (if ret > 0 then add_wchar ret (fsnotify_modify f s) else s))))))"


section \<open>System calls with one buffer\<close>

definition file_ppos :: "struct_file \<Rightarrow> loff option" where
  "file_ppos x = (if FMODE_STREAM (f_mode x) then None else Some (f_pos x))"

text \<open>Storing the position a call has ended at, when it succeeded and the file has one.\<close>

definition store_pos :: "nat \<Rightarrow> int \<Rightarrow> loff option \<Rightarrow> fs_state \<Rightarrow> fs_state" where
  "store_pos f ret ppos s =
     (case ppos of Some p \<Rightarrow> if ret \<ge> 0 then upd_file f (\<lambda>x. x\<lparr>f_pos := p\<rparr>) s else s | None \<Rightarrow> s)"

definition ksys_read :: "fs_env \<Rightarrow> uaccess \<Rightarrow> u32 \<Rightarrow> addr \<Rightarrow> ulong \<Rightarrow> fs_state \<Rightarrow> int \<times> fs_state" where
  "ksys_read E U fd buf cnt s =
     (case fdget_pos fd s of
        (None, s) \<Rightarrow> (- EBADF, s)
      | (Some f, s) \<Rightarrow>
        (case vfs_read E U f buf cnt (file_ppos (files s f)) s of
           (ret, ppos, s) \<Rightarrow> (ret, fdput_pos f (store_pos f ret ppos s))))"

text \<open>The numbers of the calls are those of \<^verbatim>\<open>arch/x86/entry/syscalls/syscall_64.tbl\<close>.\<close>

abbreviation (input) NR_read :: int where "NR_read \<equiv> 0"
abbreviation (input) NR_write :: int where "NR_write \<equiv> 1"

definition track :: "int \<Rightarrow> fs_state \<Rightarrow> fs_state" where
  "track nr s = (case track_syscall (clock s) nr (tracking s) of
     None \<Rightarrow> s\<lparr>stuck := True\<rparr>
   | Some tr \<Rightarrow> s\<lparr>tracking := tr\<rparr>)"

definition sys_read :: "fs_env \<Rightarrow> uaccess \<Rightarrow> u32 \<Rightarrow> addr \<Rightarrow> ulong \<Rightarrow> fs_state \<Rightarrow> int \<times> fs_state" where
  "sys_read E U fd buf cnt s = ksys_read E U fd buf cnt (track NR_read s)"

definition ksys_write :: "fs_env \<Rightarrow> uaccess \<Rightarrow> u32 \<Rightarrow> addr \<Rightarrow> ulong \<Rightarrow> fs_state \<Rightarrow> int \<times> fs_state" where
  "ksys_write E U fd buf cnt s =
     (case fdget_pos fd s of
        (None, s) \<Rightarrow> (- EBADF, s)
      | (Some f, s) \<Rightarrow>
        (case vfs_write E U f buf cnt (file_ppos (files s f)) s of
           (ret, ppos, s) \<Rightarrow> (ret, fdput_pos f (store_pos f ret ppos s))))"

definition sys_write :: "fs_env \<Rightarrow> uaccess \<Rightarrow> u32 \<Rightarrow> addr \<Rightarrow> ulong \<Rightarrow> fs_state \<Rightarrow> int \<times> fs_state" where
  "sys_write E U fd buf cnt s = ksys_write E U fd buf cnt (track NR_write s)"

definition ksys_pread64 ::
  "fs_env \<Rightarrow> uaccess \<Rightarrow> u32 \<Rightarrow> addr \<Rightarrow> ulong \<Rightarrow> loff \<Rightarrow> fs_state \<Rightarrow> int \<times> fs_state" where
  "ksys_pread64 E U fd buf cnt pos s =
     (if sint pos < 0 then (- EINVAL, s)
      else case fdget fd s of
        (None, s) \<Rightarrow> (- EBADF, s)
      | (Some f, s) \<Rightarrow>
        (case (if FMODE_PREAD (f_mode (files s f)) then vfs_read E U f buf cnt (Some pos) s
               else (- ESPIPE, Some pos, s)) of
           (ret, _, s) \<Rightarrow> (ret, fdput f s)))"

definition ksys_pwrite64 ::
  "fs_env \<Rightarrow> uaccess \<Rightarrow> u32 \<Rightarrow> addr \<Rightarrow> ulong \<Rightarrow> loff \<Rightarrow> fs_state \<Rightarrow> int \<times> fs_state" where
  "ksys_pwrite64 E U fd buf cnt pos s =
     (if sint pos < 0 then (- EINVAL, s)
      else case fdget fd s of
        (None, s) \<Rightarrow> (- EBADF, s)
      | (Some f, s) \<Rightarrow>
        (case (if FMODE_PWRITE (f_mode (files s f)) then vfs_write E U f buf cnt (Some pos) s
               else (- ESPIPE, Some pos, s)) of
           (ret, _, s) \<Rightarrow> (ret, fdput f s)))"

definition sys_pread64 ::
  "fs_env \<Rightarrow> uaccess \<Rightarrow> u32 \<Rightarrow> addr \<Rightarrow> ulong \<Rightarrow> loff \<Rightarrow> fs_state \<Rightarrow> int \<times> fs_state" where
  "sys_pread64 E U fd buf cnt pos s = ksys_pread64 E U fd buf cnt pos s"

definition sys_pwrite64 ::
  "fs_env \<Rightarrow> uaccess \<Rightarrow> u32 \<Rightarrow> addr \<Rightarrow> ulong \<Rightarrow> loff \<Rightarrow> fs_state \<Rightarrow> int \<times> fs_state" where
  "sys_pwrite64 E U fd buf cnt pos s = ksys_pwrite64 E U fd buf cnt pos s"


section \<open>Transfers over several segments\<close>

definition do_iter_readv_writev ::
  "fs_env \<Rightarrow> nat \<Rightarrow> iov_iter \<Rightarrow> loff option \<Rightarrow> bool \<Rightarrow> u32 \<Rightarrow> fs_state \<Rightarrow> int \<times> loff option \<times> fs_state" where
  "do_iter_readv_writev E f it ppos wr flags s =
     (case kiocb_set_rw_flags E (init_sync_kiocb E f (files s f)) flags of (ret, k) \<Rightarrow>
        if ret \<noteq> 0 then (ret, ppos, s)
        else case (if wr then fs_write_iter E else fs_read_iter E) (k\<lparr>ki_pos := or_zero ppos\<rparr>) it s of
          (ret, k, s) \<Rightarrow> (ret, put_pos ppos (ki_pos k), BUG_ON (ret = - EIOCBQUEUED) s))"

text \<open>
  The loop of \<^verbatim>\<open>do_loop_readv_writev\<close>. Each round uses up the current segment; \<open>n\<close> bounds the
  rounds by the number of segments. The method that is called exists: the callers have tested \<^verbatim>\<open>FMODE_CAN_READ\<close> or
  \<^verbatim>\<open>FMODE_CAN_WRITE\<close>, which \<^verbatim>\<open>do_dentry_open\<close> sets only for a file with one of the two methods, and the other one is absent.
\<close>

fun readv_writev_loop ::
  "fs_env \<Rightarrow> nat \<Rightarrow> nat \<Rightarrow> iov_iter \<Rightarrow> loff option \<Rightarrow> bool \<Rightarrow> int \<Rightarrow> fs_state \<Rightarrow> int \<times> loff option \<times> fs_state" where
  "readv_writev_loop E 0 f it ppos wr ret s =
     (if iter_count it = 0 then (ret, ppos, s) else (ret, ppos, s\<lparr>stuck := True\<rparr>))"
| "readv_writev_loop E (Suc n) f it ppos wr ret s =
     (if iter_count it = 0 then (ret, ppos, s)
      else
        (let (a, l) = iter_iov E it in
         case (if wr then fs_write E else fs_read E) f a l ppos s of (nr, ppos, s) \<Rightarrow>
           if nr < 0 then (if ret = 0 then nr else ret, ppos, s)
           else if nr \<noteq> uint l then (ret + nr, ppos, s)
           else readv_writev_loop E n f (iov_iter_advance E it (of_int nr)) ppos wr (ret + nr) s))"

definition do_loop_readv_writev ::
  "fs_env \<Rightarrow> nat \<Rightarrow> iov_iter \<Rightarrow> loff option \<Rightarrow> bool \<Rightarrow> u32 \<Rightarrow> fs_state \<Rightarrow> int \<times> loff option \<times> fs_state" where
  "do_loop_readv_writev E f it ppos wr flags s =
     (if and flags (not RWF_HIPRI) \<noteq> 0 then (- EOPNOTSUPP, ppos, s)
      else readv_writev_loop E (length (iter_segs it)) f it ppos wr 0 s)"

definition vfs_iocb_iter_read ::
  "fs_env \<Rightarrow> nat \<Rightarrow> kiocb \<Rightarrow> iov_iter \<Rightarrow> fs_state \<Rightarrow> int \<times> kiocb \<times> fs_state" where
  "vfs_iocb_iter_read E f k it s =
     (if \<not> op_read_iter (files s f) then (- EINVAL, k, s)
      else if \<not> FMODE_READ (f_mode (files s f)) then (- EBADF, k, s)
      else if \<not> FMODE_CAN_READ (f_mode (files s f)) then (- EINVAL, k, s)
      else if iter_count it = 0 then (0, k, fsnotify_access f s)
      else
        (let ret = rw_verify_area E False f (Some (ki_pos k)) (iter_count it) s in
         if ret < 0 then (ret, k, s)
         else case fs_read_iter E k it s of (ret, k, s) \<Rightarrow>
           (ret, k, if ret \<ge> 0 then fsnotify_access f s else s)))"

definition vfs_iter_read ::
  "fs_env \<Rightarrow> nat \<Rightarrow> iov_iter \<Rightarrow> loff option \<Rightarrow> u32 \<Rightarrow> fs_state \<Rightarrow> int \<times> loff option \<times> fs_state" where
  "vfs_iter_read E f it ppos flags s =
     (if \<not> op_read_iter (files s f) then (- EINVAL, ppos, s)
      else if \<not> FMODE_READ (f_mode (files s f)) then (- EBADF, ppos, s)
      else if \<not> FMODE_CAN_READ (f_mode (files s f)) then (- EINVAL, ppos, s)
      else if iter_count it = 0 then (0, ppos, fsnotify_access f s)
      else
        (let ret = rw_verify_area E False f ppos (iter_count it) s in
         if ret < 0 then (ret, ppos, s)
         else case do_iter_readv_writev E f it ppos False flags s of (ret, ppos, s) \<Rightarrow>
           (ret, ppos, if ret \<ge> 0 then fsnotify_access f s else s)))"

definition vfs_iocb_iter_write ::
  "fs_env \<Rightarrow> nat \<Rightarrow> kiocb \<Rightarrow> iov_iter \<Rightarrow> fs_state \<Rightarrow> int \<times> kiocb \<times> fs_state" where
  "vfs_iocb_iter_write E f k it s =
     (if \<not> op_write_iter (files s f) then (- EINVAL, k, s)
      else if \<not> FMODE_WRITE (f_mode (files s f)) then (- EBADF, k, s)
      else if \<not> FMODE_CAN_WRITE (f_mode (files s f)) then (- EINVAL, k, s)
      else if iter_count it = 0 then (0, k, s)
      else
        (let ret = rw_verify_area E True f (Some (ki_pos k)) (iter_count it) s in
         if ret < 0 then (ret, k, s)
         else case fs_write_iter E k it (file_start_write (ki_filp k) s) of (ret, k', s) \<Rightarrow>
           (let s = (if ret \<noteq> - EIOCBQUEUED then file_end_write (ki_filp k') s else s) in
            (ret, k', if ret > 0 then fsnotify_modify f s else s))))"

definition vfs_iter_write ::
  "fs_env \<Rightarrow> nat \<Rightarrow> iov_iter \<Rightarrow> loff option \<Rightarrow> u32 \<Rightarrow> fs_state \<Rightarrow> int \<times> loff option \<times> fs_state" where
  "vfs_iter_write E f it ppos flags s =
     (if \<not> FMODE_WRITE (f_mode (files s f)) then (- EBADF, ppos, s)
      else if \<not> FMODE_CAN_WRITE (f_mode (files s f)) then (- EINVAL, ppos, s)
      else if \<not> op_write_iter (files s f) then (- EINVAL, ppos, s)
      else if iter_count it = 0 then (0, ppos, s)
      else
        (let ret = rw_verify_area E True f ppos (iter_count it) s in
         if ret < 0 then (ret, ppos, s)
         else case do_iter_readv_writev E f it ppos True flags (file_start_write f s) of (ret, ppos, s) \<Rightarrow>
           (ret, ppos, file_end_write f (if ret > 0 then fsnotify_modify f s else s))))"

definition vfs_readv ::
  "fs_env \<Rightarrow> nat \<Rightarrow> addr \<Rightarrow> ulong \<Rightarrow> loff option \<Rightarrow> u32 \<Rightarrow> fs_state \<Rightarrow> int \<times> loff option \<times> fs_state" where
  "vfs_readv E f vec vlen ppos flags s =
     (if \<not> FMODE_READ (f_mode (files s f)) then (- EBADF, ppos, s)
      else if \<not> FMODE_CAN_READ (f_mode (files s f)) then (- EINVAL, ppos, s)
      else case import_iovec E (fs_mem s) False vec vlen of (ret, it) \<Rightarrow>
        if ret < 0 then (ret, ppos, s)
        else if iter_count it = 0 then (ret, ppos, fsnotify_access f s)
        else
          (let ret = rw_verify_area E False f ppos (iter_count it) s in
           if ret < 0 then (ret, ppos, s)
           else case (if op_read_iter (files s f) then do_iter_readv_writev E f it ppos False flags s
                      else do_loop_readv_writev E f it ppos False flags s) of (ret, ppos, s) \<Rightarrow>
             (ret, ppos, if ret \<ge> 0 then fsnotify_access f s else s)))"

definition vfs_writev ::
  "fs_env \<Rightarrow> nat \<Rightarrow> addr \<Rightarrow> ulong \<Rightarrow> loff option \<Rightarrow> u32 \<Rightarrow> fs_state \<Rightarrow> int \<times> loff option \<times> fs_state" where
  "vfs_writev E f vec vlen ppos flags s =
     (if \<not> FMODE_WRITE (f_mode (files s f)) then (- EBADF, ppos, s)
      else if \<not> FMODE_CAN_WRITE (f_mode (files s f)) then (- EINVAL, ppos, s)
      else case import_iovec E (fs_mem s) True vec vlen of (ret, it) \<Rightarrow>
        if ret < 0 then (ret, ppos, s)
        else if iter_count it = 0 then (ret, ppos, s)
        else
          (let ret = rw_verify_area E True f ppos (iter_count it) s in
           if ret < 0 then (ret, ppos, s)
           else case (if op_write_iter (files s f)
                      then do_iter_readv_writev E f it ppos True flags (file_start_write f s)
                      else do_loop_readv_writev E f it ppos True flags (file_start_write f s)) of
             (ret, ppos, s) \<Rightarrow> (ret, ppos, file_end_write f (if ret > 0 then fsnotify_modify f s else s))))"


section \<open>System calls with several buffers\<close>

definition count_read :: "int \<Rightarrow> fs_state \<Rightarrow> int \<times> fs_state" where
  "count_read ret s = (ret, inc_syscr (if ret > 0 then add_rchar ret s else s))"

definition count_write :: "int \<Rightarrow> fs_state \<Rightarrow> int \<times> fs_state" where
  "count_write ret s = (ret, inc_syscw (if ret > 0 then add_wchar ret s else s))"

definition do_readv :: "fs_env \<Rightarrow> ulong \<Rightarrow> addr \<Rightarrow> ulong \<Rightarrow> u32 \<Rightarrow> fs_state \<Rightarrow> int \<times> fs_state" where
  "do_readv E fd vec vlen flags s =
     (case fdget_pos (ucast fd) s of
        (None, s) \<Rightarrow> count_read (- EBADF) s
      | (Some f, s) \<Rightarrow>
        (case vfs_readv E f vec vlen (file_ppos (files s f)) flags s of
           (ret, ppos, s) \<Rightarrow> count_read ret (fdput_pos f (store_pos f ret ppos s))))"

definition do_writev :: "fs_env \<Rightarrow> ulong \<Rightarrow> addr \<Rightarrow> ulong \<Rightarrow> u32 \<Rightarrow> fs_state \<Rightarrow> int \<times> fs_state" where
  "do_writev E fd vec vlen flags s =
     (case fdget_pos (ucast fd) s of
        (None, s) \<Rightarrow> count_write (- EBADF) s
      | (Some f, s) \<Rightarrow>
        (case vfs_writev E f vec vlen (file_ppos (files s f)) flags s of
           (ret, ppos, s) \<Rightarrow> count_write ret (fdput_pos f (store_pos f ret ppos s))))"

definition pos_from_hilo :: "ulong \<Rightarrow> ulong \<Rightarrow> loff" where
  "pos_from_hilo high low = or (push_bit 32 (push_bit 32 high)) low"

definition do_preadv :: "fs_env \<Rightarrow> ulong \<Rightarrow> addr \<Rightarrow> ulong \<Rightarrow> loff \<Rightarrow> u32 \<Rightarrow> fs_state \<Rightarrow> int \<times> fs_state" where
  "do_preadv E fd vec vlen pos flags s =
     (if sint pos < 0 then (- EINVAL, s)
      else case fdget (ucast fd) s of
        (None, s) \<Rightarrow> count_read (- EBADF) s
      | (Some f, s) \<Rightarrow>
        (case (if FMODE_PREAD (f_mode (files s f)) then vfs_readv E f vec vlen (Some pos) flags s
               else (- ESPIPE, Some pos, s)) of
           (ret, _, s) \<Rightarrow> count_read ret (fdput f s)))"

definition do_pwritev :: "fs_env \<Rightarrow> ulong \<Rightarrow> addr \<Rightarrow> ulong \<Rightarrow> loff \<Rightarrow> u32 \<Rightarrow> fs_state \<Rightarrow> int \<times> fs_state" where
  "do_pwritev E fd vec vlen pos flags s =
     (if sint pos < 0 then (- EINVAL, s)
      else case fdget (ucast fd) s of
        (None, s) \<Rightarrow> count_write (- EBADF) s
      | (Some f, s) \<Rightarrow>
        (case (if FMODE_PWRITE (f_mode (files s f)) then vfs_writev E f vec vlen (Some pos) flags s
               else (- ESPIPE, Some pos, s)) of
           (ret, _, s) \<Rightarrow> count_write ret (fdput f s)))"

definition sys_readv :: "fs_env \<Rightarrow> ulong \<Rightarrow> addr \<Rightarrow> ulong \<Rightarrow> fs_state \<Rightarrow> int \<times> fs_state" where
  "sys_readv E fd vec vlen s = do_readv E fd vec vlen 0 s"

definition sys_writev :: "fs_env \<Rightarrow> ulong \<Rightarrow> addr \<Rightarrow> ulong \<Rightarrow> fs_state \<Rightarrow> int \<times> fs_state" where
  "sys_writev E fd vec vlen s = do_writev E fd vec vlen 0 s"

definition sys_preadv :: "fs_env \<Rightarrow> ulong \<Rightarrow> addr \<Rightarrow> ulong \<Rightarrow> ulong \<Rightarrow> ulong \<Rightarrow> fs_state \<Rightarrow> int \<times> fs_state" where
  "sys_preadv E fd vec vlen pos_l pos_h s = do_preadv E fd vec vlen (pos_from_hilo pos_h pos_l) 0 s"

definition sys_preadv2 ::
  "fs_env \<Rightarrow> ulong \<Rightarrow> addr \<Rightarrow> ulong \<Rightarrow> ulong \<Rightarrow> ulong \<Rightarrow> u32 \<Rightarrow> fs_state \<Rightarrow> int \<times> fs_state" where
  "sys_preadv2 E fd vec vlen pos_l pos_h flags s =
     (let pos = pos_from_hilo pos_h pos_l in
      if pos = - 1 then do_readv E fd vec vlen flags s else do_preadv E fd vec vlen pos flags s)"

definition sys_pwritev :: "fs_env \<Rightarrow> ulong \<Rightarrow> addr \<Rightarrow> ulong \<Rightarrow> ulong \<Rightarrow> ulong \<Rightarrow> fs_state \<Rightarrow> int \<times> fs_state" where
  "sys_pwritev E fd vec vlen pos_l pos_h s = do_pwritev E fd vec vlen (pos_from_hilo pos_h pos_l) 0 s"

definition sys_pwritev2 ::
  "fs_env \<Rightarrow> ulong \<Rightarrow> addr \<Rightarrow> ulong \<Rightarrow> ulong \<Rightarrow> ulong \<Rightarrow> u32 \<Rightarrow> fs_state \<Rightarrow> int \<times> fs_state" where
  "sys_pwritev2 E fd vec vlen pos_l pos_h flags s =
     (let pos = pos_from_hilo pos_h pos_l in
      if pos = - 1 then do_writev E fd vec vlen flags s else do_pwritev E fd vec vlen pos flags s)"

text \<open>The calls of 32-bit programs: two halves of a position are put together first.\<close>

definition compat_pos :: "u32 \<Rightarrow> u32 \<Rightarrow> loff" where
  "compat_pos pos_low pos_high = or (push_bit 32 (ucast pos_high)) (ucast pos_low)"

definition compat_sys_preadv :: "fs_env \<Rightarrow> u32 \<Rightarrow> addr \<Rightarrow> u32 \<Rightarrow> u32 \<Rightarrow> u32 \<Rightarrow> fs_state \<Rightarrow> int \<times> fs_state" where
  "compat_sys_preadv E fd vec vlen pos_low pos_high s =
     do_preadv E (ucast fd) vec (ucast vlen) (compat_pos pos_low pos_high) 0 s"

definition compat_sys_preadv2 ::
  "fs_env \<Rightarrow> u32 \<Rightarrow> addr \<Rightarrow> u32 \<Rightarrow> u32 \<Rightarrow> u32 \<Rightarrow> u32 \<Rightarrow> fs_state \<Rightarrow> int \<times> fs_state" where
  "compat_sys_preadv2 E fd vec vlen pos_low pos_high flags s =
     (let pos = compat_pos pos_low pos_high in
      if pos = - 1 then do_readv E (ucast fd) vec (ucast vlen) flags s
      else do_preadv E (ucast fd) vec (ucast vlen) pos flags s)"

definition compat_sys_pwritev :: "fs_env \<Rightarrow> u32 \<Rightarrow> addr \<Rightarrow> u32 \<Rightarrow> u32 \<Rightarrow> u32 \<Rightarrow> fs_state \<Rightarrow> int \<times> fs_state" where
  "compat_sys_pwritev E fd vec vlen pos_low pos_high s =
     do_pwritev E (ucast fd) vec (ucast vlen) (compat_pos pos_low pos_high) 0 s"

definition compat_sys_pwritev2 ::
  "fs_env \<Rightarrow> u32 \<Rightarrow> addr \<Rightarrow> u32 \<Rightarrow> u32 \<Rightarrow> u32 \<Rightarrow> u32 \<Rightarrow> fs_state \<Rightarrow> int \<times> fs_state" where
  "compat_sys_pwritev2 E fd vec vlen pos_low pos_high flags s =
     (let pos = compat_pos pos_low pos_high in
      if pos = - 1 then do_writev E (ucast fd) vec (ucast vlen) flags s
      else do_pwritev E (ucast fd) vec (ucast vlen) pos flags s)"

definition compat_sys_preadv64 :: "fs_env \<Rightarrow> ulong \<Rightarrow> addr \<Rightarrow> ulong \<Rightarrow> loff \<Rightarrow> fs_state \<Rightarrow> int \<times> fs_state" where
  "compat_sys_preadv64 E fd vec vlen pos s = do_preadv E fd vec vlen pos 0 s"

definition compat_sys_preadv64v2 ::
  "fs_env \<Rightarrow> ulong \<Rightarrow> addr \<Rightarrow> ulong \<Rightarrow> loff \<Rightarrow> u32 \<Rightarrow> fs_state \<Rightarrow> int \<times> fs_state" where
  "compat_sys_preadv64v2 E fd vec vlen pos flags s =
     (if pos = - 1 then do_readv E fd vec vlen flags s else do_preadv E fd vec vlen pos flags s)"

definition compat_sys_pwritev64 :: "fs_env \<Rightarrow> ulong \<Rightarrow> addr \<Rightarrow> ulong \<Rightarrow> loff \<Rightarrow> fs_state \<Rightarrow> int \<times> fs_state" where
  "compat_sys_pwritev64 E fd vec vlen pos s = do_pwritev E fd vec vlen pos 0 s"

definition compat_sys_pwritev64v2 ::
  "fs_env \<Rightarrow> ulong \<Rightarrow> addr \<Rightarrow> ulong \<Rightarrow> loff \<Rightarrow> u32 \<Rightarrow> fs_state \<Rightarrow> int \<times> fs_state" where
  "compat_sys_pwritev64v2 E fd vec vlen pos flags s =
     (if pos = - 1 then do_writev E fd vec vlen flags s else do_pwritev E fd vec vlen pos flags s)"


section \<open>The contract of a file system\<close>

text \<open>
  \<open>io_effect dr dw cr cw s t\<close>: between the two states, contents, memory and events may change,
  and the four counters grow by the given amounts; everything else is the same.
\<close>

definition io_effect :: "ulong \<Rightarrow> ulong \<Rightarrow> ulong \<Rightarrow> ulong \<Rightarrow> fs_state \<Rightarrow> fs_state \<Rightarrow> bool" where
  "io_effect dr dw cr cw s t \<longleftrightarrow> files t = files s \<and> fdtable t = fdtable s \<and> file_refs t = file_refs s
     \<and> file_writers t = file_writers s \<and> tracking t = tracking s \<and> clock t = clock s \<and> stuck t = stuck s
     \<and> rchar t = rchar s + dr \<and> wchar t = wchar s + dw \<and> syscr t = syscr s + cr \<and> syscw t = syscw s + cw"

text \<open>
  \<open>pos_after ap p r q\<close>: where a transfer of \<open>r\<close> bytes from the position \<open>p\<close> may leave it: at most
  \<open>r\<close> bytes further on, or for a file that appends (\<open>ap\<close>) at some valid place.
\<close>

definition pos_after :: "bool \<Rightarrow> loff option \<Rightarrow> int \<Rightarrow> loff option \<Rightarrow> bool" where
  "pos_after ap p r q \<longleftrightarrow> (case p of
     None \<Rightarrow> q = None
   | Some a \<Rightarrow> \<exists>b. q = Some b \<and> (0 \<le> r \<longrightarrow>
       (if ap then 0 \<le> sint a \<longrightarrow> 0 \<le> sint b else \<exists>j. 0 \<le> j \<and> j \<le> r \<and> b = a + of_int j)))"

lemma pos_after_refl [simp]: "pos_after ap p r p"
  by (cases p; cases ap) (auto simp: pos_after_def intro: exI [of _ 0])

lemma pos_after_put: "pos_after ap (Some (or_zero p)) r (Some b) \<Longrightarrow> pos_after ap p r (put_pos p b)"
  by (auto simp: pos_after_def put_pos_def or_zero_def split: option.splits)

lemma pos_after_trans:
  assumes "pos_after ap p r q" "pos_after ap q r' u" "0 \<le> r" "0 \<le> r'"
  shows "pos_after ap p (r + r') u"
proof (cases p)
  case None
  with assms show ?thesis by (auto simp: pos_after_def)
next
  case (Some a)
  with assms obtain b c where bc: "q = Some b" "u = Some c" by (auto simp: pos_after_def)
  show ?thesis
  proof (cases ap)
    case True
    with Some bc assms show ?thesis by (auto simp: pos_after_def)
  next
    case False
    with Some bc assms obtain i j where "0 \<le> i" "i \<le> r" "b = a + of_int i" "0 \<le> j" "j \<le> r'" "c = b + of_int j"
      by (auto simp: pos_after_def)
    then show ?thesis
      using Some bc False by (auto simp: pos_after_def add.assoc intro!: exI [of _ "i + j"])
  qed
qed

definition keeps_valid :: "struct_file \<Rightarrow> loff option \<Rightarrow> int \<Rightarrow> loff option \<Rightarrow> bool" where
  "keeps_valid x p r q \<longleftrightarrow> (\<forall>a b. p = Some a \<longrightarrow> q = Some b \<longrightarrow> 0 \<le> r \<longrightarrow> \<not> unsigned_offsets x
     \<longrightarrow> 0 \<le> sint a \<longrightarrow> 0 \<le> sint b)"

lemma keeps_valid_refl [simp]: "keeps_valid x p r p"
  by (simp add: keeps_valid_def)

text \<open>After a transfer that \<^verbatim>\<open>rw_verify_area\<close> let through, the position has not wrapped.\<close>

lemma verified_keeps_valid:
  assumes ok: "0 \<le> rw_verify_area E wr f p n s" and "r \<le> uint n" "pos_after ap p r q"
  shows "keeps_valid (files s f) p r q"
  unfolding keeps_valid_def
proof (intro allI impI)
  fix a b assume p: "p = Some a" "q = Some b" and r: "0 \<le> r" and u: "\<not> unsigned_offsets (files s f)" and a: "0 \<le> sint a"
  have v: "0 \<le> sint n" "sint a + sint n < 2 ^ 63"
    using rw_verify_area_no_wrap [OF ok [unfolded p(1)]] u by auto
  show "0 \<le> sint b"
  proof (cases ap)
    case False
    with assms p r obtain j where j: "0 \<le> j" "j \<le> r" "b = a + of_int j" by (auto simp: pos_after_def)
    have "uint n = sint n" using v(1) uint_bounded [of n] unfolding sint_64 by (auto split: if_splits)
    with j assms(2) v(2) a have s: "0 \<le> sint a + j" "sint a + j < 2 ^ 63" "j < 2 ^ 63" by auto
    then show ?thesis using sint_add_exact [of a "of_int j"] sint_of_int_64 [of j] j by simp
  qed (use assms(3) p r a in \<open>simp add: pos_after_def\<close>)
qed

definition iter_ok :: "iov_iter \<Rightarrow> bool" where
  "iter_ok it \<longleftrightarrow> unat (iter_count it) \<le> sum_list (map (\<lambda>x. unat (snd x)) (iter_segs it))"

lemma io_effect_refl: "io_effect 0 0 0 0 s s"
  by (simp add: io_effect_def)

lemma io_effect_trans:
  "io_effect a b c d s t \<Longrightarrow> io_effect a' b' c' d' t u \<Longrightarrow> io_effect (a + a') (b + b') (c + c') (d + d') s u"
  unfolding io_effect_def by (auto simp: add.assoc)

lemma io_effect_read:
  "io_effect 0 0 0 0 s t \<Longrightarrow> io_effect (of_int (max 0 r)) 0 1 0 s
     (inc_syscr (if r > 0 then add_rchar r (fsnotify_access f t) else t))"
  unfolding io_effect_def inc_syscr_def add_rchar_def fsnotify_access_def by (auto simp: max_def)

lemma io_effect_write:
  "io_effect 0 0 0 0 (file_start_write f s) t \<Longrightarrow> io_effect 0 (of_int (max 0 r)) 0 1 s
     (file_end_write f (inc_syscw (if r > 0 then add_wchar r (fsnotify_modify f t) else t)))"
  unfolding io_effect_def inc_syscw_def add_wchar_def fsnotify_modify_def file_start_write_def file_end_write_def
  by (auto simp: max_def)

lemma io_effect_notify:
  "io_effect a b c d s t \<Longrightarrow> io_effect a b c d s (fsnotify_access f t)"
  "io_effect a b c d s t \<Longrightarrow> io_effect a b c d s (fsnotify_modify f t)"
  by (simp_all add: io_effect_def fsnotify_access_def fsnotify_modify_def)

lemma io_effect_end:
  "io_effect a b c d (file_start_write f s) t \<Longrightarrow> io_effect a b c d s (file_end_write f t)"
  by (simp add: io_effect_def file_start_write_def file_end_write_def)

lemma nonpos_le_uint: "e \<le> 0 \<Longrightarrow> e \<le> uint (n :: ulong)"
  by (rule order_trans [OF _ uint_ge_0])

locale fs_methods = fs_seek +
  assumes read_law: "\<And>f a n p s r q t. fs_read E f a n p s = (r, q, t)
      \<Longrightarrow> io_effect 0 0 0 0 s t \<and> r \<le> uint n \<and> pos_after False p r q \<and> (r < 0 \<longrightarrow> q = p)"
    and write_law: "\<And>f a n p s r q t. fs_write E f a n p s = (r, q, t)
      \<Longrightarrow> io_effect 0 0 0 0 s t \<and> r \<le> uint n \<and> pos_after (O_APPEND (files s f)) p r q \<and> (r < 0 \<longrightarrow> q = p)"
    and read_iter_law: "\<And>k it s r k' t. fs_read_iter E k it s = (r, k', t)
      \<Longrightarrow> io_effect 0 0 0 0 s t \<and> r \<le> uint (iter_count it) \<and> ki_filp k' = ki_filp k
        \<and> pos_after False (Some (ki_pos k)) r (Some (ki_pos k')) \<and> (ki_complete k \<or> r \<noteq> - EIOCBQUEUED)"
    and write_iter_law: "\<And>k it s r k' t. fs_write_iter E k it s = (r, k', t)
      \<Longrightarrow> io_effect 0 0 0 0 s t \<and> r \<le> uint (iter_count it) \<and> ki_filp k' = ki_filp k
        \<and> pos_after (IOCB_APPEND k) (Some (ki_pos k)) r (Some (ki_pos k')) \<and> (ki_complete k \<or> r \<noteq> - EIOCBQUEUED)"
    and permission_law: "\<And>f wr. security_file_permission E f wr \<le> 0"
    and area_perm_law: "\<And>f wr p n. fsnotify_file_area_perm E f wr p n \<le> 0"
    and sync_law: "\<And>f x. \<not> ki_complete (init_sync_kiocb E f x) \<and> ki_filp (init_sync_kiocb E f x) = f
      \<and> IOCB_APPEND (init_sync_kiocb E f x) = O_APPEND x"
    and flags_law: "\<And>k fl r k'. kiocb_set_rw_flags E k fl = (r, k')
      \<Longrightarrow> r \<le> 0 \<and> ki_complete k' = ki_complete k \<and> ki_filp k' = ki_filp k"
    and import_law: "\<And>m wr vec n r it. import_iovec E m wr vec n = (r, it) \<Longrightarrow> 0 \<le> r
      \<Longrightarrow> r = uint (iter_count it) \<and> iter_count it \<le> MAX_RW_COUNT"
    and import_ok: "\<And>m wr vec n r it. import_iovec E m wr vec n = (r, it) \<Longrightarrow> 0 \<le> r \<Longrightarrow> iter_ok it"
    and iov_law: "\<And>it. iter_ok it \<Longrightarrow> iter_count it \<noteq> 0 \<Longrightarrow> snd (iter_iov E it) \<le> iter_count it"
    and advance_law: "\<And>it. iter_ok it \<Longrightarrow> iter_count it \<noteq> 0
      \<Longrightarrow> iter_ok (iov_iter_advance E it (snd (iter_iov E it)))
        \<and> (iter_count (iov_iter_advance E it (snd (iter_iov E it))) = 0
          \<or> length (iter_segs (iov_iter_advance E it (snd (iter_iov E it)))) < length (iter_segs it))
        \<and> iter_count (iov_iter_advance E it (snd (iter_iov E it))) = iter_count it - snd (iter_iov E it)"
begin

lemma verify_nonpos: "rw_verify_area E wr f p n s \<le> 0"
  unfolding rw_verify_area_def Let_def
  using permission_law [of f wr] area_perm_law [of f wr p n] by (auto split: option.splits)

lemma new_sync_read_effect:
  assumes "new_sync_read E f buf n p s = (r, q, t)"
  shows "io_effect 0 0 0 0 s t \<and> r \<le> uint n \<and> pos_after False p r q"
proof -
  obtain k u where m: "fs_read_iter E (sync_kiocb E f p s) (one_seg False buf n) s = (r, k, u)"
    and q: "q = put_pos p (ki_pos k)" and t: "t = BUG_ON (r = - EIOCBQUEUED) u"
    using assms by (auto simp: new_sync_read_def split: prod.splits)
  from read_iter_law [OF m] sync_law show ?thesis
    by (auto simp: q t BUG_ON_def sync_kiocb_def one_seg_def intro!: pos_after_put)
qed

lemma new_sync_write_effect:
  assumes "new_sync_write E f buf n p s = (r, q, t)"
  shows "io_effect 0 0 0 0 s t \<and> r \<le> uint n \<and> pos_after (O_APPEND (files s f)) p r q"
proof -
  obtain k u where m: "fs_write_iter E (sync_kiocb E f p s) (one_seg False buf n) s = (r, k, u)"
    and q: "q = (if r > 0 then put_pos p (ki_pos k) else p)" and t: "t = BUG_ON (r = - EIOCBQUEUED) u"
    using assms by (auto simp: new_sync_write_def split: prod.splits)
  from write_iter_law [OF m] sync_law show ?thesis
    by (auto simp: q t BUG_ON_def sync_kiocb_def one_seg_def intro!: pos_after_put)
qed

text \<open>
  A read: on every path the accounting matches the result, and nothing but contents, memory and
  events changes besides.
\<close>

lemma vfs_read_effect:
  assumes "vfs_read E U f buf cnt p s = (r, q, t)"
  shows "(\<exists>c. io_effect (of_int (max 0 r)) 0 c 0 s t) \<and> r \<le> uint cnt \<and> r \<le> uint MAX_RW_COUNT
    \<and> pos_after False p r q \<and> keeps_valid (files s f) p r q"
proof -
  have early: ?thesis if "(r, q, t) = (e, p, s)" "e \<le> 0" for e
    using that io_effect_refl [of s] nonpos_le_uint [of e cnt] by auto
  let ?n = "if cnt > MAX_RW_COUNT then MAX_RW_COUNT else cnt"
  have n: "uint ?n \<le> uint cnt \<and> uint ?n \<le> uint MAX_RW_COUNT" by (auto simp: word_le_def not_less word_less_def)
  consider e where "(r, q, t) = (e, p, s)" "e \<le> 0"
    | u where "rw_verify_area E False f p cnt s = 0" "(if op_read (files s f) then fs_read E f buf ?n p s
         else if op_read_iter (files s f) then new_sync_read E f buf ?n p s else (- EINVAL, p, s)) = (r, q, u)"
       "t = inc_syscr (if r > 0 then add_rchar r (fsnotify_access f u) else u)"
    using assms verify_nonpos [of False f p cnt s] unfolding vfs_read_def Let_def
    by (auto elim!: branchE split: prod.splits)
  then show ?thesis
  proof cases
    case 2
    then have "io_effect 0 0 0 0 s u \<and> r \<le> uint ?n \<and> pos_after False p r q"
      using read_law [of f buf ?n p s r q u] new_sync_read_effect [of f buf ?n p s r q u] io_effect_refl [of s]
      by (auto simp: file_start_write_def intro: nonpos_le_uint split: if_splits)
    then show ?thesis using io_effect_read [of s u r f] 2(3) n
        verified_keeps_valid [of E False f p cnt s r _ q] 2(1) by auto
  qed (rule early)
qed

lemma vfs_write_effect:
  assumes "vfs_write E U f buf cnt p s = (r, q, t)"
  shows "(\<exists>c. io_effect 0 (of_int (max 0 r)) 0 c s t) \<and> r \<le> uint cnt \<and> r \<le> uint MAX_RW_COUNT
    \<and> pos_after (O_APPEND (files s f)) p r q \<and> keeps_valid (files s f) p r q"
proof -
  have early: ?thesis if "(r, q, t) = (e, p, s)" "e \<le> 0" for e
    using that io_effect_refl [of s] nonpos_le_uint [of e cnt] by auto
  let ?n = "if cnt > MAX_RW_COUNT then MAX_RW_COUNT else cnt" and ?s = "file_start_write f s"
  have n: "uint ?n \<le> uint cnt \<and> uint ?n \<le> uint MAX_RW_COUNT" by (auto simp: word_le_def not_less word_less_def)
  consider e where "(r, q, t) = (e, p, s)" "e \<le> 0"
    | u where "rw_verify_area E True f p cnt s = 0" "(if op_write (files ?s f) then fs_write E f buf ?n p ?s
         else if op_write_iter (files ?s f) then new_sync_write E f buf ?n p ?s else (- EINVAL, p, ?s)) = (r, q, u)"
       "t = file_end_write f (inc_syscw (if r > 0 then add_wchar r (fsnotify_modify f u) else u))"
    using assms verify_nonpos [of True f p cnt s] unfolding vfs_write_def Let_def
    by (auto elim!: branchE split: prod.splits)
  then show ?thesis
  proof cases
    case 2
    then have "io_effect 0 0 0 0 ?s u \<and> r \<le> uint ?n \<and> pos_after (O_APPEND (files s f)) p r q"
      using write_law [of f buf ?n p ?s r q u] new_sync_write_effect [of f buf ?n p ?s r q u] io_effect_refl [of ?s]
      by (auto simp: file_start_write_def intro: nonpos_le_uint split: if_splits)
    then show ?thesis using io_effect_write [of f s u r] 2(3) n
        verified_keeps_valid [of E True f p cnt s r _ q] 2(1) by auto
  qed (rule early)
qed

lemma kernel_read_effect:
  assumes "kernel_read E f buf cnt p s = (r, q, t)"
  shows "(\<exists>c. io_effect (of_int (max 0 r)) 0 c 0 s t) \<and> r \<le> uint cnt \<and> pos_after False p r q"
proof -
  let ?k = "sync_kiocb E f p s" and ?i = "one_seg True buf (min cnt MAX_RW_COUNT)"
  have early: ?thesis if "(r, q, t) = (e, p, s)" "e \<le> 0" for e
    using that io_effect_refl [of s] nonpos_le_uint [of e cnt] by auto
  consider e where "(r, q, t) = (e, p, s)" "e \<le> 0"
    | k u where "fs_read_iter E ?k ?i s = (r, k, u)" "q = (if r > 0 then put_pos p (ki_pos k) else p)"
       "t = inc_syscr (if r > 0 then add_rchar r (fsnotify_access f u) else u)"
    using assms verify_nonpos [of False f p cnt s]
    unfolding kernel_read_def kernel_read_unchecked_def warn_unsupported_def Let_def
    by (auto elim!: branchE split: prod.splits)
  then show ?thesis
  proof cases
    case 2
    have n: "uint (min cnt MAX_RW_COUNT) \<le> uint cnt" by (auto simp: min_def word_le_def)
    with read_iter_law [OF 2(1)] 2(2,3) io_effect_read [of s u r f] show ?thesis
      by (auto simp: sync_kiocb_def one_seg_def file_start_write_def intro!: pos_after_put)
  qed (rule early)
qed

lemma kernel_write_effect:
  assumes "kernel_write E f buf cnt p s = (r, q, t)"
  shows "(\<exists>c. io_effect 0 (of_int (max 0 r)) 0 c s t) \<and> r \<le> uint cnt \<and> pos_after (O_APPEND (files s f)) p r q"
proof -
  let ?s = "file_start_write f s"
  let ?k = "sync_kiocb E f p ?s" and ?i = "one_seg True buf (min cnt MAX_RW_COUNT)"
  have early: ?thesis if "r = e" "q = p" "t = s \<or> t = file_end_write f ?s" "e \<le> 0" for e
    using that io_effect_refl [of s] nonpos_le_uint [of e cnt]
    by (auto simp: io_effect_def file_end_write_def file_start_write_def)
  consider e where "r = e" "q = p" "t = s \<or> t = file_end_write f ?s" "e \<le> 0"
    | k u where "fs_write_iter E ?k ?i ?s = (r, k, u)" "q = (if r > 0 then put_pos p (ki_pos k) else p)"
       "t = file_end_write f (inc_syscw (if r > 0 then add_wchar r (fsnotify_modify f u) else u))"
    using assms verify_nonpos [of True f p cnt s]
    unfolding kernel_write_def kernel_write_unchecked_def kernel_write_iter_unchecked_def warn_unsupported_def Let_def
    by (auto elim!: branchE split: prod.splits)
  then show ?thesis
  proof cases
    case 2
    have n: "uint (min cnt MAX_RW_COUNT) \<le> uint cnt" by (auto simp: min_def word_le_def)
    with write_iter_law [OF 2(1)] sync_law 2(2,3) io_effect_write [of f s u r] show ?thesis
      by (auto simp: sync_kiocb_def one_seg_def file_start_write_def intro!: pos_after_put)
  qed (rule early)
qed

lemma do_iter_effect:
  assumes "do_iter_readv_writev E f it p wr fl s = (r, q, t)"
  shows "io_effect 0 0 0 0 s t \<and> r \<le> uint (iter_count it) \<and> (\<exists>ap. (ap \<longrightarrow> wr) \<and> pos_after ap p r q)"
proof -
  obtain e k where fl: "kiocb_set_rw_flags E (init_sync_kiocb E f (files s f)) fl = (e, k)" by fastforce
  show ?thesis
  proof (cases "e = 0")
    case False
    then have "r = e" "q = p" "t = s" using assms by (simp_all add: do_iter_readv_writev_def fl)
    then show ?thesis
      using flags_law [OF fl] io_effect_refl [of s] nonpos_le_uint by auto
  next
    case True
    then obtain k' u where m: "(if wr then fs_write_iter E else fs_read_iter E) (k\<lparr>ki_pos := or_zero p\<rparr>) it s = (r, k', u)"
      and q: "q = put_pos p (ki_pos k')" and t: "t = BUG_ON (r = - EIOCBQUEUED) u"
      using assms by (auto simp: do_iter_readv_writev_def fl split: prod.splits)
    have sync: "\<not> ki_complete k" using flags_law [OF fl] sync_law by simp
    show ?thesis
    proof (cases wr)
      case True
      with m have "fs_write_iter E (k\<lparr>ki_pos := or_zero p\<rparr>) it s = (r, k', u)" by simp
      from write_iter_law [OF this] sync True show ?thesis by (auto simp: q t BUG_ON_def intro: pos_after_put)
    next
      case False
      with m have "fs_read_iter E (k\<lparr>ki_pos := or_zero p\<rparr>) it s = (r, k', u)" by simp
      from read_iter_law [OF this] sync False show ?thesis by (auto simp: q t BUG_ON_def intro: pos_after_put)
    qed
  qed
qed

lemma method_law:
  assumes "(if wr then fs_write E else fs_read E) f a l p s = (nr, q, t)"
  shows "io_effect 0 0 0 0 s t \<and> nr \<le> uint l \<and> pos_after (wr \<and> O_APPEND (files s f)) p nr q \<and> (nr < 0 \<longrightarrow> q = p)"
  using assms write_law [of f a l p s nr q t] read_law [of f a l p s nr q t] by (cases wr) auto

text \<open>The loop ends within the number of segments, and returns at most the bytes asked for.\<close>

lemma loop_effect:
  assumes "readv_writev_loop E n f it p wr ret s = (r, q, t)" "iter_ok it" "iter_count it = 0 \<or> length (iter_segs it) \<le> n" "0 \<le> ret"
    and "pos_after (wr \<and> O_APPEND (files s f)) p0 ret p"
  shows "io_effect 0 0 0 0 s t \<and> r \<le> ret + uint (iter_count it) \<and> pos_after (wr \<and> O_APPEND (files s f)) p0 r q"
  using assms
proof (induction n arbitrary: it p ret s)
  case 0
  then have "iter_count it = 0" by (auto simp: iter_ok_def unat_eq_zero)
  with 0 show ?case by (auto simp: io_effect_refl)
next
  case (Suc n)
  let ?ap = "wr \<and> O_APPEND (files s f)"
  obtain a l where iov: "iter_iov E it = (a, l)" by fastforce
  obtain nr p' u where m: "(if wr then fs_write E else fs_read E) f a l p s = (nr, p', u)" by (metis prod_cases3)
  note law = method_law [OF m]
  consider "iter_count it = 0" | "iter_count it \<noteq> 0" "nr < 0" | "iter_count it \<noteq> 0" "0 \<le> nr" "nr \<noteq> uint l"
    | "iter_count it \<noteq> 0" "nr = uint l" by fastforce
  then show ?case
  proof cases
    case 1
    with Suc.prems show ?thesis by (auto simp: io_effect_refl)
  next
    case 2
    with Suc.prems law iov m have e: "r = (if ret = 0 then nr else ret)" "q = p" "t = u" by auto
    have "pos_after ?ap p0 r p"
      using Suc.prems(5) 2 by (auto simp: e pos_after_def split: option.splits)
    then show ?thesis using e law 2 Suc.prems(4) by (auto intro: order_trans [OF _ uint_ge_0] add_nonneg_nonneg)
  next
    case 3
    with Suc.prems iov m have e: "r = ret + nr" "q = p'" "t = u" by auto
    have "nr \<le> uint (iter_count it)" using law iov_law [OF Suc.prems(2) 3(1)] iov by (simp add: word_le_def)
    then show ?thesis using e law pos_after_trans [OF Suc.prems(5) _ Suc.prems(4) 3(2)] by auto
  next
    case 4
    let ?it = "iov_iter_advance E it l"
    have l: "l \<le> iter_count it" using iov_law [OF Suc.prems(2) 4(1)] iov by simp
    have adv: "iter_ok ?it" "iter_count ?it = 0 \<or> length (iter_segs ?it) \<le> n" "iter_count ?it = iter_count it - l"
      using advance_law [OF Suc.prems(2) 4(1)] iov Suc.prems(3) 4(1) by auto
    have "readv_writev_loop E n f ?it p' wr (ret + nr) u = (r, q, t)"
      using Suc.prems(1) 4 iov m by simp
    moreover have "files u = files s" using law by (simp add: io_effect_def)
    ultimately have "io_effect 0 0 0 0 u t \<and> r \<le> ret + nr + uint (iter_count ?it) \<and> pos_after ?ap p0 r q"
      using Suc.IH [of ?it p' "ret + nr" u] adv 4 Suc.prems(4) law pos_after_trans [OF Suc.prems(5) _ Suc.prems(4)] by auto
    moreover have "uint (iter_count ?it) = uint (iter_count it) - nr"
      using l 4 unfolding adv by (simp add: uint_minus_simple_alt word_le_def uint_sub_lem)
    ultimately show ?thesis using io_effect_trans [of 0 0 0 0 s u 0 0 0 0 t] law by auto
  qed
qed

lemma do_loop_effect:
  assumes "do_loop_readv_writev E f it p wr fl s = (r, q, t)" "iter_ok it"
  shows "io_effect 0 0 0 0 s t \<and> r \<le> uint (iter_count it) \<and> (\<exists>ap. (ap \<longrightarrow> wr) \<and> pos_after ap p r q)"
proof (cases "and fl (not RWF_HIPRI) = 0")
  case True
  then have "readv_writev_loop E (length (iter_segs it)) f it p wr 0 s = (r, q, t)"
    using assms(1) by (simp only: do_loop_readv_writev_def) simp
  from loop_effect [OF this assms(2) disjI2 [OF order_refl] order_refl pos_after_refl]
  have "io_effect 0 0 0 0 s t \<and> r \<le> 0 + uint (iter_count it) \<and> pos_after (wr \<and> O_APPEND (files s f)) p r q" .
  then show ?thesis by (intro conjI exI [of _ "wr \<and> O_APPEND (files s f)"]) simp_all
next
  case False
  then have "r = - EOPNOTSUPP \<and> q = p \<and> t = s"
    using assms(1) by (simp only: do_loop_readv_writev_def) simp
  then show ?thesis using nonpos_le_uint [of r "iter_count it"] by (simp add: io_effect_refl) (blast intro: pos_after_refl)
qed

text \<open>The transfer of a vector, by either way.\<close>

lemma vector_effect:
  assumes "(if b then do_iter_readv_writev E f it p wr fl s else do_loop_readv_writev E f it p wr fl s) = (r, q, t)"
    and "iter_ok it"
  shows "io_effect 0 0 0 0 s t \<and> r \<le> uint (iter_count it) \<and> (\<exists>ap. (ap \<longrightarrow> wr) \<and> pos_after ap p r q)"
  using assms do_iter_effect [of f it p wr fl s r q t] do_loop_effect [of f it p wr fl s r q t] by (cases b) auto

lemma vfs_readv_effect:
  assumes "vfs_readv E f vec vlen p fl s = (r, q, t)"
  shows "io_effect 0 0 0 0 s t \<and> r \<le> uint MAX_RW_COUNT \<and> pos_after False p r q \<and> keeps_valid (files s f) p r q"
proof -
  obtain e it where imp: "import_iovec E (fs_mem s) False vec vlen = (e, it)" by fastforce
  consider e' where "r = e'" "q = p" "t = s \<or> t = fsnotify_access f s" "e' \<le> 0"
    | u where "0 \<le> e" "0 \<le> rw_verify_area E False f p (iter_count it) s" "(if op_read_iter (files s f) then do_iter_readv_writev E f it p False fl s
         else do_loop_readv_writev E f it p False fl s) = (r, q, u)"
       "t = (if r \<ge> 0 then fsnotify_access f u else u)"
    using assms verify_nonpos [of False f p "iter_count it" s] import_law [OF imp]
    unfolding vfs_readv_def Let_def imp prod.case
    by (auto elim!: branchE split: prod.splits)
  then show ?thesis
  proof cases
    case 1
    then show ?thesis using io_effect_refl [of s] io_effect_notify(1) [OF io_effect_refl [of s], of f] by auto
  next
    case 2
    from vector_effect [OF 2(3) import_ok [OF imp 2(1)]] import_law [OF imp 2(1)] 2(4)
      verified_keeps_valid [OF 2(2), of r _ q] show ?thesis
      by (auto simp: word_le_def intro: io_effect_notify)
  qed
qed

lemma vfs_writev_effect:
  assumes "vfs_writev E f vec vlen p fl s = (r, q, t)"
  shows "io_effect 0 0 0 0 s t \<and> r \<le> uint MAX_RW_COUNT \<and> (\<exists>ap. pos_after ap p r q) \<and> keeps_valid (files s f) p r q"
proof -
  let ?s = "file_start_write f s"
  obtain e it where imp: "import_iovec E (fs_mem s) True vec vlen = (e, it)" by fastforce
  consider e' where "r = e'" "q = p" "t = s" "e' \<le> 0"
    | u where "0 \<le> e" "0 \<le> rw_verify_area E True f p (iter_count it) s" "(if op_write_iter (files s f) then do_iter_readv_writev E f it p True fl ?s
         else do_loop_readv_writev E f it p True fl ?s) = (r, q, u)"
       "t = file_end_write f (if r > 0 then fsnotify_modify f u else u)"
    using assms verify_nonpos [of True f p "iter_count it" s] import_law [OF imp]
    unfolding vfs_writev_def Let_def imp prod.case
    by (auto elim!: branchE split: prod.splits)
  then show ?thesis
  proof cases
    case 1
    then show ?thesis using io_effect_refl [of s] by auto
  next
    case 2
    from vector_effect [OF 2(3) import_ok [OF imp 2(1)]] import_law [OF imp 2(1)] 2(4)
      verified_keeps_valid [OF 2(2), of r _ q] show ?thesis
      by (auto simp: word_le_def intro!: io_effect_end io_effect_notify)
  qed
qed

lemma vfs_iter_write_effect:
  assumes "vfs_iter_write E f it p fl s = (r, q, t)"
  shows "io_effect 0 0 0 0 s t \<and> r \<le> uint (iter_count it)"
proof -
  consider "t = s" "r \<le> 0"
    | u where "do_iter_readv_writev E f it p True fl (file_start_write f s) = (r, q, u)"
       "t = file_end_write f (if r > 0 then fsnotify_modify f u else u)"
    using assms verify_nonpos [of True f p "iter_count it" s] unfolding vfs_iter_write_def Let_def
    by (auto elim!: branchE split: prod.splits)
  then show ?thesis
  proof cases
    case 2
    from do_iter_effect [OF 2(1)] 2(2) show ?thesis by (auto intro!: io_effect_end io_effect_notify)
  qed (auto simp: io_effect_refl intro: nonpos_le_uint)
qed

text \<open>
  An asynchronous write that was queued keeps the file under write protection, for the code that
  completes it to end; every other outcome leaves the protection as it was.
\<close>

lemma vfs_iocb_iter_write_effect:
  assumes "vfs_iocb_iter_write E f k it s = (r, k', t)" and "ki_filp k = f"
  shows "if r = - EIOCBQUEUED \<and> t \<noteq> s then io_effect 0 0 0 0 (file_start_write f s) t \<and> ki_complete k
    else io_effect 0 0 0 0 s t"
proof -
  consider "t = s"
    | u where "fs_write_iter E k it (file_start_write f s) = (r, k', u)"
       "t = (let s = (if r \<noteq> - EIOCBQUEUED then file_end_write (ki_filp k') u else u)
             in if r > 0 then fsnotify_modify f s else s)"
    using assms unfolding vfs_iocb_iter_write_def Let_def
    by (auto elim!: branchE split: prod.splits)
  then show ?thesis
  proof cases
    case 2
    from write_iter_law [OF 2(1)] 2(2) assms(2) show ?thesis
      by (auto simp: Let_def io_effect_refl intro!: io_effect_end io_effect_notify)
  qed (simp add: io_effect_refl)
qed

end

section \<open>Sequences of calls\<close>

text \<open>\<open>Tick\<close> is the passing of time between calls.\<close>

datatype rw_call =
  Tick timespec64
  | Lseek u32 loff u32
  | Read u32 addr ulong
  | Write u32 addr ulong
  | Pread u32 addr ulong loff
  | Pwrite u32 addr ulong loff
  | Readv ulong addr ulong
  | Writev ulong addr ulong
  | Preadv2 ulong addr ulong ulong ulong u32
  | Pwritev2 ulong addr ulong ulong ulong u32

fun rw_exec :: "fs_env \<Rightarrow> uaccess \<Rightarrow> rw_call \<Rightarrow> fs_state \<Rightarrow> int \<times> fs_state" where
  "rw_exec E U (Tick now) s = (0, s\<lparr>clock := now\<rparr>)"
| "rw_exec E U (Lseek fd off w) s = sys_lseek E fd off w s"
| "rw_exec E U (Read fd buf n) s = sys_read E U fd buf n s"
| "rw_exec E U (Write fd buf n) s = sys_write E U fd buf n s"
| "rw_exec E U (Pread fd buf n pos) s = sys_pread64 E U fd buf n pos s"
| "rw_exec E U (Pwrite fd buf n pos) s = sys_pwrite64 E U fd buf n pos s"
| "rw_exec E U (Readv fd vec n) s = sys_readv E fd vec n s"
| "rw_exec E U (Writev fd vec n) s = sys_writev E fd vec n s"
| "rw_exec E U (Preadv2 fd vec n l h fl) s = sys_preadv2 E fd vec n l h fl s"
| "rw_exec E U (Pwritev2 fd vec n l h fl) s = sys_pwritev2 E fd vec n l h fl s"

text \<open>Which results count as bytes read, and which as bytes written.\<close>

fun is_read :: "rw_call \<Rightarrow> bool" where
  "is_read (Read _ _ _) = True" | "is_read (Pread _ _ _ _) = True" | "is_read (Readv _ _ _) = True"
| "is_read (Preadv2 _ _ _ _ _ _) = True" | "is_read _ = False"

fun is_write :: "rw_call \<Rightarrow> bool" where
  "is_write (Write _ _ _) = True" | "is_write (Pwrite _ _ _ _) = True" | "is_write (Writev _ _ _) = True"
| "is_write (Pwritev2 _ _ _ _ _ _) = True" | "is_write _ = False"

fun rw_log :: "fs_env \<Rightarrow> uaccess \<Rightarrow> rw_call list \<Rightarrow> fs_state \<Rightarrow> (rw_call \<times> int) list \<times> fs_state" where
  "rw_log E U [] s = ([], s)"
| "rw_log E U (c # cs) s = (let (r, t) = rw_exec E U c s; (l, u) = rw_log E U cs t in ((c, r) # l, u))"

definition bytes_of :: "(rw_call \<Rightarrow> bool) \<Rightarrow> (rw_call \<times> int) list \<Rightarrow> ulong" where
  "bytes_of sel l = (\<Sum>(c, r)\<leftarrow>l. if sel c then of_int (max 0 r) else 0)"

text \<open>What a call may do to the files: move positions, validly. No reference and no write protection
  is left behind.\<close>

definition same_file :: "struct_file \<Rightarrow> struct_file \<Rightarrow> bool" where
  "same_file x y \<longleftrightarrow> y = x\<lparr>f_pos := f_pos y, f_version := f_version y\<rparr> \<and> (pos_ok x \<longrightarrow> pos_ok y)"

definition call_effect :: "ulong \<Rightarrow> ulong \<Rightarrow> fs_state \<Rightarrow> fs_state \<Rightarrow> bool" where
  "call_effect dr dw s t \<longleftrightarrow> fdtable t = fdtable s \<and> file_refs t = file_refs s \<and> file_writers t = file_writers s
     \<and> stuck t = stuck s \<and> rchar t = rchar s + dr \<and> wchar t = wchar s + dw \<and> (\<forall>f. same_file (files s f) (files t f))
     \<and> tracking t = tracking s \<and> clock t = clock s"

text \<open>The same over several calls: the clock and the call counters may have moved on.\<close>

definition run_effect :: "ulong \<Rightarrow> ulong \<Rightarrow> fs_state \<Rightarrow> fs_state \<Rightarrow> bool" where
  "run_effect dr dw s t \<longleftrightarrow> fdtable t = fdtable s \<and> file_refs t = file_refs s \<and> file_writers t = file_writers s
     \<and> stuck t = stuck s \<and> rchar t = rchar s + dr \<and> wchar t = wchar s + dw \<and> (\<forall>f. same_file (files s f) (files t f))"

text \<open>What happens at the entry of a call: \<^verbatim>\<open>read\<close> and \<^verbatim>\<open>write\<close> are counted.\<close>

fun entered :: "rw_call \<Rightarrow> fs_state \<Rightarrow> fs_state" where
  "entered (Tick now) s = s\<lparr>clock := now\<rparr>"
| "entered (Read _ _ _) s = track NR_read s"
| "entered (Write _ _ _) s = track NR_write s"
| "entered _ s = s"

lemma same_file_refl [simp]: "same_file x x"
  by (simp add: same_file_def)

lemma same_file_trans: "same_file x y \<Longrightarrow> same_file y z \<Longrightarrow> same_file x z"
  unfolding same_file_def by (cases x, cases y, cases z) auto

lemma same_file_mode: "same_file x y \<Longrightarrow> f_mode y = f_mode x"
  unfolding same_file_def by (cases x, cases y) simp

lemma same_file_pos: "same_file x y \<Longrightarrow> pos_ok x \<Longrightarrow> pos_ok y"
  by (simp add: same_file_def)

lemma same_file_wf: "same_file x y \<Longrightarrow> file_wf y = file_wf x"
  unfolding same_file_def file_wf_def by (cases x, cases y) simp

lemma call_effect_refl: "call_effect 0 0 s s"
  by (simp add: call_effect_def)

lemma run_effect_refl: "run_effect 0 0 s s"
  by (simp add: run_effect_def)

lemma run_effect_trans: "run_effect a b s t \<Longrightarrow> run_effect a' b' t u \<Longrightarrow> run_effect (a + a') (b + b') s u"
  unfolding run_effect_def by (auto intro: same_file_trans)

lemma run_effect_wf: "run_effect a b s t \<Longrightarrow> (\<And>f. file_wf (files s f)) \<Longrightarrow> file_wf (files t f)"
  using same_file_wf by (auto simp: run_effect_def)

lemma call_run_effect: "call_effect a b s t \<Longrightarrow> run_effect a b s t"
  by (simp add: call_effect_def run_effect_def)

text \<open>How a call ends: the position is stored, the reference put back.\<close>

lemma put_effect:
  assumes "io_effect a b c d (taken f s) u"
  shows "call_effect a b s (fdput f u)"
  using assms by (simp add: io_effect_def call_effect_def fdput_def)

lemma put_pos_effect:
  assumes "io_effect a b c d (lock_pos f 1 (taken f s)) u"
  shows "call_effect a b s (fdput_pos f u)"
  using assms by (simp add: io_effect_def call_effect_def fdput_pos_def fdput_def)

lemma store_put_effect:
  assumes io: "io_effect a b c d (lock_pos f 1 (taken f s)) u" and "pos_after ap (file_ppos (files s f)) r q"
    and valid: "keeps_valid (files s f) (file_ppos (files s f)) r q"
  shows "call_effect a b s (fdput_pos f (store_pos f r q u))"
proof (cases q)
  case None
  with put_pos_effect [OF io] show ?thesis by (simp add: store_pos_def)
next
  case (Some p)
  then have "file_ppos (files s f) = Some (f_pos (files s f))"
    using assms(2) by (auto simp: pos_after_def file_ppos_def split: if_splits)
  with valid Some have "same_file (files s f) ((files s f)\<lparr>f_pos := p\<rparr>)" if "0 \<le> r"
    using that by (auto simp: same_file_def pos_ok_def keeps_valid_def unsigned_offsets_def)
  with io Some show ?thesis
    by (simp add: io_effect_def call_effect_def fdput_pos_def fdput_def store_pos_def upd_file_def)
qed

lemma track_effect: "0 \<le> nr \<Longrightarrow> run_effect 0 0 s (track nr s)"
  by (auto simp: track_def track_syscall_def Let_def run_effect_def split: option.splits)

lemma entered_effect: "run_effect 0 0 s (entered c s)"
  by (cases c) (simp_all add: run_effect_refl track_effect, simp add: run_effect_def)

lemma count_effect:
  "call_effect 0 0 s t \<Longrightarrow> count_read r t = (r', u) \<Longrightarrow> r' = r \<and> call_effect (of_int (max 0 r)) 0 s u"
  "call_effect 0 0 s t \<Longrightarrow> count_write r t = (r', u) \<Longrightarrow> r' = r \<and> call_effect 0 (of_int (max 0 r)) s u"
  by (auto simp: count_read_def count_write_def call_effect_def inc_syscr_def inc_syscw_def add_rchar_def
      add_wchar_def max_def split: if_splits)

context fs_methods
begin

lemma ksys_read_effect:
  assumes "ksys_read E U fd buf n s = (r, t)"
  shows "call_effect (of_int (max 0 r)) 0 s t"
proof (cases "fdlookup s fd")
  case None
  with assms show ?thesis by (auto simp: ksys_read_def fdget_pos_some fdget_pos_none call_effect_refl)
next
  case (Some f)
  with assms obtain q u where v: "vfs_read E U f buf n (file_ppos (files s f)) (lock_pos f 1 (taken f s)) = (r, q, u)"
    and t: "t = fdput_pos f (store_pos f r q u)"
    by (auto simp: ksys_read_def fdget_pos_some fdget_pos_none split: prod.splits)
  from vfs_read_effect [OF v] obtain c where "io_effect (of_int (max 0 r)) 0 c 0 (lock_pos f 1 (taken f s)) u"
    "pos_after False (file_ppos (files s f)) r q" "keeps_valid (files s f) (file_ppos (files s f)) r q" by auto
  from store_put_effect [OF this] show ?thesis unfolding t .
qed

lemma ksys_write_effect:
  assumes "ksys_write E U fd buf n s = (r, t)"
  shows "call_effect 0 (of_int (max 0 r)) s t"
proof (cases "fdlookup s fd")
  case None
  with assms show ?thesis by (auto simp: ksys_write_def fdget_pos_some fdget_pos_none call_effect_refl)
next
  case (Some f)
  with assms obtain q u where v: "vfs_write E U f buf n (file_ppos (files s f)) (lock_pos f 1 (taken f s)) = (r, q, u)"
    and t: "t = fdput_pos f (store_pos f r q u)"
    by (auto simp: ksys_write_def fdget_pos_some fdget_pos_none split: prod.splits)
  from vfs_write_effect [OF v] obtain c where "io_effect 0 (of_int (max 0 r)) 0 c (lock_pos f 1 (taken f s)) u"
    "pos_after (O_APPEND (files s f)) (file_ppos (files s f)) r q"
    "keeps_valid (files s f) (file_ppos (files s f)) r q" by auto
  from store_put_effect [OF this] show ?thesis unfolding t .
qed

lemma ksys_pread64_effect:
  assumes "ksys_pread64 E U fd buf n pos s = (r, t)"
  shows "call_effect (of_int (max 0 r)) 0 s t"
proof (cases "sint pos < 0 \<or> fdlookup s fd = None")
  case True
  with assms show ?thesis by (auto simp: ksys_pread64_def fdget_def call_effect_refl split: if_splits)
next
  case False
  then obtain f where "fdlookup s fd = Some f" "\<not> sint pos < 0" by blast
  with assms obtain q u where m: "(if FMODE_PREAD (f_mode (files s f)) then vfs_read E U f buf n (Some pos) (taken f s)
      else (- ESPIPE, Some pos, taken f s)) = (r, q, u)" and t: "t = fdput f u"
    by (auto simp: ksys_pread64_def fdget_def split: prod.splits)
  then have "\<exists>c. io_effect (of_int (max 0 r)) 0 c 0 (taken f s) u"
    using vfs_read_effect [of U f buf n "Some pos" "taken f s" r q u] io_effect_refl [of "taken f s"]
    by (auto split: if_splits)
  then show ?thesis using put_effect unfolding t by blast
qed

lemma ksys_pwrite64_effect:
  assumes "ksys_pwrite64 E U fd buf n pos s = (r, t)"
  shows "call_effect 0 (of_int (max 0 r)) s t"
proof (cases "sint pos < 0 \<or> fdlookup s fd = None")
  case True
  with assms show ?thesis by (auto simp: ksys_pwrite64_def fdget_def call_effect_refl split: if_splits)
next
  case False
  then obtain f where "fdlookup s fd = Some f" "\<not> sint pos < 0" by blast
  with assms obtain q u where m: "(if FMODE_PWRITE (f_mode (files s f)) then vfs_write E U f buf n (Some pos) (taken f s)
      else (- ESPIPE, Some pos, taken f s)) = (r, q, u)" and t: "t = fdput f u"
    by (auto simp: ksys_pwrite64_def fdget_def split: prod.splits)
  then have "\<exists>c. io_effect 0 (of_int (max 0 r)) 0 c (taken f s) u"
    using vfs_write_effect [of U f buf n "Some pos" "taken f s" r q u] io_effect_refl [of "taken f s"]
    by (auto split: if_splits)
  then show ?thesis using put_effect unfolding t by blast
qed

lemma do_readv_effect:
  assumes "do_readv E fd vec n fl s = (r, t)"
  shows "call_effect (of_int (max 0 r)) 0 s t"
proof (cases "fdlookup s (ucast fd)")
  case None
  with assms show ?thesis
    using count_effect(1) [OF call_effect_refl, of "- EBADF" s r t] by (auto simp: do_readv_def fdget_pos_some fdget_pos_none)
next
  case (Some f)
  with assms obtain r' q u where v: "vfs_readv E f vec n (file_ppos (files s f)) fl (lock_pos f 1 (taken f s)) = (r', q, u)"
    and t: "count_read r' (fdput_pos f (store_pos f r' q u)) = (r, t)"
    by (auto simp: do_readv_def fdget_pos_some fdget_pos_none split: prod.splits)
  from vfs_readv_effect [OF v] have "call_effect 0 0 s (fdput_pos f (store_pos f r' q u))"
    by (intro store_put_effect) auto
  from count_effect(1) [OF this t] show ?thesis by simp
qed

lemma do_writev_effect:
  assumes "do_writev E fd vec n fl s = (r, t)"
  shows "call_effect 0 (of_int (max 0 r)) s t"
proof (cases "fdlookup s (ucast fd)")
  case None
  with assms show ?thesis
    using count_effect(2) [OF call_effect_refl, of "- EBADF" s r t] by (auto simp: do_writev_def fdget_pos_some fdget_pos_none)
next
  case (Some f)
  with assms obtain r' q u where v: "vfs_writev E f vec n (file_ppos (files s f)) fl (lock_pos f 1 (taken f s)) = (r', q, u)"
    and t: "count_write r' (fdput_pos f (store_pos f r' q u)) = (r, t)"
    by (auto simp: do_writev_def fdget_pos_some fdget_pos_none split: prod.splits)
  from vfs_writev_effect [OF v] obtain ap where "io_effect 0 0 0 0 (lock_pos f 1 (taken f s)) u"
    "pos_after ap (file_ppos (files s f)) r' q" "keeps_valid (files s f) (file_ppos (files s f)) r' q" by auto
  from count_effect(2) [OF store_put_effect [OF this] t] show ?thesis by simp
qed

lemma do_preadv_effect:
  assumes "do_preadv E fd vec n pos fl s = (r, t)"
  shows "call_effect (of_int (max 0 r)) 0 s t"
proof (cases "sint pos < 0 \<or> fdlookup s (ucast fd) = None")
  case True
  with assms show ?thesis
    using count_effect(1) [OF call_effect_refl, of "- EBADF" s r t]
    by (auto simp: do_preadv_def fdget_def call_effect_refl split: if_splits)
next
  case False
  then obtain f where "fdlookup s (ucast fd) = Some f" "\<not> sint pos < 0" by blast
  with assms obtain r' q u where m: "(if FMODE_PREAD (f_mode (files s f)) then vfs_readv E f vec n (Some pos) fl (taken f s)
      else (- ESPIPE, Some pos, taken f s)) = (r', q, u)" and t: "count_read r' (fdput f u) = (r, t)"
    by (auto simp: do_preadv_def fdget_def split: prod.splits)
  then have "io_effect 0 0 0 0 (taken f s) u"
    using vfs_readv_effect [of f vec n "Some pos" fl "taken f s" r' q u] io_effect_refl [of "taken f s"]
    by (auto split: if_splits)
  from count_effect(1) [OF put_effect [OF this] t] show ?thesis by simp
qed

lemma do_pwritev_effect:
  assumes "do_pwritev E fd vec n pos fl s = (r, t)"
  shows "call_effect 0 (of_int (max 0 r)) s t"
proof (cases "sint pos < 0 \<or> fdlookup s (ucast fd) = None")
  case True
  with assms show ?thesis
    using count_effect(2) [OF call_effect_refl, of "- EBADF" s r t]
    by (auto simp: do_pwritev_def fdget_def call_effect_refl split: if_splits)
next
  case False
  then obtain f where "fdlookup s (ucast fd) = Some f" "\<not> sint pos < 0" by blast
  with assms obtain r' q u where m: "(if FMODE_PWRITE (f_mode (files s f)) then vfs_writev E f vec n (Some pos) fl (taken f s)
      else (- ESPIPE, Some pos, taken f s)) = (r', q, u)" and t: "count_write r' (fdput f u) = (r, t)"
    by (auto simp: do_pwritev_def fdget_def split: prod.splits)
  then have "io_effect 0 0 0 0 (taken f s) u"
    using vfs_writev_effect [of f vec n "Some pos" fl "taken f s" r' q u] io_effect_refl [of "taken f s"]
    by (auto split: if_splits)
  from count_effect(2) [OF put_effect [OF this] t] show ?thesis by simp
qed

lemma ksys_lseek_effect:
  assumes "ksys_lseek E fd off w s = (r, t)" and wf: "\<And>f. file_wf (files s f)"
  shows "call_effect 0 0 s t"
proof (cases "fdlookup s fd")
  case None
  with assms show ?thesis by (auto simp: ksys_lseek_def fdget_pos_some fdget_pos_none call_effect_refl)
next
  case (Some f)
  have same: "call_effect 0 0 s (fdput_pos f u)" if "sought f (lock_pos f 1 (taken f s)) u" for u
    using that by (auto simp: sought_def call_effect_def fdput_pos_def fdput_def upd_file_def same_file_def)
  obtain x u where v: "vfs_llseek E f off (uint w) (lock_pos f 1 (taken f s)) = (x, u)" by fastforce
  from assms Some have "t = fdput_pos f (if uint w \<le> SEEK_MAX then u else lock_pos f 1 (taken f s))"
    by (simp add: ksys_lseek_def fdget_pos_some fdget_pos_none v split: if_splits)
  then show ?thesis using same [OF vfs_llseek_sought [OF v]] wf same [OF sought_same] by simp
qed

lemma rw_exec_effect:
  assumes "rw_exec E U c s = (r, t)" and wf: "\<And>f. file_wf (files s f)"
  shows "call_effect (if is_read c then of_int (max 0 r) else 0) (if is_write c then of_int (max 0 r) else 0) (entered c s) t"
proof (cases c)
  case (Tick now)
  with assms(1) show ?thesis by (auto simp: call_effect_refl)
qed (use assms(1) in \<open>auto simp: sys_lseek_def sys_readv_def sys_writev_def sys_preadv2_def sys_pwritev2_def
      sys_read_def sys_write_def sys_pread64_def sys_pwrite64_def Let_def split: if_splits
    intro: ksys_lseek_effect [OF _ wf] ksys_pread64_effect ksys_pwrite64_effect do_readv_effect do_writev_effect
      do_preadv_effect do_pwritev_effect ksys_read_effect ksys_write_effect\<close>)

lemma rw_log_effect:
  "rw_log E U cs s = (l, t) \<Longrightarrow> (\<And>f. file_wf (files s f)) \<Longrightarrow> run_effect (bytes_of is_read l) (bytes_of is_write l) s t"
proof (induction cs arbitrary: s l)
  case Nil
  then show ?case by (auto simp: bytes_of_def run_effect_refl)
next
  case (Cons c cs)
  obtain r u where c: "rw_exec E U c s = (r, u)" by fastforce
  obtain l' where l': "rw_log E U cs u = (l', t)" "l = (c, r) # l'"
    using Cons.prems by (auto simp: c Let_def split: prod.splits)
  note u = run_effect_trans [OF entered_effect call_run_effect [OF rw_exec_effect [OF c Cons.prems(2)]]]
  show ?case
    using run_effect_trans [OF u Cons.IH [OF l'(1) run_effect_wf [OF u Cons.prems(2)]]] by (simp add: l'(2) bytes_of_def)
qed

text \<open>
  The counters of \<^verbatim>\<open>track_syscalls.c\<close> after a run: each \<^verbatim>\<open>read\<close> and each \<^verbatim>\<open>write\<close> is counted, also one
  that fails, and the other calls that read and write are not.
\<close>

lemma rw_log_counts:
  assumes "rw_log E U cs s = (l, t)" and "tracker_wf (tracking s)" "tracking s \<noteq> None" "\<And>f. file_wf (files s f)"
  shows "counts (tracking t) i = counts (tracking s) i
    + of_nat (length (filter (\<lambda>c. case c of Read _ _ _ \<Rightarrow> i = 0 | Write _ _ _ \<Rightarrow> i = 1 | _ \<Rightarrow> False) cs))"
  using assms
proof (induction cs arbitrary: s l)
  case (Cons c cs)
  obtain r u where c: "rw_exec E U c s = (r, u)" by fastforce
  obtain l' where l': "rw_log E U cs u = (l', t)"
    using Cons.prems by (auto simp: c Let_def split: prod.splits)
  obtain us where us: "tracking s = Some us" "tracker_wf (Some us)" using Cons.prems(2,3) by auto
  note e = rw_exec_effect [OF c Cons.prems(4)]
  have tr: "tracking u = tracking (entered c s)" using e by (simp add: call_effect_def)
  note wf = run_effect_wf [OF run_effect_trans [OF entered_effect call_run_effect [OF e]] Cons.prems(4)]
  have "tracker_wf (tracking u) \<and> tracking u \<noteq> None \<and> counts (tracking u) i = counts (tracking s) i
      + (case c of Read _ _ _ \<Rightarrow> of_bool (i = 0) | Write _ _ _ \<Rightarrow> of_bool (i = 1) | _ \<Rightarrow> 0)"
    using counts_track_syscall [OF us(2), of NR_read "clock s"] counts_track_syscall [OF us(2), of NR_write "clock s"] us
    by (cases c) (auto simp: tr track_def)
  with Cons.IH [OF l' _ _ wf] show ?case by (auto split: rw_call.splits)
qed simp

lemma ksys_read_moves:
  assumes "ksys_read E U fd buf n s = (r, t)" "fdlookup s fd = Some f" "\<not> FMODE_STREAM (f_mode (files s f))"
  shows "r < 0 \<Longrightarrow> files t = files s"
    and "0 \<le> r \<Longrightarrow> r \<le> uint n \<and> (\<exists>j. 0 \<le> j \<and> j \<le> r
      \<and> files t = (files s)(f := (files s f)\<lparr>f_pos := f_pos (files s f) + of_int j\<rparr>))"
proof -
  from assms obtain q u where v: "vfs_read E U f buf n (Some (f_pos (files s f))) (lock_pos f 1 (taken f s)) = (r, q, u)"
    and t: "t = fdput_pos f (store_pos f r q u)"
    by (auto simp: ksys_read_def fdget_pos_some fdget_pos_none file_ppos_def split: prod.splits)
  note e = vfs_read_effect [OF v]
  then have u: "files u = files s" by (auto simp: io_effect_def)
  from e obtain b where q: "q = Some b" by (auto simp: pos_after_def)
  show "r < 0 \<Longrightarrow> files t = files s" by (simp add: t q u store_pos_def fdput_pos_def fdput_def)
  assume "0 \<le> r"
  then show "r \<le> uint n \<and> (\<exists>j. 0 \<le> j \<and> j \<le> r
      \<and> files t = (files s)(f := (files s f)\<lparr>f_pos := f_pos (files s f) + of_int j\<rparr>))"
    using e by (auto simp: t q u store_pos_def fdput_pos_def fdput_def upd_file_def pos_after_def)
qed

end

end
