(* ===== verification/Fs_Copy.thy ===== *)
theory Fs_Copy
  imports Fs_Read_Write
begin

text \<open>
  Copies between files and the checks before a write: lines 1226 to 1741 of \<^verbatim>\<open>fs/read_write.c\<close>.
  Splicing and the copy and clone methods of a file system are parameters.
\<close>

section \<open>Checks before a write\<close>

abbreviation (input) MAX_NON_LFS :: loff where "MAX_NON_LFS \<equiv> 0x7fffffff"
abbreviation (input) RLIM_INFINITY :: ulong where "RLIM_INFINITY \<equiv> - 1"
abbreviation (input) COPY_FILE_SPLICE :: u32 where "COPY_FILE_SPLICE \<equiv> 1"

text \<open>The smaller of two offsets.\<close>

definition smin :: "loff \<Rightarrow> loff \<Rightarrow> loff" where
  "smin a b = (if sint a < sint b then a else b)"

text \<open>The count is returned as the code leaves it, also with an error.\<close>

definition generic_write_check_limits ::
  "fs_env \<Rightarrow> nat \<Rightarrow> loff \<Rightarrow> loff \<Rightarrow> fs_state \<Rightarrow> int \<times> loff \<times> fs_state" where
  "generic_write_check_limits E f pos cnt s =
     (let max_size = (if O_LARGEFILE (files s f) then s_maxbytes (host_of s f) else MAX_NON_LFS);
          limit = rlimit_fsize E;
          rest = (\<lambda>cnt. if sint pos \<ge> sint max_size then (- EFBIG, cnt, s)
                        else (0, smin cnt (max_size - pos), s))
      in if limit \<noteq> RLIM_INFINITY then
           if sint pos \<ge> sint limit then (- EFBIG, cnt, s\<lparr>fs_events := fs_events s @ [Sigxfsz]\<rparr>)
           else rest (smin cnt (limit - pos))
         else rest cnt)"

definition generic_write_checks_count ::
  "fs_env \<Rightarrow> kiocb \<Rightarrow> loff \<Rightarrow> fs_state \<Rightarrow> int \<times> kiocb \<times> loff \<times> fs_state" where
  "generic_write_checks_count E k cnt s =
     (let f = ki_filp k in
      if swapfile (host_of s f) then (- ETXTBSY, k, cnt, s)
      else if cnt = 0 then (0, k, cnt, s)
      else
        (let k = (if IOCB_APPEND k then k\<lparr>ki_pos := i_size (host_of s f)\<rparr> else k) in
         if IOCB_NOWAIT k \<and> \<not> (IOCB_DIRECT k \<or> FMODE_BUF_WASYNC (f_mode (files s f))) then (- EINVAL, k, cnt, s)
         else case generic_write_check_limits E f (ki_pos k) cnt s of (ret, cnt, s) \<Rightarrow> (ret, k, cnt, s)))"

definition generic_write_checks ::
  "fs_env \<Rightarrow> kiocb \<Rightarrow> iov_iter \<Rightarrow> fs_state \<Rightarrow> int \<times> kiocb \<times> iov_iter \<times> fs_state" where
  "generic_write_checks E k it s =
     (case generic_write_checks_count E k (iter_count it) s of (ret, k, cnt, s) \<Rightarrow>
        if ret \<noteq> 0 then (ret, k, it, s)
        else (let it = iov_iter_truncate E it cnt in (uint (iter_count it), k, it, s)))"

definition generic_file_rw_checks :: "nat \<Rightarrow> nat \<Rightarrow> fs_state \<Rightarrow> int" where
  "generic_file_rw_checks file_in file_out s =
     (if is_dir (inode_of s file_in) \<or> is_dir (inode_of s file_out) then - EISDIR
      else if \<not> is_reg (inode_of s file_in) \<or> \<not> is_reg (inode_of s file_out) then - EINVAL
      else if \<not> FMODE_READ (f_mode (files s file_in)) \<or> \<not> FMODE_WRITE (f_mode (files s file_out))
        \<or> O_APPEND (files s file_out) then - EBADF
      else 0)"


section \<open>Copying a range\<close>

text \<open>The part that shortens the copy and tests for an overlap.\<close>

definition copy_count_checks ::
  "fs_env \<Rightarrow> nat \<Rightarrow> loff \<Rightarrow> nat \<Rightarrow> loff \<Rightarrow> ulong \<Rightarrow> fs_state \<Rightarrow> int \<times> ulong \<times> fs_state" where
  "copy_count_checks E file_in pos_in file_out pos_out req_count s =
     (let size_in = i_size (inode_of s file_in);
          cnt = (if sint pos_in \<ge> sint size_in then 0 else min req_count (size_in - pos_in))
      in case generic_write_check_limits E file_out pos_out cnt s of (ret, cnt, s) \<Rightarrow>
        if ret \<noteq> 0 then (ret, req_count, s)
        else if f_inode (files s file_in) = f_inode (files s file_out)
          \<and> pos_out + cnt > pos_in \<and> pos_out < pos_in + cnt then (- EINVAL, req_count, s)
        else (0, cnt, s))"

definition generic_copy_file_checks ::
  "fs_env \<Rightarrow> nat \<Rightarrow> loff \<Rightarrow> nat \<Rightarrow> loff \<Rightarrow> ulong \<Rightarrow> u32 \<Rightarrow> fs_state \<Rightarrow> int \<times> ulong \<times> fs_state" where
  "generic_copy_file_checks E file_in pos_in file_out pos_out req_count flags s =
     (let ret = generic_file_rw_checks file_in file_out s;
          out_op = op_copy_file_range (files s file_out);
          inode_in = inode_of s file_in; inode_out = inode_of s file_out in
      if ret \<noteq> 0 then (ret, req_count, s)
      else if and flags COPY_FILE_SPLICE = 0 \<and> out_op \<noteq> None \<and> op_copy_file_range (files s file_in) \<noteq> out_op
        then (- EXDEV, req_count, s)
      else if and flags COPY_FILE_SPLICE = 0 \<and> out_op = None \<and> i_sb inode_in \<noteq> i_sb inode_out
        then (- EXDEV, req_count, s)
      else if immutable inode_out then (- EPERM, req_count, s)
      else if swapfile inode_in \<or> swapfile inode_out then (- ETXTBSY, req_count, s)
      else if pos_in + req_count < pos_in \<or> pos_out + req_count < pos_out then (- EOVERFLOW, req_count, s)
      else copy_count_checks E file_in pos_in file_out pos_out req_count s)"

text \<open>The two ways to copy: by the file system under write protection, or by splicing.\<close>

definition copy_by_method ::
  "fs_env \<Rightarrow> nat \<Rightarrow> loff \<Rightarrow> nat \<Rightarrow> loff \<Rightarrow> ulong \<Rightarrow> u32 \<Rightarrow> fs_state \<Rightarrow> int \<times> bool \<times> fs_state" where
  "copy_by_method E file_in pos_in file_out pos_out n flags s =
     (let spl = (and flags COPY_FILE_SPLICE \<noteq> 0);
          samesb = (i_sb (inode_of s file_in) = i_sb (inode_of s file_out)) in
      if \<not> spl \<and> op_copy_file_range (files s file_out) \<noteq> None then
        (case fs_copy_file_range E file_in pos_in file_out pos_out n flags s of (ret, s) \<Rightarrow> (ret, spl, s))
      else if \<not> spl \<and> op_remap_file_range (files s file_in) \<and> samesb then
        (case fs_remap_file_range E file_in pos_in file_out pos_out (smin MAX_RW_COUNT n) s of
           (ret, s) \<Rightarrow> (ret, ret \<le> 0, s))
      else (0, spl \<or> samesb, s))"

definition vfs_copy_file_range ::
  "fs_env \<Rightarrow> nat \<Rightarrow> loff \<Rightarrow> nat \<Rightarrow> loff \<Rightarrow> ulong \<Rightarrow> u32 \<Rightarrow> fs_state \<Rightarrow> int \<times> fs_state" where
  "vfs_copy_file_range E file_in pos_in file_out pos_out len flags s =
     (if and flags (not COPY_FILE_SPLICE) \<noteq> 0 then (- EINVAL, s)
      else case generic_copy_file_checks E file_in pos_in file_out pos_out len flags s of (ret, n, s) \<Rightarrow>
        if ret \<noteq> 0 then (ret, s)
        else
          (let ret = rw_verify_area E False file_in (Some pos_in) n s in
           if ret \<noteq> 0 then (ret, s)
           else
             (let ret = rw_verify_area E True file_out (Some pos_out) n s in
              if ret \<noteq> 0 then (ret, s)
              else if n = 0 then (0, s)
              else case copy_by_method E file_in pos_in file_out pos_out n flags (file_start_write file_out s) of
                (ret, spl, s) \<Rightarrow>
                  (case (let s = file_end_write file_out s in
                         if spl then
                           (case do_splice_direct E file_in pos_in file_out pos_out (min n MAX_RW_COUNT) s of
                              (ret, _, _, s) \<Rightarrow> (ret, s))
                         else (ret, s)) of
                     (ret, s) \<Rightarrow>
                       (ret, inc_syscw (inc_syscr
                          (if ret > 0 then add_wchar ret (fsnotify_modify file_out
                             (add_rchar ret (fsnotify_access file_in s))) else s)))))))"

text \<open>Reading an offset from user memory, or taking the position of the file.\<close>

definition offset_of :: "uaccess \<Rightarrow> addr \<Rightarrow> nat \<Rightarrow> fs_state \<Rightarrow> loff option" where
  "offset_of U off f s =
     (if off \<noteq> NULL then
        (case copy_from_user U (fs_mem s) (replicate 8 0) off of
           (bs, left) \<Rightarrow> if left \<noteq> 0 then None else Some (dec_ulong bs))
      else Some (f_pos (files s f)))"

definition put_offset :: "uaccess \<Rightarrow> addr \<Rightarrow> nat \<Rightarrow> loff \<Rightarrow> int \<Rightarrow> fs_state \<Rightarrow> int \<times> fs_state" where
  "put_offset U off f pos ret s =
     (if off \<noteq> NULL then
        (case copy_to_user U (fs_mem s) off (enc_ulong pos) of
           (m, left) \<Rightarrow> (if left \<noteq> 0 then - EFAULT else ret, s\<lparr>fs_mem := m\<rparr>))
      else (ret, upd_file f (\<lambda>x. x\<lparr>f_pos := pos\<rparr>) s))"

definition copy_range_files ::
  "fs_env \<Rightarrow> uaccess \<Rightarrow> nat \<Rightarrow> addr \<Rightarrow> nat \<Rightarrow> addr \<Rightarrow> ulong \<Rightarrow> u32 \<Rightarrow> fs_state \<Rightarrow> int \<times> fs_state" where
  "copy_range_files E U f_in off_in f_out off_out len flags s =
     (case offset_of U off_in f_in s of
        None \<Rightarrow> (- EFAULT, s)
      | Some pos_in \<Rightarrow>
        (case offset_of U off_out f_out s of
           None \<Rightarrow> (- EFAULT, s)
         | Some pos_out \<Rightarrow>
           if flags \<noteq> 0 then (- EINVAL, s)
           else case vfs_copy_file_range E f_in pos_in f_out pos_out len flags s of (ret, s) \<Rightarrow>
             if ret > 0 then
               (case put_offset U off_in f_in (pos_in + of_int ret) ret s of (r1, s) \<Rightarrow>
                  put_offset U off_out f_out (pos_out + of_int ret) r1 s)
             else (ret, s)))"

definition sys_copy_file_range ::
  "fs_env \<Rightarrow> uaccess \<Rightarrow> u32 \<Rightarrow> addr \<Rightarrow> u32 \<Rightarrow> addr \<Rightarrow> ulong \<Rightarrow> u32 \<Rightarrow> fs_state \<Rightarrow> int \<times> fs_state" where
  "sys_copy_file_range E U fd_in off_in fd_out off_out len flags s =
     (case fdget fd_in s of
        (None, s) \<Rightarrow> (- EBADF, s)
      | (Some f_in, s) \<Rightarrow>
        (case (case fdget fd_out s of
                 (None, s) \<Rightarrow> (- EBADF, s)
               | (Some f_out, s) \<Rightarrow>
                 (case copy_range_files E U f_in off_in f_out off_out len flags s of
                    (ret, s) \<Rightarrow> (ret, fdput f_out s))) of
           (ret, s) \<Rightarrow> (ret, fdput f_in s)))"


section \<open>sendfile\<close>

text \<open>The transfer: by splicing into a file, or into a pipe. The third part of the result says
  whether it was started.\<close>

definition sendfile_splice ::
  "fs_env \<Rightarrow> nat \<Rightarrow> nat \<Rightarrow> loff \<Rightarrow> loff \<Rightarrow> ulong \<Rightarrow> fs_state \<Rightarrow> int \<times> bool \<times> loff \<times> loff \<times> fs_state" where
  "sendfile_splice E f_in f_out pos out_pos cnt s =
     (if \<not> get_pipe_info E f_out then
        (let retval = rw_verify_area E True f_out (Some out_pos) cnt s in
         if retval < 0 then (retval, False, pos, out_pos, s)
         else case do_splice_direct E f_in pos f_out out_pos cnt s of
           (retval, pos, out_pos, s) \<Rightarrow> (retval, True, pos, out_pos, s))
      else case splice_file_to_pipe E f_in f_out pos cnt (O_NONBLOCK (files s f_out)) s of
        (retval, pos, s) \<Rightarrow> (retval, True, pos, out_pos, s))"

definition sendfile_to ::
  "fs_env \<Rightarrow> nat \<Rightarrow> nat \<Rightarrow> loff \<Rightarrow> loff option \<Rightarrow> ulong \<Rightarrow> loff \<Rightarrow> fs_state \<Rightarrow> int \<times> loff option \<times> fs_state" where
  "sendfile_to E f_in f_out pos ppos cnt mx s =
     (if \<not> FMODE_WRITE (f_mode (files s f_out)) then (- EBADF, ppos, s)
      else
        (let mx = (if mx = 0 then smin (s_maxbytes (inode_of s f_in)) (s_maxbytes (inode_of s f_out)) else mx);
             over = (pos + cnt > mx) in
         if over \<and> sint pos \<ge> sint mx then (- EOVERFLOW, ppos, s)
         else case sendfile_splice E f_in f_out pos (f_pos (files s f_out)) (if over then mx - pos else cnt) s of
           (retval, started, pos, out_pos, s) \<Rightarrow>
             if \<not> started then (retval, ppos, s)
             else
               (let s = (if retval > 0
                         then upd_file f_out (\<lambda>x. x\<lparr>f_pos := out_pos\<rparr>)
                           (fsnotify_modify f_out (fsnotify_access f_in (add_wchar retval (add_rchar retval s))))
                         else s);
                    s = (if retval > 0 \<and> ppos = None then upd_file f_in (\<lambda>x. x\<lparr>f_pos := pos\<rparr>) s else s);
                    ppos = (if retval > 0 then put_pos ppos pos else ppos)
                in (if sint pos > sint mx then - EOVERFLOW else retval, ppos, inc_syscw (inc_syscr s)))))"

definition sendfile_from ::
  "fs_env \<Rightarrow> u32 \<Rightarrow> nat \<Rightarrow> loff option \<Rightarrow> ulong \<Rightarrow> loff \<Rightarrow> fs_state \<Rightarrow> int \<times> loff option \<times> fs_state" where
  "sendfile_from E out_fd f_in ppos cnt mx s =
     (if \<not> FMODE_READ (f_mode (files s f_in)) then (- EBADF, ppos, s)
      else if ppos \<noteq> None \<and> \<not> FMODE_PREAD (f_mode (files s f_in)) then (- ESPIPE, ppos, s)
      else
        (let pos = (case ppos of None \<Rightarrow> f_pos (files s f_in) | Some p \<Rightarrow> p);
             retval = rw_verify_area E False f_in (Some pos) cnt s in
         if retval < 0 then (retval, ppos, s)
         else case fdget out_fd s of
           (None, s) \<Rightarrow> (- EBADF, ppos, s)
         | (Some f_out, s) \<Rightarrow>
           (case sendfile_to E f_in f_out pos ppos (if cnt > MAX_RW_COUNT then MAX_RW_COUNT else cnt) mx s of
              (retval, ppos, s) \<Rightarrow> (retval, ppos, fdput f_out s))))"

definition do_sendfile ::
  "fs_env \<Rightarrow> u32 \<Rightarrow> u32 \<Rightarrow> loff option \<Rightarrow> ulong \<Rightarrow> loff \<Rightarrow> fs_state \<Rightarrow> int \<times> loff option \<times> fs_state" where
  "do_sendfile E out_fd in_fd ppos cnt mx s =
     (case fdget in_fd s of
        (None, s) \<Rightarrow> (- EBADF, ppos, s)
      | (Some f_in, s) \<Rightarrow>
        (case sendfile_from E out_fd f_in ppos cnt mx s of (retval, ppos, s) \<Rightarrow> (retval, ppos, fdput f_in s)))"

definition put_pos_user :: "uaccess \<Rightarrow> addr \<Rightarrow> int \<times> loff option \<times> fs_state \<Rightarrow> int \<times> fs_state" where
  "put_pos_user U off r = (case r of (ret, ppos, s) \<Rightarrow>
     (case put_user U (fs_mem s) off (enc_ulong (or_zero ppos)) of (m, e) \<Rightarrow>
        (if e \<noteq> 0 then - EFAULT else ret, s\<lparr>fs_mem := m\<rparr>)))"

definition sys_sendfile :: "fs_env \<Rightarrow> uaccess \<Rightarrow> u32 \<Rightarrow> u32 \<Rightarrow> addr \<Rightarrow> ulong \<Rightarrow> fs_state \<Rightarrow> int \<times> fs_state" where
  "sys_sendfile E U out_fd in_fd off cnt s =
     (if off \<noteq> NULL then
        (case get_user E (fs_mem s) off of (e, pos) \<Rightarrow>
           if e \<noteq> 0 then (- EFAULT, s)
           else put_pos_user U off (do_sendfile E out_fd in_fd (Some pos) cnt MAX_NON_LFS s))
      else (case do_sendfile E out_fd in_fd None cnt 0 s of (ret, _, s) \<Rightarrow> (ret, s)))"

definition sys_sendfile64 :: "fs_env \<Rightarrow> uaccess \<Rightarrow> u32 \<Rightarrow> u32 \<Rightarrow> addr \<Rightarrow> ulong \<Rightarrow> fs_state \<Rightarrow> int \<times> fs_state" where
  "sys_sendfile64 E U out_fd in_fd off cnt s =
     (if off \<noteq> NULL then
        (case copy_from_user U (fs_mem s) (replicate 8 0) off of (bs, left) \<Rightarrow>
           if left \<noteq> 0 then (- EFAULT, s)
           else put_pos_user U off (do_sendfile E out_fd in_fd (Some (dec_ulong bs)) cnt 0 s))
      else (case do_sendfile E out_fd in_fd None cnt 0 s of (ret, _, s) \<Rightarrow> (ret, s)))"

section \<open>The limits of a write\<close>

lemma sint_diff_exact: "- (2 ^ 63) \<le> sint a - sint b \<Longrightarrow> sint a - sint b < 2 ^ 63
    \<Longrightarrow> sint (a - b :: loff) = sint a - sint b"
  using sint_of_int_64 [of "sint a - sint b"] by simp

lemma smin_le: "sint (smin a b) \<le> sint a" "sint (smin a b) \<le> sint b"
  by (auto simp: smin_def)

lemma smin_nonneg: "0 \<le> sint a \<Longrightarrow> 0 \<le> sint b \<Longrightarrow> 0 \<le> sint (smin a b)"
  by (auto simp: smin_def)

lemma write_limits_cases:
  assumes "generic_write_check_limits E f pos cnt s = (r, n, t)"
  shows "files t = files s \<and> io_effect 0 0 0 0 s t \<and> (r = 0 \<or> r = - EFBIG) \<and> (r = 0 \<longrightarrow> t = s)"
  using assms unfolding generic_write_check_limits_def Let_def by (auto simp: io_effect_def split: if_splits)

text \<open>A write that is let through ends within the limits, and is no longer than was asked for.\<close>

lemma write_limits_bound:
  assumes "generic_write_check_limits E f pos cnt s = (0, n, t)" "0 \<le> sint pos" "0 \<le> sint cnt"
  shows "0 \<le> sint n" "sint n \<le> sint cnt"
    and "sint pos + sint n \<le> sint (if O_LARGEFILE (files s f) then s_maxbytes (host_of s f) else MAX_NON_LFS)"
    and "rlimit_fsize E = RLIM_INFINITY \<or> sint pos + sint n \<le> sint (rlimit_fsize E)"
proof -
  define mx where "mx = (if O_LARGEFILE (files s f) then s_maxbytes (host_of s f) else MAX_NON_LFS)"
  define c where "c = (if rlimit_fsize E \<noteq> RLIM_INFINITY then smin cnt (rlimit_fsize E - pos) else cnt)"
  have g: "sint pos < sint mx" "rlimit_fsize E \<noteq> RLIM_INFINITY \<Longrightarrow> sint pos < sint (rlimit_fsize E)" "n = smin c (mx - pos)"
    using assms(1) unfolding generic_write_check_limits_def Let_def mx_def [symmetric] c_def
    by (auto simp: not_le split: if_splits)
  have d: "sint (mx - pos) = sint mx - sint pos"
    using g(1) assms(2) sint_range_64 [of mx] by (intro sint_diff_exact) auto
  have e: "sint (rlimit_fsize E - pos) = sint (rlimit_fsize E) - sint pos" if "rlimit_fsize E \<noteq> RLIM_INFINITY"
    using g(2) [OF that] assms(2) sint_range_64 [of "rlimit_fsize E"] by (intro sint_diff_exact) auto
  have c: "0 \<le> sint c" "sint c \<le> sint cnt" "rlimit_fsize E = RLIM_INFINITY \<or> sint pos + sint c \<le> sint (rlimit_fsize E)"
    using assms(3) e g(2) smin_le [of cnt "rlimit_fsize E - pos"] by (auto simp: c_def smin_nonneg)
  show "0 \<le> sint n" unfolding g(3) using c(1) d g(1) by (intro smin_nonneg) auto
  show "sint n \<le> sint cnt" unfolding g(3) using c(2) smin_le(1) [of c "mx - pos"] by linarith
  show "sint pos + sint n \<le> sint mx" unfolding g(3) using d smin_le(2) [of c "mx - pos"] by linarith
  show "rlimit_fsize E = RLIM_INFINITY \<or> sint pos + sint n \<le> sint (rlimit_fsize E)"
    unfolding g(3) using c(3) smin_le(1) [of c "mx - pos"] by linarith
qed

section \<open>A checked range\<close>

lemma count_checks_cases:
  assumes "copy_count_checks E fi pi fo po cnt s = (r, n, t)"
  shows "files t = files s \<and> io_effect 0 0 0 0 s t \<and> r \<le> 0 \<and> (r = 0 \<longrightarrow> t = s)"
proof -
  let ?c = "if sint pi \<ge> sint (i_size (inode_of s fi)) then 0 else min cnt (i_size (inode_of s fi) - pi)"
  obtain r' n' t' where w: "generic_write_check_limits E fo po ?c s = (r', n', t')" by (metis prod_cases3)
  have "t = t' \<and> (r = 0 \<longrightarrow> r' = 0) \<and> (r = r' \<or> r \<le> 0)"
    using assms unfolding copy_count_checks_def Let_def w prod.case by (auto split: if_splits)
  then show ?thesis using write_limits_cases [OF w] by auto
qed

lemma copy_checks_cases:
  assumes "generic_copy_file_checks E fi pi fo po cnt fl s = (r, n, t)"
  shows "files t = files s \<and> io_effect 0 0 0 0 s t \<and> r \<le> 0 \<and> (r = 0 \<longrightarrow> t = s)"
proof -
  have "generic_file_rw_checks fi fo s \<le> 0" by (simp add: generic_file_rw_checks_def)
  then have "t = s \<and> r \<le> 0 \<or> copy_count_checks E fi pi fo po cnt s = (r, n, t)"
    using assms unfolding generic_copy_file_checks_def Let_def by (auto elim!: branchE)
  then show ?thesis using count_checks_cases [of E fi pi fo po cnt s r n t] io_effect_refl [of s] by blast
qed

text \<open>What a successful check has established.\<close>

lemma copy_checks_passed:
  assumes "generic_copy_file_checks E fi pi fo po cnt fl s = (0, n, t)"
  shows "generic_file_rw_checks fi fo s = 0" "\<not> immutable (inode_of s fo)"
    "\<not> swapfile (inode_of s fi)" "\<not> swapfile (inode_of s fo)" "pi \<le> pi + cnt" "po \<le> po + cnt"
    "copy_count_checks E fi pi fo po cnt s = (0, n, t)"
  using assms unfolding generic_copy_file_checks_def Let_def by (simp_all add: not_less split: if_splits)

lemma count_checks_passed:
  assumes "copy_count_checks E fi pi fo po cnt s = (0, n, t)"
  shows "generic_write_check_limits E fo po
      (if sint pi \<ge> sint (i_size (inode_of s fi)) then 0 else min cnt (i_size (inode_of s fi) - pi)) s = (0, n, t)"
    and "f_inode (files s fi) = f_inode (files s fo) \<Longrightarrow> po + n \<le> pi \<or> pi + n \<le> po"
proof -
  let ?c = "if sint pi \<ge> sint (i_size (inode_of s fi)) then 0 else min cnt (i_size (inode_of s fi) - pi)"
  obtain r' n' t' where w: "generic_write_check_limits E fo po ?c s = (r', n', t')" by (metis prod_cases3)
  have e: "(r', n', t') = (0, n, t)" "f_inode (files t fi) = f_inode (files t fo) \<longrightarrow> po + n \<le> pi \<or> pi + n \<le> po"
    using assms unfolding copy_count_checks_def Let_def w prod.case by (auto simp: not_less split: if_splits)
  then show "generic_write_check_limits E fo po ?c s = (0, n, t)" using w by simp
  show "f_inode (files s fi) = f_inode (files s fo) \<Longrightarrow> po + n \<le> pi \<or> pi + n \<le> po"
    using e write_limits_cases [OF w] by simp
qed

lemma sint_le_iff: "0 \<le> sint a \<Longrightarrow> 0 \<le> sint b \<Longrightarrow> (a \<le> b) \<longleftrightarrow> sint a \<le> sint (b :: loff)"
  unfolding sint_64 word_le_nat_alt using unat_word64_lt [of a] unat_word64_lt [of b]
  by (auto simp del: of_nat_unat split: if_splits)

lemma sint_le_bound: "a \<le> b \<Longrightarrow> 0 \<le> sint b \<Longrightarrow> 0 \<le> sint a \<and> sint a \<le> sint (b :: loff)"
  unfolding sint_64 word_le_nat_alt using unat_word64_lt [of a] unat_word64_lt [of b]
  by (auto simp del: of_nat_unat split: if_splits)

lemma copy_checks_bounds:
  assumes passed: "generic_copy_file_checks E fi pi fo po cnt fl s = (0, n, t)"
    and pos: "0 \<le> sint pi" "0 \<le> sint po" and size: "0 \<le> sint (i_size (inode_of s fi))"
  shows "0 \<le> sint n" "n \<le> cnt" "n = 0 \<or> sint pi + sint n \<le> sint (i_size (inode_of s fi))"
    and "sint po + sint n \<le> sint (if O_LARGEFILE (files s fo) then s_maxbytes (host_of s fo) else MAX_NON_LFS)"
    and "rlimit_fsize E = RLIM_INFINITY \<or> sint po + sint n \<le> sint (rlimit_fsize E)"
    and "f_inode (files s fi) = f_inode (files s fo) \<Longrightarrow>
      sint po + sint n \<le> sint pi \<or> sint pi + sint n \<le> sint po"
proof -
  let ?sz = "i_size (inode_of s fi)"
  define c where "c = (if sint pi \<ge> sint ?sz then 0 else min cnt (?sz - pi))"
  note cc = count_checks_passed [OF copy_checks_passed(7) [OF passed], folded c_def]
  have c: "0 \<le> sint c" "c \<le> cnt" "c = 0 \<or> sint pi + sint c \<le> sint ?sz"
  proof -
    have "0 \<le> sint c \<and> c \<le> cnt \<and> (c = 0 \<or> sint pi + sint c \<le> sint ?sz)"
    proof (cases "sint pi \<ge> sint ?sz")
      case False
      then have "sint (?sz - pi) = sint ?sz - sint pi"
        using pos size sint_range_64 [of ?sz] by (intro sint_diff_exact) auto
      with False sint_le_bound [of c "?sz - pi"] show ?thesis by (auto simp: c_def)
    qed (simp add: c_def)
    then show "0 \<le> sint c" "c \<le> cnt" "c = 0 \<or> sint pi + sint c \<le> sint ?sz" by auto
  qed
  note b = write_limits_bound [OF cc(1) pos(2) c(1)]
  show "0 \<le> sint n" by (rule b(1))
  show "n \<le> cnt" using sint_le_iff [OF b(1) c(1)] b(2) c(2) by simp
  show small: "n = 0 \<or> sint pi + sint n \<le> sint ?sz" using c(3) b(1,2) sint_zero_iff [of n] by auto
  show "sint po + sint n \<le> sint (if O_LARGEFILE (files s fo) then s_maxbytes (host_of s fo) else MAX_NON_LFS)" by (rule b(3))
  show "rlimit_fsize E = RLIM_INFINITY \<or> sint po + sint n \<le> sint (rlimit_fsize E)" by (rule b(4))
  assume "f_inode (files s fi) = f_inode (files s fo)"
  note apart = cc(2) [OF this]
  have "sint (po + n) = sint po + sint n"
    using b(1,3) pos(2) sint_range_64 [of "if O_LARGEFILE (files s fo) then s_maxbytes (host_of s fo) else MAX_NON_LFS"]
    by (intro sint_add_exact) linarith+
  moreover have "sint (pi + n) = sint pi + sint n"
    using small b(1) pos(1) sint_range_64 [of ?sz] by (cases "n = 0") (auto intro!: sint_add_exact)
  ultimately show "sint po + sint n \<le> sint pi \<or> sint pi + sint n \<le> sint po"
    using apart sint_le_iff [of "po + n" pi] sint_le_iff [of "pi + n" po] b(1) pos by auto
qed

section \<open>What the copying calls do\<close>

lemma call_effect_trans: "call_effect a b s t \<Longrightarrow> call_effect a' b' t u \<Longrightarrow> call_effect (a + a') (b + b') s u"
  unfolding call_effect_def by (auto intro: same_file_trans)

lemma call_effect_put: "call_effect a b (taken f s) u \<Longrightarrow> call_effect a b s (fdput f u)"
  by (simp add: call_effect_def fdput_def)

lemma io_call_effect: "io_effect a b c d s t \<Longrightarrow> call_effect a b s t"
  by (simp add: io_effect_def call_effect_def)

text \<open>Storing a position that is valid when the old one was.\<close>

lemma store_effect:
  assumes "pos_ok (files s f) \<Longrightarrow> unsigned_offsets (files s f) \<or> 0 \<le> sint p"
  shows "call_effect 0 0 s (upd_file f (\<lambda>x. x\<lparr>f_pos := p\<rparr>) s)"
proof -
  have "same_file (files s f) ((files s f)\<lparr>f_pos := p\<rparr>)"
    using assms by (auto simp: same_file_def pos_ok_def unsigned_offsets_def)
  then show ?thesis by (simp add: call_effect_def upd_file_def)
qed

lemma verify_files: "files s = files t \<Longrightarrow> rw_verify_area E wr f p n s = rw_verify_area E wr f p n t"
  by (simp only: rw_verify_area_def)

lemma verified_sum:
  assumes "0 \<le> rw_verify_area E wr f (Some pos) n s" "pos_after False (Some pos) r (Some p)" "0 \<le> r" "r \<le> uint n"
  shows "unsigned_offsets (files s f) \<or> 0 \<le> sint p"
  using verified_keeps_valid [OF assms(1,4,2)] rw_verify_area_no_wrap(3) [OF assms(1)] assms(3)
  by (auto simp: keeps_valid_def)

lemma pos_after_sum: "0 \<le> r \<Longrightarrow> pos_after False (Some p) r (Some (p + of_int r))"
  by (auto simp: pos_after_def intro: exI [of _ r])

lemma put_offset_effect:
  assumes "put_offset U off f pos r s = (r', t)" "unsigned_offsets (files s f) \<or> 0 \<le> sint pos"
  shows "call_effect 0 0 s t"
proof (cases "off = NULL")
  case True
  with assms show ?thesis using store_effect [of s f pos] by (auto simp: put_offset_def)
next
  case False
  with assms show ?thesis by (auto simp: put_offset_def call_effect_def split: prod.splits)
qed

lemma same_file_unsigned: "same_file x y \<Longrightarrow> unsigned_offsets y = unsigned_offsets x"
  using same_file_mode [of x y] by (simp add: unsigned_offsets_def)

lemma io_effect_both:
  "io_effect 0 0 0 0 s t \<Longrightarrow> io_effect (of_int (max 0 r)) (of_int (max 0 r)) 1 1 s
     (inc_syscw (inc_syscr (if r > 0 then add_wchar r (fsnotify_modify fo (add_rchar r (fsnotify_access fi t))) else t)))"
  unfolding io_effect_def inc_syscr_def inc_syscw_def add_rchar_def add_wchar_def fsnotify_access_def fsnotify_modify_def
  by (auto simp: max_def)

locale fs_copying = fs_methods +
  assumes splice_law: "\<And>f p g q n s r p' q' t. do_splice_direct E f p g q n s = (r, p', q', t)
      \<Longrightarrow> io_effect 0 0 0 0 s t \<and> r \<le> uint n \<and> pos_after False (Some p) r (Some p') \<and> pos_after False (Some q) r (Some q')"
    and pipe_law: "\<And>f g p n b s r p' t. splice_file_to_pipe E f g p n b s = (r, p', t)
      \<Longrightarrow> io_effect 0 0 0 0 s t \<and> r \<le> uint n \<and> pos_after False (Some p) r (Some p')"
    and copy_law: "\<And>f p g q n fl s r t. fs_copy_file_range E f p g q n fl s = (r, t)
      \<Longrightarrow> io_effect 0 0 0 0 s t \<and> r \<le> uint n"
    and remap_law: "\<And>f p g q n s r t. fs_remap_file_range E f p g q n s = (r, t)
      \<Longrightarrow> io_effect 0 0 0 0 s t \<and> (0 \<le> sint n \<longrightarrow> r \<le> sint n)"
begin

lemma copy_by_method_effect:
  assumes "copy_by_method E fi pi fo po n fl s = (r, b, t)" "0 \<le> sint n"
  shows "io_effect 0 0 0 0 s t \<and> r \<le> uint n"
proof -
  have n: "uint n = sint n" using assms(2) uint_bounded [of n] unfolding sint_64 by (auto split: if_splits)
  consider "t = s" "r = 0" | "fs_copy_file_range E fi pi fo po n fl s = (r, t)"
    | "fs_remap_file_range E fi pi fo po (smin MAX_RW_COUNT n) s = (r, t)"
    using assms(1) unfolding copy_by_method_def Let_def by (auto elim!: branchE split: prod.splits)
  then show ?thesis
  proof cases
    case 1
    then show ?thesis by (simp add: io_effect_refl)
  next
    case 2
    then show ?thesis using copy_law by blast
  next
    case 3
    have "0 \<le> sint (smin MAX_RW_COUNT n)" "sint (smin MAX_RW_COUNT n) \<le> sint n"
      using assms(2) by (auto intro: smin_nonneg smin_le)
    with remap_law [OF 3] show ?thesis by (simp add: n)
  qed
qed

lemma vfs_copy_effect:
  assumes "vfs_copy_file_range E fi pi fo po len fl s = (r, t)"
  shows "(\<exists>c d. io_effect (of_int (max 0 r)) (of_int (max 0 r)) c d s t)
    \<and> (0 < r \<longrightarrow> (\<exists>n. r \<le> uint n \<and> rw_verify_area E False fi (Some pi) n s = 0 \<and> rw_verify_area E True fo (Some po) n s = 0))"
proof -
  obtain r1 n s1 where chk: "generic_copy_file_checks E fi pi fo po len fl s = (r1, n, s1)" by (metis prod_cases3)
  note c = copy_checks_cases [OF chk]
  obtain r2 b s2 where m: "copy_by_method E fi pi fo po n fl (file_start_write fo s1) = (r2, b, s2)" by (metis prod_cases3)
  let ?v = "rw_verify_area E False fi (Some pi) n s1" and ?w = "rw_verify_area E True fo (Some po) n s1"
  obtain u where u: "u = file_end_write fo s2" by simp
  obtain r3 p3 q3 s3 where d: "do_splice_direct E fi pi fo po (min n MAX_RW_COUNT) u = (r3, p3, q3, s3)" by (metis prod_cases4)
  consider "r \<le> 0" "t = s \<or> t = s1"
    | "r1 = 0" "?v = 0" "?w = 0" "r = (if b then r3 else r2)"
      "t = inc_syscw (inc_syscr (if r > 0 then add_wchar r (fsnotify_modify fo (add_rchar r (fsnotify_access fi (if b then s3 else u)))) else (if b then s3 else u)))"
    using assms c verify_nonpos [of False fi "Some pi" n s1] verify_nonpos [of True fo "Some po" n s1]
    unfolding vfs_copy_file_range_def chk Let_def prod.case m u [symmetric] d
    by (cases b) (auto elim!: branchE)
  then show ?thesis
  proof cases
    case 1
    then show ?thesis using c io_effect_refl [of s] by auto
  next
    case 2
    then have s1: "s1 = s" using c by simp
    have n: "0 \<le> sint n" using rw_verify_area_no_wrap(1) [of E False fi pi n s1] 2(2) by simp
    from copy_by_method_effect [OF m n] have e: "io_effect 0 0 0 0 s u" "r2 \<le> uint n"
      using io_effect_end by (auto simp: u s1)
    have "uint (min n MAX_RW_COUNT) \<le> uint n" by (auto simp: min_def word_le_def)
    then have f: "io_effect 0 0 0 0 s s3" "r3 \<le> uint n"
      using io_effect_trans [OF e(1), of 0 0 0 0 s3] splice_law [OF d] by auto
    have x: "io_effect 0 0 0 0 s (if b then s3 else u)" "r \<le> uint n" using e f 2(4) by auto
    have "io_effect (of_int (max 0 r)) (of_int (max 0 r)) 1 1 s t"
      using io_effect_both [OF x(1), of r fo fi] 2(5) by simp
    then show ?thesis using 2(2,3) x(2) s1 by blast
  qed
qed

lemma copy_range_files_effect:
  assumes "copy_range_files E U fi oi fo oo len fl s = (r, t)"
  shows "\<exists>d. call_effect d d s t"
proof -
  obtain pi po where offs: "offset_of U oi fi s = Some pi \<and> offset_of U oo fo s = Some po \<and> fl = 0 \<or> t = s"
    using assms by (auto simp: copy_range_files_def split: option.splits if_splits)
  show ?thesis
  proof (cases "t = s")
    case True
    then show ?thesis using call_effect_refl [of s] by auto
  next
    case False
    obtain r1 s1 where v: "vfs_copy_file_range E fi pi fo po len fl s = (r1, s1)" by fastforce
    note e = vfs_copy_effect [OF v]
    then have c: "call_effect (of_int (max 0 r1)) (of_int (max 0 r1)) s s1" using io_call_effect by blast
    show ?thesis
    proof (cases "0 < r1")
      case False
      then have "t = s1" using assms offs \<open>t \<noteq> s\<close> v by (auto simp: copy_range_files_def)
      then show ?thesis using c by blast
    next
      case True
      with e obtain n where n: "r1 \<le> uint n" "rw_verify_area E False fi (Some pi) n s = 0" "rw_verify_area E True fo (Some po) n s = 0"
        by auto
      have valid: "unsigned_offsets (files s fi) \<or> 0 \<le> sint (pi + of_int r1)" "unsigned_offsets (files s fo) \<or> 0 \<le> sint (po + of_int r1)"
        using verified_sum [OF _ pos_after_sum, of E False fi pi n s r1] verified_sum [OF _ pos_after_sum, of E True fo po n s r1] n True by auto
      obtain r2 s2 where p1: "put_offset U oi fi (pi + of_int r1) r1 s1 = (r2, s2)" by fastforce
      have p2: "put_offset U oo fo (po + of_int r1) r2 s2 = (r, t)"
        using assms offs \<open>t \<noteq> s\<close> v True p1 by (auto simp: copy_range_files_def)
      have uns: "unsigned_offsets (files u f) = unsigned_offsets (files s f)" if "call_effect a b s u" for a b u f
        using that same_file_unsigned by (auto simp: call_effect_def)
      have "call_effect 0 0 s1 s2" using put_offset_effect [OF p1] valid(1) uns [OF c] by simp
      note c2 = call_effect_trans [OF c this]
      have "call_effect 0 0 s2 t" using put_offset_effect [OF p2] valid(2) uns [OF c2] by simp
      from call_effect_trans [OF c2 this] show ?thesis by auto
    qed
  qed
qed

lemma sys_copy_file_range_effect:
  assumes "sys_copy_file_range E U fdi oi fdo oo len fl s = (r, t)"
  shows "\<exists>d. call_effect d d s t"
proof (cases "fdlookup s fdi")
  case None
  with assms show ?thesis using call_effect_refl [of s] by (auto simp: sys_copy_file_range_def fdget_def)
next
  case (Some fi)
  show ?thesis
  proof (cases "fdlookup s fdo")
    case None
    with Some assms show ?thesis
      using call_effect_put [OF call_effect_refl [of "taken fi s"]] by (auto simp: sys_copy_file_range_def fdget_def)
  next
    case (Some fo)
    let ?s = "taken fo (taken fi s)"
    obtain r1 u where c: "copy_range_files E U fi oi fo oo len fl ?s = (r1, u)" by fastforce
    from \<open>fdlookup s fdi = Some fi\<close> Some assms c have "t = fdput fi (fdput fo u)"
      by (auto simp: sys_copy_file_range_def fdget_def)
    then show ?thesis using copy_range_files_effect [OF c] call_effect_put by blast
  qed
qed

lemma sendfile_splice_effect:
  assumes "sendfile_splice E fi fo pos op cnt s = (r, st, p', q', t)"
  shows "io_effect 0 0 0 0 s t \<and> (st \<longrightarrow> r \<le> uint cnt \<and> pos_after False (Some pos) r (Some p')
    \<and> (q' = op \<or> 0 \<le> rw_verify_area E True fo (Some op) cnt s \<and> pos_after False (Some op) r (Some q')))"
proof (cases "get_pipe_info E fo")
  case True
  obtain r1 p1 s1 where "splice_file_to_pipe E fi fo pos cnt (O_NONBLOCK (files s fo)) s = (r1, p1, s1)" by (metis prod_cases3)
  with pipe_law [OF this] assms True show ?thesis by (auto simp: sendfile_splice_def)
next
  case False
  obtain r1 p1 q1 s1 where d: "do_splice_direct E fi pos fo op cnt s = (r1, p1, q1, s1)" by (metis prod_cases4)
  with splice_law [OF this] assms False io_effect_refl [of s] show ?thesis
    by (auto simp: sendfile_splice_def Let_def split: if_splits)
qed

text \<open>Cutting a transfer at the limit makes it shorter, for offsets that are not negative.\<close>

lemma cut_shorter:
  fixes pos cnt mx :: loff
  assumes "mx < pos + cnt" "sint pos < sint mx" "0 \<le> sint pos" "unat pos + unat cnt < 2 ^ 64"
  shows "mx - pos \<le> cnt"
proof -
  have "unat (pos + cnt) = unat pos + unat cnt" using assms(4) by (simp add: unat_word_ariths)
  moreover have "unat pos < unat mx" using assms(2,3) unat_word64_lt [of pos] unfolding sint_64 by (auto simp del: of_nat_unat split: if_splits)
  moreover have "unat (mx - pos) = unat mx - unat pos" using calculation by (simp add: unat_sub word_le_nat_alt)
  ultimately show ?thesis using assms(1) by (simp add: word_less_nat_alt word_le_nat_alt)
qed

lemma sendfile_to_effect:
  assumes "sendfile_to E fi fo pos ppos cnt mx s = (r, pp, t)"
    and ok: "0 \<le> rw_verify_area E False fi (Some pos) cnt0 s" "cnt \<le> cnt0"
  shows "\<exists>d. call_effect d d s t"
proof -
  define m where "m = (if mx = 0 then smin (s_maxbytes (inode_of s fi)) (s_maxbytes (inode_of s fo)) else mx)"
  define n where "n = (if pos + cnt > m then m - pos else cnt)"
  define op where "op = f_pos (files s fo)"
  obtain r1 st p1 q1 s1 where sp: "sendfile_splice E fi fo pos op n s = (r1, st, p1, q1, s1)" by (metis prod_cases5)
  note e = sendfile_splice_effect [OF sp]
  have c1: "call_effect 0 0 s s1" using e io_call_effect by blast
  define s2 where "s2 = fsnotify_modify fo (fsnotify_access fi (add_wchar r1 (add_rchar r1 s1)))"
  define s3 where "s3 = upd_file fo (\<lambda>x. x\<lparr>f_pos := q1\<rparr>) s2"
  define s4 where "s4 = (if ppos = None then upd_file fi (\<lambda>x. x\<lparr>f_pos := p1\<rparr>) s3 else s3)"
  note h = assms(1) [unfolded sendfile_to_def Let_def, folded m_def, folded n_def op_def, unfolded sp prod.case, folded s2_def, folded s3_def]
  have "t = s \<or> t = s1 \<or> st \<and> \<not> (pos + cnt > m \<and> sint pos \<ge> sint m) \<and> t = inc_syscw (inc_syscr (if r1 > 0 then s4 else s1))"
    using h by (cases "r1 > 0"; cases "ppos = None") (auto simp: s4_def split: if_splits)
  then consider "t = s" | "t = s1" | "st" "\<not> (pos + cnt > m \<and> sint pos \<ge> sint m)" "t = inc_syscw (inc_syscr (if r1 > 0 then s4 else s1))"
    by blast
  then show ?thesis
  proof cases
    case 1
    then show ?thesis using call_effect_refl [of s] by blast
  next
    case 2
    then show ?thesis using c1 by blast
  next
    case 3
    show ?thesis
    proof (cases "r1 > 0")
      case False
      then show ?thesis using c1 3 by (auto simp: call_effect_def inc_syscr_def inc_syscw_def)
    next
      case True
      have files: "files s2 = files s" using e by (simp add: s2_def fsnotify_modify_def fsnotify_access_def add_wchar_def add_rchar_def io_effect_def)
      have "r1 \<le> uint cnt0" if "\<not> unsigned_offsets (files s fi)"
      proof -
        have "n \<le> cnt"
          unfolding n_def using cut_shorter [of m pos cnt] rw_verify_area_no_wrap [OF ok(1)] that 3(2) ok(2)
          by (auto simp: word_le_nat_alt)
        then have "uint n \<le> uint cnt0" using ok(2) by (simp add: word_le_def)
        then show ?thesis using e 3(1) by auto
      qed
      then have vi: "unsigned_offsets (files s fi) \<or> 0 \<le> sint p1"
        using verified_sum [OF ok(1), of r1 p1] e 3(1) True by auto
      have vo: "pos_ok (files s fo) \<Longrightarrow> unsigned_offsets (files s fo) \<or> 0 \<le> sint q1"
        using verified_sum [of E True fo op n s r1 q1] e 3(1) True by (auto simp: pos_ok_def op_def)
      have c2: "call_effect (of_int r1) (of_int r1) s s2"
        using c1 by (simp add: s2_def fsnotify_modify_def fsnotify_access_def add_wchar_def add_rchar_def call_effect_def)
      have c3: "call_effect (of_int r1) (of_int r1) s s3"
        using call_effect_trans [OF c2 store_effect [of s2 fo q1]] vo by (simp add: s3_def files)
      have "unsigned_offsets (files s3 fi) = unsigned_offsets (files s fi)"
        using c3 same_file_unsigned by (auto simp: call_effect_def)
      then have "call_effect (of_int r1) (of_int r1) s s4"
        using call_effect_trans [OF c3 store_effect [of s3 fi p1]] vi c3 by (simp add: s4_def)
      then show ?thesis using 3(3) True by (auto simp: call_effect_def inc_syscr_def inc_syscw_def)
    qed
  qed
qed

lemma do_sendfile_effect:
  assumes "do_sendfile E fdo fdi ppos cnt mx s = (r, pp, t)"
  shows "\<exists>d. call_effect d d s t"
proof (cases "fdlookup s fdi")
  case None
  with assms show ?thesis using call_effect_refl [of s] by (auto simp: do_sendfile_def fdget_def)
next
  case (Some fi)
  let ?s = "taken fi s" and ?cnt = "if cnt > MAX_RW_COUNT then MAX_RW_COUNT else cnt"
  let ?pos = "case ppos of None \<Rightarrow> f_pos (files ?s fi) | Some p \<Rightarrow> p"
  obtain r1 p1 u where f: "sendfile_from E fdo fi ppos cnt mx ?s = (r1, p1, u)" by (metis prod_cases3)
  have t: "t = fdput fi u" using Some assms f by (simp add: do_sendfile_def fdget_def)
  have "\<exists>d. call_effect d d ?s u"
  proof (cases "0 \<le> rw_verify_area E False fi (Some ?pos) cnt ?s \<and> fdlookup s fdo \<noteq> None \<and> u \<noteq> ?s")
    case False
    then have "u = ?s" using f by (auto simp: sendfile_from_def fdget_def Let_def split: if_splits option.splits prod.splits)
    then show ?thesis using call_effect_refl [of ?s] by metis
  next
    case True
    then obtain fo where fo: "fdlookup s fdo = Some fo" by auto
    obtain r2 p2 v where v: "sendfile_to E fi fo ?pos ppos ?cnt mx (taken fo ?s) = (r2, p2, v)" by (metis prod_cases3)
    have u: "u = fdput fo v" using f True fo v by (auto simp: sendfile_from_def fdget_def Let_def split: if_splits)
    have "0 \<le> rw_verify_area E False fi (Some ?pos) cnt (taken fo ?s)"
      using True verify_files [of "taken fo ?s" ?s E False fi "Some ?pos" cnt] by simp
    moreover have "?cnt \<le> cnt" by auto
    ultimately show ?thesis using sendfile_to_effect [OF v] call_effect_put u by blast
  qed
  then show ?thesis using call_effect_put t by blast
qed

lemma put_pos_user_effect:
  assumes "put_pos_user U off (r, pp, s) = (r', t)"
  shows "call_effect 0 0 s t"
  using assms by (auto simp: put_pos_user_def call_effect_def split: prod.splits)

lemma sendfile_put_effect:
  assumes "put_pos_user U off (do_sendfile E fdo fdi ppos cnt mx s) = (r, t)"
  shows "\<exists>d. call_effect d d s t"
proof -
  obtain r1 pp u where d: "do_sendfile E fdo fdi ppos cnt mx s = (r1, pp, u)" by (metis prod_cases3)
  from do_sendfile_effect [OF this] put_pos_user_effect [OF assms [unfolded d]] show ?thesis
    using call_effect_trans by fastforce
qed

lemma sys_sendfile_effect:
  assumes "sys_sendfile E U fdo fdi off cnt s = (r, t)"
  shows "\<exists>d. call_effect d d s t"
proof -
  obtain r1 pp u where d: "do_sendfile E fdo fdi None cnt 0 s = (r1, pp, u)" by (metis prod_cases3)
  then have "t = s \<or> t = u \<or> (\<exists>pos. put_pos_user U off (do_sendfile E fdo fdi (Some pos) cnt MAX_NON_LFS s) = (r, t))"
    using assms by (auto simp: sys_sendfile_def split: if_splits prod.splits)
  then show ?thesis
    using do_sendfile_effect [OF d] sendfile_put_effect [of U off fdo fdi _ cnt MAX_NON_LFS s r t] call_effect_refl [of s] by blast
qed

lemma sys_sendfile64_effect:
  assumes "sys_sendfile64 E U fdo fdi off cnt s = (r, t)"
  shows "\<exists>d. call_effect d d s t"
proof -
  obtain r1 pp u where d: "do_sendfile E fdo fdi None cnt 0 s = (r1, pp, u)" by (metis prod_cases3)
  then have "t = s \<or> t = u \<or> (\<exists>pos. put_pos_user U off (do_sendfile E fdo fdi (Some pos) cnt 0 s) = (r, t))"
    using assms by (auto simp: sys_sendfile64_def split: if_splits prod.splits)
  then show ?thesis
    using do_sendfile_effect [OF d] sendfile_put_effect [of U off fdo fdi _ cnt 0 s r t] call_effect_refl [of s] by blast
qed

end

end
