(* ===== verification/Open_Flags.thy ===== *)
theory Open_Flags
  imports Kernel_Prelude
begin

text \<open>
  The arguments of the open calls: \<^verbatim>\<open>build_open_how\<close> and \<^verbatim>\<open>build_open_flags\<close> of \<^verbatim>\<open>fs/open.c\<close>, on the
  bits as user space passes them. The constants are those of the x86-64 interface.
\<close>

unbundle bit_operations_syntax

section \<open>Constants\<close>

abbreviation (input) O_ACCMODE :: ulong where "O_ACCMODE \<equiv> 0x3"
abbreviation (input) F_WRONLY :: ulong where "F_WRONLY \<equiv> 0x1"
abbreviation (input) F_CREAT :: ulong where "F_CREAT \<equiv> 0x40"
abbreviation (input) F_EXCL :: ulong where "F_EXCL \<equiv> 0x80"
abbreviation (input) F_NOCTTY :: ulong where "F_NOCTTY \<equiv> 0x100"
abbreviation (input) F_TRUNC :: ulong where "F_TRUNC \<equiv> 0x200"
abbreviation (input) F_APPEND :: ulong where "F_APPEND \<equiv> 0x400"
abbreviation (input) F_DSYNC :: ulong where "F_DSYNC \<equiv> 0x1000"
abbreviation (input) F_DIRECT :: ulong where "F_DIRECT \<equiv> 0x4000"
abbreviation (input) F_LARGEFILE :: ulong where "F_LARGEFILE \<equiv> 0x8000"
abbreviation (input) F_DIRECTORY :: ulong where "F_DIRECTORY \<equiv> 0x10000"
abbreviation (input) F_NOFOLLOW :: ulong where "F_NOFOLLOW \<equiv> 0x20000"
abbreviation (input) F_CLOEXEC :: ulong where "F_CLOEXEC \<equiv> 0x80000"
abbreviation (input) F_SYNC :: ulong where "F_SYNC \<equiv> 0x100000"
abbreviation (input) F_PATH :: ulong where "F_PATH \<equiv> 0x200000"
abbreviation (input) F_TMPFILE :: ulong where "F_TMPFILE \<equiv> 0x400000"
abbreviation (input) FMODE_NONOTIFY :: ulong where "FMODE_NONOTIFY \<equiv> 0x4000000"
abbreviation (input) VALID_OPEN_FLAGS :: ulong where "VALID_OPEN_FLAGS \<equiv> 0x7fffc3"
abbreviation (input) O_PATH_FLAGS :: ulong where "O_PATH_FLAGS \<equiv> 0x2b0000"
abbreviation (input) S_IALLUGO :: ulong where "S_IALLUGO \<equiv> 0xfff"
abbreviation (input) S_IFREG :: ulong where "S_IFREG \<equiv> 0x8000"

abbreviation (input) RESOLVE_NO_XDEV :: ulong where "RESOLVE_NO_XDEV \<equiv> 0x1"
abbreviation (input) RESOLVE_NO_MAGICLINKS :: ulong where "RESOLVE_NO_MAGICLINKS \<equiv> 0x2"
abbreviation (input) RESOLVE_NO_SYMLINKS :: ulong where "RESOLVE_NO_SYMLINKS \<equiv> 0x4"
abbreviation (input) RESOLVE_BENEATH :: ulong where "RESOLVE_BENEATH \<equiv> 0x8"
abbreviation (input) RESOLVE_IN_ROOT :: ulong where "RESOLVE_IN_ROOT \<equiv> 0x10"
abbreviation (input) RESOLVE_CACHED :: ulong where "RESOLVE_CACHED \<equiv> 0x20"
abbreviation (input) VALID_RESOLVE_FLAGS :: ulong where "VALID_RESOLVE_FLAGS \<equiv> 0x3f"

abbreviation (input) LOOKUP_FOLLOW :: u32 where "LOOKUP_FOLLOW \<equiv> 0x1"
abbreviation (input) LOOKUP_DIRECTORY :: u32 where "LOOKUP_DIRECTORY \<equiv> 0x2"
abbreviation (input) LOOKUP_REVAL :: u32 where "LOOKUP_REVAL \<equiv> 0x20"
abbreviation (input) LOOKUP_OPEN :: u32 where "LOOKUP_OPEN \<equiv> 0x100"
abbreviation (input) LOOKUP_CREATE :: u32 where "LOOKUP_CREATE \<equiv> 0x200"
abbreviation (input) LOOKUP_EXCL :: u32 where "LOOKUP_EXCL \<equiv> 0x400"
abbreviation (input) LOOKUP_EMPTY :: u32 where "LOOKUP_EMPTY \<equiv> 0x4000"
abbreviation (input) LOOKUP_NO_SYMLINKS :: u32 where "LOOKUP_NO_SYMLINKS \<equiv> 0x10000"
abbreviation (input) LOOKUP_NO_MAGICLINKS :: u32 where "LOOKUP_NO_MAGICLINKS \<equiv> 0x20000"
abbreviation (input) LOOKUP_NO_XDEV :: u32 where "LOOKUP_NO_XDEV \<equiv> 0x40000"
abbreviation (input) LOOKUP_BENEATH :: u32 where "LOOKUP_BENEATH \<equiv> 0x80000"
abbreviation (input) LOOKUP_IN_ROOT :: u32 where "LOOKUP_IN_ROOT \<equiv> 0x100000"
abbreviation (input) LOOKUP_CACHED :: u32 where "LOOKUP_CACHED \<equiv> 0x200000"

abbreviation (input) MAY_WRITE :: u32 where "MAY_WRITE \<equiv> 0x2"
abbreviation (input) MAY_APPEND :: u32 where "MAY_APPEND \<equiv> 0x8"

text \<open>\<open>has x m\<close> is the test \<^verbatim>\<open>x & m\<close> of an \<^verbatim>\<open>if\<close>.\<close>

definition has :: "'a :: len word \<Rightarrow> 'a word \<Rightarrow> bool" where
  "has x m \<longleftrightarrow> x AND m \<noteq> 0"

text \<open>Setting a flag under a condition.\<close>

definition set_if :: "bool \<Rightarrow> 'a :: len word \<Rightarrow> 'a word \<Rightarrow> 'a word" where
  "set_if b m x = (if b then x OR m else x)"


section \<open>The two functions\<close>

record open_how =
  how_flags :: ulong
  how_mode :: ulong
  how_resolve :: ulong

record open_flags =
  open_flag :: u32
  op_mode :: ulong
  acc_mode :: u32
  intent :: u32
  lookup_flags :: u32

definition ACC_MODE :: "ulong \<Rightarrow> u32" where
  "ACC_MODE x = (let a = x AND O_ACCMODE in if a = 0 then 4 else if a = 1 then 2 else 6)"

definition WILL_CREATE :: "ulong \<Rightarrow> bool" where
  "WILL_CREATE flags = has flags (F_CREAT OR F_TMPFILE)"

text \<open>\<^verbatim>\<open>flags\<close> is an \<^verbatim>\<open>int\<close>, sign-extended by the mask.\<close>

definition build_open_how :: "u32 \<Rightarrow> u32 \<Rightarrow> open_how" where
  "build_open_how flags mode =
     (let fl = scast flags AND VALID_OPEN_FLAGS;
          fl = (if has fl F_PATH then fl AND O_PATH_FLAGS else fl)
      in \<lparr>how_flags = fl, how_mode = (if WILL_CREATE fl then ucast mode AND S_IALLUGO else 0), how_resolve = 0\<rparr>)"

text \<open>The part after the checks, and the checks. An error is \<open>Inl\<close>.\<close>

definition fill_open_flags :: "open_how \<Rightarrow> ulong \<Rightarrow> u32 \<Rightarrow> int + open_flags" where
  "fill_open_flags how flags acc =
     (let flags = set_if (has flags F_SYNC) F_DSYNC flags;
          opened = flags;
          acc = set_if (has flags F_TRUNC) MAY_WRITE acc;
          acc = set_if (has flags F_APPEND) MAY_APPEND acc;
          int0 = (if has flags F_PATH then 0 else LOOKUP_OPEN);
          int1 = set_if (has flags F_CREAT) LOOKUP_CREATE int0;
          int2 = set_if (has flags F_CREAT \<and> has flags F_EXCL) LOOKUP_EXCL int1;
          flags = set_if (has flags F_CREAT \<and> has flags F_EXCL) F_NOFOLLOW flags;
          res = how_resolve how;
          l = set_if (has flags F_DIRECTORY) LOOKUP_DIRECTORY 0;
          l = set_if (\<not> has flags F_NOFOLLOW) LOOKUP_FOLLOW l;
          l = set_if (has res RESOLVE_NO_XDEV) LOOKUP_NO_XDEV l;
          l = set_if (has res RESOLVE_NO_MAGICLINKS) LOOKUP_NO_MAGICLINKS l;
          l = set_if (has res RESOLVE_NO_SYMLINKS) LOOKUP_NO_SYMLINKS l;
          l = set_if (has res RESOLVE_BENEATH) LOOKUP_BENEATH l;
          l = set_if (has res RESOLVE_IN_ROOT) LOOKUP_IN_ROOT l
      in if has res RESOLVE_CACHED \<and> has flags (F_TRUNC OR F_CREAT OR F_TMPFILE) then Inl (- EAGAIN)
         else Inr \<lparr>open_flag = ucast opened,
                   op_mode = (if WILL_CREATE flags then how_mode how OR S_IFREG else 0),
                   acc_mode = acc, intent = int2,
                   lookup_flags = set_if (has res RESOLVE_CACHED) LOOKUP_CACHED l\<rparr>)"

definition build_open_flags :: "open_how \<Rightarrow> int + open_flags" where
  "build_open_flags how =
     (let acc = ACC_MODE (how_flags how);
          flags = how_flags how AND NOT (FMODE_NONOTIFY OR F_CLOEXEC) in
      if has flags (NOT VALID_OPEN_FLAGS) then Inl (- EINVAL)
      else if has (how_resolve how) (NOT VALID_RESOLVE_FLAGS) then Inl (- EINVAL)
      else if has (how_resolve how) RESOLVE_BENEATH \<and> has (how_resolve how) RESOLVE_IN_ROOT then Inl (- EINVAL)
      else if WILL_CREATE flags \<and> has (how_mode how) (NOT S_IALLUGO) then Inl (- EINVAL)
      else if \<not> WILL_CREATE flags \<and> how_mode how \<noteq> 0 then Inl (- EINVAL)
      else if flags AND (F_DIRECTORY OR F_CREAT) = F_DIRECTORY OR F_CREAT then Inl (- EINVAL)
      else if has flags F_TMPFILE \<and> \<not> has flags F_DIRECTORY then Inl (- EINVAL)
      else if has flags F_TMPFILE \<and> \<not> has acc MAY_WRITE then Inl (- EINVAL)
      else if has flags F_PATH \<and> has flags (NOT O_PATH_FLAGS) then Inl (- EINVAL)
      else fill_open_flags how flags (if has flags F_PATH then 0 else acc))"

section \<open>Testing flags\<close>

lemma has_iff_bit: "has x m \<longleftrightarrow> (\<exists>k. bit x k \<and> bit m k)"
  by (auto simp: has_def bit_eq_iff bit_simps dest: bit_imp_le_length)

lemma has_and [simp]: "has (x AND c) m = has x (c AND m)"
  by (simp add: has_def and.assoc)

lemma has_zero [simp]: "\<not> has x 0" "\<not> has 0 x"
  by (simp_all add: has_def)

lemma has_numeral [simp]:
  "has (numeral a :: 'a :: len word) (numeral b) \<longleftrightarrow> numeral a AND numeral b \<noteq> (0 :: 'a word)"
  "has (numeral a :: 'a :: len word) (- numeral b) \<longleftrightarrow> numeral a AND - numeral b \<noteq> (0 :: 'a word)"
  "has (1 :: 'a :: len word) (numeral b) \<longleftrightarrow> 1 AND numeral b \<noteq> (0 :: 'a word)"
  "has (numeral a :: 'a :: len word) 1 \<longleftrightarrow> numeral a AND 1 \<noteq> (0 :: 'a word)"
  by (simp_all only: has_def)

lemma has_or_mask: "has x (a OR b) \<longleftrightarrow> has x a \<or> has x b"
  by (auto simp: has_iff_bit bit_simps)

lemma has_or [simp]: "has (x OR y) m \<longleftrightarrow> has x m \<or> has y m"
  by (auto simp: has_iff_bit bit_simps)

lemma has_set_if [simp]: "has (set_if b c x) m \<longleftrightarrow> has x m \<or> b \<and> has c m"
  by (simp add: set_if_def)

lemma has_mono: "m AND c = m \<Longrightarrow> has x m \<Longrightarrow> has x c"
  unfolding has_iff_bit by (metis bit_and_iff)

lemma has_scast:
  assumes "take_bit 31 m = m"
  shows "has (scast (f :: u32) :: ulong) m = has f (ucast m)"
proof -
  have "k < 31" if "bit m k" for k using that assms by (metis bit_take_bit_iff)
  note lt = this
  have s: "bit (scast f :: ulong) k = bit f k" if "bit m k" for k
    using lt [OF that] by (simp add: bit_simps)
  have u: "bit (ucast m :: u32) k = bit m k" for k
    using lt [of k] by (auto simp: bit_simps)
  show ?thesis unfolding has_iff_bit u using s by metis
qed

lemma flag_scast [simp]:
  "has (scast (f :: u32) :: ulong) 0x40 = has f 0x40" "has (scast f :: ulong) 0x200 = has f 0x200"
  "has (scast f :: ulong) 0x400040 = has f 0x400040" "has (scast f :: ulong) 0x10000 = has f 0x10000"
  "has (scast f :: ulong) 0x200000 = has f 0x200000" "has (scast f :: ulong) 0x400000 = has f 0x400000"
  by (simp_all add: has_scast)

lemma has_exp: "n < LENGTH('a) \<Longrightarrow> has (x :: 'a :: len word) (2 ^ n) \<longleftrightarrow> bit x n"
  by (auto simp: has_iff_bit bit_simps)

lemma and_eq_exp: "n < LENGTH('a) \<Longrightarrow> x AND 2 ^ n = (2 ^ n :: 'a :: len word) \<longleftrightarrow> has x (2 ^ n)"
proof
  assume n: "n < LENGTH('a)" and "x AND 2 ^ n = 2 ^ n"
  then have "bit (x AND 2 ^ n) n" by (simp add: bit_simps)
  with n show "has x (2 ^ n)" by (simp add: has_exp bit_simps)
next
  assume "n < LENGTH('a)" and "has x (2 ^ n)"
  then show "x AND 2 ^ n = 2 ^ n" by (intro bit_word_eqI) (auto simp: has_exp bit_simps)
qed

lemma and_eq_or: "x AND (a OR b) = a OR b \<longleftrightarrow> x AND a = a \<and> x AND b = (b :: 'a :: len word)"
  by (auto simp: bit_eq_iff bit_simps)

lemma both_flags: "x AND 0x10040 = (0x10040 :: ulong) \<longleftrightarrow> has x F_DIRECTORY \<and> has x F_CREAT"
  using and_eq_or [of x "2 ^ 16" "2 ^ 6"] and_eq_exp [of 16 x] and_eq_exp [of 6 x] by simp

lemma acc_writes: "has (ACC_MODE x) MAY_WRITE \<longleftrightarrow> x AND O_ACCMODE \<noteq> 0"
  by (simp add: ACC_MODE_def Let_def has_def)

lemma acc_of_int: "(scast (f :: u32) AND O_ACCMODE = (0 :: ulong)) \<longleftrightarrow> f AND 3 = 0"
  using has_scast [of 3 f] by (simp add: has_def)


lemma has_ucast: "has (ucast (x :: ulong) :: u32) m \<longleftrightarrow> has x (ucast m)"
proof -
  have "k < 32 \<and> k < 64" if "bit m k" for k using bit_imp_le_length [OF that] by simp
  then show ?thesis by (auto simp: has_iff_bit bit_simps)
qed

lemma fill_open_flags_Inr:
  assumes "fill_open_flags how fl acc = Inr op"
  shows "open_flag op = ucast (set_if (has fl F_SYNC) F_DSYNC fl)"
    and "acc_mode op = set_if (has fl F_APPEND) MAY_APPEND (set_if (has fl F_TRUNC) MAY_WRITE acc)"
    and "op_mode op = (if WILL_CREATE fl then how_mode how OR S_IFREG else 0)"
    and "has (lookup_flags op) LOOKUP_BENEATH \<longleftrightarrow> has (how_resolve how) RESOLVE_BENEATH"
    and "has (lookup_flags op) LOOKUP_IN_ROOT \<longleftrightarrow> has (how_resolve how) RESOLVE_IN_ROOT"
    and "has (lookup_flags op) LOOKUP_CACHED \<longrightarrow> \<not> has fl (F_TRUNC OR F_CREAT OR F_TMPFILE)"
  using assms unfolding fill_open_flags_def Let_def by (auto simp: WILL_CREATE_def split: if_splits)


section \<open>What the checks accept\<close>

text \<open>
  The older calls clear what they do not know, so only contradictory requests remain to be refused: to
  create a directory, and a temporary file outside a directory or without write access. With \<^verbatim>\<open>O_PATH\<close>
  every request is accepted and no access is asked for.
\<close>

theorem open_flags_legacy:
  "(has flags 0x200000 \<longrightarrow> (\<exists>op. build_open_flags (build_open_how flags mode) = Inr op \<and> acc_mode op = 0))
   \<and> (\<not> has flags 0x200000 \<longrightarrow>
       (let contradictory = (has flags 0x10000 \<and> has flags 0x40
          \<or> has flags 0x400000 \<and> (\<not> has flags 0x10000 \<or> flags AND 3 = 0)) in
        if contradictory then build_open_flags (build_open_how flags mode) = Inl (- EINVAL)
        else \<exists>op. build_open_flags (build_open_how flags mode) = Inr op
          \<and> (op_mode op \<noteq> 0 \<longleftrightarrow> has flags 0x400040) \<and> (has flags 0x200 \<longrightarrow> has (acc_mode op) MAY_WRITE)))"
proof -
  let ?f = "scast flags AND VALID_OPEN_FLAGS :: ulong"
  note defs = build_open_flags_def build_open_how_def WILL_CREATE_def fill_open_flags_def Let_def
  have acc: "has (ACC_MODE ?f) MAY_WRITE \<longleftrightarrow> flags AND 3 \<noteq> 0"
    by (simp add: acc_writes acc_of_int and.assoc)
  show ?thesis
  proof (cases "has flags 0x200000")
    case True
    then show ?thesis by (simp add: defs both_flags set_if_def)
  next
    case False
    have creates: "has flags 0x400040 \<longleftrightarrow> has flags 0x400000 \<or> has flags 0x40"
      using has_or_mask [of flags "0x400000" "0x40"] by simp
    show ?thesis using False by (simp add: defs both_flags acc creates or_eq_0_iff)
  qed
qed

theorem open_flags_legacy_witness:
  "(\<exists>op. build_open_flags (build_open_how 0x241 0x1a4) = Inr op \<and> has (acc_mode op) MAY_WRITE)
   \<and> build_open_flags (build_open_how 0x10041 0x1a4) = Inl (- EINVAL)
   \<and> (\<exists>op. build_open_flags (build_open_how 0x200241 0) = Inr op \<and> acc_mode op = 0)"
  using open_flags_legacy [of "0x241" "0x1a4"] open_flags_legacy [of "0x10041" "0x1a4"] open_flags_legacy [of "0x200241" 0]
  by (auto simp: Let_def)

text \<open>
  Whatever a program passes to \<^verbatim>\<open>openat2\<close>: flags that are accepted are flags that exist, no two of them
  contradict each other, \<^verbatim>\<open>__O_SYNC\<close> comes with \<^verbatim>\<open>O_DSYNC\<close>, truncation asks for write access, \<^verbatim>\<open>O_PATH\<close>
  asks for none, a mode is only set for a file to be created and holds permission bits only, and a lookup
  that must not block creates and truncates nothing.
\<close>

theorem accepted_open_flags:
  assumes "build_open_flags how = Inr op"
  shows "\<not> has (open_flag op) (NOT 0x77ffc3) \<and> \<not> (has (open_flag op) 0x10000 \<and> has (open_flag op) 0x40)
    \<and> (has (open_flag op) 0x100000 \<longrightarrow> has (open_flag op) 0x1000)
    \<and> (has (open_flag op) 0x200 \<longrightarrow> has (acc_mode op) MAY_WRITE)
    \<and> (has (open_flag op) 0x200000 \<longrightarrow> acc_mode op = 0)
    \<and> \<not> (has (lookup_flags op) LOOKUP_BENEATH \<and> has (lookup_flags op) LOOKUP_IN_ROOT)
    \<and> (op_mode op \<noteq> 0 \<longrightarrow> has (open_flag op) 0x400040 \<and> \<not> has (op_mode op) (NOT 0x8fff))
    \<and> (has (lookup_flags op) LOOKUP_CACHED \<longrightarrow> \<not> has (open_flag op) 0x400240)"
proof -
  define fl where "fl = how_flags how AND NOT (FMODE_NONOTIFY OR F_CLOEXEC)"
  have ok: "\<not> has fl (NOT VALID_OPEN_FLAGS)" "\<not> (has (how_resolve how) RESOLVE_BENEATH \<and> has (how_resolve how) RESOLVE_IN_ROOT)"
    "WILL_CREATE fl \<longrightarrow> \<not> has (how_mode how) (NOT S_IALLUGO)" "fl AND 0x10040 \<noteq> 0x10040"
    "has fl F_PATH \<longrightarrow> \<not> has fl (NOT O_PATH_FLAGS)"
    and fill: "fill_open_flags how fl (if has fl F_PATH then 0 else ACC_MODE (how_flags how)) = Inr op"
    using assms unfolding build_open_flags_def Let_def fl_def [symmetric] by (auto split: if_splits)
  note op = fill_open_flags_Inr [OF fill]
  have cloexec: "\<not> has fl F_CLOEXEC" by (simp add: fl_def)
  have flags: "\<not> has fl 0xff88003c"
    using has_mono [of "0xff88003c" "NOT VALID_OPEN_FLAGS OR F_CLOEXEC" fl] ok(1) cloexec has_or_mask [of fl "NOT VALID_OPEN_FLAGS" F_CLOEXEC]
    by auto
  have path: "\<not> has fl F_TRUNC \<and> \<not> has fl F_APPEND" if "has fl F_PATH"
    using has_mono [of F_TRUNC "NOT O_PATH_FLAGS" fl] has_mono [of F_APPEND "NOT O_PATH_FLAGS" fl] ok(5) that by auto
  have "\<not> has (open_flag op) (NOT 0x77ffc3)" using flags by (simp add: op has_ucast)
  moreover have "\<not> (has (open_flag op) 0x10000 \<and> has (open_flag op) 0x40)"
    using ok(4) by (simp add: op has_ucast both_flags)
  moreover have "has (open_flag op) 0x200000 \<longrightarrow> acc_mode op = 0" using path by (auto simp: op has_ucast set_if_def)
  moreover have "op_mode op \<noteq> 0 \<longrightarrow> has (open_flag op) 0x400040 \<and> \<not> has (op_mode op) (NOT 0x8fff)"
    using ok(3) has_mono [of "NOT 0x8fff" "NOT S_IALLUGO" "how_mode how"] by (auto simp: op has_ucast WILL_CREATE_def)
  moreover have "has (lookup_flags op) LOOKUP_CACHED \<longrightarrow> \<not> has (open_flag op) 0x400240"
    using op(6) by (simp add: op(1) has_ucast)
  ultimately show ?thesis using ok(2) by (simp add: op(1,2,4,5) has_ucast)
qed

theorem accepted_open_flags_witness:
  "\<exists>op. build_open_flags \<lparr>how_flags = 0x100241, how_mode = 0x1a4, how_resolve = 0x8\<rparr> = Inr op
    \<and> has (open_flag op) 0x1000 \<and> has (acc_mode op) MAY_WRITE"
proof -
  obtain op where op: "build_open_flags \<lparr>how_flags = 0x100241, how_mode = 0x1a4, how_resolve = 0x8\<rparr> = Inr op"
    by (simp add: build_open_flags_def fill_open_flags_def WILL_CREATE_def Let_def)
  have "open_flag op = 0x101241"
    using op by (auto simp: build_open_flags_def fill_open_flags_def WILL_CREATE_def set_if_def Let_def)
  with accepted_open_flags [OF op] op show ?thesis by auto
qed

end
