(* ===== verification/Open_File.thy ===== *)
theory Open_File
  imports Fs_Copy Open_Flags
begin

text \<open>
  Opening and closing files: lines 880 to 1642 of \<^verbatim>\<open>fs/open.c\<close>, with the calls of \<^verbatim>\<open>track_syscall\<close> that
  were added to \<^verbatim>\<open>open\<close> and \<^verbatim>\<open>close\<close>. Path lookup, the allocation of files and descriptors and the
  methods of the file systems are parameters.
\<close>

section \<open>State\<close>

text \<open>
  The open files are those of \<^typ>\<open>fs_state\<close>; 0 is the null pointer. Counted besides: the references
  to a file (\<^verbatim>\<open>file_count\<close>) and to paths (a mount and a
  directory entry), readers and writers of an inode, writers of a mount, references to the operations
  of an inode, and names taken from user space. A descriptor is reserved before a file is installed.
  The logs hold the inodes whose cached pages were dropped, the files whose opening was notified, and
  the files whose notifications and locks were removed.
\<close>

record open_state =
  fs :: fs_state
  f_count :: "nat \<Rightarrow> int"
  f_path :: "nat \<Rightarrow> (nat \<times> nat) option"
  path_refs :: "nat \<times> nat \<Rightarrow> int"
  i_readcount :: "nat \<Rightarrow> int"
  i_writecount :: "nat \<Rightarrow> int"
  mnt_writers :: "nat \<Rightarrow> int"
  fop_refs :: "nat \<Rightarrow> int"
  reserved :: "u32 \<Rightarrow> bool"
  names :: int
  cache_drops :: "nat list"
  opens_seen :: "nat list"
  locks_removed :: "nat list"

text \<open>The operations an inode brings to its open files.\<close>

record file_ops =
  fo_llseek :: seek_op
  fo_read :: bool
  fo_read_iter :: bool
  fo_write :: bool
  fo_write_iter :: bool
  fo_copy :: "nat option"
  fo_remap :: bool

type_synonym open_method = "nat \<Rightarrow> nat \<Rightarrow> open_state \<Rightarrow> int \<times> open_state"

record open_env =
  get_write_access :: "nat \<Rightarrow> open_state \<Rightarrow> int"
  mnt_get_write_access :: "nat \<Rightarrow> open_state \<Rightarrow> int"
  backing_mnt :: "nat \<Rightarrow> nat"
  special_file :: "nat \<Rightarrow> bool"
  mapping_host :: "nat \<Rightarrow> nat"
  fops_get :: "nat \<Rightarrow> file_ops option"
  security_file_open :: "nat \<Rightarrow> open_state \<Rightarrow> int"
  break_lease :: "nat \<Rightarrow> u32 \<Rightarrow> open_state \<Rightarrow> int"
  fop_open :: "nat \<Rightarrow> open_method option"
  fop_flush :: "nat \<Rightarrow> (nat \<Rightarrow> open_state \<Rightarrow> int \<times> open_state) option"
  mapping_direct_io :: "nat \<Rightarrow> bool"
  filemap_nr_thps :: "nat \<Rightarrow> bool"
  put_file_access :: "nat \<Rightarrow> open_state \<Rightarrow> open_state"
  d_backing_inode :: "nat \<Rightarrow> nat"
  alloc_empty_file :: "u32 \<Rightarrow> open_state \<Rightarrow> (int + nat) \<times> open_state"
  alloc_empty_file_noaccount :: "u32 \<Rightarrow> open_state \<Rightarrow> (int + nat) \<times> open_state"
  vfs_create :: "nat \<times> nat \<Rightarrow> ulong \<Rightarrow> open_state \<Rightarrow> int \<times> open_state"
  fput :: "nat \<Rightarrow> open_state \<Rightarrow> open_state"
  fput_sync :: "nat \<Rightarrow> open_state \<Rightarrow> open_state"
  getname :: "addr \<Rightarrow> open_state \<Rightarrow> int + string"
  get_unused_fd_flags :: "ulong \<Rightarrow> open_state \<Rightarrow> int"
  do_filp_open :: "int \<Rightarrow> string \<Rightarrow> open_flags \<Rightarrow> open_state \<Rightarrow> (int + nat) \<times> open_state"
  getname_kernel :: "string \<Rightarrow> open_state \<Rightarrow> int + string"
  do_file_open_root :: "nat \<times> nat \<Rightarrow> string \<Rightarrow> open_flags \<Rightarrow> open_state \<Rightarrow> (int + nat) \<times> open_state"
  close_range_fds :: "u32 \<Rightarrow> u32 \<Rightarrow> u32 \<Rightarrow> open_state \<Rightarrow> int \<times> open_state"
  capable_tty_config :: bool
  tty_vhangup_self :: "open_state \<Rightarrow> open_state"
  force_o_largefile :: bool

abbreviation (input) AT_FDCWD :: int where "AT_FDCWD \<equiv> - 100"

definition the_file :: "open_state \<Rightarrow> nat \<Rightarrow> struct_file" where
  "the_file s f = files (fs s) f"

definition set_file :: "nat \<Rightarrow> (struct_file \<Rightarrow> struct_file) \<Rightarrow> open_state \<Rightarrow> open_state" where
  "set_file f g s = s\<lparr>fs := upd_file f g (fs s)\<rparr>"

definition set_mode :: "nat \<Rightarrow> (fmode \<Rightarrow> fmode) \<Rightarrow> open_state \<Rightarrow> open_state" where
  "set_mode f g = set_file f (\<lambda>x. x\<lparr>f_mode := g (f_mode x)\<rparr>)"

definition set_ops :: "file_ops \<Rightarrow> struct_file \<Rightarrow> struct_file" where
  "set_ops o1 x = x\<lparr>op_llseek := fo_llseek o1, op_read := fo_read o1, op_read_iter := fo_read_iter o1,
     op_write := fo_write o1, op_write_iter := fo_write_iter o1, op_copy_file_range := fo_copy o1,
     op_remap_file_range := fo_remap o1\<rparr>"

definition add_path :: "nat \<Rightarrow> int \<Rightarrow> open_state \<Rightarrow> open_state" where
  "add_path f d s = (case f_path s f of
     None \<Rightarrow> s
   | Some p \<Rightarrow> s\<lparr>path_refs := (path_refs s)(p := path_refs s p + d)\<rparr>)"

definition add_writers :: "nat \<Rightarrow> int \<Rightarrow> open_state \<Rightarrow> open_state" where
  "add_writers i d s = s\<lparr>i_writecount := (i_writecount s)(i := i_writecount s i + d)\<rparr>"

definition add_mnt :: "nat \<Rightarrow> int \<Rightarrow> open_state \<Rightarrow> open_state" where
  "add_mnt m d s = s\<lparr>mnt_writers := (mnt_writers s)(m := mnt_writers s m + d)\<rparr>"

definition add_readers :: "nat \<Rightarrow> int \<Rightarrow> open_state \<Rightarrow> open_state" where
  "add_readers i d s = s\<lparr>i_readcount := (i_readcount s)(i := i_readcount s i + d)\<rparr>"

definition add_fop :: "nat \<Rightarrow> int \<Rightarrow> open_state \<Rightarrow> open_state" where
  "add_fop i d s = s\<lparr>fop_refs := (fop_refs s)(i := fop_refs s i + d)\<rparr>"


section \<open>Opening a directory entry\<close>

definition file_mnt :: "open_state \<Rightarrow> nat \<Rightarrow> nat" where
  "file_mnt s f = (case f_path s f of None \<Rightarrow> 0 | Some (m, _) \<Rightarrow> m)"

definition file_get_write_access :: "open_env \<Rightarrow> nat \<Rightarrow> open_state \<Rightarrow> int \<times> open_state" where
  "file_get_write_access E f s =
     (let i = f_inode (the_file s f); m = file_mnt s f; e = get_write_access E i s in
      if e \<noteq> 0 then (e, s)
      else let s = add_writers i 1 s; e = mnt_get_write_access E m s in
        if e \<noteq> 0 then (e, add_writers i (- 1) s)
        else let s = add_mnt m 1 s in
          if FMODE_BACKING (f_mode (the_file s f)) then
            (let e = mnt_get_write_access E (backing_mnt E f) s in
             if e \<noteq> 0 then (e, add_writers i (- 1) (add_mnt m (- 1) s))
             else (0, add_mnt (backing_mnt E f) 1 s))
          else (0, s))"

definition empty_fops :: file_ops where
  "empty_fops = \<lparr>fo_llseek = No_llseek, fo_read = False, fo_read_iter = False, fo_write = False,
     fo_write_iter = False, fo_copy = None, fo_remap = False\<rparr>"

definition path_mode :: fmode where
  "path_mode = \<lparr>FMODE_READ = False, FMODE_WRITE = False, FMODE_CAN_READ = False, FMODE_CAN_WRITE = False,
     FMODE_LSEEK = False, FMODE_PREAD = False, FMODE_PWRITE = False, FMODE_STREAM = False,
     FMODE_UNSIGNED_OFFSET = False, FMODE_BUF_WASYNC = False, FMODE_PATH = True, FMODE_OPENED = True,
     FMODE_WRITER = False, FMODE_BACKING = False, FMODE_ATOMIC_POS = False, FMODE_CAN_ODIRECT = False\<rparr>"

definition cleanup_file :: "nat \<Rightarrow> int \<Rightarrow> open_state \<Rightarrow> int \<times> open_state" where
  "cleanup_file f e s =
     (let s = add_path f (- 1) s
      in (e, set_file f (\<lambda>x. x\<lparr>f_inode := 0\<rparr>) (s\<lparr>f_path := (f_path s)(f := None)\<rparr>)))"

text \<open>\<open>got\<close>: the operations of the inode were found and are put back.\<close>

definition cleanup_all :: "open_env \<Rightarrow> nat \<Rightarrow> nat \<Rightarrow> bool \<Rightarrow> int \<Rightarrow> open_state \<Rightarrow> int \<times> open_state" where
  "cleanup_all E f inode got e s =
     (let e = (if e > 0 then - EINVAL else e);
          s = (if got then add_fop inode (- 1) s else s)
      in cleanup_file f e (put_file_access E f s))"

text \<open>Counting the file as a reader or a writer of the inode.\<close>

definition open_access :: "open_env \<Rightarrow> nat \<Rightarrow> nat \<Rightarrow> open_state \<Rightarrow> int \<times> open_state" where
  "open_access E f inode s =
     (let m = f_mode (the_file s f) in
      if FMODE_READ m \<and> \<not> FMODE_WRITE m then (0, add_readers inode 1 s)
      else if FMODE_WRITE m \<and> \<not> special_file E inode then
        (case file_get_write_access E f s of (e, s) \<Rightarrow>
           if e \<noteq> 0 then (e, s) else (0, set_mode f (FMODE_WRITER_update (\<lambda>_. True)) s))
      else (0, s))"

text \<open>What follows a successful call of the \<^verbatim>\<open>open\<close> method.\<close>

definition open_finish :: "open_env \<Rightarrow> nat \<Rightarrow> nat \<Rightarrow> open_state \<Rightarrow> int \<times> open_state" where
  "open_finish E f inode s =
     (let x = the_file s f;
          s = set_mode f (\<lambda>m. m\<lparr>FMODE_OPENED := True,
                FMODE_CAN_READ := FMODE_CAN_READ m \<or> FMODE_READ m \<and> (op_read x \<or> op_read_iter x),
                FMODE_CAN_WRITE := FMODE_CAN_WRITE m \<or> FMODE_WRITE m \<and> (op_write x \<or> op_write_iter x),
                FMODE_LSEEK := FMODE_LSEEK m \<and> op_llseek x \<noteq> No_llseek,
                FMODE_CAN_ODIRECT := FMODE_CAN_ODIRECT m \<or> mapping_direct_io E (f_mapping_host x)\<rparr>) s;
          s = set_file f (\<lambda>x. x\<lparr>f_flags := f_flags x AND NOT (ucast (F_CREAT OR F_EXCL OR F_NOCTTY OR F_TRUNC))\<rparr>) s
      in if has (f_flags (the_file s f)) (ucast F_DIRECT) \<and> \<not> FMODE_CAN_ODIRECT (f_mode (the_file s f))
         then (- EINVAL, s)
         else
           (let s = (if FMODE_WRITE (f_mode (the_file s f)) \<and> filemap_nr_thps E inode
                     then s\<lparr>cache_drops := cache_drops s @ [inode]\<rparr> else s)
            in (0, s\<lparr>opens_seen := opens_seen s @ [f]\<rparr>)))"

definition open_checked :: "open_env \<Rightarrow> nat \<Rightarrow> nat \<Rightarrow> open_method option \<Rightarrow> open_state \<Rightarrow> int \<times> open_state" where
  "open_checked E f inode opn s =
     (let e = security_file_open E f s in
      if e \<noteq> 0 then cleanup_all E f inode True e s
      else
        (let e = break_lease E (f_inode (the_file s f)) (f_flags (the_file s f)) s in
         if e \<noteq> 0 then cleanup_all E f inode True e s
         else
           (let s = set_mode f (\<lambda>m. m\<lparr>FMODE_LSEEK := True, FMODE_PREAD := True, FMODE_PWRITE := True\<rparr>) s;
                opn = (case opn of None \<Rightarrow> fop_open E inode | Some g \<Rightarrow> Some g)
            in case opn of
                 None \<Rightarrow> open_finish E f inode s
               | Some g \<Rightarrow>
                 (case g inode f s of (e, s) \<Rightarrow>
                    if e \<noteq> 0 then cleanup_all E f inode True e s else open_finish E f inode s))))"

definition do_dentry_open :: "open_env \<Rightarrow> nat \<Rightarrow> nat \<Rightarrow> open_method option \<Rightarrow> open_state \<Rightarrow> int \<times> open_state" where
  "do_dentry_open E f inode opn s =
     (let s = add_path f 1 s;
          s = set_file f (\<lambda>x. x\<lparr>f_inode := inode, f_mapping_host := mapping_host E inode\<rparr>) s in
      if has (f_flags (the_file s f)) (ucast F_PATH) then
        (0, set_file f (\<lambda>x. set_ops empty_fops (x\<lparr>f_mode := path_mode\<rparr>)) s)
      else case open_access E f inode s of (e, s) \<Rightarrow>
        if e \<noteq> 0 then cleanup_file f e s
        else
          (let s = (if is_reg (inodes (fs s) inode) \<or> is_dir (inodes (fs s) inode)
                    then set_mode f (FMODE_ATOMIC_POS_update (\<lambda>_. True)) s else s)
           in case fops_get E inode of
                None \<Rightarrow> cleanup_all E f inode False (- ENODEV) s
              | Some o1 \<Rightarrow> open_checked E f inode opn (set_file f (set_ops o1) (add_fop inode 1 s))))"

text \<open>A failed \<^verbatim>\<open>BUG_ON\<close> stops the machine.\<close>

definition bug :: "open_state \<Rightarrow> open_state" where
  "bug s = s\<lparr>fs := (fs s)\<lparr>stuck := True\<rparr>\<rparr>"

definition finish_open :: "open_env \<Rightarrow> nat \<Rightarrow> nat \<Rightarrow> open_method option \<Rightarrow> open_state \<Rightarrow> int \<times> open_state" where
  "finish_open E f dentry opn s =
     (if FMODE_OPENED (f_mode (the_file s f)) then (0, bug s)
      else do_dentry_open E f (d_backing_inode E dentry) opn
             (s\<lparr>f_path := (f_path s)(f := Some (file_mnt s f, dentry))\<rparr>))"

definition finish_no_open :: "nat \<Rightarrow> nat \<Rightarrow> open_state \<Rightarrow> int \<times> open_state" where
  "finish_no_open f dentry s = (0, s\<lparr>f_path := (f_path s)(f := Some (file_mnt s f, dentry))\<rparr>)"

definition vfs_open :: "open_env \<Rightarrow> nat \<times> nat \<Rightarrow> nat \<Rightarrow> open_state \<Rightarrow> int \<times> open_state" where
  "vfs_open E path f s =
     do_dentry_open E f (d_backing_inode E (snd path)) None (s\<lparr>f_path := (f_path s)(f := Some path)\<rparr>)"

definition dentry_open :: "open_env \<Rightarrow> nat \<times> nat \<Rightarrow> u32 \<Rightarrow> open_state \<Rightarrow> (int + nat) \<times> open_state" where
  "dentry_open E path flags s =
     (if fst path = 0 then (Inr 0, bug s)
      else case alloc_empty_file E flags s of
        (Inl e, s) \<Rightarrow> (Inl e, s)
      | (Inr f, s) \<Rightarrow> (case vfs_open E path f s of (e, s) \<Rightarrow> if e \<noteq> 0 then (Inl e, fput E f s) else (Inr f, s)))"

definition dentry_create :: "open_env \<Rightarrow> nat \<times> nat \<Rightarrow> u32 \<Rightarrow> ulong \<Rightarrow> open_state \<Rightarrow> (int + nat) \<times> open_state" where
  "dentry_create E path flags mode s =
     (case alloc_empty_file E flags s of
        (Inl e, s) \<Rightarrow> (Inl e, s)
      | (Inr f, s) \<Rightarrow>
        (case (case vfs_create E path mode s of (e, s) \<Rightarrow> if e = 0 then vfs_open E path f s else (e, s)) of
           (e, s) \<Rightarrow> if e \<noteq> 0 then (Inl e, fput E f s) else (Inr f, s)))"

definition kernel_file_open :: "open_env \<Rightarrow> nat \<times> nat \<Rightarrow> u32 \<Rightarrow> nat \<Rightarrow> open_state \<Rightarrow> (int + nat) \<times> open_state" where
  "kernel_file_open E path flags inode s =
     (case alloc_empty_file_noaccount E flags s of
        (Inl e, s) \<Rightarrow> (Inl e, s)
      | (Inr f, s) \<Rightarrow>
        (case do_dentry_open E f inode None (s\<lparr>f_path := (f_path s)(f := Some path)\<rparr>) of
           (e, s) \<Rightarrow> if e \<noteq> 0 then (Inl e, fput E f s) else (Inr f, s)))"

text \<open>The opening methods that other parts of the kernel use.\<close>

definition generic_file_open :: open_method where
  "generic_file_open inode f s =
     (if \<not> O_LARGEFILE (the_file s f) \<and> sint (i_size (inodes (fs s) inode)) > sint MAX_NON_LFS then (- EOVERFLOW, s) else (0, s))"

definition nonseekable_open :: open_method where
  "nonseekable_open inode f s =
     (0, set_mode f (\<lambda>m. m\<lparr>FMODE_LSEEK := False, FMODE_PREAD := False, FMODE_PWRITE := False\<rparr>) s)"

definition stream_open :: open_method where
  "stream_open inode f s =
     (0, set_mode f (\<lambda>m. m\<lparr>FMODE_LSEEK := False, FMODE_PREAD := False, FMODE_PWRITE := False,
           FMODE_ATOMIC_POS := False, FMODE_STREAM := True\<rparr>) s)"


section \<open>The calls that open\<close>

definition file_open_name :: "open_env \<Rightarrow> string \<Rightarrow> u32 \<Rightarrow> u32 \<Rightarrow> open_state \<Rightarrow> (int + nat) \<times> open_state" where
  "file_open_name E name flags mode s =
     (case build_open_flags (build_open_how flags mode) of
        Inl e \<Rightarrow> (Inl e, s)
      | Inr op \<Rightarrow> do_filp_open E AT_FDCWD name op s)"

definition filp_open :: "open_env \<Rightarrow> string \<Rightarrow> u32 \<Rightarrow> u32 \<Rightarrow> open_state \<Rightarrow> (int + nat) \<times> open_state" where
  "filp_open E filename flags mode s =
     (case getname_kernel E filename s of
        Inl e \<Rightarrow> (Inl e, s)
      | Inr name \<Rightarrow>
        (case file_open_name E name flags mode (s\<lparr>names := names s + 1\<rparr>) of
           (r, s) \<Rightarrow> (r, s\<lparr>names := names s - 1\<rparr>)))"

definition file_open_root ::
  "open_env \<Rightarrow> nat \<times> nat \<Rightarrow> string \<Rightarrow> u32 \<Rightarrow> u32 \<Rightarrow> open_state \<Rightarrow> (int + nat) \<times> open_state" where
  "file_open_root E root filename flags mode s =
     (case build_open_flags (build_open_how flags mode) of
        Inl e \<Rightarrow> (Inl e, s)
      | Inr op \<Rightarrow> do_file_open_root E root filename op s)"

text \<open>The descriptor table: a number is reserved first, then a file is installed there.\<close>

definition reserve :: "u32 \<Rightarrow> bool \<Rightarrow> open_state \<Rightarrow> open_state" where
  "reserve fd b s = s\<lparr>reserved := (reserved s)(fd := b)\<rparr>"

definition fd_install :: "u32 \<Rightarrow> nat option \<Rightarrow> open_state \<Rightarrow> open_state" where
  "fd_install fd f s = s\<lparr>fs := (fs s)\<lparr>fdtable := (fdtable (fs s))(fd := f)\<rparr>\<rparr>"

definition open_at_fd ::
  "open_env \<Rightarrow> int \<Rightarrow> string \<Rightarrow> open_flags \<Rightarrow> int \<Rightarrow> open_state \<Rightarrow> int \<times> open_state" where
  "open_at_fd E dfd tmp op fd s =
     (if fd \<ge> 0 then
        (case do_filp_open E dfd tmp op (reserve (of_int fd) True s) of
           (Inl e, s) \<Rightarrow> (e, reserve (of_int fd) False s)
         | (Inr f, s) \<Rightarrow> (fd, fd_install (of_int fd) (Some f) s))
      else (fd, s))"

definition do_sys_openat2 :: "open_env \<Rightarrow> int \<Rightarrow> addr \<Rightarrow> open_how \<Rightarrow> open_state \<Rightarrow> int \<times> open_state" where
  "do_sys_openat2 E dfd filename how s =
     (case build_open_flags how of
        Inl e \<Rightarrow> (e, s)
      | Inr op \<Rightarrow>
        (case getname E filename s of
           Inl e \<Rightarrow> (e, s)
         | Inr tmp \<Rightarrow>
           (let s = s\<lparr>names := names s + 1\<rparr>
            in case open_at_fd E dfd tmp op (get_unused_fd_flags E (how_flags how) s) s of
                 (fd, s) \<Rightarrow> (fd, s\<lparr>names := names s - 1\<rparr>))))"

definition do_sys_open :: "open_env \<Rightarrow> int \<Rightarrow> addr \<Rightarrow> u32 \<Rightarrow> u32 \<Rightarrow> open_state \<Rightarrow> int \<times> open_state" where
  "do_sys_open E dfd filename flags mode = do_sys_openat2 E dfd filename (build_open_how flags mode)"

abbreviation (input) NR_open :: int where "NR_open \<equiv> 2"
abbreviation (input) NR_close :: int where "NR_close \<equiv> 3"

definition track_call :: "int \<Rightarrow> open_state \<Rightarrow> open_state" where
  "track_call nr s = s\<lparr>fs := track nr (fs s)\<rparr>"

definition with_largefile :: "open_env \<Rightarrow> u32 \<Rightarrow> u32" where
  "with_largefile E flags = set_if (force_o_largefile E) (ucast F_LARGEFILE) flags"

definition sys_open :: "open_env \<Rightarrow> addr \<Rightarrow> u32 \<Rightarrow> u32 \<Rightarrow> open_state \<Rightarrow> int \<times> open_state" where
  "sys_open E filename flags mode s =
     do_sys_open E AT_FDCWD filename (with_largefile E flags) mode (track_call NR_open s)"

definition sys_openat :: "open_env \<Rightarrow> int \<Rightarrow> addr \<Rightarrow> u32 \<Rightarrow> u32 \<Rightarrow> open_state \<Rightarrow> int \<times> open_state" where
  "sys_openat E dfd filename flags mode s = do_sys_open E dfd filename (with_largefile E flags) mode s"

definition dec_open_how :: "byte list \<Rightarrow> open_how" where
  "dec_open_how bs = \<lparr>how_flags = dec_ulong (take 8 bs), how_mode = dec_ulong (take 8 (drop 8 bs)),
     how_resolve = dec_ulong (take 8 (drop 16 bs))\<rparr>"

abbreviation (input) OPEN_HOW_SIZE_VER0 :: nat where "OPEN_HOW_SIZE_VER0 \<equiv> 24"

definition sys_openat2 ::
  "open_env \<Rightarrow> uaccess \<Rightarrow> int \<Rightarrow> addr \<Rightarrow> addr \<Rightarrow> nat \<Rightarrow> open_state \<Rightarrow> int \<times> open_state" where
  "sys_openat2 E U dfd filename how usize s =
     (if usize < OPEN_HOW_SIZE_VER0 then (- EINVAL, s)
      else case copy_struct_from_user U (fs_mem (fs s)) (replicate OPEN_HOW_SIZE_VER0 0) how usize of
        (tmp, err) \<Rightarrow>
        if err \<noteq> 0 then (err, s)
        else
          (let tmp = dec_open_how tmp;
               tmp = tmp\<lparr>how_flags := set_if (\<not> has (how_flags tmp) F_PATH \<and> force_o_largefile E) F_LARGEFILE
                  (how_flags tmp)\<rparr>
           in do_sys_openat2 E dfd filename tmp s))"

definition compat_sys_open :: "open_env \<Rightarrow> addr \<Rightarrow> u32 \<Rightarrow> u32 \<Rightarrow> open_state \<Rightarrow> int \<times> open_state" where
  "compat_sys_open E filename flags mode = do_sys_open E AT_FDCWD filename flags mode"

definition compat_sys_openat :: "open_env \<Rightarrow> int \<Rightarrow> addr \<Rightarrow> u32 \<Rightarrow> u32 \<Rightarrow> open_state \<Rightarrow> int \<times> open_state" where
  "compat_sys_openat E dfd filename flags mode = do_sys_open E dfd filename flags mode"

definition sys_creat :: "open_env \<Rightarrow> addr \<Rightarrow> u32 \<Rightarrow> open_state \<Rightarrow> int \<times> open_state" where
  "sys_creat E pathname mode =
     do_sys_open E AT_FDCWD pathname (with_largefile E (ucast (F_CREAT OR F_WRONLY OR F_TRUNC))) mode"


section \<open>Closing\<close>

definition filp_flush :: "open_env \<Rightarrow> nat \<Rightarrow> open_state \<Rightarrow> int \<times> open_state" where
  "filp_flush E f s =
     (if f_count s f = 0 then (0, s)
      else case (case fop_flush E f of None \<Rightarrow> (0, s) | Some g \<Rightarrow> g f s) of (retval, s) \<Rightarrow>
        (retval, if FMODE_PATH (f_mode (the_file s f)) then s else s\<lparr>locks_removed := locks_removed s @ [f]\<rparr>))"

definition filp_close :: "open_env \<Rightarrow> nat \<Rightarrow> open_state \<Rightarrow> int \<times> open_state" where
  "filp_close E f s = (case filp_flush E f s of (retval, s) \<Rightarrow> (retval, fput E f s))"

abbreviation (input) ERESTARTSYS :: int where "ERESTARTSYS \<equiv> 512"
abbreviation (input) ERESTARTNOINTR :: int where "ERESTARTNOINTR \<equiv> 513"
abbreviation (input) ERESTARTNOHAND :: int where "ERESTARTNOHAND \<equiv> 514"
abbreviation (input) ERESTART_RESTARTBLOCK :: int where "ERESTART_RESTARTBLOCK \<equiv> 516"

definition file_close_fd :: "u32 \<Rightarrow> open_state \<Rightarrow> nat option \<times> open_state" where
  "file_close_fd fd s = (case fdtable (fs s) fd of
     None \<Rightarrow> (None, s)
   | Some f \<Rightarrow> (Some f, reserve fd False (fd_install fd None s)))"

definition sys_close :: "open_env \<Rightarrow> u32 \<Rightarrow> open_state \<Rightarrow> int \<times> open_state" where
  "sys_close E fd s =
     (case file_close_fd fd (track_call NR_close s) of
        (None, s) \<Rightarrow> (- EBADF, s)
      | (Some f, s) \<Rightarrow>
        (case filp_flush E f s of (retval, s) \<Rightarrow>
           (if retval \<in> {- ERESTARTSYS, - ERESTARTNOINTR, - ERESTARTNOHAND, - ERESTART_RESTARTBLOCK}
            then - EINTR else retval, fput_sync E f s)))"

definition sys_close_range :: "open_env \<Rightarrow> u32 \<Rightarrow> u32 \<Rightarrow> u32 \<Rightarrow> open_state \<Rightarrow> int \<times> open_state" where
  "sys_close_range E fd max_fd flags = close_range_fds E fd max_fd flags"

definition sys_vhangup :: "open_env \<Rightarrow> open_state \<Rightarrow> int \<times> open_state" where
  "sys_vhangup E s = (if capable_tty_config E then (0, tty_vhangup_self E s) else (- EPERM, s))"


section \<open>Nothing is leaked\<close>

text \<open>The counts of two states agree; and what the release of a file depends on is the same.\<close>

definition counts_same :: "open_state \<Rightarrow> open_state \<Rightarrow> bool" where
  "counts_same s t \<longleftrightarrow> path_refs t = path_refs s \<and> i_readcount t = i_readcount s \<and> i_writecount t = i_writecount s
     \<and> mnt_writers t = mnt_writers s \<and> fop_refs t = fop_refs s"

definition same_open :: "nat \<Rightarrow> open_state \<Rightarrow> open_state \<Rightarrow> bool" where
  "same_open f s t \<longleftrightarrow> f_path t f = f_path s f \<and> f_inode (the_file t f) = f_inode (the_file s f)
     \<and> (let m = f_mode (the_file s f); n = f_mode (the_file t f) in
         FMODE_READ n = FMODE_READ m \<and> FMODE_WRITE n = FMODE_WRITE m \<and> FMODE_WRITER n = FMODE_WRITER m
         \<and> FMODE_BACKING n = FMODE_BACKING m)"

text \<open>What \<^verbatim>\<open>put_file_access\<close> gives back.\<close>

definition drop_access :: "open_env \<Rightarrow> nat \<Rightarrow> open_state \<Rightarrow> open_state" where
  "drop_access E f s =
     (let i = f_inode (the_file s f); m = f_mode (the_file s f) in
      if FMODE_READ m \<and> \<not> FMODE_WRITE m then add_readers i (- 1) s
      else if FMODE_WRITER m then
        (let s' = add_mnt (file_mnt s f) (- 1) (add_writers i (- 1) s)
         in if FMODE_BACKING m then add_mnt (backing_mnt E f) (- 1) s' else s')
      else s)"

lemmas count_defs = counts_same_def same_open_def drop_access_def add_readers_def add_writers_def add_mnt_def
  add_fop_def file_mnt_def the_file_def set_mode_def set_file_def upd_file_def Let_def

lemma counts_same_refl [simp]: "counts_same s s"
  by (simp add: counts_same_def)

lemma counts_same_trans: "counts_same s t \<Longrightarrow> counts_same t u \<Longrightarrow> counts_same s u"
  by (simp add: counts_same_def)

lemma same_open_refl [simp]: "same_open f s s"
  by (simp add: same_open_def Let_def)

lemma same_open_trans: "same_open f s t \<Longrightarrow> same_open f t u \<Longrightarrow> same_open f s u"
  by (simp add: same_open_def Let_def)

lemma drop_access_cong:
  "counts_same s t \<Longrightarrow> same_open f s t \<Longrightarrow> counts_same (drop_access E f s) (drop_access E f t)"
  by (simp add: count_defs split: option.splits)

lemma drop_access_path [simp]: "f_path (drop_access E f s) = f_path s" "path_refs (drop_access E f s) = path_refs s"
  by (simp_all add: count_defs)

lemma add_fop_undo: "counts_same (add_fop i 1 s) t \<Longrightarrow> counts_same s (add_fop i (- 1) t)"
  by (auto simp: counts_same_def add_fop_def)

lemma add_fop_same [simp]: "same_open f s (add_fop i d t) = same_open f s t"
  by (simp add: count_defs)

lemma cleanup_file_counts:
  assumes "counts_same (add_path f 1 s) t" "f_path t f = f_path s f"
  shows "counts_same s (snd (cleanup_file f e t))"
  using assms by (auto simp: cleanup_file_def add_path_def count_defs split: option.splits)

lemma the_file_counts [simp]:
  "the_file (add_writers i d s) = the_file s" "the_file (add_mnt i d s) = the_file s"
  "the_file (add_readers i d s) = the_file s" "the_file (add_fop i d s) = the_file s"
  "the_file (add_path f d s) = the_file s" "the_file (s\<lparr>f_path := p\<rparr>) = the_file s"
  "the_file (s\<lparr>opens_seen := l\<rparr>) = the_file s" "the_file (s\<lparr>cache_drops := l\<rparr>) = the_file s"
  by (simp_all add: fun_eq_iff the_file_def add_writers_def add_mnt_def add_readers_def add_fop_def add_path_def
      split: option.splits)

lemma the_file_set [simp]:
  "the_file (set_file f g s) f' = (if f' = f then g (the_file s f) else the_file s f')"
  "the_file (set_mode f h s) f' = (if f' = f then (the_file s f)\<lparr>f_mode := h (f_mode (the_file s f))\<rparr> else the_file s f')"
  by (simp_all add: count_defs)

lemma f_path_set [simp]:
  "f_path (set_file f g s) = f_path s" "f_path (set_mode f h s) = f_path s" "f_path (add_writers i d s) = f_path s"
  "f_path (add_mnt i d s) = f_path s" "f_path (add_readers i d s) = f_path s" "f_path (add_fop i d s) = f_path s"
  "f_path (add_path f d s) = f_path s"
  by (simp_all add: count_defs add_path_def split: option.splits)

lemma counts_same_set [simp]:
  "counts_same s (set_file f g t) = counts_same s t" "counts_same s (set_mode f h t) = counts_same s t"
  "counts_same (set_file f g s) t = counts_same s t" "counts_same (set_mode f h s) t = counts_same s t"
  "counts_same s (t\<lparr>opens_seen := l\<rparr>) = counts_same s t" "counts_same s (t\<lparr>cache_drops := l\<rparr>) = counts_same s t"
  by (simp_all add: counts_same_def set_mode_def set_file_def)

definition take_access :: "open_env \<Rightarrow> nat \<Rightarrow> open_state \<Rightarrow> open_state" where
  "take_access E f s = (let s' = add_mnt (file_mnt s f) 1 (add_writers (f_inode (the_file s f)) 1 s)
     in if FMODE_BACKING (f_mode (the_file s f)) then add_mnt (backing_mnt E f) 1 s' else s')"

lemma file_get_write_access_ok:
  assumes "file_get_write_access E f s = (0, t)"
  shows "t = take_access E f s"
  using assms unfolding file_get_write_access_def take_access_def Let_def by (auto split: if_splits)

lemma add_undo:
  "add_writers i (- 1) (add_writers i 1 s) = s" "add_mnt m (- 1) (add_mnt m 1 s) = s"
  "add_readers i (- 1) (add_readers i 1 s) = s"
  "add_writers i d (add_mnt m e s) = add_mnt m e (add_writers i d s)"
  by (simp_all add: add_writers_def add_mnt_def add_readers_def)

lemma file_get_write_access_fail:
  assumes "file_get_write_access E f s = (e, t)" "e \<noteq> 0"
  shows "t = s"
  using assms unfolding file_get_write_access_def Let_def by (auto simp: add_undo split: if_splits)

lemma take_access_frame [simp]: "f_path (take_access E f s) = f_path s" "the_file (take_access E f s) = the_file s"
  by (simp_all add: take_access_def Let_def)

lemma take_drop_access:
  assumes "FMODE_WRITE (f_mode (the_file s f))"
  shows "counts_same s (drop_access E f (set_mode f (FMODE_WRITER_update (\<lambda>_. True)) (take_access E f s)))"
proof -
  let ?t = "set_mode f (FMODE_WRITER_update (\<lambda>_. True)) (take_access E f s)"
  have m: "file_mnt ?t f = file_mnt s f" by (simp add: file_mnt_def)
  have "drop_access E f ?t = (let s' = add_mnt (file_mnt s f) (- 1) (add_writers (f_inode (the_file s f)) (- 1) ?t)
      in if FMODE_BACKING (f_mode (the_file s f)) then add_mnt (backing_mnt E f) (- 1) s' else s')"
    using assms unfolding drop_access_def m by (simp add: Let_def)
  then show ?thesis
    by (simp add: take_access_def Let_def counts_same_def add_mnt_def add_writers_def set_mode_def set_file_def fun_eq_iff)
qed

lemma open_access_cases:
  assumes "open_access E f inode s = (e, u)" "f_inode (the_file s f) = inode" "\<not> FMODE_WRITER (f_mode (the_file s f))"
  shows "e \<noteq> 0 \<Longrightarrow> u = s"
    and "e = 0 \<Longrightarrow> counts_same s (drop_access E f u)"
    and "f_path u = f_path s" and "f_inode (the_file u f) = inode"
    and "FMODE_OPENED (f_mode (the_file u f)) = FMODE_OPENED (f_mode (the_file s f))"
    and "FMODE_PATH (f_mode (the_file u f)) = FMODE_PATH (f_mode (the_file s f))"
proof -
  let ?m = "f_mode (the_file s f)" and ?w = "set_mode f (FMODE_WRITER_update (\<lambda>_. True)) (take_access E f s)"
  obtain e' w where g: "file_get_write_access E f s = (e', w)" by fastforce
  have w: "w = (if e' = 0 then take_access E f s else s)"
    using file_get_write_access_ok [of E f s w] file_get_write_access_fail [OF g] g by (cases "e' = 0") simp_all
  consider "FMODE_READ ?m \<and> \<not> FMODE_WRITE ?m" "e = 0" "u = add_readers inode 1 s"
    | "FMODE_WRITE ?m" "e \<noteq> 0" "u = s"
    | "FMODE_WRITE ?m" "e = 0" "u = ?w"
    | "\<not> (FMODE_READ ?m \<and> \<not> FMODE_WRITE ?m)" "e = 0" "u = s"
  proof (cases "FMODE_READ ?m \<and> \<not> FMODE_WRITE ?m")
    case True
    then show ?thesis using assms(1) that(1) by (simp add: open_access_def)
  next
    case no: False
    show ?thesis
    proof (cases "FMODE_WRITE ?m \<and> \<not> special_file E inode")
      case True
      then have "(if e' \<noteq> 0 then (e', w) else (0, set_mode f (FMODE_WRITER_update (\<lambda>_. True)) w)) = (e, u)"
        using assms(1) by (simp add: open_access_def g)
      then have "e' = 0 \<and> e = 0 \<and> u = ?w \<or> e \<noteq> 0 \<and> u = s" using w by (metis prod.inject)
      then show ?thesis using True that(2,3) by blast
    next
      case False
      have "open_access E f inode s = (0, s)" unfolding open_access_def Let_def by (simp only: no False if_False)
      then show ?thesis using assms(1) no that(4) by simp
    qed
  qed
  note cs = this
  show "e \<noteq> 0 \<Longrightarrow> u = s" using cs by cases auto
  show "e = 0 \<Longrightarrow> counts_same s (drop_access E f u)"
    using cs assms(2,3) take_drop_access [of s f E] by cases (auto simp: drop_access_def add_undo Let_def)
  show "f_path u = f_path s" using cs by cases simp_all
  show "f_inode (the_file u f) = inode" using cs assms(2) by cases simp_all
  show "FMODE_OPENED (f_mode (the_file u f)) = FMODE_OPENED ?m" using cs by cases simp_all
  show "FMODE_PATH (f_mode (the_file u f)) = FMODE_PATH ?m" using cs by cases simp_all
qed

text \<open>Since the path was taken and until the file is released, the counts are those before plus its own.\<close>

definition held :: "open_env \<Rightarrow> nat \<Rightarrow> nat \<Rightarrow> open_state \<Rightarrow> open_state \<Rightarrow> bool" where
  "held E f inode s u \<longleftrightarrow> counts_same s (drop_access E f (add_fop inode (- 1) u)) \<and> f_path u f = f_path s f"

lemma held_step:
  assumes "held E f inode s u" "counts_same u v" "same_open f u v"
  shows "held E f inode s v"
proof -
  have "counts_same (add_fop inode (- 1) u) (add_fop inode (- 1) v)" using assms(2) by (simp add: counts_same_def add_fop_def)
  moreover have "same_open f (add_fop inode (- 1) u) (add_fop inode (- 1) v)" using assms(3) by (simp add: same_open_def)
  ultimately show ?thesis
    using assms(1,3) counts_same_trans drop_access_cong by (auto simp: held_def same_open_def)
qed

text \<open>
  What an opening method of a file system may do: change the file and its own data, but neither the
  access the file was opened for nor the counts.
\<close>

definition method_ok :: "nat \<Rightarrow> open_state \<Rightarrow> open_state \<Rightarrow> bool" where
  "method_ok f s t \<longleftrightarrow> counts_same s t \<and> same_open f s t
     \<and> FMODE_OPENED (f_mode (the_file t f)) = FMODE_OPENED (f_mode (the_file s f))
     \<and> FMODE_PATH (f_mode (the_file t f)) = FMODE_PATH (f_mode (the_file s f))"

definition method_law :: "open_method \<Rightarrow> bool" where
  "method_law g \<longleftrightarrow> (\<forall>i f s e t. g i f s = (e, t) \<longrightarrow> method_ok f s t)"

lemma shipped_methods: "method_law generic_file_open" "method_law nonseekable_open" "method_law stream_open"
  by (auto simp: method_law_def method_ok_def same_open_def generic_file_open_def nonseekable_open_def stream_open_def Let_def
      split: if_splits)

definition release :: "open_env \<Rightarrow> nat \<Rightarrow> nat \<Rightarrow> open_state \<Rightarrow> open_state" where
  "release E f inode s = snd (if FMODE_PATH (f_mode (the_file s f)) then cleanup_file f 0 s else cleanup_all E f inode True 0 s)"

text \<open>How an open ends: given up with every count restored, or open and to be released.\<close>

definition open_ends :: "open_env \<Rightarrow> nat \<Rightarrow> nat \<Rightarrow> open_state \<Rightarrow> int \<Rightarrow> open_state \<Rightarrow> bool" where
  "open_ends E f inode s r t \<longleftrightarrow>
     (if FMODE_OPENED (f_mode (the_file t f)) then counts_same s (release E f inode t) \<and> (r = 0 \<or> r = - EINVAL)
      else r \<noteq> 0 \<and> counts_same s t \<and> f_path t f = None \<and> f_inode (the_file t f) = 0)"

locale open_laws =
  fixes E :: open_env
  assumes put_access_law: "\<And>f s. put_file_access E f s = drop_access E f s"
    and open_method_law: "\<And>i g. fop_open E i = Some g \<Longrightarrow> method_law g"
begin

lemma cleanup_all_counts:
  assumes "held E f inode (add_path f 1 s) u"
  shows "counts_same s (snd (cleanup_all E f inode True e u))"
  unfolding cleanup_all_def Let_def put_access_law using assms
  by (simp add: held_def cleanup_file_counts)

lemma cleanup_all_ends:
  assumes "held E f inode (add_path f 1 s) u" "\<not> FMODE_OPENED (f_mode (the_file u f))" "e \<noteq> 0"
    and "cleanup_all E f inode True e u = (r, t)"
  shows "open_ends E f inode s r t"
proof -
  have tf: "the_file (drop_access E f v) = the_file v" for v by (simp add: drop_access_def Let_def)
  have "counts_same s t" using cleanup_all_counts [OF assms(1), of e] assms(4) by simp
  with assms(2-4) show ?thesis
    by (auto simp: open_ends_def cleanup_all_def cleanup_file_def put_access_law tf Let_def split: if_splits)
qed

lemma open_finish_ends:
  assumes "held E f inode (add_path f 1 s) u" "\<not> FMODE_PATH (f_mode (the_file u f))" "open_finish E f inode u = (r, t)"
  shows "open_ends E f inode s r t"
proof -
  from assms(2,3) have "counts_same u t" "same_open f u t" "FMODE_OPENED (f_mode (the_file t f))"
    "\<not> FMODE_PATH (f_mode (the_file t f))" "r = 0 \<or> r = - EINVAL"
    unfolding open_finish_def Let_def by (auto simp: same_open_def split: if_splits)
  with held_step [OF assms(1), of t] cleanup_all_counts [of f inode s t 0] show ?thesis
    by (simp add: open_ends_def release_def)
qed

lemma open_checked_ends:
  assumes h: "held E f inode (add_path f 1 s) u" and m: "\<not> FMODE_PATH (f_mode (the_file u f))" "\<not> FMODE_OPENED (f_mode (the_file u f))"
    and o: "open_checked E f inode opn u = (r, t)" and law: "\<And>g. opn = Some g \<Longrightarrow> method_law g"
  shows "open_ends E f inode s r t"
proof -
  let ?v = "set_mode f (\<lambda>m. m\<lparr>FMODE_LSEEK := True, FMODE_PREAD := True, FMODE_PWRITE := True\<rparr>) u"
  let ?g = "case opn of None \<Rightarrow> fop_open E inode | Some g \<Rightarrow> Some g"
  have v: "held E f inode (add_path f 1 s) ?v" by (rule held_step [OF h]) (simp_all add: same_open_def Let_def)
  have g: "method_law g" if "?g = Some g" for g using that law open_method_law by (auto split: option.splits)
  consider e where "e \<noteq> 0" "cleanup_all E f inode True e u = (r, t)"
    | (go) "(case ?g of None \<Rightarrow> open_finish E f inode ?v
        | Some g \<Rightarrow> (case g inode f ?v of (e, s) \<Rightarrow>
            if e \<noteq> 0 then cleanup_all E f inode True e s else open_finish E f inode s)) = (r, t)"
    using o unfolding open_checked_def Let_def by (elim branchE) blast+
  then show ?thesis
  proof cases
    case 1
    then show ?thesis using cleanup_all_ends [OF h m(2)] by blast
  next
    case go
    then consider "?g = None" "open_finish E f inode ?v = (r, t)"
      | g e w where "?g = Some g" "g inode f ?v = (e, w)"
        "(if e \<noteq> 0 then cleanup_all E f inode True e w else open_finish E f inode w) = (r, t)"
      by (cases ?g) (fastforce split: prod.splits)+
    then show ?thesis
    proof cases
      case 1
      then show ?thesis using open_finish_ends [OF v] m by simp
    next
      case (2 g e w)
      have ok: "method_ok f ?v w" using g [OF 2(1)] 2(2) by (auto simp: method_law_def)
      have "held E f inode (add_path f 1 s) w" by (rule held_step [OF v]) (use ok in \<open>simp_all add: method_ok_def\<close>)
      then show ?thesis
        using 2(3) ok m cleanup_all_ends [of f inode s w e r t] open_finish_ends [of f inode s w r t]
        by (auto simp: method_ok_def split: if_splits)
    qed
  qed
qed

lemma do_dentry_open_ends:
  assumes o: "do_dentry_open E f inode opn s = (r, t)" and law: "\<And>g. opn = Some g \<Longrightarrow> method_law g"
    and fresh: "\<not> FMODE_OPENED (f_mode (the_file s f))" "\<not> FMODE_WRITER (f_mode (the_file s f))" "\<not> FMODE_PATH (f_mode (the_file s f))"
  shows "open_ends E f inode s r t"
proof -
  define s1 where "s1 = set_file f (\<lambda>x. x\<lparr>f_inode := inode, f_mapping_host := mapping_host E inode\<rparr>) (add_path f 1 s)"
  have s1: "f_inode (the_file s1 f) = inode" "f_mode (the_file s1 f) = f_mode (the_file s f)" "counts_same (add_path f 1 s) s1"
    "f_path s1 = f_path s"
    by (simp_all add: s1_def)
  show ?thesis
  proof (cases "has (f_flags (the_file s1 f)) (ucast F_PATH)")
    case True
    then have t: "r = 0" "t = set_file f (\<lambda>x. set_ops empty_fops (x\<lparr>f_mode := path_mode\<rparr>)) s1"
      using o unfolding do_dentry_open_def Let_def s1_def [symmetric] by auto
    have "counts_same s (snd (cleanup_file f 0 t))" by (rule cleanup_file_counts) (use s1 in \<open>simp_all add: t\<close>)
    then show ?thesis by (simp add: open_ends_def release_def t path_mode_def set_ops_def)
  next
    case False
    obtain e u where a: "open_access E f inode s1 = (e, u)" by fastforce
    have "\<not> FMODE_WRITER (f_mode (the_file s1 f))" using s1 fresh by simp
    note acc = open_access_cases [OF a s1(1) this]
    define v where "v = (if is_reg (inodes (fs u) inode) \<or> is_dir (inodes (fs u) inode)
      then set_mode f (FMODE_ATOMIC_POS_update (\<lambda>_. True)) u else u)"
    have v: "counts_same u v" "same_open f u v" "FMODE_OPENED (f_mode (the_file v f)) = FMODE_OPENED (f_mode (the_file u f))"
      "FMODE_PATH (f_mode (the_file v f)) = FMODE_PATH (f_mode (the_file u f))"
      by (simp_all add: v_def same_open_def Let_def)
    consider "e \<noteq> 0" "cleanup_file f e u = (r, t)"
      | "e = 0" "cleanup_all E f inode False (- ENODEV) v = (r, t)"
      | ops where "e = 0" "open_checked E f inode opn (set_file f (set_ops ops) (add_fop inode 1 v)) = (r, t)"
      using o False a unfolding do_dentry_open_def Let_def s1_def [symmetric]
      by (auto simp: v_def split: if_splits option.splits)
    note cs = this
    have free: "counts_same (add_path f 1 s) (drop_access E f v)" if "e = 0"
      using counts_same_trans [OF s1(3) counts_same_trans [OF acc(2) drop_access_cong [OF v(1,2)]]] that s1 fresh by simp
    have tf: "the_file (drop_access E f v) = the_file v" by (simp add: drop_access_def Let_def)
    from cs show ?thesis
    proof cases
      case 1
      then have "counts_same s t" using cleanup_file_counts [of f s s1 e] acc s1 fresh by simp
      then show ?thesis using 1 acc s1 fresh by (auto simp: open_ends_def cleanup_file_def Let_def)
    next
      case 2
      have "counts_same s t"
        using 2 cleanup_file_counts [OF free, of "- ENODEV"] acc(3) s1(4) v(2)
        by (simp add: cleanup_all_def put_access_law same_open_def)
      then show ?thesis
        using 2 acc s1 fresh v tf by (auto simp: open_ends_def cleanup_all_def cleanup_file_def put_access_law Let_def)
    next
      case (3 ops)
      let ?w = "set_file f (set_ops ops) (add_fop inode 1 v)"
      have "counts_same (drop_access E f v) (drop_access E f (add_fop inode (- 1) ?w))"
        by (rule drop_access_cong) (simp_all add: count_defs set_ops_def)
      then have "held E f inode (add_path f 1 s) ?w"
        using counts_same_trans [OF free] 3(1) acc(3) s1(4) v(2) by (simp add: held_def same_open_def)
      then show ?thesis by (rule open_checked_ends) (use 3 acc s1 fresh v law in \<open>simp_all add: set_ops_def\<close>)
    qed
  qed
qed

end

section \<open>What an open file looks like\<close>

text \<open>How the file is marked: seekable only with a seek operation, readable and writable as its operations allow.\<close>

definition opened_ok :: "struct_file \<Rightarrow> bool" where
  "opened_ok x \<longleftrightarrow> FMODE_OPENED (f_mode x) \<and> file_wf x \<and> \<not> has (f_flags x) (ucast (F_CREAT OR F_EXCL OR F_NOCTTY OR F_TRUNC))
     \<and> (FMODE_READ (f_mode x) \<and> (op_read x \<or> op_read_iter x) \<longrightarrow> FMODE_CAN_READ (f_mode x))
     \<and> (FMODE_WRITE (f_mode x) \<and> (op_write x \<or> op_write_iter x) \<longrightarrow> FMODE_CAN_WRITE (f_mode x))
     \<and> (has (f_flags x) (ucast F_DIRECT) \<longrightarrow> FMODE_CAN_ODIRECT (f_mode x))"

lemma open_finish_ok:
  assumes "open_finish E f inode s = (0, t)"
  shows "opened_ok (the_file t f)"
proof -
  have mask: "\<not> has (x AND NOT m) m" for x m :: u32 by (simp add: has_def and.assoc)
  show ?thesis
    using assms mask unfolding open_finish_def Let_def opened_ok_def file_wf_def by (auto split: if_splits)
qed

lemma cleanup_not_ok: "e \<noteq> 0 \<Longrightarrow> cleanup_all E f i b e s \<noteq> (0, t)" "e \<noteq> 0 \<Longrightarrow> cleanup_file f e s \<noteq> (0, t)"
  by (auto simp: cleanup_all_def cleanup_file_def Let_def)

lemma open_checked_ok:
  assumes "open_checked E f inode opn s = (0, t)"
  shows "opened_ok (the_file t f)"
  using assms open_finish_ok cleanup_not_ok unfolding open_checked_def Let_def
  by (fastforce elim!: branchE split: option.splits prod.splits)

lemma do_dentry_open_ok:
  assumes "do_dentry_open E f inode opn s = (0, t)"
  shows "if has (f_flags (the_file s f)) (ucast F_PATH) then f_mode (the_file t f) = path_mode \<and> op_llseek (the_file t f) = No_llseek
    else opened_ok (the_file t f)"
  using assms open_checked_ok cleanup_not_ok unfolding do_dentry_open_def Let_def
  by (auto simp: set_ops_def empty_fops_def elim!: branchE split: option.splits prod.splits if_splits)

section \<open>Descriptors\<close>

text \<open>What the calls use besides: a frame that path lookup and the release of a file keep.\<close>

definition call_frame :: "open_state \<Rightarrow> open_state \<Rightarrow> bool" where
  "call_frame s t \<longleftrightarrow> fdtable (fs t) = fdtable (fs s) \<and> reserved t = reserved s \<and> names t = names s
     \<and> tracking (fs t) = tracking (fs s) \<and> clock (fs t) = clock (fs s) \<and> stuck (fs t) = stuck (fs s)
     \<and> ((\<forall>f. file_wf (the_file s f)) \<longrightarrow> (\<forall>f. file_wf (the_file t f)))"

text \<open>A descriptor with a file is reserved; seekable files can be sought.\<close>

definition open_inv :: "open_state \<Rightarrow> bool" where
  "open_inv s \<longleftrightarrow> (\<forall>fd. fdtable (fs s) fd \<noteq> None \<longrightarrow> reserved s fd) \<and> (\<forall>f. file_wf (the_file s f))"

text \<open>
  What a call that opens does to descriptors: nothing when it fails; otherwise one that was free now has
  a file. The name taken from user space is given back in any case.
\<close>

definition open_result :: "open_state \<Rightarrow> int \<Rightarrow> open_state \<Rightarrow> bool" where
  "open_result s r t \<longleftrightarrow> names t = names s
     \<and> tracking (fs t) = tracking (fs s) \<and> clock (fs t) = clock (fs s) \<and> stuck (fs t) = stuck (fs s)
     \<and> (if r < 0 then fdtable (fs t) = fdtable (fs s) \<and> reserved t = reserved s
        else fdtable (fs s) (of_int r) = None \<and> \<not> reserved s (of_int r)
          \<and> (\<exists>f. fdtable (fs t) = (fdtable (fs s))(of_int r := Some f)) \<and> reserved t = (reserved s)(of_int r := True))"

lemma call_frame_refl: "call_frame s s"
  by (simp add: call_frame_def)

lemma fill_open_flags_error: "fill_open_flags how fl acc = Inl e \<Longrightarrow> e < 0"
  by (auto simp: fill_open_flags_def Let_def split: if_splits)

lemma build_open_flags_error: "build_open_flags how = Inl e \<Longrightarrow> e < 0"
  unfolding build_open_flags_def Let_def by (auto split: if_splits dest: fill_open_flags_error)

locale open_calls =
  fixes E :: open_env
  assumes filp_open_law: "\<And>dfd n op s r t. do_filp_open E dfd n op s = (r, t) \<Longrightarrow> call_frame s t \<and> (\<forall>e. r = Inl e \<longrightarrow> e < 0)"
    and getname_law: "\<And>a s e. getname E a s = Inl e \<Longrightarrow> e < 0"
    and unused_fd_law: "\<And>fl s. 0 \<le> get_unused_fd_flags E fl s \<Longrightarrow> \<not> reserved s (of_int (get_unused_fd_flags E fl s))"
    and flush_law: "\<And>f g s r t. fop_flush E f = Some g \<Longrightarrow> g f s = (r, t) \<Longrightarrow> call_frame s t"
    and fput_law: "\<And>f s. call_frame s (fput_sync E f s)"
begin

lemma open_at_fd_result:
  assumes "open_inv s" "fd = get_unused_fd_flags E fl s" "open_at_fd E dfd tmp op fd s = (r, t)"
  shows "open_inv t \<and> open_result s r t"
proof (cases "0 \<le> fd")
  case True
  have free: "\<not> reserved s (of_int fd)" using unused_fd_law True assms(2) by simp
  let ?s = "reserve (of_int fd) True s"
  obtain z u where d: "do_filp_open E dfd tmp op ?s = (z, u)" by fastforce
  have fr: "call_frame ?s u" "\<forall>e. z = Inl e \<longrightarrow> e < 0" using filp_open_law [OF d] by auto
  have none: "fdtable (fs s) (of_int fd) = None" using free assms(1) by (auto simp: open_inv_def)
  have wf: "\<forall>f. file_wf (the_file u f)" using fr(1) assms(1) by (simp add: call_frame_def open_inv_def reserve_def the_file_def)
  show ?thesis
  proof (cases z)
    case (Inl e)
    then have rt: "r = e" "t = reserve (of_int fd) False u" using assms(3) True d by (auto simp: open_at_fd_def)
    have "reserved t = reserved s" using fr free by (auto simp: rt call_frame_def reserve_def fun_eq_iff)
    then show ?thesis using fr Inl wf assms(1)
      by (auto simp: rt open_inv_def open_result_def call_frame_def the_file_def) (auto simp: reserve_def)
  next
    case (Inr f)
    then have rt: "r = fd" "t = fd_install (of_int fd) (Some f) u" using assms(3) True d by (auto simp: open_at_fd_def)
    show ?thesis using fr True free none wf assms(1)
      by (auto simp: rt open_inv_def open_result_def call_frame_def the_file_def fd_install_def reserve_def)
  qed
next
  case False
  with assms show ?thesis by (auto simp: open_at_fd_def open_result_def)
qed

lemma do_sys_openat2_result:
  assumes "open_inv s" "do_sys_openat2 E dfd a how s = (r, t)"
  shows "open_inv t \<and> open_result s r t"
proof -
  let ?s = "s\<lparr>names := names s + 1\<rparr>"
  have inv: "open_inv ?s" using assms(1) by (simp add: open_inv_def the_file_def)
  consider "r < 0" "t = s"
    | tmp op u where "open_at_fd E dfd tmp op (get_unused_fd_flags E (how_flags how) ?s) ?s = (r, u)" "t = u\<lparr>names := names u - 1\<rparr>"
    using assms(2) build_open_flags_error getname_law unfolding do_sys_openat2_def Let_def
    by (auto split: sum.splits prod.splits)
  then show ?thesis
  proof cases
    case 1
    then show ?thesis using assms(1) by (simp add: open_result_def)
  next
    case 2
    then show ?thesis using open_at_fd_result [OF inv refl 2(1)]
      by (auto simp: open_inv_def open_result_def the_file_def split: if_splits)
  qed
qed

lemma filp_flush_frame: "filp_flush E f s = (r, t) \<Longrightarrow> call_frame s t"
  unfolding filp_flush_def using flush_law
  by (fastforce simp: call_frame_def the_file_def split: if_splits option.splits prod.splits)

lemma sys_close_result:
  assumes "open_inv s" "sys_close E fd s = (r, t)"
  shows "open_inv t \<and> names t = names s \<and> tracking (fs t) = tracking (track NR_close (fs s)) \<and> clock (fs t) = clock (fs s)
    \<and> stuck (fs t) = stuck (fs s) \<and> fdtable (fs t) = (fdtable (fs s))(fd := None)
    \<and> (if fdtable (fs s) fd = None then r = - EBADF \<and> reserved t = reserved s else reserved t = (reserved s)(fd := False))
    \<and> r \<notin> {- ERESTARTSYS, - ERESTARTNOINTR, - ERESTARTNOHAND, - ERESTART_RESTARTBLOCK}"
proof -
  let ?s = "track_call NR_close s"
  have tr: "fdtable (fs ?s) = fdtable (fs s)" "reserved ?s = reserved s" "names ?s = names s" "the_file ?s = the_file s"
    "clock (fs ?s) = clock (fs s)" "stuck (fs ?s) = stuck (fs s)" "tracking (fs ?s) = tracking (track NR_close (fs s))"
    using track_effect [of NR_close "fs s"]
    by (auto simp: track_call_def run_effect_def the_file_def fun_eq_iff track_def track_syscall_def Let_def split: option.splits)
  show ?thesis
  proof (cases "fdtable (fs s) fd")
    case None
    then have "r = - EBADF" "t = ?s" using assms(2) by (simp_all add: sys_close_def file_close_fd_def tr)
    then show ?thesis using assms(1) None tr by (auto simp: open_inv_def)
  next
    case (Some f)
    define u where "u = reserve fd False (fd_install fd None ?s)"
    have u: "fdtable (fs u) = (fdtable (fs s))(fd := None)" "reserved u = (reserved s)(fd := False)" "names u = names s"
      "the_file u = the_file s" "clock (fs u) = clock (fs s)" "stuck (fs u) = stuck (fs s)"
      "tracking (fs u) = tracking (track NR_close (fs s))"
      using tr by (simp_all add: u_def reserve_def fd_install_def the_file_def fun_eq_iff)
    obtain e v where v: "filp_flush E f u = (e, v)" by fastforce
    have rt: "r = (if e \<in> {- ERESTARTSYS, - ERESTARTNOINTR, - ERESTARTNOHAND, - ERESTART_RESTARTBLOCK} then - EINTR else e)"
      "t = fput_sync E f v"
      using assms(2) Some v tr unfolding sys_close_def by (simp_all add: file_close_fd_def u_def)
    have "call_frame u t" using filp_flush_frame [OF v] fput_law [of v f] by (simp add: rt call_frame_def)
    then show ?thesis using u assms(1) Some by (auto simp: rt(1) open_inv_def call_frame_def)
  qed
qed

end

end
