(* ===== verification/Open_Path.thy ===== *)
theory Open_Path
  imports Open_File
begin

text \<open>
  The calls of \<^verbatim>\<open>fs/open.c\<close> that act on a path or on the attributes of a file (lines 41 to 877): truncation,
  allocation of space, access tests, the working and the root directory, modes and owners. Path lookup,
  permission tests and the change of attributes are parameters.
\<close>

section \<open>State\<close>

text \<open>The credentials that access tests look at; \<open>c_no_fixup\<close> is the bit \<^verbatim>\<open>SECURE_NO_SETUID_FIXUP\<close>.\<close>

record subj_cred =
  c_uid :: u32
  c_gid :: u32
  c_fsuid :: u32
  c_fsgid :: u32
  c_effective :: ulong
  c_permitted :: ulong
  c_no_fixup :: bool
  c_user_ns :: nat

text \<open>
  Besides open files: the modes of inodes, how often each inode is locked, the write accesses to mounts
  and the protections against freezing a file system that are held, the credentials in force and the
  references to prepared ones, the working and the root directory, and for each inode how many
  delegations to break.
\<close>

record path_state =
  os :: open_state
  i_modes :: "nat \<Rightarrow> u32"
  locked :: "nat \<Rightarrow> int"
  mnt_wants :: "nat \<Rightarrow> int"
  sb_writers :: "nat \<Rightarrow> int"
  subj :: subj_cred
  cred_refs :: int
  pwd :: "nat \<times> nat"
  root :: "nat \<times> nat"
  delegations :: "nat \<Rightarrow> nat"

text \<open>A requested change of attributes. Fields that \<open>ia_valid\<close> does not select are 0.\<close>

record iattr =
  ia_valid :: u32
  ia_mode :: u32
  ia_size :: loff
  ia_vfsuid :: u32
  ia_vfsgid :: u32
  ia_file :: nat

record path_env =
  oenv :: open_env
  fenv :: fs_env
  user_path_at :: "int \<Rightarrow> addr \<Rightarrow> u32 \<Rightarrow> path_state \<Rightarrow> int \<times> (nat \<times> nat)"
  retry_estale :: "int \<Rightarrow> u32 \<Rightarrow> bool"
  d_inode :: "nat \<Rightarrow> nat"
  is_append :: "nat \<Rightarrow> bool"
  mnt_want_write :: "nat \<Rightarrow> path_state \<Rightarrow> int"
  mnt_want_write_file :: "nat \<Rightarrow> path_state \<Rightarrow> int"
  inode_permission :: "nat \<Rightarrow> nat \<Rightarrow> u32 \<Rightarrow> path_state \<Rightarrow> int"
  path_permission :: "nat \<times> nat \<Rightarrow> u32 \<Rightarrow> path_state \<Rightarrow> int"
  file_permission :: "nat \<Rightarrow> u32 \<Rightarrow> path_state \<Rightarrow> int"
  dentry_needs_remove_privs :: "nat \<Rightarrow> nat \<Rightarrow> path_state \<Rightarrow> int"
  notify_change :: "nat \<Rightarrow> nat \<Rightarrow> iattr \<Rightarrow> bool \<Rightarrow> path_state \<Rightarrow> int \<times> nat option \<times> path_state"
  break_deleg_wait :: "nat \<Rightarrow> path_state \<Rightarrow> int \<times> path_state"
  security_path_truncate :: "nat \<times> nat \<Rightarrow> path_state \<Rightarrow> int"
  security_file_truncate :: "nat \<Rightarrow> path_state \<Rightarrow> int"
  security_path_chmod :: "nat \<times> nat \<Rightarrow> u32 \<Rightarrow> path_state \<Rightarrow> int"
  security_path_chown :: "nat \<times> nat \<Rightarrow> u32 \<Rightarrow> u32 \<Rightarrow> path_state \<Rightarrow> int"
  security_path_chroot :: "nat \<times> nat \<Rightarrow> path_state \<Rightarrow> int"
  fop_fallocate :: "nat \<Rightarrow> (nat \<Rightarrow> u32 \<Rightarrow> loff \<Rightarrow> loff \<Rightarrow> path_state \<Rightarrow> int \<times> path_state) option"
  path_noexec :: "nat \<times> nat \<Rightarrow> bool"
  mnt_is_readonly :: "nat \<Rightarrow> bool"
  d_can_lookup :: "nat \<Rightarrow> bool"
  prepare_creds :: "path_state \<Rightarrow> bool"
  ns_root_uid :: "nat \<Rightarrow> u32"
  ns_kuid :: "u32 \<Rightarrow> u32"
  ns_kgid :: "u32 \<Rightarrow> u32"
  setattr_should_drop_sgid :: "nat \<Rightarrow> nat \<Rightarrow> path_state \<Rightarrow> u32"
  from_vfsuid :: "nat \<Rightarrow> nat \<Rightarrow> u32 \<Rightarrow> u32"
  from_vfsgid :: "nat \<Rightarrow> nat \<Rightarrow> u32 \<Rightarrow> u32"
  ns_capable_chroot :: "path_state \<Rightarrow> bool"

abbreviation (input) ATTR_MODE :: u32 where "ATTR_MODE \<equiv> 0x1"
abbreviation (input) ATTR_UID :: u32 where "ATTR_UID \<equiv> 0x2"
abbreviation (input) ATTR_GID :: u32 where "ATTR_GID \<equiv> 0x4"
abbreviation (input) ATTR_SIZE :: u32 where "ATTR_SIZE \<equiv> 0x8"
abbreviation (input) ATTR_MTIME :: u32 where "ATTR_MTIME \<equiv> 0x20"
abbreviation (input) ATTR_CTIME :: u32 where "ATTR_CTIME \<equiv> 0x40"
abbreviation (input) ATTR_FORCE :: u32 where "ATTR_FORCE \<equiv> 0x200"
abbreviation (input) ATTR_KILL_SUID :: u32 where "ATTR_KILL_SUID \<equiv> 0x800"
abbreviation (input) ATTR_FILE :: u32 where "ATTR_FILE \<equiv> 0x2000"
abbreviation (input) ATTR_KILL_PRIV :: u32 where "ATTR_KILL_PRIV \<equiv> 0x4000"
abbreviation (input) AT_SYMLINK_NOFOLLOW :: u32 where "AT_SYMLINK_NOFOLLOW \<equiv> 0x100"
abbreviation (input) AT_EACCESS :: u32 where "AT_EACCESS \<equiv> 0x200"
abbreviation (input) AT_EMPTY_PATH :: u32 where "AT_EMPTY_PATH \<equiv> 0x1000"
abbreviation (input) MAY_EXEC :: u32 where "MAY_EXEC \<equiv> 0x1"
abbreviation (input) MAY_ACCESS :: u32 where "MAY_ACCESS \<equiv> 0x10"
abbreviation (input) MAY_CHDIR :: u32 where "MAY_CHDIR \<equiv> 0x40"
abbreviation (input) INVALID_VFSID :: u32 where "INVALID_VFSID \<equiv> - 1"

definition S_ISREG :: "u32 \<Rightarrow> bool" where "S_ISREG m \<longleftrightarrow> m AND 0xf000 = 0x8000"
definition S_ISDIR :: "u32 \<Rightarrow> bool" where "S_ISDIR m \<longleftrightarrow> m AND 0xf000 = 0x4000"
definition S_ISFIFO :: "u32 \<Rightarrow> bool" where "S_ISFIFO m \<longleftrightarrow> m AND 0xf000 = 0x1000"
definition S_ISBLK :: "u32 \<Rightarrow> bool" where "S_ISBLK m \<longleftrightarrow> m AND 0xf000 = 0x6000"

definition no_attrs :: iattr where
  "no_attrs = \<lparr>ia_valid = 0, ia_mode = 0, ia_size = 0, ia_vfsuid = 0, ia_vfsgid = 0, ia_file = 0\<rparr>"

definition inode_lock :: "nat \<Rightarrow> int \<Rightarrow> path_state \<Rightarrow> path_state" where
  "inode_lock i d s = s\<lparr>locked := (locked s)(i := locked s i + d)\<rparr>"

definition add_want :: "nat \<Rightarrow> int \<Rightarrow> path_state \<Rightarrow> path_state" where
  "add_want m d s = s\<lparr>mnt_wants := (mnt_wants s)(m := mnt_wants s m + d)\<rparr>"

definition add_sb :: "nat \<Rightarrow> int \<Rightarrow> path_state \<Rightarrow> path_state" where
  "add_sb i d s = s\<lparr>sb_writers := (sb_writers s)(i := sb_writers s i + d)\<rparr>"

definition add_ref :: "nat \<times> nat \<Rightarrow> int \<Rightarrow> path_state \<Rightarrow> path_state" where
  "add_ref p d s = s\<lparr>os := (os s)\<lparr>path_refs := (path_refs (os s))(p := path_refs (os s) p + d)\<rparr>\<rparr>"

definition add_wc :: "nat \<Rightarrow> int \<Rightarrow> path_state \<Rightarrow> path_state" where
  "add_wc i d s = s\<lparr>os := add_writers i d (os s)\<rparr>"

definition upd_fs :: "(fs_state \<Rightarrow> fs_state) \<Rightarrow> path_state \<Rightarrow> path_state" where
  "upd_fs g s = s\<lparr>os := (os s)\<lparr>fs := g (fs (os s))\<rparr>\<rparr>"

definition path_of :: "nat \<Rightarrow> path_state \<Rightarrow> nat \<times> nat" where
  "path_of f s = (case f_path (os s) f of None \<Rightarrow> (0, 0) | Some p \<Rightarrow> p)"

definition file_at :: "path_state \<Rightarrow> nat \<Rightarrow> struct_file" where
  "file_at s f = the_file (os s) f"

definition inode_at :: "path_state \<Rightarrow> nat \<Rightarrow> inode" where
  "inode_at s i = inodes (fs (os s)) i"

text \<open>
  A lookup that fails because a cached name has gone stale is repeated once more with
  \<^verbatim>\<open>LOOKUP_REVAL\<close>. \<open>body\<close> is what is done between the label \<^verbatim>\<open>retry\<close> and the test; its first result says
  whether the test is reached.
\<close>

partial_function (option) retry_loop ::
  "path_env \<Rightarrow> (u32 \<Rightarrow> path_state \<Rightarrow> (bool \<times> int \<times> path_state) option) \<Rightarrow> u32 \<Rightarrow> path_state \<Rightarrow> (int \<times> path_state) option" where
  "retry_loop P body flags s = Option.bind (body flags s) (\<lambda>(may, e, s).
     if may \<and> retry_estale P e flags then retry_loop P body (flags OR LOOKUP_REVAL) s else Some (e, s))"

text \<open>The same for a change that has to wait until another holder gives up a delegation.\<close>

partial_function (option) deleg_loop ::
  "path_env \<Rightarrow> (path_state \<Rightarrow> int \<times> nat option \<times> path_state) \<Rightarrow> path_state \<Rightarrow> (int \<times> path_state) option" where
  "deleg_loop P attempt s = (case attempt s of (e, d, s) \<Rightarrow>
     (case d of
        None \<Rightarrow> Some (e, s)
      | Some i \<Rightarrow> (case break_deleg_wait P i s of (e, s) \<Rightarrow>
          if e = 0 then deleg_loop P attempt s else Some (e, s))))"


section \<open>Truncation\<close>

definition do_truncate ::
  "path_env \<Rightarrow> nat \<Rightarrow> nat \<Rightarrow> loff \<Rightarrow> u32 \<Rightarrow> nat option \<Rightarrow> path_state \<Rightarrow> int \<times> path_state" where
  "do_truncate P m dentry len time_attrs filp s =
     (if sint len < 0 then (- EINVAL, s)
      else
        (let newattrs = no_attrs\<lparr>ia_size := len, ia_valid := ATTR_SIZE OR time_attrs\<rparr>;
             newattrs = (case filp of None \<Rightarrow> newattrs
               | Some f \<Rightarrow> newattrs\<lparr>ia_file := f, ia_valid := ia_valid newattrs OR ATTR_FILE\<rparr>);
             ret = dentry_needs_remove_privs P m dentry s in
         if ret < 0 then (ret, s)
         else
           (let newattrs = (if ret \<noteq> 0 then newattrs\<lparr>ia_valid := ia_valid newattrs OR of_int ret OR ATTR_FORCE\<rparr> else newattrs)
            in case notify_change P m dentry newattrs False (inode_lock (d_inode P dentry) 1 s) of
                 (ret, _, s) \<Rightarrow> (ret, inode_lock (d_inode P dentry) (- 1) s))))"

definition truncate_checked :: "path_env \<Rightarrow> nat \<times> nat \<Rightarrow> loff \<Rightarrow> path_state \<Rightarrow> int \<times> path_state" where
  "truncate_checked P path len s =
     (let inode = d_inode P (snd path); error = inode_permission P (fst path) inode MAY_WRITE s in
      if error \<noteq> 0 then (error, s)
      else if is_append P inode then (- EPERM, s)
      else let error = get_write_access (oenv P) inode (os s) in
        if error \<noteq> 0 then (error, s)
        else
          (let s = add_wc inode 1 s;
               error = break_lease (oenv P) inode (ucast F_WRONLY) (os s)
           in case (if error \<noteq> 0 then (error, s)
                    else let error = security_path_truncate P path s in
                      if error \<noteq> 0 then (error, s) else do_truncate P (fst path) (snd path) len 0 None s) of
                (error, s) \<Rightarrow> (error, add_wc inode (- 1) s)))"

definition vfs_truncate :: "path_env \<Rightarrow> nat \<times> nat \<Rightarrow> loff \<Rightarrow> path_state \<Rightarrow> int \<times> path_state" where
  "vfs_truncate P path len s =
     (let inode = d_inode P (snd path) in
      if S_ISDIR (i_modes s inode) then (- EISDIR, s)
      else if \<not> S_ISREG (i_modes s inode) then (- EINVAL, s)
      else let error = mnt_want_write P (fst path) s in
        if error \<noteq> 0 then (error, s)
        else case truncate_checked P path len (add_want (fst path) 1 s) of
          (error, s) \<Rightarrow> (error, add_want (fst path) (- 1) s))"

definition do_sys_truncate :: "path_env \<Rightarrow> addr \<Rightarrow> loff \<Rightarrow> path_state \<Rightarrow> (int \<times> path_state) option" where
  "do_sys_truncate P pathname len s =
     (if sint len < 0 then Some (- EINVAL, s)
      else retry_loop P (\<lambda>flags s. Some (case user_path_at P AT_FDCWD pathname flags s of (error, path) \<Rightarrow>
        if error = 0 then
          (case vfs_truncate P path len (add_ref path 1 s) of (error, s) \<Rightarrow> (True, error, add_ref path (- 1) s))
        else (True, error, s))) LOOKUP_FOLLOW s)"

definition sys_truncate :: "path_env \<Rightarrow> addr \<Rightarrow> loff \<Rightarrow> path_state \<Rightarrow> (int \<times> path_state) option" where
  "sys_truncate P path len = do_sys_truncate P path len"

definition compat_sys_truncate :: "path_env \<Rightarrow> addr \<Rightarrow> u32 \<Rightarrow> path_state \<Rightarrow> (int \<times> path_state) option" where
  "compat_sys_truncate P path len = do_sys_truncate P path (scast len)"

definition ftruncate_file :: "path_env \<Rightarrow> nat \<Rightarrow> loff \<Rightarrow> bool \<Rightarrow> path_state \<Rightarrow> int \<times> path_state" where
  "ftruncate_file P f len small s =
     (let small = (small \<and> \<not> O_LARGEFILE (file_at s f));
          dentry = snd (path_of f s); inode = d_inode P dentry in
      if \<not> S_ISREG (i_modes s inode) \<or> \<not> FMODE_WRITE (f_mode (file_at s f)) then (- EINVAL, s)
      else if small \<and> sint len > sint MAX_NON_LFS then (- EINVAL, s)
      else if is_append P (f_inode (file_at s f)) then (- EPERM, s)
      else
        (let sb = i_sb (inode_at s inode);
             s = add_sb sb 1 s;
             error = security_file_truncate P f s
         in case (if error \<noteq> 0 then (error, s)
                  else do_truncate P (fst (path_of f s)) dentry len (ATTR_MTIME OR ATTR_CTIME) (Some f) s) of
              (error, s) \<Rightarrow> (error, add_sb sb (- 1) s)))"

text \<open>A call on a descriptor: the reference taken by the lookup is put back at the end.\<close>

definition with_fd ::
  "(u32 \<Rightarrow> fs_state \<Rightarrow> nat option \<times> fs_state) \<Rightarrow> u32 \<Rightarrow> (nat \<Rightarrow> path_state \<Rightarrow> (int \<times> path_state) option) \<Rightarrow> path_state
   \<Rightarrow> (int \<times> path_state) option" where
  "with_fd get fd body s = (case get fd (fs (os s)) of
     (None, _) \<Rightarrow> Some (- EBADF, s)
   | (Some f, x) \<Rightarrow> map_option (\<lambda>(e, s). (e, upd_fs (fdput f) s)) (body f (upd_fs (\<lambda>_. x) s)))"

definition do_sys_ftruncate :: "path_env \<Rightarrow> u32 \<Rightarrow> loff \<Rightarrow> bool \<Rightarrow> path_state \<Rightarrow> (int \<times> path_state) option" where
  "do_sys_ftruncate P fd len small s =
     (if sint len < 0 then Some (- EINVAL, s)
      else with_fd fdget fd (\<lambda>f s. Some (ftruncate_file P f len small s)) s)"

definition sys_ftruncate :: "path_env \<Rightarrow> u32 \<Rightarrow> loff \<Rightarrow> path_state \<Rightarrow> (int \<times> path_state) option" where
  "sys_ftruncate P fd len = do_sys_ftruncate P fd len True"

definition compat_sys_ftruncate :: "path_env \<Rightarrow> u32 \<Rightarrow> u32 \<Rightarrow> path_state \<Rightarrow> (int \<times> path_state) option" where
  "compat_sys_ftruncate P fd len = do_sys_ftruncate P fd (ucast len) True"


section \<open>Allocation of space\<close>

abbreviation (input) KEEP_SIZE :: u32 where "KEEP_SIZE \<equiv> 0x1"
abbreviation (input) PUNCH_HOLE :: u32 where "PUNCH_HOLE \<equiv> 0x2"
abbreviation (input) COLLAPSE_RANGE :: u32 where "COLLAPSE_RANGE \<equiv> 0x8"
abbreviation (input) ZERO_RANGE :: u32 where "ZERO_RANGE \<equiv> 0x10"
abbreviation (input) INSERT_RANGE :: u32 where "INSERT_RANGE \<equiv> 0x20"
abbreviation (input) UNSHARE_RANGE :: u32 where "UNSHARE_RANGE \<equiv> 0x40"
abbreviation (input) FALLOC_FL_SUPPORTED_MASK :: u32 where "FALLOC_FL_SUPPORTED_MASK \<equiv> 0x7b"

text \<open>The checks before the method of the file system is called; 0 when all pass.\<close>

definition fallocate_modes :: "u32 \<Rightarrow> int" where
  "fallocate_modes mode =
     (if has mode (NOT FALLOC_FL_SUPPORTED_MASK) then - EOPNOTSUPP
      else if mode AND (PUNCH_HOLE OR ZERO_RANGE) = PUNCH_HOLE OR ZERO_RANGE then - EOPNOTSUPP
      else if has mode PUNCH_HOLE \<and> \<not> has mode KEEP_SIZE then - EOPNOTSUPP
      else if has mode COLLAPSE_RANGE \<and> has mode (NOT COLLAPSE_RANGE) then - EINVAL
      else if has mode INSERT_RANGE \<and> has mode (NOT INSERT_RANGE) then - EINVAL
      else if has mode UNSHARE_RANGE \<and> has mode (NOT (UNSHARE_RANGE OR KEEP_SIZE)) then - EINVAL
      else 0)"

definition fallocate_checks :: "path_env \<Rightarrow> nat \<Rightarrow> u32 \<Rightarrow> loff \<Rightarrow> loff \<Rightarrow> path_state \<Rightarrow> int" where
  "fallocate_checks P f mode offset len s =
     (let i = f_inode (file_at s f); inode = inode_at s i; im = i_modes s i in
      if sint offset < 0 \<or> sint len \<le> 0 then - EINVAL
      else if fallocate_modes mode \<noteq> 0 then fallocate_modes mode
      else if \<not> FMODE_WRITE (f_mode (file_at s f)) then - EBADF
      else if has mode (NOT KEEP_SIZE) \<and> is_append P i then - EPERM
      else if immutable inode then - EPERM
      else if swapfile inode then - ETXTBSY
      else let ret = security_file_permission (fenv P) f True in
        if ret \<noteq> 0 then ret
        else let ret = fsnotify_file_area_perm (fenv P) f True (Some offset) len in
          if ret \<noteq> 0 then ret
          else if S_ISFIFO im then - ESPIPE
          else if S_ISDIR im then - EISDIR
          else if \<not> S_ISREG im \<and> \<not> S_ISBLK im then - ENODEV
          else if sint (offset + len) > sint (s_maxbytes inode) \<or> sint (offset + len) < 0 then - EFBIG
          else 0)"

definition vfs_fallocate :: "path_env \<Rightarrow> nat \<Rightarrow> u32 \<Rightarrow> loff \<Rightarrow> loff \<Rightarrow> path_state \<Rightarrow> int \<times> path_state" where
  "vfs_fallocate P f mode offset len s =
     (let e = fallocate_checks P f mode offset len s in
      if e \<noteq> 0 then (e, s)
      else case fop_fallocate P f of
        None \<Rightarrow> (- EOPNOTSUPP, s)
      | Some g \<Rightarrow> (case g f mode offset len (upd_fs (file_start_write f) s) of (ret, s) \<Rightarrow>
          (ret, upd_fs (file_end_write f) (if ret = 0 then upd_fs (fsnotify_modify f) s else s))))"

definition ksys_fallocate :: "path_env \<Rightarrow> u32 \<Rightarrow> u32 \<Rightarrow> loff \<Rightarrow> loff \<Rightarrow> path_state \<Rightarrow> (int \<times> path_state) option" where
  "ksys_fallocate P fd mode offset len = with_fd fdget fd (\<lambda>f s. Some (vfs_fallocate P f mode offset len s))"

definition sys_fallocate :: "path_env \<Rightarrow> u32 \<Rightarrow> u32 \<Rightarrow> loff \<Rightarrow> loff \<Rightarrow> path_state \<Rightarrow> (int \<times> path_state) option" where
  "sys_fallocate P fd mode offset len = ksys_fallocate P fd mode offset len"


section \<open>Access\<close>

definition access_need_override_creds :: "path_env \<Rightarrow> u32 \<Rightarrow> subj_cred \<Rightarrow> bool" where
  "access_need_override_creds P flags c =
     (if has flags AT_EACCESS then False
      else if c_fsuid c \<noteq> c_uid c \<or> c_fsgid c \<noteq> c_gid c then True
      else if \<not> c_no_fixup c then
        (if c_uid c \<noteq> ns_root_uid P (c_user_ns c) then c_effective c \<noteq> 0
         else c_effective c \<noteq> c_permitted c)
      else False)"

definition override_cred :: "path_env \<Rightarrow> subj_cred \<Rightarrow> subj_cred" where
  "override_cred P c =
     (let c = c\<lparr>c_fsuid := c_uid c, c_fsgid := c_gid c\<rparr> in
      if \<not> c_no_fixup c then
        (if c_uid c \<noteq> ns_root_uid P (c_user_ns c) then c\<lparr>c_effective := 0\<rparr>
         else c\<lparr>c_effective := c_permitted c\<rparr>)
      else c)"

text \<open>The prepared credentials have one reference; installing them takes another, and the first is put.\<close>

definition access_override_creds :: "path_env \<Rightarrow> path_state \<Rightarrow> subj_cred option \<times> path_state" where
  "access_override_creds P s =
     (if \<not> prepare_creds P s then (None, s)
      else
        (let s1 = s\<lparr>cred_refs := cred_refs s + 1\<rparr>;
             s2 = s1\<lparr>subj := override_cred P (subj s), cred_refs := cred_refs s1 + 1\<rparr>
         in (Some (subj s), s2\<lparr>cred_refs := cred_refs s2 - 1\<rparr>)))"

definition revert_creds :: "subj_cred \<Rightarrow> path_state \<Rightarrow> path_state" where
  "revert_creds old s = s\<lparr>subj := old, cred_refs := cred_refs s - 1\<rparr>"

definition faccess_path :: "path_env \<Rightarrow> nat \<times> nat \<Rightarrow> u32 \<Rightarrow> path_state \<Rightarrow> int" where
  "faccess_path P path mode s =
     (let inode = d_backing_inode (oenv P) (snd path) in
      if has mode MAY_EXEC \<and> S_ISREG (i_modes s inode) \<and> path_noexec P path then - EACCES
      else
        (let res = inode_permission P (fst path) inode (mode OR MAY_ACCESS) s in
         if res \<noteq> 0 \<or> \<not> has mode 2 \<or> special_file (oenv P) inode then res
         else if mnt_is_readonly P (fst path) then - EROFS
         else res))"

definition do_faccessat :: "path_env \<Rightarrow> int \<Rightarrow> addr \<Rightarrow> u32 \<Rightarrow> u32 \<Rightarrow> path_state \<Rightarrow> (int \<times> path_state) option" where
  "do_faccessat P dfd filename mode flags s =
     (if has mode (NOT 7) then Some (- EINVAL, s)
      else if has flags (NOT (AT_EACCESS OR AT_SYMLINK_NOFOLLOW OR AT_EMPTY_PATH)) then Some (- EINVAL, s)
      else
        (let lookup = (if has flags AT_SYMLINK_NOFOLLOW then LOOKUP_FOLLOW AND NOT LOOKUP_FOLLOW else LOOKUP_FOLLOW);
             lookup = set_if (has flags AT_EMPTY_PATH) LOOKUP_EMPTY lookup;
             loop = retry_loop P (\<lambda>flags s. Some (case user_path_at P dfd filename flags s of (res, path) \<Rightarrow>
               if res \<noteq> 0 then (False, res, s)
               else (let s = add_ref path 1 s in (True, faccess_path P path mode s, add_ref path (- 1) s)))) lookup
         in if access_need_override_creds P flags (subj s) then
              (case access_override_creds P s of
                 (None, s) \<Rightarrow> Some (- ENOMEM, s)
               | (Some old, s) \<Rightarrow> map_option (\<lambda>(res, s). (res, revert_creds old s)) (loop s))
            else loop s))"

definition sys_faccessat :: "path_env \<Rightarrow> int \<Rightarrow> addr \<Rightarrow> u32 \<Rightarrow> path_state \<Rightarrow> (int \<times> path_state) option" where
  "sys_faccessat P dfd filename mode = do_faccessat P dfd filename mode 0"

definition sys_faccessat2 :: "path_env \<Rightarrow> int \<Rightarrow> addr \<Rightarrow> u32 \<Rightarrow> u32 \<Rightarrow> path_state \<Rightarrow> (int \<times> path_state) option" where
  "sys_faccessat2 P dfd filename mode flags = do_faccessat P dfd filename mode flags"

definition sys_access :: "path_env \<Rightarrow> addr \<Rightarrow> u32 \<Rightarrow> path_state \<Rightarrow> (int \<times> path_state) option" where
  "sys_access P filename mode = do_faccessat P AT_FDCWD filename mode 0"

section \<open>Working and root directory\<close>

text \<open>The new directory is referenced, the old one released.\<close>

definition set_fs_pwd :: "nat \<times> nat \<Rightarrow> path_state \<Rightarrow> path_state" where
  "set_fs_pwd path s = (add_ref (pwd s) (- 1) (add_ref path 1 s))\<lparr>pwd := path\<rparr>"

definition set_fs_root :: "nat \<times> nat \<Rightarrow> path_state \<Rightarrow> path_state" where
  "set_fs_root path s = (add_ref (root s) (- 1) (add_ref path 1 s))\<lparr>root := path\<rparr>"

definition chdir_path :: "path_env \<Rightarrow> nat \<times> nat \<Rightarrow> path_state \<Rightarrow> int \<times> path_state" where
  "chdir_path P path s =
     (let error = path_permission P path (MAY_EXEC OR MAY_CHDIR) s in
      if error \<noteq> 0 then (error, s) else (error, set_fs_pwd path s))"

text \<open>The lookup and release of a path around what is done with it.\<close>

definition at_path ::
  "path_env \<Rightarrow> int \<Rightarrow> addr \<Rightarrow> (nat \<times> nat \<Rightarrow> path_state \<Rightarrow> (int \<times> path_state) option) \<Rightarrow> u32 \<Rightarrow> path_state
   \<Rightarrow> (bool \<times> int \<times> path_state) option" where
  "at_path P dfd filename body flags s =
     (case user_path_at P dfd filename flags s of (error, path) \<Rightarrow>
        if error \<noteq> 0 then Some (False, error, s)
        else map_option (\<lambda>(error, s). (True, error, add_ref path (- 1) s)) (body path (add_ref path 1 s)))"

definition sys_chdir :: "path_env \<Rightarrow> addr \<Rightarrow> path_state \<Rightarrow> (int \<times> path_state) option" where
  "sys_chdir P filename =
     retry_loop P (at_path P AT_FDCWD filename (\<lambda>path s. Some (chdir_path P path s))) (LOOKUP_FOLLOW OR LOOKUP_DIRECTORY)"

definition fchdir_file :: "path_env \<Rightarrow> nat \<Rightarrow> path_state \<Rightarrow> int \<times> path_state" where
  "fchdir_file P f s =
     (if \<not> d_can_lookup P (snd (path_of f s)) then (- ENOTDIR, s)
      else
        (let error = file_permission P f (MAY_EXEC OR MAY_CHDIR) s
         in (error, if error = 0 then set_fs_pwd (path_of f s) s else s)))"

definition sys_fchdir :: "path_env \<Rightarrow> u32 \<Rightarrow> path_state \<Rightarrow> (int \<times> path_state) option" where
  "sys_fchdir P fd = with_fd fdget_raw fd (\<lambda>f s. Some (fchdir_file P f s))"

definition chroot_path :: "path_env \<Rightarrow> nat \<times> nat \<Rightarrow> path_state \<Rightarrow> int \<times> path_state" where
  "chroot_path P path s =
     (let error = path_permission P path (MAY_EXEC OR MAY_CHDIR) s in
      if error \<noteq> 0 then (error, s)
      else if \<not> ns_capable_chroot P s then (- EPERM, s)
      else let error = security_path_chroot P path s in
        if error \<noteq> 0 then (error, s) else (0, set_fs_root path s))"

definition sys_chroot :: "path_env \<Rightarrow> addr \<Rightarrow> path_state \<Rightarrow> (int \<times> path_state) option" where
  "sys_chroot P filename =
     retry_loop P (at_path P AT_FDCWD filename (\<lambda>path s. Some (chroot_path P path s))) (LOOKUP_FOLLOW OR LOOKUP_DIRECTORY)"


section \<open>Modes\<close>

definition chmod_attrs :: "u32 \<Rightarrow> u32 \<Rightarrow> iattr" where
  "chmod_attrs mode i_mode =
     no_attrs\<lparr>ia_mode := (mode AND 0xfff) OR (i_mode AND NOT 0xfff), ia_valid := ATTR_MODE OR ATTR_CTIME\<rparr>"

definition chmod_attempt :: "path_env \<Rightarrow> nat \<times> nat \<Rightarrow> u32 \<Rightarrow> path_state \<Rightarrow> int \<times> nat option \<times> path_state" where
  "chmod_attempt P path mode s =
     (let inode = d_inode P (snd path);
          s = inode_lock inode 1 s;
          error = security_path_chmod P path mode s
      in case (if error \<noteq> 0 then (error, None, s)
               else notify_change P (fst path) (snd path) (chmod_attrs mode (i_modes s inode)) True s) of
           (error, d, s) \<Rightarrow> (error, d, inode_lock inode (- 1) s))"

definition chmod_common :: "path_env \<Rightarrow> nat \<times> nat \<Rightarrow> u32 \<Rightarrow> path_state \<Rightarrow> (int \<times> path_state) option" where
  "chmod_common P path mode s =
     (let error = mnt_want_write P (fst path) s in
      if error \<noteq> 0 then Some (error, s)
      else map_option (\<lambda>(error, s). (error, add_want (fst path) (- 1) s))
             (deleg_loop P (chmod_attempt P path mode) (add_want (fst path) 1 s)))"

definition vfs_fchmod :: "path_env \<Rightarrow> nat \<Rightarrow> u32 \<Rightarrow> path_state \<Rightarrow> (int \<times> path_state) option" where
  "vfs_fchmod P f mode s = chmod_common P (path_of f s) mode s"

definition sys_fchmod :: "path_env \<Rightarrow> u32 \<Rightarrow> u32 \<Rightarrow> path_state \<Rightarrow> (int \<times> path_state) option" where
  "sys_fchmod P fd mode = with_fd fdget fd (\<lambda>f. vfs_fchmod P f mode)"

definition at_lookup_flags :: "u32 \<Rightarrow> u32" where
  "at_lookup_flags flags = set_if (has flags AT_EMPTY_PATH) LOOKUP_EMPTY (if has flags AT_SYMLINK_NOFOLLOW then 0 else LOOKUP_FOLLOW)"

definition do_fchmodat :: "path_env \<Rightarrow> int \<Rightarrow> addr \<Rightarrow> u32 \<Rightarrow> u32 \<Rightarrow> path_state \<Rightarrow> (int \<times> path_state) option" where
  "do_fchmodat P dfd filename mode flags s =
     (if has flags (NOT (AT_SYMLINK_NOFOLLOW OR AT_EMPTY_PATH)) then Some (- EINVAL, s)
      else retry_loop P (at_path P dfd filename (\<lambda>path. chmod_common P path mode)) (at_lookup_flags flags) s)"

definition sys_fchmodat2 :: "path_env \<Rightarrow> int \<Rightarrow> addr \<Rightarrow> u32 \<Rightarrow> u32 \<Rightarrow> path_state \<Rightarrow> (int \<times> path_state) option" where
  "sys_fchmodat2 P dfd filename mode flags = do_fchmodat P dfd filename mode flags"

definition sys_fchmodat :: "path_env \<Rightarrow> int \<Rightarrow> addr \<Rightarrow> u32 \<Rightarrow> path_state \<Rightarrow> (int \<times> path_state) option" where
  "sys_fchmodat P dfd filename mode = do_fchmodat P dfd filename mode 0"

definition sys_chmod :: "path_env \<Rightarrow> addr \<Rightarrow> u32 \<Rightarrow> path_state \<Rightarrow> (int \<times> path_state) option" where
  "sys_chmod P filename mode = do_fchmodat P AT_FDCWD filename mode 0"


section \<open>Owners\<close>

text \<open>\<open>None\<close>: the id has no image in the user namespace.\<close>

definition setattr_vfsuid :: "iattr \<Rightarrow> u32 \<Rightarrow> iattr option" where
  "setattr_vfsuid attr kuid =
     (if kuid = INVALID_VFSID then None else Some (attr\<lparr>ia_valid := ia_valid attr OR ATTR_UID, ia_vfsuid := kuid\<rparr>))"

definition setattr_vfsgid :: "iattr \<Rightarrow> u32 \<Rightarrow> iattr option" where
  "setattr_vfsgid attr kgid =
     (if kgid = INVALID_VFSID then None else Some (attr\<lparr>ia_valid := ia_valid attr OR ATTR_GID, ia_vfsgid := kgid\<rparr>))"

definition chown_attrs :: "path_env \<Rightarrow> u32 \<Rightarrow> u32 \<Rightarrow> iattr option" where
  "chown_attrs P user grp =
     (let newattrs = no_attrs\<lparr>ia_vfsuid := INVALID_VFSID, ia_vfsgid := INVALID_VFSID, ia_valid := ATTR_CTIME\<rparr>
      in Option.bind (if user \<noteq> - 1 then setattr_vfsuid newattrs (ns_kuid P user) else Some newattrs)
           (\<lambda>newattrs. if grp \<noteq> - 1 then setattr_vfsgid newattrs (ns_kgid P grp) else Some newattrs))"

definition chown_kill :: "path_env \<Rightarrow> nat \<Rightarrow> nat \<Rightarrow> iattr \<Rightarrow> path_state \<Rightarrow> iattr" where
  "chown_kill P m inode newattrs s =
     (if S_ISDIR (i_modes s inode) then newattrs
      else newattrs\<lparr>ia_valid := ia_valid newattrs OR ATTR_KILL_SUID OR ATTR_KILL_PRIV OR setattr_should_drop_sgid P m inode s\<rparr>)"

definition chown_attempt :: "path_env \<Rightarrow> nat \<times> nat \<Rightarrow> u32 \<Rightarrow> u32 \<Rightarrow> path_state \<Rightarrow> int \<times> nat option \<times> path_state" where
  "chown_attempt P path user grp s =
     (let inode = d_inode P (snd path); m = fst path in
      case chown_attrs P user grp of
        None \<Rightarrow> (- EINVAL, None, s)
      | Some newattrs \<Rightarrow>
        (let s = inode_lock inode 1 s;
             newattrs = chown_kill P m inode newattrs s;
             error = security_path_chown P path (from_vfsuid P m inode (ia_vfsuid newattrs)) (from_vfsgid P m inode (ia_vfsgid newattrs)) s
         in case (if error \<noteq> 0 then (error, None, s) else notify_change P m (snd path) newattrs True s) of
              (error, d, s) \<Rightarrow> (error, d, inode_lock inode (- 1) s)))"

definition chown_common :: "path_env \<Rightarrow> nat \<times> nat \<Rightarrow> u32 \<Rightarrow> u32 \<Rightarrow> path_state \<Rightarrow> (int \<times> path_state) option" where
  "chown_common P path user grp = deleg_loop P (chown_attempt P path user grp)"

definition chown_written :: "path_env \<Rightarrow> u32 \<Rightarrow> u32 \<Rightarrow> nat \<times> nat \<Rightarrow> path_state \<Rightarrow> (int \<times> path_state) option" where
  "chown_written P user grp path s =
     (let error = mnt_want_write P (fst path) s in
      if error \<noteq> 0 then Some (error, s)
      else map_option (\<lambda>(error, s). (error, add_want (fst path) (- 1) s))
             (chown_common P path user grp (add_want (fst path) 1 s)))"

definition do_fchownat :: "path_env \<Rightarrow> int \<Rightarrow> addr \<Rightarrow> u32 \<Rightarrow> u32 \<Rightarrow> u32 \<Rightarrow> path_state \<Rightarrow> (int \<times> path_state) option" where
  "do_fchownat P dfd filename user grp flag s =
     (if has flag (NOT (AT_SYMLINK_NOFOLLOW OR AT_EMPTY_PATH)) then Some (- EINVAL, s)
      else retry_loop P (at_path P dfd filename (chown_written P user grp)) (at_lookup_flags flag) s)"

definition sys_fchownat :: "path_env \<Rightarrow> int \<Rightarrow> addr \<Rightarrow> u32 \<Rightarrow> u32 \<Rightarrow> u32 \<Rightarrow> path_state \<Rightarrow> (int \<times> path_state) option" where
  "sys_fchownat P dfd filename user grp flag = do_fchownat P dfd filename user grp flag"

definition sys_chown :: "path_env \<Rightarrow> addr \<Rightarrow> u32 \<Rightarrow> u32 \<Rightarrow> path_state \<Rightarrow> (int \<times> path_state) option" where
  "sys_chown P filename user grp = do_fchownat P AT_FDCWD filename user grp 0"

definition sys_lchown :: "path_env \<Rightarrow> addr \<Rightarrow> u32 \<Rightarrow> u32 \<Rightarrow> path_state \<Rightarrow> (int \<times> path_state) option" where
  "sys_lchown P filename user grp = do_fchownat P AT_FDCWD filename user grp AT_SYMLINK_NOFOLLOW"

definition vfs_fchown :: "path_env \<Rightarrow> nat \<Rightarrow> u32 \<Rightarrow> u32 \<Rightarrow> path_state \<Rightarrow> (int \<times> path_state) option" where
  "vfs_fchown P f user grp s =
     (let error = mnt_want_write_file P f s; m = fst (path_of f s) in
      if error \<noteq> 0 then Some (error, s)
      else map_option (\<lambda>(error, s). (error, add_want m (- 1) s)) (chown_common P (path_of f s) user grp (add_want m 1 s)))"

definition ksys_fchown :: "path_env \<Rightarrow> u32 \<Rightarrow> u32 \<Rightarrow> u32 \<Rightarrow> path_state \<Rightarrow> (int \<times> path_state) option" where
  "ksys_fchown P fd user grp = with_fd fdget fd (\<lambda>f. vfs_fchown P f user grp)"

definition sys_fchown :: "path_env \<Rightarrow> u32 \<Rightarrow> u32 \<Rightarrow> u32 \<Rightarrow> path_state \<Rightarrow> (int \<times> path_state) option" where
  "sys_fchown P fd user grp = ksys_fchown P fd user grp"

section \<open>What every call gives back\<close>

text \<open>References to a path beyond those of the working and the root directory.\<close>

definition free_refs :: "path_state \<Rightarrow> nat \<times> nat \<Rightarrow> int" where
  "free_refs s p = path_refs (os s) p - of_bool (pwd s = p) - of_bool (root s = p)"

text \<open>Everything that is taken for the time of a call is as it was.\<close>

definition settled :: "path_state \<Rightarrow> path_state \<Rightarrow> bool" where
  "settled s t \<longleftrightarrow> locked t = locked s \<and> mnt_wants t = mnt_wants s \<and> sb_writers t = sb_writers s
     \<and> subj t = subj s \<and> cred_refs t = cred_refs s \<and> free_refs t = free_refs s
     \<and> i_readcount (os t) = i_readcount (os s) \<and> i_writecount (os t) = i_writecount (os s)
     \<and> mnt_writers (os t) = mnt_writers (os s) \<and> fop_refs (os t) = fop_refs (os s) \<and> f_path (os t) = f_path (os s)
     \<and> names (os t) = names (os s) \<and> fdtable (fs (os t)) = fdtable (fs (os s))
     \<and> file_refs (fs (os t)) = file_refs (fs (os s)) \<and> file_writers (fs (os t)) = file_writers (fs (os s))
     \<and> stuck (fs (os t)) = stuck (fs (os s))"

text \<open>What the code outside may do: change the files, their attributes and their contents.\<close>

definition quiet :: "path_state \<Rightarrow> path_state \<Rightarrow> bool" where
  "quiet s t \<longleftrightarrow> settled s t \<and> pwd t = pwd s \<and> root t = root s"

lemma settled_refl [simp]: "settled s s"
  by (simp add: settled_def)

lemma settled_trans: "settled s t \<Longrightarrow> settled t u \<Longrightarrow> settled s u"
  by (simp add: settled_def)

lemma settled_undo:
  "settled (inode_lock i 1 s) t \<Longrightarrow> settled s (inode_lock i (- 1) t)"
  "settled (add_want i 1 s) t \<Longrightarrow> settled s (add_want i (- 1) t)"
  "settled (add_sb i 1 s) t \<Longrightarrow> settled s (add_sb i (- 1) t)"
  "settled (add_wc i 1 s) t \<Longrightarrow> settled s (add_wc i (- 1) t)"
  by (auto simp: settled_def inode_lock_def add_want_def add_sb_def add_wc_def add_writers_def free_refs_def fun_eq_iff)

lemma settled_ref:
  assumes "settled (add_ref p 1 s) t"
  shows "settled s (add_ref p (- 1) t)"
proof -
  have "free_refs (add_ref p d u) q = free_refs u q + (if q = p then d else 0)" for d u q
    by (simp add: free_refs_def add_ref_def)
  then have "free_refs (add_ref p (- 1) t) = free_refs s" using assms by (auto simp: settled_def fun_eq_iff)
  with assms show ?thesis by (simp add: settled_def) (simp add: add_ref_def)
qed

lemma settled_pwd: "settled s (set_fs_pwd p s)" and settled_root: "settled s (set_fs_root p s)"
  by (auto simp: settled_def set_fs_pwd_def set_fs_root_def add_ref_def free_refs_def fun_eq_iff)

lemma settled_fd:
  assumes "settled (upd_fs (\<lambda>_. (fs (os s))\<lparr>file_refs := (file_refs (fs (os s)))(f := file_refs (fs (os s)) f + 1)\<rparr>) s) t"
  shows "settled s (upd_fs (fdput f) t)"
  using assms by (auto simp: settled_def upd_fs_def fdput_def free_refs_def fun_eq_iff)

lemma settled_write:
  assumes "settled (upd_fs (file_start_write f) s) t"
  shows "settled s (upd_fs (file_end_write f) t)" "settled s (upd_fs (file_end_write f) (upd_fs (fsnotify_modify f) t))"
  using assms by (auto simp: settled_def upd_fs_def file_start_write_def file_end_write_def fsnotify_modify_def free_refs_def fun_eq_iff)

lemma override_settles:
  assumes "access_override_creds P s = (Some old, u)" "settled u t"
  shows "settled s (revert_creds old t)"
  using assms by (auto simp: settled_def access_override_creds_def revert_creds_def free_refs_def Let_def fun_eq_iff split: if_splits)

text \<open>A call ends, and gives back what it took.\<close>

definition ends :: "path_state \<Rightarrow> (int \<times> path_state) option \<Rightarrow> bool" where
  "ends s x \<longleftrightarrow> (\<exists>e t. x = Some (e, t) \<and> settled s t)"

lemma endsI [intro]: "settled s t \<Longrightarrow> ends s (Some (e, t))"
  by (simp add: ends_def)

lemma ends_map:
  assumes "ends u x" "\<And>e t. settled u t \<Longrightarrow> settled s (h t)"
  shows "ends s (map_option (\<lambda>(e, t). (e, h t)) x)"
  using assms by (auto simp: ends_def)

lemma ends_pair: "(\<And>e t. x = (e, t) \<Longrightarrow> settled s t) \<Longrightarrow> ends s (Some x)"
  by (cases x) auto

lemma with_fd_ends:
  assumes "get = fdget \<or> get = fdget_raw" "\<And>f s. ends s (body f s)"
  shows "ends s (with_fd get fd body s)"
proof (cases "fst (get fd (fs (os s)))")
  case None
  then show ?thesis by (auto simp: with_fd_def split: prod.splits option.splits)
next
  case (Some f)
  then have "get fd (fs (os s)) = (Some f, (fs (os s))\<lparr>file_refs := (file_refs (fs (os s)))(f := file_refs (fs (os s)) f + 1)\<rparr>)"
    using assms(1) by (auto simp: fdget_def fdget_raw_def split: option.splits)
  then show ?thesis using ends_map [OF assms(2) settled_fd] by (simp add: with_fd_def)
qed

text \<open>
  The contract: a stale name is retried once. A change of attributes asks to wait only while the inode has a
  delegation; a wait that succeeds leaves fewer of them, if there were any (it returns at once when there
  is none), and no new one is granted in between. What is called gives back what it took.
\<close>

locale path_laws =
  fixes P :: path_env
  assumes estale_law: "\<And>e fl. has fl LOOKUP_REVAL \<Longrightarrow> \<not> retry_estale P e fl"
    and notify_law: "\<And>m d a w s e x t. notify_change P m d a w s = (e, x, t) \<Longrightarrow>
        quiet s t \<and> delegations t = delegations s \<and> (\<forall>i. x = Some i \<longrightarrow> i = d_inode P d \<and> 0 < delegations s i)"
    and deleg_law: "\<And>i s e t. break_deleg_wait P i s = (e, t) \<Longrightarrow>
        quiet s t \<and> (e = 0 \<longrightarrow> delegations t i < delegations s i \<or> delegations s i = 0)"
    and fallocate_law: "\<And>f g m a b s e t. fop_fallocate P f = Some g \<Longrightarrow> g f m a b s = (e, t) \<Longrightarrow> quiet s t"
begin

lemma retry_loop_ends:
  assumes body: "\<And>fl s. \<exists>may e t. body fl s = Some (may, e, t) \<and> settled s t"
  shows "ends s (retry_loop P body fl s)"
proof -
  obtain may e t where b: "body fl s = Some (may, e, t)" "settled s t" using body by blast
  show ?thesis
  proof (cases "may \<and> retry_estale P e fl")
    case True
    obtain may' e' u where c: "body (fl OR LOOKUP_REVAL) t = Some (may', e', u)" "settled t u" using body by blast
    have "\<not> retry_estale P e' (fl OR LOOKUP_REVAL)" by (rule estale_law) simp
    then have "retry_loop P body (fl OR LOOKUP_REVAL) t = Some (e', u)" by (subst retry_loop.simps) (simp add: c)
    then have "retry_loop P body fl s = Some (e', u)" using True by (subst retry_loop.simps) (simp add: b)
    with b c show ?thesis by (auto intro: settled_trans)
  next
    case False
    then have "retry_loop P body fl s = Some (e, t)" by (subst retry_loop.simps) (auto simp: b)
    with b show ?thesis by auto
  qed
qed

lemma deleg_loop_ends:
  assumes att: "\<And>s e d t. attempt s = (e, d, t) \<Longrightarrow> settled s t \<and> delegations t = delegations s \<and> (\<forall>j. d = Some j \<longrightarrow> j = i \<and> 0 < delegations s i)"
  shows "ends s (deleg_loop P attempt s)"
proof (induction "delegations s i" arbitrary: s rule: less_induct)
  case less
  obtain e d t where a: "attempt s = (e, d, t)" by (metis prod_cases3)
  note t = att [OF a]
  show ?case
  proof (cases d)
    case None
    then have "deleg_loop P attempt s = Some (e, t)" by (subst deleg_loop.simps) (simp add: a)
    with t show ?thesis by auto
  next
    case (Some j)
    obtain e' u where b: "break_deleg_wait P j t = (e', u)" by fastforce
    have u: "settled s u" using t deleg_law [OF b] by (auto simp: quiet_def intro: settled_trans)
    show ?thesis
    proof (cases "e' = 0")
      case True
      have eq: "deleg_loop P attempt s = deleg_loop P attempt u" by (subst deleg_loop.simps) (simp add: a Some b True)
      have "delegations u i < delegations s i" using deleg_law [OF b] t Some True by auto
      from less [OF this] u show ?thesis unfolding eq ends_def by (blast intro: settled_trans)
    next
      case False
      then have "deleg_loop P attempt s = Some (e', u)" by (subst deleg_loop.simps) (simp add: a Some b)
      with u show ?thesis by auto
    qed
  qed
qed

lemma do_truncate_settles:
  assumes "do_truncate P m d len ta fi s = (e, t)"
  shows "settled s t"
proof -
  have "settled s (inode_lock (d_inode P d) (- 1) u)"
    if "notify_change P m d a w (inode_lock (d_inode P d) 1 s) = (r, x, u)" for a w r x u
    using notify_law [OF that] by (auto simp: quiet_def intro: settled_undo)
  then show ?thesis using assms unfolding do_truncate_def Let_def by (auto split: if_splits prod.splits)
qed

lemma truncate_checked_settles:
  assumes "truncate_checked P p len s = (e, t)"
  shows "settled s t"
proof -
  let ?i = "d_inode P (snd p)"
  have "settled s (add_wc ?i (- 1) u)"
    if "do_truncate P m d l ta fi (add_wc ?i 1 s) = (r, u)" for m d l ta fi r u
    using do_truncate_settles [OF that] by (rule settled_undo)
  moreover have "settled s (add_wc ?i (- 1) (add_wc ?i 1 s))" by (rule settled_undo) simp
  ultimately show ?thesis using assms unfolding truncate_checked_def Let_def by (auto split: if_splits prod.splits)
qed

lemma vfs_truncate_settles:
  assumes "vfs_truncate P p len s = (e, t)"
  shows "settled s t"
proof -
  have "settled s (add_want (fst p) (- 1) u)" if "truncate_checked P p len (add_want (fst p) 1 s) = (r, u)" for r u
    using truncate_checked_settles [OF that] by (rule settled_undo)
  then show ?thesis using assms unfolding vfs_truncate_def Let_def by (auto split: if_splits prod.splits)
qed

lemma do_sys_truncate_ends: "ends s (do_sys_truncate P a len s)"
proof -
  have v: "settled s (add_ref p (- 1) u)" if "vfs_truncate P p len (add_ref p 1 s) = (r, u)" for s p r u
    using vfs_truncate_settles [OF that] by (rule settled_ref)
  have "ends s (retry_loop P (\<lambda>flags s. Some (case user_path_at P AT_FDCWD a flags s of (error, path) \<Rightarrow>
      if error = 0 then
        (case vfs_truncate P path len (add_ref path 1 s) of (error, s) \<Rightarrow> (True, error, add_ref path (- 1) s))
      else (True, error, s))) LOOKUP_FOLLOW s)"
    by (rule retry_loop_ends) (use v in \<open>auto split: prod.splits\<close>)
  then show ?thesis by (auto simp: do_sys_truncate_def)
qed

lemma ftruncate_file_settles:
  assumes "ftruncate_file P f len small s = (e, t)"
  shows "settled s t"
proof -
  have "settled s (add_sb b (- 1) u)" if "do_truncate P m d l ta fi (add_sb b 1 s) = (r, u)" for b m d l ta fi r u
    using do_truncate_settles [OF that] by (rule settled_undo)
  moreover have "settled s (add_sb b (- 1) (add_sb b 1 s))" for b by (rule settled_undo) simp
  ultimately show ?thesis using assms unfolding ftruncate_file_def Let_def by (auto split: if_splits prod.splits)
qed

lemma do_sys_ftruncate_ends: "ends s (do_sys_ftruncate P fd len small s)"
  unfolding do_sys_ftruncate_def by (auto intro!: with_fd_ends ends_pair intro: ftruncate_file_settles)

lemma vfs_fallocate_settles:
  assumes "vfs_fallocate P f mode off len s = (e, t)"
  shows "settled s t"
  using assms fallocate_law unfolding vfs_fallocate_def Let_def quiet_def
  by (fastforce intro: settled_write split: if_splits option.splits prod.splits)

lemma ksys_fallocate_ends: "ends s (ksys_fallocate P fd mode off len s)"
  unfolding ksys_fallocate_def by (auto intro!: with_fd_ends ends_pair intro: vfs_fallocate_settles)

lemma at_path_body:
  assumes "\<And>p s. ends s (body p s)"
  shows "\<exists>may e t. at_path P dfd a body fl s = Some (may, e, t) \<and> settled s t"
proof -
  obtain e p where l: "user_path_at P dfd a fl s = (e, p)" by (metis prod.exhaust)
  show ?thesis
    using assms [of "add_ref p 1 s" p] by (auto simp: at_path_def l ends_def intro: settled_ref)
qed

lemma at_path_ends: "(\<And>p s. ends s (body p s)) \<Longrightarrow> ends s (retry_loop P (at_path P dfd a body) fl s)"
  by (rule retry_loop_ends) (rule at_path_body)

lemma do_faccessat_ends: "ends s (do_faccessat P dfd a mode flags s)"
proof -
  define loop where "loop fl = retry_loop P (\<lambda>flags s. Some (case user_path_at P dfd a flags s of (res, path) \<Rightarrow>
      if res \<noteq> 0 then (False, res, s)
      else (True, faccess_path P path mode (add_ref path 1 s), add_ref path (- 1) (add_ref path 1 s)))) fl" for fl
  have loop: "ends u (loop fl u)" for fl u
    unfolding loop_def by (rule retry_loop_ends) (auto intro!: settled_ref split: prod.splits)
  have "ends s (map_option (\<lambda>(res, t). (res, revert_creds old t)) (loop fl u))"
    if "access_override_creds P s = (Some old, u)" for old fl u
    using ends_map [OF loop override_settles [OF that]] .
  moreover have "settled s u" if "access_override_creds P s = (None, u)" for u
    using that by (auto simp: access_override_creds_def Let_def split: if_splits)
  ultimately show ?thesis
    using loop unfolding do_faccessat_def Let_def loop_def [symmetric]
    by (auto split: option.splits prod.splits)
qed

lemma sys_chdir_ends: "ends s (sys_chdir P a s)"
  unfolding sys_chdir_def
  by (rule at_path_ends, rule ends_pair) (auto simp: chdir_path_def Let_def settled_pwd split: if_splits)

lemma sys_fchdir_ends: "ends s (sys_fchdir P fd s)"
  unfolding sys_fchdir_def
  by (rule with_fd_ends, simp, rule ends_pair) (auto simp: fchdir_file_def Let_def settled_pwd split: if_splits)

lemma sys_chroot_ends: "ends s (sys_chroot P a s)"
  unfolding sys_chroot_def
  by (rule at_path_ends, rule ends_pair) (auto simp: chroot_path_def Let_def settled_root split: if_splits)

lemma locked_attempt:
  assumes "(if e0 \<noteq> 0 then (e0, None, inode_lock i 1 s) else notify_change P m d a True (inode_lock i 1 s)) = (e, x, u)"
    and "i = d_inode P d"
  shows "settled s (inode_lock i (- 1) u) \<and> delegations (inode_lock i (- 1) u) = delegations s
    \<and> (\<forall>j. x = Some j \<longrightarrow> j = i \<and> 0 < delegations s i)"
proof (cases "e0 = 0")
  case True
  then have "notify_change P m d a True (inode_lock i 1 s) = (e, x, u)" using assms(1) by simp
  from notify_law [OF this] have "settled s (inode_lock i (- 1) u)" "delegations u = delegations (inode_lock i 1 s)"
    "\<forall>j. x = Some j \<longrightarrow> j = i \<and> 0 < delegations s i"
    using assms(2) by (auto simp: quiet_def inode_lock_def [of _ 1] intro: settled_undo)
  then show ?thesis by (simp add: inode_lock_def [of _ "- 1"]) (auto simp: inode_lock_def)
next
  case False
  then show ?thesis using assms(1) settled_undo(1) [of i s "inode_lock i 1 s"] by (auto simp: inode_lock_def)
qed

lemma chmod_common_ends: "ends s (chmod_common P p mode s)"
proof -
  let ?i = "d_inode P (snd p)"
  have "settled u t \<and> delegations t = delegations u \<and> (\<forall>j. d = Some j \<longrightarrow> j = ?i \<and> 0 < delegations u ?i)"
    if "chmod_attempt P p mode u = (e, d, t)" for u e d t
    using that locked_attempt [of "security_path_chmod P p mode (inode_lock ?i 1 u)" ?i u "fst p" "snd p"]
    unfolding chmod_attempt_def Let_def by (auto split: prod.splits)
  from ends_map [OF deleg_loop_ends [OF this] settled_undo(2)] show ?thesis
    unfolding chmod_common_def Let_def by auto
qed

lemma chown_common_ends: "ends s (chown_common P p user grp s)"
proof -
  let ?i = "d_inode P (snd p)"
  have "settled u t \<and> delegations t = delegations u \<and> (\<forall>j. d = Some j \<longrightarrow> j = ?i \<and> 0 < delegations u ?i)"
    if "chown_attempt P p user grp u = (e, d, t)" for u e d t
    using that locked_attempt [of _ ?i u "fst p" "snd p"]
    unfolding chown_attempt_def Let_def by (auto split: prod.splits option.splits)
  then show ?thesis unfolding chown_common_def by (rule deleg_loop_ends)
qed

lemma chown_written_ends: "ends s (chown_written P user grp p s)"
  using ends_map [OF chown_common_ends settled_undo(2)] unfolding chown_written_def Let_def by auto

lemma do_fchmodat_ends: "ends s (do_fchmodat P dfd a mode flags s)"
  using at_path_ends [OF chmod_common_ends] by (auto simp: do_fchmodat_def)

lemma sys_fchmod_ends: "ends s (sys_fchmod P fd mode s)"
  unfolding sys_fchmod_def by (rule with_fd_ends) (auto simp: vfs_fchmod_def chmod_common_ends)

lemma do_fchownat_ends: "ends s (do_fchownat P dfd a user grp flag s)"
  using at_path_ends [OF chown_written_ends] by (auto simp: do_fchownat_def)

lemma sys_fchown_ends: "ends s (sys_fchown P fd user grp s)"
proof -
  have "ends u (vfs_fchown P f user grp u)" for f u
    using ends_map [OF chown_common_ends settled_undo(2)] unfolding vfs_fchown_def Let_def by auto
  then show ?thesis unfolding sys_fchown_def ksys_fchown_def by (auto intro: with_fd_ends)
qed

end

section \<open>Sequences of calls\<close>

datatype path_call =
  Truncate addr loff
  | Ftruncate u32 loff
  | Fallocate u32 u32 loff loff
  | Faccessat2 int addr u32 u32
  | Chdir addr
  | Fchdir u32
  | Chroot addr
  | Fchmod u32 u32
  | Fchmodat2 int addr u32 u32
  | Fchownat int addr u32 u32 u32
  | Fchown u32 u32 u32

fun path_exec :: "path_env \<Rightarrow> path_call \<Rightarrow> path_state \<Rightarrow> (int \<times> path_state) option" where
  "path_exec P (Truncate a len) s = sys_truncate P a len s"
| "path_exec P (Ftruncate fd len) s = sys_ftruncate P fd len s"
| "path_exec P (Fallocate fd mode off len) s = sys_fallocate P fd mode off len s"
| "path_exec P (Faccessat2 dfd a mode flags) s = sys_faccessat2 P dfd a mode flags s"
| "path_exec P (Chdir a) s = sys_chdir P a s"
| "path_exec P (Fchdir fd) s = sys_fchdir P fd s"
| "path_exec P (Chroot a) s = sys_chroot P a s"
| "path_exec P (Fchmod fd mode) s = sys_fchmod P fd mode s"
| "path_exec P (Fchmodat2 dfd a mode flags) s = sys_fchmodat2 P dfd a mode flags s"
| "path_exec P (Fchownat dfd a user grp flag) s = sys_fchownat P dfd a user grp flag s"
| "path_exec P (Fchown fd user grp) s = sys_fchown P fd user grp s"

fun path_run :: "path_env \<Rightarrow> path_call list \<Rightarrow> path_state \<Rightarrow> (int list \<times> path_state) option" where
  "path_run P [] s = Some ([], s)"
| "path_run P (c # cs) s = Option.bind (path_exec P c s) (\<lambda>(r, t). map_option (\<lambda>(l, u). (r # l, u)) (path_run P cs t))"

context path_laws
begin

lemma path_exec_ends: "ends s (path_exec P c s)"
  by (cases c)
    (simp_all add: sys_truncate_def sys_ftruncate_def sys_fallocate_def sys_faccessat2_def sys_fchmodat2_def sys_fchownat_def
      do_sys_truncate_ends do_sys_ftruncate_ends ksys_fallocate_ends do_faccessat_ends sys_chdir_ends sys_fchdir_ends
      sys_chroot_ends sys_fchmod_ends do_fchmodat_ends do_fchownat_ends sys_fchown_ends)

lemma path_run_ends: "\<exists>l t. path_run P cs s = Some (l, t) \<and> length l = length cs \<and> settled s t"
proof (induction cs arbitrary: s)
  case (Cons c cs)
  obtain r t where c: "path_exec P c s = Some (r, t)" "settled s t" using path_exec_ends [of s c] by (auto simp: ends_def)
  obtain l u where "path_run P cs t = Some (l, u)" "length l = length cs" "settled t u" using Cons.IH by blast
  with c show ?case by (auto intro: settled_trans)
qed simp

end


section \<open>What the checks guarantee\<close>

definition modes_allowed :: "u32 set" where
  "modes_allowed = {0, 0x1, 0x3, 0x8, 0x10, 0x11, 0x20, 0x40, 0x41}"

text \<open>A mode without unsupported bits is a number below 128.\<close>

lemma small_mode:
  assumes "\<not> has mode (NOT FALLOC_FL_SUPPORTED_MASK)"
  shows "mode \<in> set (map of_nat [0..<128])"
proof -
  have "mode AND NOT 0x7b = 0" using assms by (simp add: has_def)
  moreover have "mode = (mode AND 0x7b) OR (mode AND NOT 0x7b)"
    by (rule bit_eqI) (auto simp: bit_simps simp del: bit_numeral_rec)
  ultimately have "mode = mode AND 0x7b" by simp
  then have "mode \<le> 0x7b" by (metis word_and_le1)
  then have "unat mode < 128" by (simp add: word_le_nat_alt)
  moreover have "mode = of_nat (unat mode)" by simp
  ultimately show ?thesis by (metis atLeastLessThan_iff image_eqI le0 set_map set_upt)
qed

lemma fallocate_modes_ok: "fallocate_modes mode = 0 \<longleftrightarrow> mode \<in> modes_allowed"
proof (cases "has mode (NOT FALLOC_FL_SUPPORTED_MASK)")
  case True
  then show ?thesis by (auto simp: fallocate_modes_def modes_allowed_def has_def)
next
  case False
  have "\<forall>m\<in>set (map of_nat [0..<128]). fallocate_modes m = 0 \<longleftrightarrow> m \<in> modes_allowed"
    by (simp add: upt_rec fallocate_modes_def modes_allowed_def has_def)
  then show ?thesis using small_mode [OF False] by blast
qed

lemma size_fits:
  assumes "0 \<le> sint (off :: loff)" "0 < sint len"
  shows "\<not> (sint (off + len) > sint mx \<or> sint (off + len) < 0) \<longleftrightarrow> sint off + sint len \<le> sint (mx :: loff)"
  using assms sint_range_64 [of off] sint_range_64 [of len] sint_range_64 [of mx] by (auto simp: sint_add_64 split: if_splits)

text \<open>When the checks pass.\<close>

definition may_allocate :: "path_env \<Rightarrow> nat \<Rightarrow> u32 \<Rightarrow> loff \<Rightarrow> loff \<Rightarrow> path_state \<Rightarrow> bool" where
  "may_allocate P f mode off len s \<longleftrightarrow> (let i = f_inode (file_at s f) in
     0 \<le> sint off \<and> 0 < sint len \<and> sint off + sint len \<le> sint (s_maxbytes (inode_at s i))
     \<and> mode \<in> modes_allowed \<and> FMODE_WRITE (f_mode (file_at s f))
     \<and> (has mode (NOT KEEP_SIZE) \<longrightarrow> \<not> is_append P i) \<and> \<not> immutable (inode_at s i) \<and> \<not> swapfile (inode_at s i)
     \<and> security_file_permission (fenv P) f True = 0 \<and> fsnotify_file_area_perm (fenv P) f True (Some off) len = 0
     \<and> (S_ISREG (i_modes s i) \<or> S_ISBLK (i_modes s i)))"

lemma fallocate_checks_iff: "fallocate_checks P f mode off len s = 0 \<longleftrightarrow> may_allocate P f mode off len s"
proof (cases "0 \<le> sint off \<and> 0 < sint len")
  case True
  have "S_ISREG m \<or> S_ISBLK m \<Longrightarrow> \<not> S_ISFIFO m \<and> \<not> S_ISDIR m" for m
    by (auto simp: S_ISREG_def S_ISBLK_def S_ISFIFO_def S_ISDIR_def)
  then show ?thesis
    using True size_fits [of off len] fallocate_modes_ok [of mode]
    unfolding fallocate_checks_def may_allocate_def Let_def by auto
qed (auto simp: fallocate_checks_def may_allocate_def Let_def)

lemma override_cred_iff:
  "override_cred P c \<noteq> c \<longleftrightarrow> (c_fsuid c \<noteq> c_uid c \<or> c_fsgid c \<noteq> c_gid c
     \<or> \<not> c_no_fixup c \<and> c_effective c \<noteq> (if c_uid c = ns_root_uid P (c_user_ns c) then c_permitted c else 0))"
  by (cases c) (auto simp: override_cred_def Let_def)

lemma chown_attrs_exact:
  assumes "chown_attrs P user grp = Some a"
  shows "has (ia_valid a) ATTR_UID \<longleftrightarrow> user \<noteq> - 1" "has (ia_valid a) ATTR_GID \<longleftrightarrow> grp \<noteq> - 1"
    and "user \<noteq> - 1 \<longrightarrow> ia_vfsuid a = ns_kuid P user \<and> ns_kuid P user \<noteq> INVALID_VFSID"
    and "grp \<noteq> - 1 \<longrightarrow> ia_vfsgid a = ns_kgid P grp \<and> ns_kgid P grp \<noteq> INVALID_VFSID"
  using assms by (auto simp: chown_attrs_def setattr_vfsuid_def setattr_vfsgid_def no_attrs_def Let_def split: if_splits)

end
