(* ===== verification/Open_Machine.thy ===== *)
theory Open_Machine
  imports Open_File
begin

text \<open>
  Files from opening to closing: sequences of the calls of \<^verbatim>\<open>fs/open.c\<close> and \<^verbatim>\<open>fs/read_write.c\<close> on one
  state, the descriptor table as a set that the results of the calls determine, and the counters of
  \<^verbatim>\<open>track_syscalls.c\<close>, which count four of the calls.
\<close>

datatype file_call =
  Io rw_call
  | Open addr u32 u32
  | Openat int addr u32 u32
  | Openat2 int addr addr nat
  | Creat addr u32
  | Close u32

fun file_exec :: "fs_env \<Rightarrow> open_env \<Rightarrow> uaccess \<Rightarrow> file_call \<Rightarrow> open_state \<Rightarrow> int \<times> open_state" where
  "file_exec F E U (Io c) s = (case rw_exec F U c (fs s) of (r, x) \<Rightarrow> (r, s\<lparr>fs := x\<rparr>))"
| "file_exec F E U (Open a fl m) s = sys_open E a fl m s"
| "file_exec F E U (Openat d a fl m) s = sys_openat E d a fl m s"
| "file_exec F E U (Openat2 d a how n) s = sys_openat2 E U d a how n s"
| "file_exec F E U (Creat a m) s = sys_creat E a m s"
| "file_exec F E U (Close fd) s = sys_close E fd s"

fun file_log ::
  "fs_env \<Rightarrow> open_env \<Rightarrow> uaccess \<Rightarrow> file_call list \<Rightarrow> open_state \<Rightarrow> (file_call \<times> int) list \<times> open_state" where
  "file_log F E U [] s = ([], s)"
| "file_log F E U (c # cs) s = (let (r, t) = file_exec F E U c s; (l, u) = file_log F E U cs t in ((c, r) # l, u))"

text \<open>What a program can tell about its descriptors from the results of its calls.\<close>

fun fds_after :: "file_call \<times> int \<Rightarrow> u32 set \<Rightarrow> u32 set" where
  "fds_after (Io _, _) A = A"
| "fds_after (Close fd, _) A = A - {fd}"
| "fds_after (_, r) A = (if r < 0 then A else insert (of_int r) A)"

text \<open>A result that is a descriptor is one that was not in use.\<close>

fun fds_fresh :: "(file_call \<times> int) list \<Rightarrow> u32 set \<Rightarrow> bool" where
  "fds_fresh [] A = True"
| "fds_fresh ((c, r) # l) A = ((case c of Io _ \<Rightarrow> True | Close _ \<Rightarrow> True | _ \<Rightarrow> r < 0 \<or> of_int r \<notin> A)
     \<and> fds_fresh l (fds_after (c, r) A))"

text \<open>Which entry of the counters a call belongs to.\<close>

fun counted :: "file_call \<Rightarrow> nat option" where
  "counted (Io (Read _ _ _)) = Some 0"
| "counted (Io (Write _ _ _)) = Some 1"
| "counted (Open _ _ _) = Some 2"
| "counted (Close _) = Some 3"
| "counted _ = None"

definition open_fds :: "open_state \<Rightarrow> u32 set" where
  "open_fds s = dom (fdtable (fs s))"

text \<open>One call: what happens to the descriptors, the counters and the names.\<close>

definition step_ok :: "file_call \<Rightarrow> open_state \<Rightarrow> int \<Rightarrow> open_state \<Rightarrow> bool" where
  "step_ok c s r t \<longleftrightarrow> open_inv t \<and> names t = names s \<and> stuck (fs t) = stuck (fs s)
     \<and> open_fds t = fds_after (c, r) (open_fds s) \<and> fds_fresh [(c, r)] (open_fds s)
     \<and> tracking (fs t) = (case counted c of None \<Rightarrow> tracking (fs s) | Some i \<Rightarrow> tracking (track (int i) (fs s)))"

lemma open_result_fds:
  assumes "open_result s r t"
  shows "open_fds t = (if r < 0 then open_fds s else insert (of_int r) (open_fds s))" "r < 0 \<or> of_int r \<notin> open_fds s"
  using assms by (auto simp: open_result_def open_fds_def split: if_splits)

lemma track_call_frame:
  assumes "0 \<le> nr"
  shows "open_inv (track_call nr s) = open_inv s" "fdtable (fs (track_call nr s)) = fdtable (fs s)"
    "names (track_call nr s) = names s" "stuck (fs (track_call nr s)) = stuck (fs s)"
    "tracking (fs (track_call nr s)) = tracking (track nr (fs s))"
  using assms
  by (auto simp: track_call_def open_inv_def the_file_def track_def track_syscall_def Let_def split: option.splits)

lemma track_counts:
  assumes "tracker_wf (tracking s)" "tracking s \<noteq> None" "i < 4"
  shows "tracker_wf (tracking (track (int i) s)) \<and> tracking (track (int i) s) \<noteq> None
    \<and> counts (tracking (track (int i) s)) j = counts (tracking s) j + of_bool (i = j)"
proof -
  obtain us where us: "tracking s = Some us" "tracker_wf (Some us)" using assms by auto
  show ?thesis using counts_track_syscall [OF us(2), of "int i" "clock s"] us assms(3) by (auto simp: track_def)
qed

lemma counted_lt: "counted c = Some i \<Longrightarrow> i < 4"
  by (cases c rule: counted.cases) auto

lemma copy_struct_error: "copy_struct_from_user U m d a n = (x, e) \<Longrightarrow> e \<le> 0"
  by (auto simp: copy_struct_from_user_def Let_def split: if_splits prod.splits)

locale file_machine = fs_methods F + open_calls E for F :: fs_env and E :: open_env
begin

lemma opened_step:
  assumes inv: "open_inv s'" and o: "do_sys_openat2 E d a how s' = (r, t)"
    and s': "fdtable (fs s') = fdtable (fs s)" "names s' = names s" "stuck (fs s') = stuck (fs s)"
      "tracking (fs s') = (case counted c of None \<Rightarrow> tracking (fs s) | Some i \<Rightarrow> tracking (track (int i) (fs s)))"
    and c: "\<forall>x. c \<noteq> Io x" "\<forall>fd. c \<noteq> Close fd"
  shows "step_ok c s r t"
proof -
  note res = do_sys_openat2_result [OF inv o]
  have fds: "open_fds s' = open_fds s" using s'(1) by (simp add: open_fds_def)
  have "open_fds t = fds_after (c, r) (open_fds s)" "fds_fresh [(c, r)] (open_fds s)"
    using open_result_fds [of s' r t] res c unfolding fds by (cases c; simp)+
  with res s' show ?thesis by (auto simp: step_ok_def open_result_def)
qed

lemma file_exec_step:
  assumes inv: "open_inv s" and x: "file_exec F E U c s = (r, t)"
  shows "step_ok c s r t"
proof (cases c)
  case (Io c')
  then obtain y where y: "rw_exec F U c' (fs s) = (r, y)" and t: "t = s\<lparr>fs := y\<rparr>"
    using x by (auto split: prod.splits)
  have wf: "\<And>f. file_wf (files (fs s) f)" using inv by (simp add: open_inv_def the_file_def)
  note e = rw_exec_effect [OF y wf]
  note ef = run_effect_trans [OF entered_effect call_run_effect [OF e]]
  have "open_inv t" using inv ef run_effect_wf [OF ef wf] by (auto simp: t open_inv_def the_file_def run_effect_def)
  moreover have "tracking y = (case counted c of None \<Rightarrow> tracking (fs s) | Some i \<Rightarrow> tracking (track (int i) (fs s)))"
    using e by (cases c') (simp_all add: Io call_effect_def)
  ultimately show ?thesis using ef by (simp add: step_ok_def Io t open_fds_def run_effect_def)
next
  case (Open a fl m)
  then show ?thesis using x opened_step [of "track_call NR_open s"] inv track_call_frame [of NR_open s]
    by (simp add: sys_open_def do_sys_open_def)
next
  case (Openat d a fl m)
  then show ?thesis using x opened_step [OF inv, of d a _ r t s c] by (simp add: sys_openat_def do_sys_open_def)
next
  case (Openat2 d a how n)
  then show ?thesis
    using x opened_step [OF inv, of d a _ r t s c] inv copy_struct_error [of U "fs_mem (fs s)" "replicate 24 0" how n _ r]
    by (auto simp: sys_openat2_def Let_def step_ok_def split: if_splits prod.splits)
next
  case (Creat a m)
  then show ?thesis using x opened_step [OF inv, of AT_FDCWD a _ r t s c] by (simp add: sys_creat_def do_sys_open_def)
next
  case (Close fd)
  then have "sys_close E fd s = (r, t)" using x by simp
  from sys_close_result [OF inv this] show ?thesis by (auto simp: Close step_ok_def open_fds_def)
qed

lemma file_log_fds:
  assumes "file_log F E U cs s = (l, t)" "open_inv s"
  shows "open_inv t \<and> names t = names s \<and> stuck (fs t) = stuck (fs s) \<and> open_fds t = fold fds_after l (open_fds s)
    \<and> fds_fresh l (open_fds s)"
  using assms
proof (induction cs arbitrary: s l)
  case (Cons c cs)
  obtain r u where c: "file_exec F E U c s = (r, u)" by fastforce
  obtain l' where l': "file_log F E U cs u = (l', t)" "l = (c, r) # l'"
    using Cons.prems by (auto simp: c Let_def split: prod.splits)
  note st = file_exec_step [OF Cons.prems(2) c]
  with Cons.IH [OF l'(1)] show ?case by (auto simp: step_ok_def l'(2) simp del: fds_after.simps)
qed simp

lemma file_log_counts:
  assumes "file_log F E U cs s = (l, t)" "open_inv s" "tracker_wf (tracking (fs s))" "tracking (fs s) \<noteq> None"
  shows "counts (tracking (fs t)) i = counts (tracking (fs s)) i + of_nat (length (filter (\<lambda>c. counted c = Some i) cs))"
  using assms
proof (induction cs arbitrary: s l)
  case (Cons c cs)
  obtain r u where c: "file_exec F E U c s = (r, u)" by fastforce
  obtain l' where l': "file_log F E U cs u = (l', t)" using Cons.prems by (auto simp: c Let_def split: prod.splits)
  note st = file_exec_step [OF Cons.prems(2) c]
  have "tracker_wf (tracking (fs u)) \<and> tracking (fs u) \<noteq> None
      \<and> counts (tracking (fs u)) i = counts (tracking (fs s)) i + of_bool (counted c = Some i)"
    using st Cons.prems(3,4) track_counts [of "fs s" _ i] counted_lt [of c]
    by (cases "counted c") (auto simp: step_ok_def)
  with Cons.IH [OF l'] st show ?case by (simp add: step_ok_def)
qed simp

end

end
