(* ===== verification/Fs_Ram.thy ===== *)
theory Fs_Ram
  imports Fs_Copy
begin

text \<open>
  A file system that keeps its contents in memory. It has the operations that
  \<^verbatim>\<open>fs/read_write.c\<close> asks of a file system and shows that the contract \<open>fs_methods\<close> can be met;
  the iterator over segments follows the description of \<^verbatim>\<open>iov_iter\<close>. The properties of the calls of
  \<^verbatim>\<open>fs/read_write.c\<close> that rest on the contract are stated here.
\<close>

section \<open>Contents\<close>

definition ram_get :: "nat \<Rightarrow> loff \<Rightarrow> nat \<Rightarrow> fs_state \<Rightarrow> byte list" where
  "ram_get i pos n s = take n (drop (unat pos) (i_data (inodes s i)))"

definition ram_put :: "nat \<Rightarrow> loff \<Rightarrow> byte list \<Rightarrow> fs_state \<Rightarrow> fs_state" where
  "ram_put i pos bs s =
     (let old = i_data (inodes s i);
          new = take (unat pos) (old @ replicate (unat pos - length old) 0) @ bs @ drop (unat pos + length bs) old
      in s\<lparr>inodes := (inodes s)(i := (inodes s i)\<lparr>i_data := new, i_size := of_nat (length new)\<rparr>)\<rparr>)"

definition ram_read_at :: "nat \<Rightarrow> loff \<Rightarrow> bool \<Rightarrow> addr \<Rightarrow> ulong \<Rightarrow> fs_state \<Rightarrow> int \<times> fs_state" where
  "ram_read_at f pos kern a n s =
     (let bs = ram_get (f_inode (files s f)) pos (unat n) s
      in (int (length bs), if kern then s\<lparr>kbuf := store_bytes (kbuf s) a bs\<rparr> else s\<lparr>fs_mem := store_bytes (fs_mem s) a bs\<rparr>))"

definition ram_write_at :: "nat \<Rightarrow> loff \<Rightarrow> bool \<Rightarrow> addr \<Rightarrow> ulong \<Rightarrow> fs_state \<Rightarrow> int \<times> fs_state" where
  "ram_write_at f pos kern a n s =
     (if unat pos + unat n \<ge> 2 ^ 63 then (- EFBIG, s)
      else (int (unat n), ram_put (f_inode (files s f)) pos (load_bytes (if kern then kbuf s else fs_mem s) a (unat n)) s))"

definition ram_end :: "nat \<Rightarrow> fs_state \<Rightarrow> loff" where
  "ram_end f s = of_nat (length (i_data (inodes s (f_inode (files s f)))))"


section \<open>Iterators\<close>

fun advance_segs :: "nat \<Rightarrow> (addr \<times> ulong) list \<Rightarrow> (addr \<times> ulong) list" where
  "advance_segs n [] = []"
| "advance_segs n ((a, l) # r) =
     (if n < unat l then (a + of_nat n, l - of_nat n) # r else advance_segs (n - unat l) r)"

definition ram_iter_iov :: "iov_iter \<Rightarrow> addr \<times> ulong" where
  "ram_iter_iov it = (case iter_segs it of [] \<Rightarrow> (0, 0) | (a, l) # _ \<Rightarrow> (a, min l (iter_count it)))"

definition ram_advance :: "iov_iter \<Rightarrow> ulong \<Rightarrow> iov_iter" where
  "ram_advance it n = it\<lparr>iter_count := iter_count it - n, iter_segs := advance_segs (unat n) (iter_segs it)\<rparr>"

definition ram_segs :: "mem \<Rightarrow> addr \<Rightarrow> nat \<Rightarrow> (addr \<times> ulong) list" where
  "ram_segs m vec n = map (\<lambda>i. (dec_ulong (load_bytes m (vec + of_nat (16 * i)) 8),
     dec_ulong (load_bytes m (vec + of_nat (16 * i + 8)) 8))) [0..<n]"

definition ram_import :: "mem \<Rightarrow> bool \<Rightarrow> addr \<Rightarrow> ulong \<Rightarrow> int \<times> iov_iter" where
  "ram_import m wr vec n =
     (let segs = ram_segs m vec (unat n); sz = (\<Sum>x\<leftarrow>segs. unat (snd x))
      in if unat n > 1024 \<or> sz > unat MAX_RW_COUNT
         then (- EINVAL, \<lparr>iter_kernel = False, iter_count = 0, iter_segs = []\<rparr>)
         else (int sz, \<lparr>iter_kernel = False, iter_count = of_nat sz, iter_segs = segs\<rparr>))"


section \<open>Methods\<close>

definition ram_read :: "nat \<Rightarrow> addr \<Rightarrow> ulong \<Rightarrow> loff option \<Rightarrow> fs_state \<Rightarrow> int \<times> loff option \<times> fs_state" where
  "ram_read f a n p s = (case ram_read_at f (or_zero p) False a n s of
     (r, s) \<Rightarrow> (r, put_pos p (or_zero p + of_int r), s))"

definition ram_write :: "nat \<Rightarrow> addr \<Rightarrow> ulong \<Rightarrow> loff option \<Rightarrow> fs_state \<Rightarrow> int \<times> loff option \<times> fs_state" where
  "ram_write f a n p s =
     (let pos = (if O_APPEND (files s f) then ram_end f s else or_zero p)
      in case ram_write_at f pos False a n s of (r, s) \<Rightarrow> (r, if r < 0 then p else put_pos p (pos + of_int r), s))"

definition ram_read_iter :: "kiocb \<Rightarrow> iov_iter \<Rightarrow> fs_state \<Rightarrow> int \<times> kiocb \<times> fs_state" where
  "ram_read_iter k it s = (case ram_iter_iov it of (a, n) \<Rightarrow>
     case ram_read_at (ki_filp k) (ki_pos k) (iter_kernel it) a n s of
       (r, s) \<Rightarrow> (r, k\<lparr>ki_pos := ki_pos k + of_int r\<rparr>, s))"

definition ram_write_iter :: "kiocb \<Rightarrow> iov_iter \<Rightarrow> fs_state \<Rightarrow> int \<times> kiocb \<times> fs_state" where
  "ram_write_iter k it s = (case ram_iter_iov it of (a, n) \<Rightarrow>
     let pos = (if IOCB_APPEND k then ram_end (ki_filp k) s else ki_pos k)
     in case ram_write_at (ki_filp k) pos (iter_kernel it) a n s of
       (r, s) \<Rightarrow> (r, if r < 0 then k else k\<lparr>ki_pos := pos + of_int r\<rparr>, s))"

definition ram_copy :: "nat \<Rightarrow> loff \<Rightarrow> nat \<Rightarrow> loff \<Rightarrow> ulong \<Rightarrow> fs_state \<Rightarrow> int \<times> fs_state" where
  "ram_copy f_in p_in f_out p_out n s =
     (let bs = ram_get (f_inode (files s f_in)) p_in (unat n) s
      in if unat p_out + unat n \<ge> 2 ^ 63 then (- EFBIG, s)
         else (int (length bs), ram_put (f_inode (files s f_out)) p_out bs s))"

abbreviation (input) RWF_APPEND :: u32 where "RWF_APPEND \<equiv> 0x10"

definition ram_env :: "fs_env" where
  "ram_env =
     \<lparr>fs_llseek = generic_file_llseek, fs_read = ram_read, fs_write = ram_write,
      fs_read_iter = ram_read_iter, fs_write_iter = ram_write_iter,
      security_file_permission = (\<lambda>_ _. 0), fsnotify_file_area_perm = (\<lambda>_ _ _ _. 0),
      init_sync_kiocb = (\<lambda>f x. \<lparr>ki_filp = f, ki_pos = 0, ki_complete = False, IOCB_APPEND = O_APPEND x,
        IOCB_NOWAIT = False, IOCB_DIRECT = False, ki_more_flags = 0\<rparr>),
      kiocb_set_rw_flags = (\<lambda>k fl. if fl = 0 then (0, k)
        else if fl = RWF_APPEND then (0, k\<lparr>IOCB_APPEND := True\<rparr>) else (- EOPNOTSUPP, k)),
      import_iovec = ram_import, iter_iov = ram_iter_iov, iov_iter_advance = ram_advance,
      iov_iter_truncate = (\<lambda>it n. it\<lparr>iter_count := min (iter_count it) n\<rparr>),
      rlimit_fsize = - 1, get_user = (\<lambda>m a. (0, dec_ulong (load_bytes m a 8))), get_pipe_info = (\<lambda>_. False),
      do_splice_direct = (\<lambda>f p g q n s. case ram_copy f p g q n s of
        (r, s) \<Rightarrow> (r, if r > 0 then p + of_int r else p, if r > 0 then q + of_int r else q, s)),
      splice_file_to_pipe = (\<lambda>_ _ p _ _ s. (0, p, s)),
      fs_copy_file_range = (\<lambda>f p g q n _ s. ram_copy f p g q n s),
      fs_remap_file_range = (\<lambda>_ _ _ _ _ s. (- EOPNOTSUPP, s))\<rparr>"

lemma ram_env_simps [simp]:
  "fs_llseek ram_env = generic_file_llseek" "fs_read ram_env = ram_read" "fs_write ram_env = ram_write"
  "fs_read_iter ram_env = ram_read_iter" "fs_write_iter ram_env = ram_write_iter"
  "security_file_permission ram_env f b = 0" "fsnotify_file_area_perm ram_env f b p n = 0"
  "init_sync_kiocb ram_env f z = \<lparr>ki_filp = f, ki_pos = 0, ki_complete = False, IOCB_APPEND = O_APPEND z,
     IOCB_NOWAIT = False, IOCB_DIRECT = False, ki_more_flags = 0\<rparr>"
  "kiocb_set_rw_flags ram_env k 0 = (0, k)" "import_iovec ram_env = ram_import"
  "iter_iov ram_env = ram_iter_iov" "iov_iter_advance ram_env = ram_advance" "rlimit_fsize ram_env = - 1"
  "get_pipe_info ram_env f = False" "fs_copy_file_range ram_env f x g y n fl = ram_copy f x g y n"
  by (simp_all add: ram_env_def)


section \<open>The contract holds\<close>

lemma ram_read_at_law:
  assumes "ram_read_at f pos kern a n s = (r, t)"
  shows "io_effect 0 0 0 0 s t" and "0 \<le> r" and "r \<le> uint n"
proof -
  have r: "r = int (length (ram_get (f_inode (files s f)) pos (unat n) s))"
    using assms by (simp add: ram_read_at_def Let_def)
  show "io_effect 0 0 0 0 s t" using assms by (auto simp: ram_read_at_def Let_def io_effect_def split: if_splits)
  show "0 \<le> r" unfolding r by simp
  have "r \<le> int (unat n)" unfolding r by (simp only: of_nat_le_iff) (simp add: ram_get_def)
  then show "r \<le> uint n" by simp
qed

lemma ram_write_at_law:
  assumes "ram_write_at f pos kern a n s = (r, t)"
  shows "io_effect 0 0 0 0 s t" and "r \<le> uint n" and "0 \<le> r \<Longrightarrow> 0 \<le> sint (pos + of_int r)" and "r \<noteq> - EIOCBQUEUED"
proof -
  from assms show "io_effect 0 0 0 0 s t"
    by (auto simp: ram_write_at_def ram_put_def Let_def io_effect_def split: if_splits)
  have "uint n \<noteq> - EIOCBQUEUED" using uint_ge_0 [of n] by linarith
  with assms show "r \<le> uint n" "r \<noteq> - EIOCBQUEUED"
    by (auto simp: ram_write_at_def intro: nonpos_le_uint order_trans [OF _ uint_ge_0] split: if_splits)
  assume "0 \<le> r"
  with assms have r: "r = int (unat n)" and small: "unat pos + unat n < 2 ^ 63"
    by (auto simp: ram_write_at_def split: if_splits)
  have "unat (pos + n) < 2 ^ 63" using small by (simp add: unat_word_ariths)
  then show "0 \<le> sint (pos + of_int r)" by (simp add: r sint_64)
qed

lemma ram_iter_iov_le: "snd (ram_iter_iov it) \<le> iter_count it"
  by (auto simp: ram_iter_iov_def split: list.splits)

lemma ram_iter_iov_uint: "uint (snd (ram_iter_iov it)) \<le> uint (iter_count it)"
  using ram_iter_iov_le [of it] by (simp add: word_le_def)

lemma advance_segs_sum:
  "n \<le> (\<Sum>x\<leftarrow>segs. unat (snd x)) \<Longrightarrow> (\<Sum>x\<leftarrow>advance_segs n segs. unat (snd x)) = (\<Sum>x\<leftarrow>segs. unat (snd x)) - n"
proof (induction n segs rule: advance_segs.induct)
  case (2 n a l r)
  have "unat (l - of_nat n) = unat l - n" if "n < unat l"
    using that unat_word64_lt [of l] by (simp add: unat_sub word_le_nat_alt unat_of_nat take_bit_eq_mod)
  with 2 show ?case by auto
qed simp

lemma advance_segs_length: "length (advance_segs n segs) \<le> length segs"
  by (induction n segs rule: advance_segs.induct) auto

lemma ram_advance_law:
  assumes ok: "iter_ok it" "iter_count it \<noteq> 0"
  shows "iter_ok (ram_advance it (snd (ram_iter_iov it)))"
    and "iter_count (ram_advance it (snd (ram_iter_iov it))) = 0
      \<or> length (iter_segs (ram_advance it (snd (ram_iter_iov it)))) < length (iter_segs it)"
proof -
  let ?n = "snd (ram_iter_iov it)"
  have n: "?n \<le> iter_count it" by (rule ram_iter_iov_le)
  have "unat ?n \<le> (\<Sum>x\<leftarrow>iter_segs it. unat (snd x))"
    using n ok(1) by (auto simp: iter_ok_def word_le_nat_alt)
  from advance_segs_sum [OF this] ok(1) n show "iter_ok (ram_advance it ?n)"
    by (auto simp: iter_ok_def ram_advance_def unat_sub word_le_nat_alt)
  obtain a l rest where segs: "iter_segs it = (a, l) # rest"
    using ok by (cases "iter_segs it") (auto simp: iter_ok_def unat_eq_zero)
  show "iter_count (ram_advance it ?n) = 0 \<or> length (iter_segs (ram_advance it ?n)) < length (iter_segs it)"
  proof (cases "l \<le> iter_count it")
    case True
    then show ?thesis using advance_segs_length [of 0 rest] by (simp add: ram_advance_def ram_iter_iov_def segs)
  next
    case False
    then show ?thesis by (simp add: ram_advance_def ram_iter_iov_def segs min_def)
  qed
qed

lemma ram_import_law:
  assumes "ram_import m wr vec n = (r, it)" "0 \<le> r"
  shows "r = uint (iter_count it)" "iter_count it \<le> MAX_RW_COUNT" "iter_ok it"
proof -
  define segs sz where "segs = ram_segs m vec (unat n)" and "sz = (\<Sum>x\<leftarrow>segs. unat (snd x))"
  then have sz: "sz \<le> 2147479552" "r = int sz" "iter_count it = of_nat sz" "iter_segs it = segs"
    "sz = (\<Sum>x\<leftarrow>segs. unat (snd x))"
    using assms by (auto simp: ram_import_def Let_def not_less split: if_splits)
  have u: "unat (of_nat sz :: ulong) = sz" using sz(1) by (simp add: unat_of_nat take_bit_eq_mod)
  then have "uint (of_nat sz :: ulong) = int sz" by (simp add: uint_nat del: of_nat_unat)
  then show "r = uint (iter_count it)" by (simp add: sz)
  show "iter_count it \<le> MAX_RW_COUNT" "iter_ok it"
    using sz u by (simp_all add: word_le_nat_alt iter_ok_def)
qed

lemma pos_after_moved: "0 \<le> r \<Longrightarrow> pos_after False p r (put_pos p (or_zero p + of_int r))"
  by (rule pos_after_put) (auto simp: pos_after_def intro: exI [of _ r])

lemma pos_after_end: "0 \<le> sint b \<Longrightarrow> pos_after True p r (put_pos p b)"
  by (rule pos_after_put) (simp add: pos_after_def)

lemma ram_read_law:
  assumes "ram_read f a n p s = (r, q, t)"
  shows "io_effect 0 0 0 0 s t \<and> r \<le> uint n \<and> pos_after False p r q \<and> (r < 0 \<longrightarrow> q = p)"
proof -
  from assms have m: "ram_read_at f (or_zero p) False a n s = (r, t)" and q: "q = put_pos p (or_zero p + of_int r)"
    by (auto simp: ram_read_def split: prod.splits)
  show ?thesis using ram_read_at_law [OF m] by (simp add: q pos_after_moved)
qed

lemma ram_write_law:
  assumes "ram_write f a n p s = (r, q, t)"
  shows "io_effect 0 0 0 0 s t \<and> r \<le> uint n \<and> pos_after (O_APPEND (files s f)) p r q \<and> (r < 0 \<longrightarrow> q = p)"
proof -
  let ?pos = "if O_APPEND (files s f) then ram_end f s else or_zero p"
  from assms have m: "ram_write_at f ?pos False a n s = (r, t)"
    and q: "q = (if r < 0 then p else put_pos p (?pos + of_int r))"
    by (auto simp: ram_write_def Let_def split: prod.splits)
  have "pos_after (O_APPEND (files s f)) p r q" if "0 \<le> r"
    using ram_write_at_law(3) [OF m that] that
    by (cases "O_APPEND (files s f)") (simp_all add: q pos_after_moved pos_after_end)
  then show ?thesis using ram_write_at_law(1,2) [OF m] by (cases "r < 0") (simp_all add: q)
qed

lemma ram_read_iter_law:
  assumes "ram_read_iter k it s = (r, k', t)"
  shows "io_effect 0 0 0 0 s t \<and> r \<le> uint (iter_count it) \<and> ki_filp k' = ki_filp k
    \<and> pos_after False (Some (ki_pos k)) r (Some (ki_pos k')) \<and> r \<noteq> - EIOCBQUEUED"
proof -
  obtain a n where iov: "ram_iter_iov it = (a, n)" by fastforce
  from assms have m: "ram_read_at (ki_filp k) (ki_pos k) (iter_kernel it) a n s = (r, t)"
    and k: "k' = k\<lparr>ki_pos := ki_pos k + of_int r\<rparr>"
    by (auto simp: ram_read_iter_def iov split: prod.splits)
  show ?thesis
    using ram_read_at_law [OF m] ram_iter_iov_uint [of it] pos_after_moved [of r "Some (ki_pos k)"]
    by (auto simp: k iov put_pos_def or_zero_def)
qed

lemma ram_write_iter_law:
  assumes "ram_write_iter k it s = (r, k', t)"
  shows "io_effect 0 0 0 0 s t \<and> r \<le> uint (iter_count it) \<and> ki_filp k' = ki_filp k
    \<and> pos_after (IOCB_APPEND k) (Some (ki_pos k)) r (Some (ki_pos k')) \<and> r \<noteq> - EIOCBQUEUED"
proof -
  let ?pos = "if IOCB_APPEND k then ram_end (ki_filp k) s else ki_pos k"
  obtain a n where iov: "ram_iter_iov it = (a, n)" by fastforce
  from assms have m: "ram_write_at (ki_filp k) ?pos (iter_kernel it) a n s = (r, t)"
    and k: "k' = (if r < 0 then k else k\<lparr>ki_pos := ?pos + of_int r\<rparr>)"
    by (auto simp: ram_write_iter_def iov Let_def split: prod.splits)
  have "pos_after (IOCB_APPEND k) (Some (ki_pos k)) r (Some (?pos + of_int r))" if "0 \<le> r"
    using ram_write_at_law(3) [OF m that] that pos_after_moved [of r "Some (ki_pos k)"]
      pos_after_end [of "?pos + of_int r" "Some (ki_pos k)" r]
    by (cases "IOCB_APPEND k") (simp_all add: put_pos_def or_zero_def)
  then show ?thesis
    using ram_write_at_law(1,2,4) [OF m] ram_iter_iov_uint [of it]
    by (cases "r < 0") (auto simp: k iov)
qed

interpretation ram: fs_methods ram_env
proof (unfold_locales, goal_cases)
  case (1 f off w s r t)
  then show ?case using generic_sought by (simp add: ram_env_def generic_file_llseek_def)
next
  case (2 f a n p s r q t)
  then show ?case using ram_read_law by (simp add: ram_env_def)
next
  case (3 f a n p s r q t)
  then show ?case using ram_write_law by (simp add: ram_env_def)
next
  case (4 k it s r k' t)
  then show ?case using ram_read_iter_law by (simp add: ram_env_def)
next
  case (5 k it s r k' t)
  then show ?case using ram_write_iter_law by (simp add: ram_env_def)
next
  case (9 k fl r k')
  then show ?case by (auto simp: ram_env_def split: if_splits)
next
  case (10 m wr vec n r it)
  then show ?case using ram_import_law by (simp add: ram_env_def)
next
  case (11 m wr vec n r it)
  then show ?case using ram_import_law by (simp add: ram_env_def)
next
  case (12 it)
  then show ?case using ram_iter_iov_le by (simp add: ram_env_def)
next
  case (13 it)
  then show ?case using ram_advance_law [of it] by (simp add: ram_env_def) (simp add: ram_advance_def)
qed (simp_all add: ram_env_def)

lemma ram_copy_law:
  assumes "ram_copy f p g q n s = (r, t)"
  shows "io_effect 0 0 0 0 s t \<and> r \<le> uint n"
proof -
  let ?bs = "ram_get (f_inode (files s f)) p (unat n) s"
  have "int (length ?bs) \<le> int (unat n)" by (simp only: of_nat_le_iff) (simp add: ram_get_def)
  then have "int (length ?bs) \<le> uint n" by simp
  then show ?thesis
    using assms by (auto simp: ram_copy_def ram_put_def Let_def io_effect_def intro: nonpos_le_uint split: if_splits)
qed

interpretation ram: fs_copying ram_env
proof (unfold_locales, goal_cases)
  case (1 f p g q n s r p' q' t)
  then show ?case
    using ram_copy_law [of f p g q n s] pos_after_sum [of r p] pos_after_sum [of r q]
    by (auto simp: ram_env_def split: prod.splits)
next
  case (3 f p g q n fl s r t)
  then show ?case using ram_copy_law [of f p g q n s] by simp
qed (auto simp: ram_env_def io_effect_refl intro: nonpos_le_uint)


section \<open>A machine with one file\<close>

definition demo_mode :: fmode where
  "demo_mode = \<lparr>FMODE_READ = True, FMODE_WRITE = True, FMODE_CAN_READ = True, FMODE_CAN_WRITE = True,
     FMODE_LSEEK = True, FMODE_PREAD = True, FMODE_PWRITE = True, FMODE_STREAM = False,
     FMODE_UNSIGNED_OFFSET = False, FMODE_BUF_WASYNC = False, FMODE_PATH = False,
     FMODE_OPENED = True, FMODE_WRITER = True, FMODE_BACKING = False, FMODE_ATOMIC_POS = True,
     FMODE_CAN_ODIRECT = False\<rparr>"

definition demo_file :: struct_file where
  "demo_file = \<lparr>f_mode = demo_mode, f_pos = 2, f_version = 7, f_inode = 0, f_mapping_host = 0,
     f_flags = 0x8002, op_llseek = Generic_file_llseek,
     op_read = False, op_read_iter = True, op_write = False, op_write_iter = True,
     op_copy_file_range = None, op_remap_file_range = False\<rparr>"

definition demo_inode :: inode where
  "demo_inode = \<lparr>i_size = 5, i_data = [10, 20, 30, 40, 50], i_sb = 0, s_maxbytes = 1000, is_reg = True,
     is_dir = False, immutable = False, swapfile = False\<rparr>"

definition demo_fs :: fs_state where
  "demo_fs = \<lparr>files = (\<lambda>_. demo_file), inodes = (\<lambda>_. demo_inode), fdtable = [3 \<mapsto> 0], file_refs = (\<lambda>_. 1),
     file_writers = (\<lambda>_. 0), pos_locks = (\<lambda>_. 0), fs_mem = (\<lambda>_. 0), kbuf = (\<lambda>_. 0), rchar = 0, wchar = 0, syscr = 0, syscw = 0,
     fs_events = [], tracking = Some (replicate 4 zero_usage), clock = \<lparr>tv_sec = 9, tv_nsec = 0\<rparr>, stuck = False\<rparr>"

lemmas demo_fs_defs = fdlookup_def demo_mode_def demo_file_def demo_inode_def demo_fs_def O_APPEND_def O_NONBLOCK_def O_LARGEFILE_def


lemma demo_wf: "file_wf (files demo_fs f)"
  by (simp add: demo_fs_defs file_wf_def)

lemma demo_flags [simp]: "O_APPEND demo_file = False" "O_NONBLOCK demo_file = False" "O_LARGEFILE demo_file = True"
  by (simp_all add: demo_file_def O_APPEND_def O_NONBLOCK_def O_LARGEFILE_def)


section \<open>Properties of the calls\<close>

text \<open>
  (C21) For a regular file, \<^verbatim>\<open>lseek\<close> does what the specification over unbounded integers says, whatever
  the sum of offsets would wrap to: the position moves to the place asked for when that is inside the
  file system's limit, and otherwise the error is reported and nothing changes.
\<close>

theorem lseek_exact:
  assumes "fdlookup s fd = Some f" "op_llseek (files s f) = Generic_file_llseek"
    and "FMODE_LSEEK (f_mode (files s f))" "\<not> unsigned_offsets (files s f)"
    and "0 \<le> sint (f_pos (files s f))" "0 \<le> sint (i_size (host_of s f))" "uint whence \<le> SEEK_MAX"
  shows "sys_lseek E fd off whence s =
    (case seek_spec (sint (s_maxbytes (host_of s f))) (sint (i_size (host_of s f)))
            (sint (f_pos (files s f))) (sint off) (uint whence) of
       Inl e \<Rightarrow> (- e, s) | Inr t \<Rightarrow> (t, move_to f (of_int t) s))"
  unfolding sys_lseek_def by (rule ksys_lseek_generic [OF assms])

theorem lseek_exact_witness:
  "sys_lseek ram_env 3 0x7fffffffffffffff 2 demo_fs = (- EINVAL, demo_fs)
   \<and> sys_lseek ram_env 3 (- 1) 2 demo_fs = (4, move_to 0 4 demo_fs)"
  using lseek_exact [of demo_fs 3 0 2 ram_env "0x7fffffffffffffff"] lseek_exact [of demo_fs 3 0 2 ram_env "- 1"]
  by (simp add: demo_fs_defs unsigned_offsets_def host_of_def seek_spec_def seek_check_def)

text \<open>
  (C10) Whatever calls a program makes, in whatever order, each reference to a file that a call takes is put
  back and each write protection ended, also on every error path; no call stops the machine; the
  position of a file stays valid; and the bytes that the task is charged for are those that the calls
  returned.
\<close>

theorem rw_run_accounts:
  assumes "fs_methods E" and "rw_log E U cs s = (l, t)" and "\<And>f. file_wf (files s f)"
  shows "file_refs t = file_refs s \<and> file_writers t = file_writers s \<and> (stuck t \<longleftrightarrow> stuck s)
    \<and> rchar t = rchar s + bytes_of is_read l \<and> wchar t = wchar s + bytes_of is_write l
    \<and> (\<forall>f. f_mode (files t f) = f_mode (files s f) \<and> (pos_ok (files s f) \<longrightarrow> pos_ok (files t f)))"
  using fs_methods.rw_log_effect [OF assms] same_file_mode
  by (auto simp: run_effect_def dest: same_file_pos)

lemma demo_verify: "rw_verify_area ram_env False 0 (Some 2) 2 s = 0"
  by (simp add: rw_verify_area_def)

lemma demo_sync_read:
  assumes "files s 0 = demo_file" "inodes s 0 = demo_inode"
  shows "fst (new_sync_read ram_env 0 a 2 (Some 2) s) = 2"
  using assms by (simp add: new_sync_read_def sync_kiocb_def one_seg_def ram_read_iter_def ram_iter_iov_def ram_read_at_def
      ram_get_def or_zero_def demo_file_def demo_inode_def Let_def)

lemma demo_vfs_read:
  assumes "files s 0 = demo_file" "inodes s 0 = demo_inode"
  shows "fst (vfs_read ram_env demo_U 0 0x1000 2 (Some 2) s) = 2"
  using demo_sync_read [OF assms, of "0x1000"] assms(1)
  by (auto simp: vfs_read_def demo_verify demo_file_def demo_mode_def page_uaccess_def split: prod.splits)

lemma demo_read: "fst (sys_read ram_env demo_U 3 0x1000 2 demo_fs) = 2"
proof -
  define s where "s = lock_pos 0 1 (taken 0 (track NR_read demo_fs))"
  have s: "files s 0 = demo_file" "inodes s 0 = demo_inode"
    by (simp_all add: s_def track_def track_syscall_def demo_fs_def Let_def)
  have "fdget_pos 3 (track NR_read demo_fs) = (Some 0, s)"
    by (simp add: s_def fdget_pos_def fdget_def track_def track_syscall_def demo_fs_defs Let_def)
  then show ?thesis
    using demo_vfs_read [OF s] s
    by (auto simp: sys_read_def ksys_read_def file_ppos_def demo_file_def demo_mode_def split: prod.splits)
qed

theorem rw_run_accounts_witness:
  "rchar (snd (rw_log ram_env demo_U [Read 3 0x1000 2] demo_fs)) = 2
   \<and> file_refs (snd (rw_log ram_env demo_U [Read 3 0x1000 2] demo_fs)) 0 = 1"
proof -
  obtain t where t: "sys_read ram_env demo_U 3 0x1000 2 demo_fs = (2, t)"
    using demo_read by (metis prod.collapse)
  then have "rw_log ram_env demo_U [Read 3 0x1000 2] demo_fs = ([(Read 3 0x1000 2, 2)], t)" by simp
  from rw_run_accounts [OF ram.fs_methods_axioms this demo_wf] show ?thesis
    by (simp add: t bytes_of_def) (simp add: demo_fs_def)
qed

text \<open>
  The system calls and the added counters together: after any run, the counters of
  \<^verbatim>\<open>track_syscalls.c\<close> show how often \<^verbatim>\<open>read\<close> and \<^verbatim>\<open>write\<close> were called. The other calls that move data, such
  as \<^verbatim>\<open>pread64\<close> and \<^verbatim>\<open>readv\<close>, are not counted.
\<close>

theorem rw_run_counts:
  assumes "fs_methods E" and "rw_log E U cs s = (l, t)" and "tracker_wf (tracking s)" "tracking s \<noteq> None"
    and "\<And>f. file_wf (files s f)"
  shows "counts (tracking t) i = counts (tracking s) i
    + of_nat (length (filter (\<lambda>c. case c of Read _ _ _ \<Rightarrow> i = 0 | Write _ _ _ \<Rightarrow> i = 1 | _ \<Rightarrow> False) cs))"
  by (rule fs_methods.rw_log_counts [OF assms])

theorem rw_run_counts_witness:
  "counts (tracking (snd (rw_log ram_env demo_U [Read 3 0x1000 2, Pread 3 0x1000 2 0, Read 9 0 1] demo_fs))) 0 = 2"
proof -
  obtain l t where lt: "rw_log ram_env demo_U [Read 3 0x1000 2, Pread 3 0x1000 2 0, Read 9 0 1] demo_fs = (l, t)"
    by fastforce
  have "counts (tracking t) 0 = counts (tracking demo_fs) 0 + 2"
    using rw_run_counts [OF ram.fs_methods_axioms lt, of 0] by (simp add: tracker_wf_def demo_wf) (simp add: demo_fs_def)
  then show ?thesis by (simp only: lt) (simp add: counts_def demo_fs_def zero_usage_def)
qed

text \<open>
  A \<^verbatim>\<open>read\<close> returns at most what was asked for; it moves the position of its file by at most what it
  returned, never past the largest offset, and changes no other file; and one that fails moves nothing.
\<close>

theorem read_moves_position:
  assumes "fs_methods E" and "sys_read E U fd buf n s = (r, t)"
    and "fdlookup s fd = Some f" "\<not> FMODE_STREAM (f_mode (files s f))"
  shows "if r < 0 then files t = files s
    else r \<le> uint n \<and> (\<exists>j. 0 \<le> j \<and> j \<le> r
      \<and> files t = (files s)(f := (files s f)\<lparr>f_pos := f_pos (files s f) + of_int j\<rparr>))"
proof -
  have tr: "files (track NR_read s) = files s" "fdlookup (track NR_read s) = fdlookup s"
    by (simp_all add: track_def fdlookup_def fun_eq_iff split: option.splits)
  have "ksys_read E U fd buf n (track NR_read s) = (r, t)" using assms(2) by (simp add: sys_read_def)
  from fs_methods.ksys_read_moves [OF assms(1) this, of f] assms(3,4) show ?thesis by (simp add: tr)
qed

theorem read_moves_position_witness:
  "\<exists>j. 0 \<le> j \<and> j \<le> 2 \<and> f_pos (files (snd (sys_read ram_env demo_U 3 0x1000 2 demo_fs)) 0) = 2 + of_int j"
proof -
  obtain t where t: "sys_read ram_env demo_U 3 0x1000 2 demo_fs = (2, t)"
    using demo_read by (metis prod.collapse)
  have "fdlookup demo_fs 3 = Some 0" "\<not> FMODE_STREAM (f_mode (files demo_fs 0))" "f_pos (files demo_fs 0) = 2"
    by (simp_all add: demo_fs_defs)
  with read_moves_position [OF ram.fs_methods_axioms t this(1,2)] show ?thesis by (auto simp: t)
qed

text \<open>
  What the checks before a write guarantee: an append starts at the end of the file; the count is never
  raised; and the write ends within the largest size of the file and within the file-size limit of the task.
\<close>

theorem write_checks_bound:
  assumes "generic_write_checks_count E k cnt s = (0, k', n, t)" "cnt \<noteq> 0" "0 \<le> sint cnt"
    and "0 \<le> sint (ki_pos k)" "0 \<le> sint (i_size (host_of s (ki_filp k)))"
  shows "ki_pos k' = (if IOCB_APPEND k then i_size (host_of s (ki_filp k)) else ki_pos k)
    \<and> 0 \<le> sint n \<and> sint n \<le> sint cnt
    \<and> sint (ki_pos k') + sint n \<le> sint (if O_LARGEFILE (files s (ki_filp k)) then s_maxbytes (host_of s (ki_filp k)) else MAX_NON_LFS)
    \<and> (rlimit_fsize E = RLIM_INFINITY \<or> sint (ki_pos k') + sint n \<le> sint (rlimit_fsize E))"
proof -
  define kk where "kk = (if IOCB_APPEND k then k\<lparr>ki_pos := i_size (host_of s (ki_filp k))\<rparr> else k)"
  have k': "k' = kk" and w: "generic_write_check_limits E (ki_filp k) (ki_pos kk) cnt s = (0, n, t)"
    using assms(1,2) unfolding generic_write_checks_count_def Let_def kk_def [symmetric] by (auto split: if_splits prod.splits)
  have pos: "0 \<le> sint (ki_pos kk)" using assms(4,5) by (simp add: kk_def)
  show ?thesis using write_limits_bound [OF w pos assms(3)] k' by (simp add: kk_def)
qed

definition demo_kiocb :: kiocb where
  "demo_kiocb = \<lparr>ki_filp = 0, ki_pos = 0, ki_complete = False, IOCB_APPEND = True, IOCB_NOWAIT = False,
     IOCB_DIRECT = False, ki_more_flags = 0\<rparr>"

theorem write_checks_bound_witness:
  "\<exists>k' n t. generic_write_checks_count ram_env demo_kiocb 5000 demo_fs = (0, k', n, t) \<and> ki_pos k' = 5 \<and> 5 + sint n \<le> 1000"
proof -
  obtain k' n t where e: "generic_write_checks_count ram_env demo_kiocb 5000 demo_fs = (0, k', n, t)"
    by (simp add: generic_write_checks_count_def generic_write_check_limits_def demo_kiocb_def demo_fs_defs host_of_def Let_def)
  have "ki_pos k' = 5 \<and> 5 + sint n \<le> 1000"
    using write_checks_bound [OF e] by (auto simp: demo_kiocb_def demo_fs_defs host_of_def)
  with e show ?thesis by blast
qed

text \<open>
  A range that the checks of \<^verbatim>\<open>copy_file_range\<close> let through: it is not longer than asked for, it lies inside
  the file it is read from, it is written within the limits of the other file, and within one file the two
  ranges do not overlap. The sums are those of the integers: none wraps.
\<close>

theorem copy_range_checked:
  assumes "generic_copy_file_checks E fi pi fo po cnt fl s = (0, n, t)"
    and "0 \<le> sint pi" "0 \<le> sint po" "0 \<le> sint (i_size (inode_of s fi))"
  shows "0 \<le> sint n \<and> n \<le> cnt \<and> (n = 0 \<or> sint pi + sint n \<le> sint (i_size (inode_of s fi)))
    \<and> sint po + sint n \<le> sint (if O_LARGEFILE (files s fo) then s_maxbytes (host_of s fo) else MAX_NON_LFS)
    \<and> (rlimit_fsize E = RLIM_INFINITY \<or> sint po + sint n \<le> sint (rlimit_fsize E))
    \<and> (f_inode (files s fi) = f_inode (files s fo) \<longrightarrow>
        {sint pi ..< sint pi + sint n} \<inter> {sint po ..< sint po + sint n} = {})"
  using copy_checks_bounds [OF assms] by auto

theorem copy_range_checked_witness:
  "generic_copy_file_checks ram_env 0 0 0 10 100 0 demo_fs = (0, 5, demo_fs)
   \<and> {0 ..< 5 :: int} \<inter> {10 ..< 15} = {}"
proof -
  have e: "generic_copy_file_checks ram_env 0 0 0 10 100 0 demo_fs = (0, 5, demo_fs)"
    by (simp add: generic_copy_file_checks_def copy_count_checks_def generic_file_rw_checks_def generic_write_check_limits_def
        demo_fs_defs inode_of_def host_of_def smin_def Let_def)
  show ?thesis using e copy_range_checked [OF e] by (simp add: demo_fs_defs inode_of_def)
qed

text \<open>
  \<^verbatim>\<open>sendfile\<close>, \<^verbatim>\<open>sendfile64\<close> and \<^verbatim>\<open>copy_file_range\<close> put back both references on every path, leave no write
  protection behind, keep positions valid, and charge the task the same number of bytes read and written.
\<close>

theorem copy_calls_balanced:
  assumes "fs_copying E"
    and "sys_sendfile E U fdo fdi off cnt s = (r, t) \<or> sys_sendfile64 E U fdo fdi off cnt s = (r, t)
      \<or> sys_copy_file_range E U fdi off fdo off' cnt fl s = (r, t)"
  shows "file_refs t = file_refs s \<and> file_writers t = file_writers s \<and> (stuck t \<longleftrightarrow> stuck s)
    \<and> rchar t - rchar s = wchar t - wchar s \<and> (\<forall>f. pos_ok (files s f) \<longrightarrow> pos_ok (files t f))"
proof -
  have "\<exists>d. call_effect d d s t"
    using assms(2)
    by (elim disjE) (erule fs_copying.sys_sendfile_effect [OF assms(1)] fs_copying.sys_sendfile64_effect [OF assms(1)]
      fs_copying.sys_copy_file_range_effect [OF assms(1)])+
  then show ?thesis by (auto simp: call_effect_def dest: same_file_pos)
qed

theorem copy_calls_balanced_witness:
  "file_refs (snd (sys_copy_file_range ram_env demo_U 3 NULL 3 NULL 4 0 demo_fs)) 0 = 1"
proof -
  obtain r t where e: "sys_copy_file_range ram_env demo_U 3 NULL 3 NULL 4 0 demo_fs = (r, t)" by fastforce
  have "file_refs t = file_refs demo_fs"
    using copy_calls_balanced [OF ram.fs_copying_axioms, of demo_U 3 3 NULL 4 demo_fs r t NULL 0] e by simp
  then show ?thesis by (simp only: e snd_conv) (simp add: demo_fs_def)
qed

end
