(* ===== verification/Open_Ram.thy ===== *)
theory Open_Ram
  imports Open_Machine Fs_Ram
begin

text \<open>
  Opening files of the file system kept in memory: a directory with one name, files that are opened by
  the code of \<^verbatim>\<open>fs/open.c\<close>, the lowest free descriptor. It meets the contracts of opening and closing, and
  the properties that rest on them are stated here.
\<close>

section \<open>Files in memory\<close>

definition ram_ops :: file_ops where
  "ram_ops = \<lparr>fo_llseek = Generic_file_llseek, fo_read = False, fo_read_iter = True, fo_write = False,
     fo_write_iter = True, fo_copy = None, fo_remap = False\<rparr>"

text \<open>A new file for the flags of an open call.\<close>

definition ram_new_file :: "u32 \<Rightarrow> struct_file" where
  "ram_new_file flags =
     \<lparr>f_mode = path_mode\<lparr>FMODE_PATH := False, FMODE_OPENED := False, FMODE_READ := (flags AND 3 \<noteq> 1),
        FMODE_WRITE := (flags AND 3 \<noteq> 0)\<rparr>,
      f_pos = 0, f_version = 0, f_inode = 0, f_mapping_host = 0, f_flags = flags, op_llseek = No_llseek,
      op_read = False, op_read_iter = False, op_write = False, op_write_iter = False,
      op_copy_file_range = None, op_remap_file_range = False\<rparr>"

definition ram_alloc :: "u32 \<Rightarrow> open_state \<Rightarrow> (int + nat) \<times> open_state" where
  "ram_alloc flags s = (let f = length (opens_seen s) + 10 in
     (Inr f, set_file f (\<lambda>_. ram_new_file flags) (s\<lparr>f_count := (f_count s)(f := 1)\<rparr>)))"

definition ram_name :: "addr \<Rightarrow> open_state \<Rightarrow> int + string" where
  "ram_name a s = (let n = map (\<lambda>b. char_of (unat b)) (takeWhile (\<lambda>b. b \<noteq> 0) (load_bytes (fs_mem (fs s)) a 16))
     in if n = [] then Inl (- ENOENT) else Inr n)"

definition ram_unused_fd :: "ulong \<Rightarrow> open_state \<Rightarrow> int" where
  "ram_unused_fd fl s = (case find (\<lambda>fd. \<not> reserved s (of_int fd)) [0..63] of None \<Rightarrow> - 24 | Some fd \<Rightarrow> fd)"

definition ram_base :: open_env where
  "ram_base = \<lparr>get_write_access = (\<lambda>_ _. 0), mnt_get_write_access = (\<lambda>_ _. 0), backing_mnt = (\<lambda>_. 0),
     special_file = (\<lambda>_. False), mapping_host = (\<lambda>i. i), fops_get = (\<lambda>_. Some ram_ops),
     security_file_open = (\<lambda>_ _. 0), break_lease = (\<lambda>_ _ _. 0), fop_open = (\<lambda>_. Some generic_file_open),
     fop_flush = (\<lambda>_. None), mapping_direct_io = (\<lambda>_. False), filemap_nr_thps = (\<lambda>_. False),
     put_file_access = (\<lambda>_ s. s), d_backing_inode = (\<lambda>d. d), alloc_empty_file = ram_alloc,
     alloc_empty_file_noaccount = ram_alloc, vfs_create = (\<lambda>_ _ s. (- EPERM, s)), fput = (\<lambda>_ s. s),
     fput_sync = (\<lambda>_ s. s), getname = ram_name, get_unused_fd_flags = ram_unused_fd,
     do_filp_open = (\<lambda>_ _ _ s. (Inl (- ENOENT), s)), getname_kernel = (\<lambda>n _. Inr n),
     do_file_open_root = (\<lambda>_ _ _ s. (Inl (- ENOENT), s)), close_range_fds = (\<lambda>_ _ _ s. (- EINVAL, s)),
     capable_tty_config = False, tty_vhangup_self = (\<lambda>s. s), force_o_largefile = True\<rparr>"

text \<open>The release of a file gives back what opening took.\<close>

definition ram_core :: open_env where
  "ram_core = ram_base\<lparr>put_file_access := drop_access ram_base\<rparr>"

definition ram_fput :: "nat \<Rightarrow> open_state \<Rightarrow> open_state" where
  "ram_fput f s =
     (let s = s\<lparr>f_count := (f_count s)(f := f_count s f - 1)\<rparr>
      in if f_count s f > 0 \<or> \<not> FMODE_OPENED (f_mode (the_file s f)) then s
         else release ram_core f (f_inode (the_file s f)) s)"

definition ram_filp_open :: "int \<Rightarrow> string \<Rightarrow> open_flags \<Rightarrow> open_state \<Rightarrow> (int + nat) \<times> open_state" where
  "ram_filp_open dfd name op s =
     (if name \<noteq> ''notes'' then (Inl (- ENOENT), s)
      else case dentry_open (ram_core\<lparr>fput := ram_fput\<rparr>) (2, 5) (open_flag op) s of
        (Inl e, s) \<Rightarrow> (Inl (if e < 0 then e else - EINVAL), s)
      | (Inr f, s) \<Rightarrow> (Inr f, s))"

definition ram_open_env :: open_env where
  "ram_open_env = ram_core\<lparr>fput := ram_fput, fput_sync := ram_fput, do_filp_open := ram_filp_open\<rparr>"

lemmas ram_open_defs = ram_open_env_def ram_core_def ram_base_def

lemma ram_drop [simp]: "drop_access ram_open_env = drop_access ram_base" "drop_access ram_core = drop_access ram_base"
  "drop_access (ram_core\<lparr>fput := g\<rparr>) = drop_access ram_base"
  by (simp_all add: fun_eq_iff drop_access_def ram_open_env_def ram_core_def Let_def)

lemma ram_open_laws:
  assumes "put_file_access E = drop_access E" "fop_open E = (\<lambda>_. Some generic_file_open)"
  shows "open_laws E"
  by unfold_locales (use assms shipped_methods in auto)

interpretation ram: open_laws ram_open_env
  by (rule ram_open_laws) (simp_all, simp_all add: ram_open_defs)


section \<open>The frame\<close>

lemma frame_trans: "call_frame s t \<Longrightarrow> call_frame t u \<Longrightarrow> call_frame s u"
  by (auto simp: call_frame_def)

lemma frame_counts:
  "call_frame s (add_fop i d s)" "call_frame s (add_path f d s)" "call_frame s (drop_access E f s)"
  "call_frame s (s\<lparr>f_count := x\<rparr>)" "call_frame s (s\<lparr>f_path := y\<rparr>)" "call_frame s (add_readers i d s)"
  "call_frame s (take_access E f s)" "call_frame s (s\<lparr>opens_seen := z\<rparr>)"
  by (auto simp: call_frame_def count_defs add_path_def take_access_def split: option.splits)

lemma frame_set_file: "(file_wf (the_file s f) \<Longrightarrow> file_wf (g (the_file s f))) \<Longrightarrow> call_frame s (set_file f g s)"
  by (auto simp: call_frame_def set_file_def upd_file_def the_file_def)

lemma cleanup_file_frame: "call_frame s (snd (cleanup_file f e s))"
proof -
  have "call_frame s (add_path f (- 1) s)" by (rule frame_counts)
  moreover have "call_frame t (set_file f (\<lambda>x. x\<lparr>f_inode := 0\<rparr>) (t\<lparr>f_path := p\<rparr>))" for t p
    by (rule frame_trans [OF frame_counts(5) frame_set_file]) (simp add: file_wf_def)
  ultimately show ?thesis by (auto simp: cleanup_file_def Let_def intro: frame_trans)
qed

lemma ram_cleanup_all_frame: "call_frame s (snd (cleanup_all (ram_core\<lparr>fput := g\<rparr>) f i b e s))"
  "call_frame s (snd (cleanup_all ram_core f i b e s))"
proof -
  have 1: "put_file_access (ram_core\<lparr>fput := g\<rparr>) = drop_access ram_base" "put_file_access ram_core = drop_access ram_base"
    by (simp_all add: ram_core_def)
  have 2: "call_frame s (drop_access ram_base f (if b then add_fop i (- 1) s else s))"
    by (rule frame_trans [OF _ frame_counts(3)]) (simp add: frame_counts call_frame_refl)
  show "call_frame s (snd (cleanup_all (ram_core\<lparr>fput := g\<rparr>) f i b e s))" "call_frame s (snd (cleanup_all ram_core f i b e s))"
    unfolding cleanup_all_def Let_def 1 by (rule frame_trans [OF 2 cleanup_file_frame])+
qed

lemma ram_fput_frame: "call_frame s (ram_fput f s)"
  unfolding ram_fput_def Let_def release_def
  by (auto intro: frame_counts frame_trans [OF frame_counts(4) cleanup_file_frame] frame_trans [OF frame_counts(4) ram_cleanup_all_frame(2)])

lemma frame_set_mode:
  "(FMODE_LSEEK (h (f_mode (the_file s f))) \<Longrightarrow> file_wf (the_file s f) \<Longrightarrow> op_llseek (the_file s f) \<noteq> No_llseek)
   \<Longrightarrow> call_frame s (set_mode f h s)"
  unfolding set_mode_def by (rule frame_set_file) (simp add: file_wf_def)

lemma open_access_frame:
  assumes "open_access E f inode s = (e, t)"
  shows "call_frame s t"
proof -
  have w: "call_frame s (set_mode f (FMODE_WRITER_update (\<lambda>_. True)) (take_access E f s))"
    by (rule frame_trans [OF frame_counts(7) frame_set_mode]) (simp add: file_wf_def)
  obtain e' u where g: "file_get_write_access E f s = (e', u)" by fastforce
  have "u = (if e' = 0 then take_access E f s else s)"
    using file_get_write_access_ok [of E f s u] file_get_write_access_fail [OF g] g by (cases "e' = 0") simp_all
  then have "t = add_readers inode 1 s \<or> t = set_mode f (FMODE_WRITER_update (\<lambda>_. True)) (take_access E f s) \<or> t = s"
    using assms unfolding open_access_def Let_def g prod.case by (metis prod.inject)
  then show ?thesis using w frame_counts(6) call_frame_refl by metis
qed

lemma open_finish_frame:
  assumes "open_finish E f inode s = (e, t)"
  shows "call_frame s t"
proof -
  let ?x = "the_file s f"
  let ?h = "\<lambda>m. m\<lparr>FMODE_OPENED := True,
     FMODE_CAN_READ := FMODE_CAN_READ m \<or> FMODE_READ m \<and> (op_read ?x \<or> op_read_iter ?x),
     FMODE_CAN_WRITE := FMODE_CAN_WRITE m \<or> FMODE_WRITE m \<and> (op_write ?x \<or> op_write_iter ?x),
     FMODE_LSEEK := FMODE_LSEEK m \<and> op_llseek ?x \<noteq> No_llseek,
     FMODE_CAN_ODIRECT := FMODE_CAN_ODIRECT m \<or> mapping_direct_io E (f_mapping_host ?x)\<rparr>"
  let ?m = "NOT (ucast (F_CREAT OR F_EXCL OR F_NOCTTY OR F_TRUNC)) :: u32"
  let ?u = "set_file f (\<lambda>x. x\<lparr>f_flags := f_flags x AND ?m\<rparr>) (set_mode f ?h s)"
  have 1: "call_frame s (set_mode f ?h s)" by (rule frame_set_mode) simp
  have 2: "call_frame s ?u" by (rule frame_trans [OF 1 frame_set_file]) (simp add: file_wf_def)
  have "call_frame ?u t"
    using assms unfolding open_finish_def Let_def
    by (auto simp: call_frame_refl call_frame_def the_file_def elim!: branchE split: if_splits)
  with 2 show ?thesis by (rule frame_trans)
qed

abbreviation (input) ram_opener :: open_env where "ram_opener \<equiv> ram_core\<lparr>fput := ram_fput\<rparr>"

lemma ram_opener_simps:
  "fops_get ram_opener i = Some ram_ops" "security_file_open ram_opener f s = 0" "break_lease ram_opener i fl s = 0"
  "fop_open ram_opener i = Some generic_file_open" "fput ram_opener = ram_fput" "alloc_empty_file ram_opener = ram_alloc"
  by (simp_all add: ram_core_def ram_base_def)

lemma ram_checked_frame:
  assumes "open_checked ram_opener f i None s = (e, t)" "op_llseek (the_file s f) \<noteq> No_llseek"
  shows "call_frame s t"
proof -
  let ?u = "set_mode f (\<lambda>m. m\<lparr>FMODE_LSEEK := True, FMODE_PREAD := True, FMODE_PWRITE := True\<rparr>) s"
  have u: "call_frame s ?u" by (rule frame_set_mode) (use assms(2) in simp)
  obtain e' v where g: "generic_file_open i f ?u = (e', v)" by fastforce
  then have v: "v = ?u" by (auto simp: generic_file_open_def split: if_splits)
  have "(if e' \<noteq> 0 then cleanup_all ram_opener f i True e' ?u else open_finish ram_opener f i ?u) = (e, t)"
    using assms(1) unfolding open_checked_def Let_def ram_opener_simps option.case g v by simp
  then have "call_frame ?u t"
    using ram_cleanup_all_frame(1) [of ?u ram_fput f i True e'] open_finish_frame by (auto split: if_splits)
  with u show ?thesis by (rule frame_trans)
qed

lemma ram_dentry_frame:
  assumes "do_dentry_open ram_opener f i None s = (e, t)"
  shows "call_frame s t"
proof -
  define s1 where "s1 = set_file f (\<lambda>x. x\<lparr>f_inode := i, f_mapping_host := mapping_host ram_opener i\<rparr>) (add_path f 1 s)"
  have s1: "call_frame s s1"
    unfolding s1_def by (rule frame_trans [OF frame_counts(2) frame_set_file]) (simp add: file_wf_def)
  obtain e' u where a: "open_access ram_opener f i s1 = (e', u)" by fastforce
  note u = frame_trans [OF s1 open_access_frame [OF a]]
  define v where "v = (if is_reg (inodes (fs u) i) \<or> is_dir (inodes (fs u) i)
    then set_mode f (FMODE_ATOMIC_POS_update (\<lambda>_. True)) u else u)"
  have "call_frame u v" unfolding v_def by (auto intro: frame_set_mode call_frame_refl simp: file_wf_def)
  note v = frame_trans [OF u this]
  let ?w = "set_file f (set_ops ram_ops) (add_fop i 1 v)"
  have w: "call_frame s ?w"
    by (rule frame_trans [OF v frame_trans [OF frame_counts(1) frame_set_file]]) (simp add: set_ops_def ram_ops_def file_wf_def)
  have "op_llseek (the_file ?w f) \<noteq> No_llseek" by (simp add: set_ops_def ram_ops_def)
  note chk = frame_trans [OF w ram_checked_frame [OF _ this]]
  have p: "call_frame s (set_file f (\<lambda>x. set_ops empty_fops (x\<lparr>f_mode := path_mode\<rparr>)) s1)"
    by (rule frame_trans [OF s1 frame_set_file]) (simp add: path_mode_def set_ops_def file_wf_def)
  consider "t = set_file f (\<lambda>x. set_ops empty_fops (x\<lparr>f_mode := path_mode\<rparr>)) s1"
    | "cleanup_file f e' u = (e, t)" | "open_checked ram_opener f i None ?w = (e, t)"
    using assms unfolding do_dentry_open_def Let_def s1_def [symmetric] ram_opener_simps option.case a prod.case v_def [symmetric]
    by (metis prod.inject)
  then show ?thesis
  proof cases
    case 2
    then show ?thesis using frame_trans [OF u cleanup_file_frame [of u f e']] by simp
  qed (use p chk in auto)
qed

lemma ram_filp_open_law:
  assumes "ram_filp_open dfd n op s = (r, t)"
  shows "call_frame s t \<and> (\<forall>e. r = Inl e \<longrightarrow> e < 0)"
proof (cases "n = ''notes''")
  case True
  obtain f s1 where a: "ram_alloc (open_flag op) s = (Inr f, s1)" by (simp add: ram_alloc_def Let_def)
  have s1: "call_frame s s1"
    using a unfolding ram_alloc_def Let_def
    by (auto intro!: frame_trans [OF frame_counts(4) frame_set_file] simp: ram_new_file_def file_wf_def path_mode_def)
  obtain e u where v: "vfs_open ram_opener (2, 5) f s1 = (e, u)" by fastforce
  have u: "call_frame s u"
    using v frame_trans [OF s1 frame_trans [OF frame_counts(5) ram_dentry_frame]] by (auto simp: vfs_open_def)
  have "dentry_open ram_opener (2, 5) (open_flag op) s = (if e \<noteq> 0 then (Inl e, ram_fput f u) else (Inr f, u))"
    by (simp add: dentry_open_def ram_opener_simps a v)
  then show ?thesis
    using assms True u frame_trans [OF u ram_fput_frame [of u f]] by (auto simp: ram_filp_open_def split: if_splits)
next
  case False
  with assms show ?thesis by (auto simp: ram_filp_open_def call_frame_refl)
qed

interpretation ram: open_calls ram_open_env
proof (unfold_locales, goal_cases)
  case (1 dfd n op s r t)
  then show ?case using ram_filp_open_law by (simp add: ram_open_env_def)
next
  case (2 a s e)
  then show ?case by (auto simp: ram_open_defs ram_name_def Let_def split: if_splits)
next
  case (3 fl s)
  have "\<not> reserved s (of_int fd)" if "find (\<lambda>fd. \<not> reserved s (of_int fd)) [0..63] = Some fd" for fd :: int
    using that by (metis find_Some_iff)
  with 3 show ?case by (simp add: ram_open_defs ram_unused_fd_def split: option.splits)
next
  case (4 f g s r t)
  then show ?case by (simp add: ram_open_defs)
next
  case (5 f s)
  then show ?case using ram_fput_frame by (simp add: ram_open_env_def)
qed

interpretation ram_files: file_machine ram_env ram_open_env
  by unfold_locales


section \<open>A machine with one name\<close>

definition demo_open :: open_state where
  "demo_open = \<lparr>fs = demo_fs\<lparr>fs_mem := store_bytes (\<lambda>_. 0) 0x1000 ([110, 111, 116, 101, 115] @ replicate 11 0)\<rparr>, f_count = (\<lambda>_. 1),
     f_path = (\<lambda>_. None), path_refs = (\<lambda>_. 1), i_readcount = (\<lambda>_. 0), i_writecount = (\<lambda>_. 0),
     mnt_writers = (\<lambda>_. 0), fop_refs = (\<lambda>_. 0), reserved = (\<lambda>fd. fd = 3), names = 0, cache_drops = [],
     opens_seen = [], locks_removed = []\<rparr>"

lemma demo_open_inv: "open_inv demo_open"
  using demo_wf by (auto simp: open_inv_def demo_open_def the_file_def demo_fs_def split: if_splits)

lemma demo_path_name:
  assumes "fs_mem (fs s) = fs_mem (fs demo_open)"
  shows "ram_name 0x1000 s = Inr ''notes''"
proof -
  have "load_bytes (store_bytes (\<lambda>_. 0) 0x1000 ([110, 111, 116, 101, 115] @ replicate 11 0)) 0x1000 16
      = [110, 111, 116, 101, 115] @ replicate 11 (0 :: byte)"
    using load_bytes_store_sub [of 0 16 "[110, 111, 116, 101, 115] @ replicate 11 (0 :: byte)" "\<lambda>_. 0" "0x1000"] by simp
  then show ?thesis unfolding ram_name_def Let_def assms by (simp add: demo_open_def char_of_def bit_Suc_0_iff)
qed

text \<open>Opening the name for reading succeeds.\<close>

lemma demo_fd: "reserved s = reserved demo_open \<Longrightarrow> ram_unused_fd fl s = 0"
  by (simp add: ram_unused_fd_def demo_open_def upto.simps)

lemma demo_flags_built: "\<exists>op. build_open_flags (build_open_how 0x8000 0) = Inr op \<and> open_flag op = 0x8000"
  by (simp add: build_open_flags_def build_open_how_def fill_open_flags_def WILL_CREATE_def Let_def set_if_def)

lemma ram_core_simps:
  "fops_get ram_core i = Some ram_ops" "security_file_open ram_core f s = 0" "break_lease ram_core i fl s = 0"
  "fop_open ram_core i = Some generic_file_open" "filemap_nr_thps ram_core i = False"
  by (simp_all add: ram_core_def ram_base_def)

lemma demo_vfs_open:
  assumes "the_file s f = ram_new_file 0x8000"
  shows "fst (vfs_open ram_opener (2, 5) f s) = 0"
  using assms
  by (simp add: vfs_open_def do_dentry_open_def open_access_def open_checked_def open_finish_def ram_core_simps
      generic_file_open_def ram_new_file_def path_mode_def set_ops_def ram_ops_def O_LARGEFILE_def Let_def)

lemma ram_open_largefile: "force_o_largefile ram_open_env"
  by (simp add: ram_open_defs)

lemma ram_open_do: "do_filp_open ram_open_env = ram_filp_open"
  by (simp add: ram_open_env_def)

lemma demo_sys_open: "fst (sys_open ram_open_env 0x1000 0 0 demo_open) = 0"
proof -
  let ?s = "(track_call NR_open demo_open)\<lparr>names := 1\<rparr>"
  let ?t = "reserve 0 True ?s"
  have n: "names (track_call NR_open demo_open) + 1 = 1" by (simp add: track_call_def demo_open_def)
  obtain op where op: "build_open_flags (build_open_how 0x8000 0) = Inr op" "open_flag op = 0x8000"
    using demo_flags_built by blast
  obtain f u where a: "ram_alloc 0x8000 ?t = (Inr f, u)" "the_file u f = ram_new_file 0x8000"
    by (simp add: ram_alloc_def Let_def)
  obtain v where "vfs_open ram_opener (2, 5) f u = (0, v)" using demo_vfs_open [OF a(2)] by (metis prod.collapse)
  then have "ram_filp_open AT_FDCWD ''notes'' op ?t = (Inr f, v)"
    by (simp add: ram_filp_open_def dentry_open_def ram_opener_simps op(2) a(1))
  moreover have "get_unused_fd_flags ram_open_env fl ?s = 0" for fl
    using demo_fd [of ?s fl] by (simp add: ram_open_defs track_call_def)
  moreover have "getname ram_open_env 0x1000 (track_call NR_open demo_open) = Inr ''notes''"
    using demo_path_name [of "track_call NR_open demo_open"]
    by (simp add: ram_open_defs track_call_def track_def track_syscall_def demo_open_def demo_fs_def Let_def)
  ultimately show ?thesis
    unfolding sys_open_def do_sys_open_def do_sys_openat2_def Let_def
    by (simp add: op n open_at_fd_def with_largefile_def set_if_def ram_open_largefile ram_open_do)
qed

section \<open>Properties of opening and closing\<close>

text \<open>
  (C12) Opening a file leaks nothing, wherever it stops: when it gives up, the references to the path and
  to the operations and the counts of readers, of writers and of writers to the mount are what they were
  before, and the file no longer names a path. When the file counts as opened, also with the late error
  for \<^verbatim>\<open>O_DIRECT\<close>, its release restores them.
\<close>

theorem open_restores_counts:
  assumes "open_laws E" "do_dentry_open E f inode opn s = (r, t)" "\<And>g. opn = Some g \<Longrightarrow> method_law g"
    and "\<not> FMODE_OPENED (f_mode (the_file s f))" "\<not> FMODE_WRITER (f_mode (the_file s f))" "\<not> FMODE_PATH (f_mode (the_file s f))"
  shows "if FMODE_OPENED (f_mode (the_file t f))
    then (r = 0 \<or> r = - EINVAL) \<and> counts_same s (release E f inode t)
    else r \<noteq> 0 \<and> counts_same s t \<and> f_path t f = None \<and> f_inode (the_file t f) = 0"
  using open_laws.do_dentry_open_ends [OF assms] by (auto simp: open_ends_def split: if_splits)

definition fresh_open :: "u32 \<Rightarrow> open_state" where
  "fresh_open flags = set_file 10 (\<lambda>_. ram_new_file flags) (demo_open\<lparr>f_path := [10 \<mapsto> (2, 5)]\<rparr>)"

lemma ram_open_env_simps:
  "fops_get ram_open_env i = Some ram_ops" "security_file_open ram_open_env f s = 0" "break_lease ram_open_env i fl s = 0"
  "fop_open ram_open_env i = Some generic_file_open" "filemap_nr_thps ram_open_env i = False" "mapping_direct_io ram_open_env i = False"
  by (simp_all add: ram_open_defs)

lemma fresh_open_result:
  "fst (do_dentry_open ram_open_env 10 5 None (fresh_open 0x8000)) = 0"
  "fst (do_dentry_open ram_open_env 10 5 None (fresh_open 0xc000)) = - EINVAL"
  by (simp_all add: fresh_open_def do_dentry_open_def open_access_def open_checked_def open_finish_def ram_open_env_simps
      generic_file_open_def ram_new_file_def path_mode_def set_ops_def ram_ops_def O_LARGEFILE_def Let_def)

lemma fresh_open_file: "the_file (fresh_open flags) 10 = ram_new_file flags"
  by (simp add: fresh_open_def)

theorem open_restores_counts_witness:
  "\<exists>t. do_dentry_open ram_open_env 10 5 None (fresh_open 0x8000) = (0, t)
     \<and> counts_same (fresh_open 0x8000) (release ram_open_env 10 5 t)"
proof -
  obtain t where t: "do_dentry_open ram_open_env 10 5 None (fresh_open 0x8000) = (0, t)"
    using fresh_open_result(1) by (metis prod.collapse)
  with open_restores_counts [OF ram.open_laws_axioms t] show ?thesis
    by (auto simp: fresh_open_file ram_new_file_def path_mode_def split: if_splits)
qed

text \<open>
  A file that was opened with success is marked as its operations allow: seekable only when there is
  a seek operation, readable and writable when it was opened so and an operation exists, direct only when
  the mapping can; the flags that concern only the act of opening are gone. With \<^verbatim>\<open>O_PATH\<close> it can do
  nothing at all.
\<close>

theorem opened_file_marked:
  assumes "do_dentry_open E f inode opn s = (0, t)"
  shows "if has (f_flags (the_file s f)) (ucast F_PATH)
    then f_mode (the_file t f) = path_mode \<and> op_llseek (the_file t f) = No_llseek else opened_ok (the_file t f)"
  by (rule do_dentry_open_ok [OF assms])

theorem opened_file_marked_witness:
  "\<exists>t. do_dentry_open ram_open_env 10 5 None (fresh_open 0x8000) = (0, t) \<and> opened_ok (the_file t 10)"
proof -
  obtain t where t: "do_dentry_open ram_open_env 10 5 None (fresh_open 0x8000) = (0, t)"
    using fresh_open_result(1) by (metis prod.collapse)
  with opened_file_marked [OF t] show ?thesis by (simp add: fresh_open_file ram_new_file_def)
qed

text \<open>
  (C9) Descriptors over any run of calls that open, close, read, write and seek, from a state that satisfies
  the descriptor invariant and under the contracts of the code outside the sources: the set of descriptors in
  use is the one that the calls and their results determine, where an open call adds the descriptor it returns, one
  that fails adds none, a close removes its descriptor whatever it returns (also when the flush reports an error),
  and the other calls change none. A descriptor that a call returns was not in use; the invariant holds again; names
  taken from user space are given back; and no call stops the machine.
\<close>

theorem descriptors_follow_results:
  assumes "file_machine F E" "file_log F E U cs s = (l, t)" "open_inv s"
  shows "open_fds t = fold fds_after l (open_fds s) \<and> fds_fresh l (open_fds s) \<and> open_inv t \<and> names t = names s
    \<and> (stuck (fs t) \<longleftrightarrow> stuck (fs s))"
  using file_machine.file_log_fds [OF assms] by simp

theorem descriptors_follow_results_witness:
  "open_fds (snd (file_log ram_env ram_open_env demo_U [Open 0x1000 0 0, Close 3] demo_open)) = {0}"
proof -
  obtain u where u: "sys_open ram_open_env 0x1000 0 0 demo_open = (0, u)" using demo_sys_open by (metis prod.collapse)
  obtain r t where t: "sys_close ram_open_env 3 u = (r, t)" by fastforce
  have l: "file_log ram_env ram_open_env demo_U [Open 0x1000 0 0, Close 3] demo_open
      = ([(Open 0x1000 0 0, 0), (Close 3, r)], t)"
    by (simp add: u t)
  have "open_fds demo_open = {3}" by (auto simp: open_fds_def demo_open_def demo_fs_def split: if_splits)
  with descriptors_follow_results [OF ram_files.file_machine_axioms l demo_open_inv] have "open_fds t = {0}" by auto
  then show ?thesis by (simp only: l snd_conv)
qed

text \<open>
  (C11) The counters of \<^verbatim>\<open>track_syscalls.c\<close> over any run of these calls, once \<^verbatim>\<open>track_syscall_usage\<close> has
  allocated the array (before that nothing is counted): entries 0 to 3 grow, modulo \<open>2 ^ 64\<close>, by the number
  of calls of \<^verbatim>\<open>read\<close>, \<^verbatim>\<open>write\<close>, \<^verbatim>\<open>open\<close> and \<^verbatim>\<open>close\<close>, also of those that fail. Files opened with \<^verbatim>\<open>openat\<close>,
  \<^verbatim>\<open>openat2\<close> or \<^verbatim>\<open>creat\<close> are not counted. The run starts from a state that satisfies the descriptor invariant, with a
  well-formed array, under the contracts of the code outside the sources.
\<close>

theorem file_calls_counted:
  assumes "file_machine F E" "file_log F E U cs s = (l, t)" "open_inv s"
    and "tracker_wf (tracking (fs s))" "tracking (fs s) \<noteq> None"
  shows "counts (tracking (fs t)) i = counts (tracking (fs s)) i + of_nat (length (filter (\<lambda>c. counted c = Some i) cs))"
  by (rule file_machine.file_log_counts [OF assms])

theorem file_calls_counted_witness:
  "counts (tracking (fs (snd (file_log ram_env ram_open_env demo_U
     [Open 0x1000 0 0, Openat (- 100) 0x1000 0 0, Close 9] demo_open)))) 2 = 1"
proof -
  obtain l t where lt: "file_log ram_env ram_open_env demo_U
      [Open 0x1000 0 0, Openat (- 100) 0x1000 0 0, Close 9] demo_open = (l, t)"
    by fastforce
  have tr: "tracking (fs demo_open) = Some (replicate 4 zero_usage)" by (simp add: demo_open_def demo_fs_def)
  have "counts (tracking (fs t)) 2 = counts (tracking (fs demo_open)) 2 + 1"
    using file_calls_counted [OF ram_files.file_machine_axioms lt demo_open_inv, of 2] by (simp add: tr tracker_wf_def)
  then show ?thesis by (simp only: lt) (simp add: counts_def tr zero_usage_def)
qed

text \<open>
  \<^verbatim>\<open>close\<close> frees its descriptor whatever the file system answers, touches no other descriptor, and
  never asks to be restarted: an interrupted flush is reported as an interruption.
\<close>

theorem close_frees:
  assumes "open_calls E" "open_inv s" "sys_close E fd s = (r, t)"
  shows "fdtable (fs t) = (fdtable (fs s))(fd := None)
    \<and> (if fdtable (fs s) fd = None then r = - EBADF \<and> reserved t = reserved s else reserved t = (reserved s)(fd := False))
    \<and> r \<notin> {- ERESTARTSYS, - ERESTARTNOINTR, - ERESTARTNOHAND, - ERESTART_RESTARTBLOCK}"
  using open_calls.sys_close_result [OF assms] by blast

theorem close_frees_witness:
  "fdtable (fs (snd (sys_close ram_open_env 3 demo_open))) 3 = None
   \<and> fst (sys_close ram_open_env 9 demo_open) = - EBADF"
  using close_frees [OF ram.open_calls_axioms demo_open_inv, of 3] close_frees [OF ram.open_calls_axioms demo_open_inv, of 9]
  by (cases "sys_close ram_open_env 3 demo_open"; cases "sys_close ram_open_env 9 demo_open")
    (auto simp: demo_open_def demo_fs_def)

end
