(* ===== verification/Open_Path_Ram.thy ===== *)
theory Open_Path_Ram
  imports Open_Path Open_Ram
begin

text \<open>
  The calls on paths over the file system in memory: one name, attributes that change as asked, and
  delegations that are given up when they are broken. It meets the contract \<open>path_laws\<close>, and the
  properties of these calls are stated here.
\<close>

section \<open>Paths in memory\<close>

abbreviation (input) ESTALE :: int where "ESTALE \<equiv> 116"
abbreviation (input) EWOULDBLOCK :: int where "EWOULDBLOCK \<equiv> 11"

text \<open>A cached name is stale: the first lookup fails, one with \<^verbatim>\<open>LOOKUP_REVAL\<close> finds the file.\<close>

definition ram_path_at :: "int \<Rightarrow> addr \<Rightarrow> u32 \<Rightarrow> path_state \<Rightarrow> int \<times> (nat \<times> nat)" where
  "ram_path_at dfd a fl s = (case ram_name a (os s) of
     Inl e \<Rightarrow> (e, (0, 0))
   | Inr n \<Rightarrow> if n = ''notes'' then (0, (2, 5)) else if has fl LOOKUP_REVAL then (- ENOENT, (0, 0)) else (- ESTALE, (0, 0)))"

definition ram_resize :: "nat \<Rightarrow> loff \<Rightarrow> path_state \<Rightarrow> path_state" where
  "ram_resize i n = upd_fs (\<lambda>x. x\<lparr>inodes := (inodes x)(i := (inodes x i)\<lparr>i_size := n\<rparr>)\<rparr>)"

definition ram_notify :: "nat \<Rightarrow> nat \<Rightarrow> iattr \<Rightarrow> bool \<Rightarrow> path_state \<Rightarrow> int \<times> nat option \<times> path_state" where
  "ram_notify m d a w s =
     (if w \<and> delegations s d > 0 then (- EWOULDBLOCK, Some d, s)
      else
        (let s = (if has (ia_valid a) ATTR_MODE then s\<lparr>i_modes := (i_modes s)(d := ia_mode a)\<rparr> else s)
         in (0, None, if has (ia_valid a) ATTR_SIZE then ram_resize d (ia_size a) s else s)))"

definition ram_break :: "nat \<Rightarrow> path_state \<Rightarrow> int \<times> path_state" where
  "ram_break i s = (if delegations s i = 0 then (0, s)
     else (0, s\<lparr>delegations := (delegations s)(i := delegations s i - 1)\<rparr>))"

definition ram_path_env :: path_env where
  "ram_path_env = \<lparr>oenv = ram_open_env, fenv = ram_env, user_path_at = ram_path_at,
     retry_estale = (\<lambda>e fl. e = - ESTALE \<and> \<not> has fl LOOKUP_REVAL), d_inode = (\<lambda>d. d), is_append = (\<lambda>_. False),
     mnt_want_write = (\<lambda>_ _. 0), mnt_want_write_file = (\<lambda>_ _. 0), inode_permission = (\<lambda>_ _ _ _. 0),
     path_permission = (\<lambda>_ _ _. 0), file_permission = (\<lambda>_ _ _. 0), dentry_needs_remove_privs = (\<lambda>_ _ _. 0),
     notify_change = ram_notify, break_deleg_wait = ram_break, security_path_truncate = (\<lambda>_ _. 0),
     security_file_truncate = (\<lambda>_ _. 0), security_path_chmod = (\<lambda>_ _ _. 0), security_path_chown = (\<lambda>_ _ _ _. 0),
     security_path_chroot = (\<lambda>_ _. 0),
     fop_fallocate = (\<lambda>f. Some (\<lambda>f m off len s. (0, ram_resize (f_inode (file_at s f)) (off + len) s))),
     path_noexec = (\<lambda>_. False), mnt_is_readonly = (\<lambda>_. False), d_can_lookup = (\<lambda>_. True), prepare_creds = (\<lambda>_. True),
     ns_root_uid = (\<lambda>_. 0), ns_kuid = (\<lambda>u. u), ns_kgid = (\<lambda>g. g), setattr_should_drop_sgid = (\<lambda>_ _ _. 0),
     from_vfsuid = (\<lambda>_ _ u. u), from_vfsgid = (\<lambda>_ _ g. g), ns_capable_chroot = (\<lambda>_. False)\<rparr>"

lemma ram_resize_quiet: "quiet s (ram_resize i n s)" "delegations (ram_resize i n s) = delegations s"
  by (auto simp: quiet_def settled_def ram_resize_def upd_fs_def free_refs_def fun_eq_iff)

lemma ram_mode_quiet: "quiet s (s\<lparr>i_modes := x\<rparr>)" "quiet s (s\<lparr>delegations := y\<rparr>)"
  by (auto simp: quiet_def settled_def free_refs_def fun_eq_iff)

lemma quiet_trans: "quiet s t \<Longrightarrow> quiet t u \<Longrightarrow> quiet s u"
  by (auto simp: quiet_def intro: settled_trans)

lemma ram_notify_law:
  assumes "ram_notify m d a w s = (e, x, t)"
  shows "quiet s t \<and> delegations t = delegations s \<and> (\<forall>i. x = Some i \<longrightarrow> i = d \<and> 0 < delegations s i)"
  using assms ram_resize_quiet ram_mode_quiet(1) quiet_trans [OF ram_mode_quiet(1) ram_resize_quiet(1)]
  by (auto simp: ram_notify_def Let_def quiet_def split: if_splits)

interpretation ram: path_laws ram_path_env
proof (unfold_locales, goal_cases)
  case (1 fl e)
  then show ?case by (simp add: ram_path_env_def)
next
  case (2 m d a w s e x t)
  then show ?case using ram_notify_law by (simp add: ram_path_env_def)
next
  case (3 i s e t)
  then show ?case using ram_mode_quiet(2) by (auto simp: ram_path_env_def ram_break_def quiet_def split: if_splits)
next
  case (4 f g m a b s e t)
  then show ?case using ram_resize_quiet by (auto simp: ram_path_env_def)
qed

definition demo_path :: path_state where
  "demo_path = \<lparr>os = demo_open, i_modes = (\<lambda>_. 0x81a4), locked = (\<lambda>_. 0), mnt_wants = (\<lambda>_. 0), sb_writers = (\<lambda>_. 0),
     subj = \<lparr>c_uid = 1000, c_gid = 1000, c_fsuid = 1000, c_fsgid = 1000, c_effective = 0, c_permitted = 0,
       c_no_fixup = False, c_user_ns = 0\<rparr>,
     cred_refs = 0, pwd = (2, 1), root = (2, 1), delegations = (\<lambda>i. 2)\<rparr>"


section \<open>Properties of the calls on paths\<close>

text \<open>
  (C13) Every run of these calls comes to an end: both retry loops, for a stale name and for a change that meets a
  delegation, return. And every call gives back all that it took, on each of its error paths: the locks of
  inodes, the write accesses to mounts, the protections against freezing, the references to paths and files, the
  write counts of inodes, and the credentials that were put in place for an access test. The hypotheses are on the
  code outside the sources: \<^verbatim>\<open>retry_estale\<close> asks for no second retry once \<^verbatim>\<open>LOOKUP_REVAL\<close> is set; \<^verbatim>\<open>notify_change\<close>
  asks to wait only while the inode has a delegation and grants none; a wait for a delegation
  that succeeds leaves fewer of them on the inode, if there were any; and these routines and the file system's \<^verbatim>\<open>fallocate\<close>
  leave locks and references as they were.
\<close>

theorem path_calls_return:
  assumes "path_laws P"
  shows "\<exists>l t. path_run P cs s = Some (l, t) \<and> length l = length cs \<and> locked t = locked s \<and> mnt_wants t = mnt_wants s
    \<and> sb_writers t = sb_writers s \<and> subj t = subj s \<and> cred_refs t = cred_refs s \<and> free_refs t = free_refs s
    \<and> i_writecount (os t) = i_writecount (os s) \<and> file_refs (fs (os t)) = file_refs (fs (os s))
    \<and> file_writers (fs (os t)) = file_writers (fs (os s))"
  using path_laws.path_run_ends [OF assms, of cs s] unfolding settled_def by blast

theorem path_calls_return_witness:
  "\<exists>l t. path_run ram_path_env [Fchmodat2 (- 100) 0x1000 0x1c0 0, Truncate 0x2000 5, Chdir 0x1000] demo_path = Some (l, t)
     \<and> length l = 3 \<and> locked t = (\<lambda>_. 0) \<and> free_refs t = free_refs demo_path"
  using path_calls_return [OF ram.path_laws_axioms,
      of "[Fchmodat2 (- 100) 0x1000 0x1c0 0, Truncate 0x2000 5, Chdir 0x1000]" demo_path]
  by (auto simp: demo_path_def simp del: path_run.simps)

text \<open>
  (C22) Exactly when space is allocated. \<^verbatim>\<open>vfs_fallocate\<close> refuses with an error and changes nothing unless all of this
  holds: the offset is not negative, the range is not empty and ends, as a sum over unbounded integers, at or below the
  largest size of a file; the mode is one of: nothing, \<^verbatim>\<open>KEEP_SIZE\<close>, \<^verbatim>\<open>PUNCH_HOLE\<close> with \<^verbatim>\<open>KEEP_SIZE\<close>, \<^verbatim>\<open>COLLAPSE_RANGE\<close>,
  \<^verbatim>\<open>ZERO_RANGE\<close> with or without \<^verbatim>\<open>KEEP_SIZE\<close>, \<^verbatim>\<open>INSERT_RANGE\<close>, \<^verbatim>\<open>UNSHARE_RANGE\<close> with or without \<^verbatim>\<open>KEEP_SIZE\<close>; the file is open
  for writing, neither immutable nor a swap file, a regular file or a block device, and when it may only be appended
  to the mode has at most \<^verbatim>\<open>KEEP_SIZE\<close>; and the security module and the notification hook agree. When it holds and the
  file has the method, the result is the method's, which runs between the start and the end of a
  write, and watchers are told exactly when it succeeds; without the method it is \<^verbatim>\<open>-EOPNOTSUPP\<close>.
\<close>

theorem fallocate_bounded:
  fixes mode :: u32
  assumes "vfs_fallocate P f mode off len s = (e, t)" "i = f_inode (file_at s f)"
    and ok: "ok \<longleftrightarrow> 0 \<le> sint off \<and> 0 < sint len \<and> sint off + sint len \<le> sint (s_maxbytes (inode_at s i))
     \<and> mode \<in> {0, 0x1, 0x3, 0x8, 0x10, 0x11, 0x20, 0x40, 0x41} \<and> FMODE_WRITE (f_mode (file_at s f))
     \<and> (mode AND NOT 0x1 \<noteq> 0 \<longrightarrow> \<not> is_append P i) \<and> \<not> immutable (inode_at s i) \<and> \<not> swapfile (inode_at s i)
     \<and> security_file_permission (fenv P) f True = 0 \<and> fsnotify_file_area_perm (fenv P) f True (Some off) len = 0
     \<and> (i_modes s i AND 0xf000 = 0x8000 \<or> i_modes s i AND 0xf000 = 0x6000)"
  shows "(\<not> ok \<longrightarrow> e \<noteq> 0 \<and> t = s)
    \<and> (ok \<and> fop_fallocate P f = None \<longrightarrow> e = - EOPNOTSUPP \<and> t = s)
    \<and> (\<forall>g r u. ok \<and> fop_fallocate P f = Some g \<and> g f mode off len (upd_fs (file_start_write f) s) = (r, u) \<longrightarrow>
         e = r \<and> t = upd_fs (file_end_write f) (if r = 0 then upd_fs (fsnotify_modify f) u else u))"
proof -
  have "ok \<longleftrightarrow> may_allocate P f mode off len s"
    unfolding may_allocate_def ok modes_allowed_def has_def S_ISREG_def S_ISBLK_def assms(2) Let_def by simp
  with fallocate_checks_iff [of P f mode off len s] assms(1) show ?thesis
    by (auto simp: vfs_fallocate_def Let_def split: option.splits if_splits)
qed

theorem fallocate_bounded_witness:
  "fst (vfs_fallocate ram_path_env 0 0 100 900 demo_path) = 0 \<and> fst (vfs_fallocate ram_path_env 0 0x50 100 900 demo_path) \<noteq> 0"
proof -
  have ok: "FMODE_WRITE (f_mode (file_at demo_path 0))" "\<not> immutable (inode_at demo_path i)" "\<not> swapfile (inode_at demo_path i)"
    "security_file_permission (fenv ram_path_env) 0 True = 0" "fsnotify_file_area_perm (fenv ram_path_env) 0 True (Some 100) 900 = 0"
    "i_modes demo_path i = 0x81a4" "1000 \<le> sint (s_maxbytes (inode_at demo_path i))" for i
    by (simp_all add: ram_path_env_def demo_path_def demo_open_def demo_fs_defs file_at_def the_file_def inode_at_def)
  obtain e t where e: "vfs_fallocate ram_path_env 0 0 100 900 demo_path = (e, t)" by fastforce
  obtain e' t' where e': "vfs_fallocate ram_path_env 0 0x50 100 900 demo_path = (e', t')" by fastforce
  have "e = 0" using fallocate_bounded [OF e refl refl] by (simp add: ok) (simp add: ram_path_env_def)
  moreover have "e' \<noteq> 0" using fallocate_bounded [OF e' refl refl] by simp
  ultimately show ?thesis by (simp add: e e')
qed

text \<open>
  (C23) The shortcut of the access test is exact: without \<^verbatim>\<open>AT_EACCESS\<close>, new credentials are prepared if and
  only if they would differ from those in force. With it they never are.
\<close>

theorem access_override_exact:
  "access_need_override_creds P flags c \<longleftrightarrow> \<not> has flags AT_EACCESS \<and> override_cred P c \<noteq> c"
  by (auto simp: access_need_override_creds_def override_cred_iff)

text \<open>
  What is asked of a file system. A change of mode sets the permission bits that were given and keeps
  the type of the file. A change of owner names exactly the ids that are not \<open>-1\<close>, with their images in the
  user namespace, which are valid; and unless the file is a directory it asks for the set-user-id bit and
  the capabilities of the file to be dropped.
\<close>

theorem attribute_requests:
  assumes "chown_attrs P user grp = Some a"
  shows "ia_mode (chmod_attrs mode im) AND 0xfff = mode AND 0xfff \<and> ia_mode (chmod_attrs mode im) AND NOT 0xfff = im AND NOT 0xfff
    \<and> (has (ia_valid a) ATTR_UID \<longleftrightarrow> user \<noteq> - 1) \<and> (has (ia_valid a) ATTR_GID \<longleftrightarrow> grp \<noteq> - 1)
    \<and> (user \<noteq> - 1 \<longrightarrow> ia_vfsuid a = ns_kuid P user \<and> ns_kuid P user \<noteq> - 1)
    \<and> (grp \<noteq> - 1 \<longrightarrow> ia_vfsgid a = ns_kgid P grp \<and> ns_kgid P grp \<noteq> - 1)
    \<and> (\<not> S_ISDIR (i_modes s i) \<longrightarrow> has (ia_valid (chown_kill P m i a s)) ATTR_KILL_SUID
         \<and> has (ia_valid (chown_kill P m i a s)) ATTR_KILL_PRIV)"
proof -
  have "ia_mode (chmod_attrs mode im) = (mode AND 0xfff) OR (im AND NOT 0xfff)" by (simp add: chmod_attrs_def)
  then have "ia_mode (chmod_attrs mode im) AND 0xfff = mode AND 0xfff"
    "ia_mode (chmod_attrs mode im) AND NOT 0xfff = im AND NOT 0xfff"
    by (simp_all only:) (auto simp: bit_eq_iff bit_simps simp del: bit_numeral_rec)
  then show ?thesis using chown_attrs_exact [OF assms] by (simp add: chown_kill_def)
qed

theorem attribute_requests_witness:
  "\<exists>a. chown_attrs ram_path_env 1000 (- 1) = Some a \<and> ia_vfsuid a = 1000 \<and> \<not> has (ia_valid a) ATTR_GID"
proof -
  obtain a where a: "chown_attrs ram_path_env 1000 (- 1) = Some a"
    by (simp add: chown_attrs_def setattr_vfsuid_def ram_path_env_def)
  with attribute_requests [OF a] show ?thesis by (auto simp: ram_path_env_def)
qed

end
