(* ===== verification/Init_Params.thy ===== *)
theory Init_Params
  imports Kernel_Prelude
begin

text \<open>
  Boot parameters: the functions of \<^verbatim>\<open>init/main.c\<close> that assemble the command line, hand each parameter
  to its handler, and collect the others as arguments and environment of the first process. The
  splitting of the line (\<^verbatim>\<open>parse_args\<close>), the table of handlers and the configuration are parameters.
\<close>

section \<open>Strings in buffers\<close>

abbreviation (input) NUL :: char where "NUL \<equiv> CHR 0x00"

definition cstr :: "string \<Rightarrow> nat \<Rightarrow> string" where
  "cstr b i = takeWhile (\<lambda>c. c \<noteq> NUL) (drop i b)"

text \<open>\<open>None\<close>: a store outside the buffer.\<close>

definition store_at :: "nat \<Rightarrow> string \<Rightarrow> string \<Rightarrow> string option" where
  "store_at i xs b = (if i + length xs \<le> length b then Some (take i b @ xs @ drop (i + length xs) b) else None)"

definition strcpy :: "nat \<Rightarrow> string \<Rightarrow> string \<Rightarrow> string option" where
  "strcpy i xs b = store_at i (xs @ [NUL]) b"

definition no_nul :: "string \<Rightarrow> bool" where
  "no_nul xs \<longleftrightarrow> NUL \<notin> set xs"

lemma store_at_length: "store_at i xs b = Some b' \<Longrightarrow> length b' = length b"
  by (auto simp: store_at_def split: if_splits)

lemma store_at_append:
  "store_at (length p) xs (p @ q) = (if length xs \<le> length q then Some (p @ xs @ drop (length xs) q) else None)"
  by (simp add: store_at_def)

lemma takeWhile_no_nul [simp]: "no_nul xs \<Longrightarrow> takeWhile (\<lambda>c. c \<noteq> NUL) (xs @ NUL # q) = xs"
  by (induction xs) (auto simp: no_nul_def)

lemma cstr_append [simp]: "no_nul xs \<Longrightarrow> cstr (p @ xs @ NUL # q) (length p) = xs"
  by (simp add: cstr_def)

lemma cstr_start [simp]: "no_nul xs \<Longrightarrow> cstr (xs @ NUL # q) 0 = xs"
  by (simp add: cstr_def)

lemma no_nul_append [simp]: "no_nul (xs @ ys) \<longleftrightarrow> no_nul xs \<and> no_nul ys"
  and no_nul_Cons [simp]: "no_nul (c # xs) \<longleftrightarrow> c \<noteq> NUL \<and> no_nul xs"
  and no_nul_Nil [simp]: "no_nul []"
  by (auto simp: no_nul_def)


section \<open>A parameter and its value\<close>

text \<open>
  The line was split in place: the parameter starts at index \<open>param\<close>, the value at \<open>val\<close>, and the
  character between them was overwritten. \<open>None\<close> stands for \<^verbatim>\<open>BUG\<close>.
\<close>

definition repair_env_string :: "nat \<Rightarrow> nat option \<Rightarrow> string \<Rightarrow> string option" where
  "repair_env_string param val b =
     (case val of
        None \<Rightarrow> Some b
      | Some v \<Rightarrow>
        if v = param + length (cstr b param) + 1 then store_at (v - 1) ''='' b
        else if v = param + length (cstr b param) + 2 then
          Option.bind (store_at (v - 2) ''='' b) (\<lambda>b. store_at (v - 1) (cstr b v @ [NUL]) b)
        else None)"

text \<open>
  Both layouts that the splitting leaves, a plain and a quoted value, become \<open>param=val\<close> again, and
  nothing else of the line changes but the character after the value.
\<close>

lemma repair_plain:
  assumes "no_nul key" "no_nul v"
  shows "repair_env_string (length p) (Some (length p + length key + 1)) (p @ key @ NUL # v @ NUL # q)
    = Some (p @ key @ CHR ''='' # v @ NUL # q)"
proof -
  have "store_at (length (p @ key)) ''='' ((p @ key) @ NUL # v @ NUL # q) = Some (p @ key @ CHR ''='' # v @ NUL # q)"
    unfolding store_at_append by simp
  with assms show ?thesis by (simp add: repair_env_string_def)
qed

lemma repair_quoted:
  assumes "no_nul key" "no_nul v" "c \<noteq> NUL"
  shows "repair_env_string (length p) (Some (length p + length key + 2)) (p @ key @ NUL # c # v @ NUL # q)
    = Some (p @ key @ CHR ''='' # v @ NUL # NUL # q)"
proof -
  have 1: "store_at (length (p @ key)) ''='' ((p @ key) @ NUL # c # v @ NUL # q) = Some (p @ key @ CHR ''='' # c # v @ NUL # q)"
    unfolding store_at_append by simp
  have v: "cstr (p @ key @ CHR ''='' # c # v @ NUL # q) (length p + length key + 2) = v"
    using cstr_append [OF assms(2), of "p @ key @ [CHR ''='', c]" q] by simp
  have 2: "store_at (length (p @ key @ [CHR ''=''])) (v @ [NUL]) ((p @ key @ [CHR ''='']) @ c # v @ NUL # q)
      = Some (p @ key @ CHR ''='' # v @ NUL # NUL # q)"
    unfolding store_at_append by (simp add: drop_Cons')
  show ?thesis using assms(1) 1 2 v by (simp add: repair_env_string_def)
qed

section \<open>Arguments of the first process\<close>

text \<open>
  \<^verbatim>\<open>argv_init\<close> and \<^verbatim>\<open>envp_init\<close> are arrays with \<open>MAX + 2\<close> entries; \<open>None\<close> is a null pointer. Every parameter
  has its own part of the command line, so the pointers are shown as the strings they point to.
  \<open>panic_later\<close> holds the kind of array that overflowed and the parameter. The last fields are other
  variables that a handler writes: the list behind \<^verbatim>\<open>initcall_blacklist=\<close> and the flag behind \<^verbatim>\<open>rodata=\<close>;
  \<open>setup_panic\<close> says that a handler called \<^verbatim>\<open>panic\<close>.
\<close>

record init_state =
  argv_init :: "string option list"
  envp_init :: "string option list"
  panic_later :: "(string \<times> string) option"
  execute_command :: "string option"
  ramdisk_execute_command :: "string option"
  console_loglevel :: int
  reset_devices :: bool
  early_done :: bool
  blacklist :: "string list"
  rodata_enabled :: bool
  setup_panic :: bool

record obs_kernel_param =
  p_str :: string
  p_early :: bool
  p_setup :: "(string option \<Rightarrow> init_state \<Rightarrow> int \<times> init_state) option"

text \<open>
  \<open>parse_args\<close> stands for the splitting of a line: the parameters with their values, up to a \<open>--\<close>.
  Its callback is applied to them in turn.
\<close>

record init_env =
  ENV_ARG_LIMIT :: nat
  setup_table :: "obs_kernel_param list"
  parameqn :: "string \<Rightarrow> string \<Rightarrow> nat \<Rightarrow> bool"
  parameq :: "string \<Rightarrow> string \<Rightarrow> bool"
  sysctl_is_alias :: "string \<Rightarrow> bool"
  get_option :: "string option \<Rightarrow> int option"
  parse_args :: "string \<Rightarrow> (string \<times> string option) list"
  arch_parse_debug_rodata :: "string option \<Rightarrow> bool"

abbreviation (input) MAX_INIT_ARGS :: "init_env \<Rightarrow> nat" where "MAX_INIT_ARGS E \<equiv> ENV_ARG_LIMIT E"
abbreviation (input) MAX_INIT_ENVS :: "init_env \<Rightarrow> nat" where "MAX_INIT_ENVS E \<equiv> ENV_ARG_LIMIT E"

definition set_reset_devices :: "string option \<Rightarrow> init_state \<Rightarrow> int \<times> init_state" where
  "set_reset_devices str s = (1, s\<lparr>reset_devices := True\<rparr>)"

text \<open>\<^verbatim>\<open>line[n]\<close> is the terminator when the line has \<open>n\<close> characters.\<close>

fun checksetup_loop :: "init_env \<Rightarrow> string \<Rightarrow> bool \<Rightarrow> obs_kernel_param list \<Rightarrow> init_state \<Rightarrow> bool \<times> init_state" where
  "checksetup_loop E line had [] s = (had, s)"
| "checksetup_loop E line had (p # ps) s =
     (let n = length (p_str p) in
      if parameqn E line (p_str p) n then
        (if p_early p then checksetup_loop E line (had \<or> n = length line \<or> line ! n = CHR ''='') ps s
         else case p_setup p of
             None \<Rightarrow> (True, s)
           | Some g \<Rightarrow> (case g (Some (drop n line)) s of (r, s) \<Rightarrow>
               if r \<noteq> 0 then (True, s) else checksetup_loop E line had ps s))
      else checksetup_loop E line had ps s)"

definition obsolete_checksetup :: "init_env \<Rightarrow> string \<Rightarrow> init_state \<Rightarrow> bool \<times> init_state" where
  "obsolete_checksetup E line s = checksetup_loop E line False (setup_table E) s"

abbreviation (input) CONSOLE_LOGLEVEL_DEBUG :: int where "CONSOLE_LOGLEVEL_DEBUG \<equiv> 10"
abbreviation (input) CONSOLE_LOGLEVEL_QUIET :: int where "CONSOLE_LOGLEVEL_QUIET \<equiv> 4"

definition debug_kernel :: "string option \<Rightarrow> init_state \<Rightarrow> int \<times> init_state" where
  "debug_kernel str s = (0, s\<lparr>console_loglevel := CONSOLE_LOGLEVEL_DEBUG\<rparr>)"

definition quiet_kernel :: "string option \<Rightarrow> init_state \<Rightarrow> int \<times> init_state" where
  "quiet_kernel str s = (0, s\<lparr>console_loglevel := CONSOLE_LOGLEVEL_QUIET\<rparr>)"

definition loglevel :: "init_env \<Rightarrow> string option \<Rightarrow> init_state \<Rightarrow> int \<times> init_state" where
  "loglevel E str s = (case get_option E str of
     Some newlevel \<Rightarrow> (0, s\<lparr>console_loglevel := newlevel\<rparr>)
   | None \<Rightarrow> (- EINVAL, s))"

definition set_debug_rodata :: "init_env \<Rightarrow> string option \<Rightarrow> init_state \<Rightarrow> int \<times> init_state" where
  "set_debug_rodata E str s =
     (if arch_parse_debug_rodata E str then (0, s)
      else if str = Some ''on'' then (0, s\<lparr>rodata_enabled := True\<rparr>)
      else if str = Some ''off'' then (0, s\<lparr>rodata_enabled := False\<rparr>)
      else (0, s))"

text \<open>The loops over the arrays. \<open>None\<close> would be a read past the end; the flag is the overflow found.\<close>

fun arg_slot :: "nat \<Rightarrow> nat \<Rightarrow> bool \<Rightarrow> string option list \<Rightarrow> (nat \<times> bool) option" where
  "arg_slot mx i pan [] = None"
| "arg_slot mx i pan (None # r) = Some (i, pan)"
| "arg_slot mx i pan (Some _ # r) = arg_slot mx (Suc i) (pan \<or> i = mx) r"

fun env_slot :: "nat \<Rightarrow> string \<Rightarrow> nat \<Rightarrow> nat \<Rightarrow> bool \<Rightarrow> string option list \<Rightarrow> (nat \<times> bool) option" where
  "env_slot mx param len i pan [] = None"
| "env_slot mx param len i pan (None # r) = Some (i, pan)"
| "env_slot mx param len i pan (Some e # r) =
     (let pan = (pan \<or> i = mx) in
      if take (len + 1) param = take (len + 1) e then Some (i, pan) else env_slot mx param len (Suc i) pan r)"

definition with_val :: "string \<Rightarrow> string option \<Rightarrow> string" where
  "with_val param val = (case val of None \<Rightarrow> param | Some v \<Rightarrow> param @ ''='' @ v)"

text \<open>Here the loop stops at the overflow.\<close>

fun init_arg_slot :: "nat \<Rightarrow> nat \<Rightarrow> string option list \<Rightarrow> (nat \<times> bool) option" where
  "init_arg_slot mx i [] = None"
| "init_arg_slot mx i (None # r) = Some (i, False)"
| "init_arg_slot mx i (Some _ # r) = (if i = mx then Some (i, True) else init_arg_slot mx (Suc i) r)"

definition set_init_arg :: "init_env \<Rightarrow> string \<Rightarrow> string option \<Rightarrow> init_state \<Rightarrow> (int \<times> init_state) option" where
  "set_init_arg E param val s =
     (if panic_later s \<noteq> None then Some (0, s)
      else
        (let param = with_val param val in
         Option.bind (init_arg_slot (MAX_INIT_ARGS E) 0 (argv_init s)) (\<lambda>(i, full).
           Some (0, if full then s\<lparr>panic_later := Some (''init'', param)\<rparr>
                    else s\<lparr>argv_init := (argv_init s)[i := Some param]\<rparr>))))"

definition unknown_bootoption :: "init_env \<Rightarrow> string \<Rightarrow> string option \<Rightarrow> init_state \<Rightarrow> (int \<times> init_state) option" where
  "unknown_bootoption E param val s =
     (let len = length param in
      if sysctl_is_alias E param then Some (0, s)
      else
        (let param = with_val param val in
         case obsolete_checksetup E param s of (found, s) \<Rightarrow>
           if found then Some (0, s)
           else if CHR ''.'' \<in> set (take len param) then Some (0, s)
           else if panic_later s \<noteq> None then Some (0, s)
           else if val \<noteq> None then
             Option.bind (env_slot (MAX_INIT_ENVS E) param len 0 False (envp_init s)) (\<lambda>(i, pan).
               Some (0, s\<lparr>envp_init := (envp_init s)[i := Some param],
                          panic_later := (if pan then Some (''env'', param) else panic_later s)\<rparr>))
           else
             Option.bind (arg_slot (MAX_INIT_ARGS E) 0 False (argv_init s)) (\<lambda>(i, pan).
               Some (0, s\<lparr>argv_init := (argv_init s)[i := Some param],
                          panic_later := (if pan then Some (''init'', param) else panic_later s)\<rparr>))))"

fun clear_slots :: "nat list \<Rightarrow> string option list \<Rightarrow> string option list" where
  "clear_slots [] a = a"
| "clear_slots (i # is) a = clear_slots is (a[i := None])"

definition init_setup :: "init_env \<Rightarrow> string option \<Rightarrow> init_state \<Rightarrow> int \<times> init_state" where
  "init_setup E str s =
     (1, s\<lparr>execute_command := str, argv_init := clear_slots [1..<MAX_INIT_ARGS E] (argv_init s)\<rparr>)"

definition rdinit_setup :: "init_env \<Rightarrow> string option \<Rightarrow> init_state \<Rightarrow> int \<times> init_state" where
  "rdinit_setup E str s =
     (1, s\<lparr>ramdisk_execute_command := str, argv_init := clear_slots [1..<MAX_INIT_ARGS E] (argv_init s)\<rparr>)"

text \<open>Early parameters: every handler whose name matches is called.\<close>

fun early_loop :: "init_env \<Rightarrow> string \<Rightarrow> string option \<Rightarrow> obs_kernel_param list \<Rightarrow> init_state \<Rightarrow> init_state" where
  "early_loop E param val [] s = s"
| "early_loop E param val (p # ps) s =
     (if p_early p \<and> parameq E param (p_str p) \<or> param = ''console'' \<and> p_str p = ''earlycon'' then
        early_loop E param val ps
          (case p_setup p of None \<Rightarrow> s | Some g \<Rightarrow> snd (g val s))
      else early_loop E param val ps s)"

definition do_early_param :: "init_env \<Rightarrow> string \<Rightarrow> string option \<Rightarrow> init_state \<Rightarrow> int \<times> init_state" where
  "do_early_param E param val s = (0, early_loop E param val (setup_table E) s)"

definition parse_early_options :: "init_env \<Rightarrow> string \<Rightarrow> init_state \<Rightarrow> init_state" where
  "parse_early_options E cmdline s =
     fold (\<lambda>(param, val) s. snd (do_early_param E param val s)) (parse_args E cmdline) s"

abbreviation (input) COMMAND_LINE_SIZE :: nat where "COMMAND_LINE_SIZE \<equiv> 2048"

definition parse_early_param :: "init_env \<Rightarrow> string \<Rightarrow> init_state \<Rightarrow> init_state" where
  "parse_early_param E boot_command_line s =
     (if early_done s then s
      else (parse_early_options E (take (COMMAND_LINE_SIZE - 1) boot_command_line) s)\<lparr>early_done := True\<rparr>)"

text \<open>The later pass over the line, and what follows \<open>--\<close>.\<close>

fun boot_options :: "init_env \<Rightarrow> (string \<times> string option) list \<Rightarrow> init_state \<Rightarrow> init_state option" where
  "boot_options E [] s = Some s"
| "boot_options E ((param, val) # ps) s = Option.bind (unknown_bootoption E param val s) (\<lambda>(_, s). boot_options E ps s)"

fun init_args :: "init_env \<Rightarrow> (string \<times> string option) list \<Rightarrow> init_state \<Rightarrow> init_state option" where
  "init_args E [] s = Some s"
| "init_args E ((param, val) # ps) s = Option.bind (set_init_arg E param val s) (\<lambda>(_, s). init_args E ps s)"

definition boot_state :: "init_env \<Rightarrow> init_state" where
  "boot_state E =
     \<lparr>argv_init = Some ''init'' # replicate (MAX_INIT_ARGS E + 1) None,
      envp_init = Some ''HOME=/'' # Some ''TERM=linux'' # replicate (MAX_INIT_ENVS E) None,
      panic_later = None, execute_command = None, ramdisk_execute_command = Some ''/init'',
      console_loglevel = 7, reset_devices = False, early_done = False,
      blacklist = [], rodata_enabled = True, setup_panic = False\<rparr>"


section \<open>The arrays are never left\<close>

text \<open>
  As long as no overflow was noted, the last entry of each array is null, and the environment is a list
  of variables with different names.
\<close>

definition env_name :: "string \<Rightarrow> string" where
  "env_name e = takeWhile (\<lambda>c. c \<noteq> CHR ''='') e"

definition env_list :: "nat \<Rightarrow> string option list \<Rightarrow> string list \<Rightarrow> bool" where
  "env_list mx a xs \<longleftrightarrow> a = map Some xs @ replicate (mx + 2 - length xs) None \<and> length xs \<le> mx + 1
     \<and> distinct (map env_name xs) \<and> (\<forall>e \<in> set xs. CHR ''='' \<in> set e)"

definition arrays_ok :: "init_env \<Rightarrow> init_state \<Rightarrow> bool" where
  "arrays_ok E s \<longleftrightarrow> length (argv_init s) = ENV_ARG_LIMIT E + 2 \<and> length (envp_init s) = ENV_ARG_LIMIT E + 2
     \<and> (panic_later s = None \<longrightarrow> argv_init s ! (ENV_ARG_LIMIT E + 1) = None \<and> (\<exists>xs. env_list (ENV_ARG_LIMIT E) (envp_init s) xs))"

text \<open>A handler may clear arguments, as \<^verbatim>\<open>init=\<close> does, but leaves the rest alone.\<close>

definition handler_ok :: "init_env \<Rightarrow> (string option \<Rightarrow> init_state \<Rightarrow> int \<times> init_state) \<Rightarrow> bool" where
  "handler_ok E g \<longleftrightarrow> (\<forall>x s. envp_init (snd (g x s)) = envp_init s \<and> panic_later (snd (g x s)) = panic_later s
     \<and> length (argv_init (snd (g x s))) = length (argv_init s)
     \<and> (length (argv_init s) = ENV_ARG_LIMIT E + 2 \<and> argv_init s ! (ENV_ARG_LIMIT E + 1) = None
         \<longrightarrow> argv_init (snd (g x s)) ! (ENV_ARG_LIMIT E + 1) = None))"

lemma arg_slot_end:
  assumes "a ! k = None" "k < length a"
  shows "\<exists>j p. arg_slot mx i pan a = Some (i + j, p) \<and> j \<le> k \<and> (p \<longleftrightarrow> pan \<or> i \<le> mx \<and> mx < i + j)"
  using assms
proof (induction a arbitrary: i k pan)
  case (Cons x a)
  show ?case
  proof (cases x)
    case (Some y)
    then obtain k' where k: "k = Suc k'" using Cons.prems(1) by (cases k) auto
    from Cons.IH [of k' "Suc i" "pan \<or> i = mx"] Cons.prems obtain j p where
      "arg_slot mx (Suc i) (pan \<or> i = mx) a = Some (Suc i + j, p)" "j \<le> k'" "p \<longleftrightarrow> (pan \<or> i = mx) \<or> Suc i \<le> mx \<and> mx < Suc i + j"
      by (auto simp: k)
    then show ?thesis by (intro exI [of _ "Suc j"] exI [of _ p]) (auto simp: Some k)
  qed auto
qed simp

lemma init_arg_slot_end:
  assumes "a ! k = None" "k < length a"
  shows "\<exists>j p. init_arg_slot mx i a = Some (i + j, p) \<and> (\<not> p \<longrightarrow> j \<le> k \<and> (i \<le> mx \<longrightarrow> i + j \<le> mx))"
  using assms
proof (induction a arbitrary: i k)
  case (Cons x a)
  show ?case
  proof (cases x)
    case (Some y)
    then obtain k' where k: "k = Suc k'" using Cons.prems(1) by (cases k) auto
    show ?thesis
    proof (cases "i = mx")
      case False
      from Cons.IH [of k' "Suc i"] Cons.prems obtain j p where
        "init_arg_slot mx (Suc i) a = Some (Suc i + j, p)" "\<not> p \<longrightarrow> j \<le> k' \<and> (Suc i \<le> mx \<longrightarrow> Suc i + j \<le> mx)"
        by (auto simp: k)
      then show ?thesis using False by (intro exI [of _ "Suc j"] exI [of _ p]) (auto simp: Some k)
    qed (auto simp: Some)
  qed auto
qed simp

lemma env_name_param [simp]: "CHR ''='' \<notin> set key \<Longrightarrow> env_name (key @ CHR ''='' # v) = key"
  by (induction key) (auto simp: env_name_def)

lemma env_prefix:
  assumes "CHR ''='' \<notin> set key" "CHR ''='' \<in> set e"
  shows "take (length key + 1) (key @ CHR ''='' # v) = take (length key + 1) e \<longleftrightarrow> env_name e = key"
proof
  assume "take (length key + 1) (key @ CHR ''='' # v) = take (length key + 1) e"
  then have "take (length key + 1) e @ drop (length key + 1) e = (key @ [CHR ''='']) @ drop (length key + 1) e" by simp
  then have "e = key @ CHR ''='' # drop (length key + 1) e" by simp
  then have "env_name e = env_name (key @ CHR ''='' # drop (length key + 1) e)" by (rule arg_cong)
  then show "env_name e = key" using assms(1) by simp
next
  obtain n w where e: "e = n @ CHR ''='' # w" "CHR ''='' \<notin> set n" using split_list_first [OF assms(2)] by blast
  assume "env_name e = key"
  then have "n = key" using e by simp
  then show "take (length key + 1) (key @ CHR ''='' # v) = take (length key + 1) e" by (simp add: e)
qed

lemma env_slot_list:
  assumes "CHR ''='' \<notin> set key" "\<forall>e \<in> set xs. CHR ''='' \<in> set e"
  shows "\<exists>j p. env_slot mx (key @ CHR ''='' # v) (length key) i pan (map Some xs @ None # r) = Some (i + j, p)
    \<and> j \<le> length xs \<and> (j < length xs \<longrightarrow> env_name (xs ! j) = key) \<and> (j = length xs \<longrightarrow> key \<notin> env_name ` set xs)
    \<and> (\<not> p \<longrightarrow> \<not> pan \<and> (i \<le> mx \<longrightarrow> i + j \<le> mx))"
  using assms(2)
proof (induction xs arbitrary: i pan)
  case (Cons e xs)
  note pre = env_prefix [OF assms(1), of e v]
  show ?case
  proof (cases "env_name e = key")
    case True
    then show ?thesis using Cons.prems pre by (intro exI [of _ 0] exI [of _ "pan \<or> i = mx"]) (auto simp: Let_def)
  next
    case False
    from Cons.IH [of "Suc i" "pan \<or> i = mx"] Cons.prems obtain j p where
      "env_slot mx (key @ CHR ''='' # v) (length key) (Suc i) (pan \<or> i = mx) (map Some xs @ None # r) = Some (Suc i + j, p)"
      "j \<le> length xs" "j < length xs \<longrightarrow> env_name (xs ! j) = key" "j = length xs \<longrightarrow> key \<notin> env_name ` set xs"
      "\<not> p \<longrightarrow> \<not> (pan \<or> i = mx) \<and> (Suc i \<le> mx \<longrightarrow> Suc i + j \<le> mx)"
      by auto
    then show ?thesis using False Cons.prems pre by (intro exI [of _ "Suc j"] exI [of _ p]) (auto simp: Let_def)
  qed
qed auto

lemma env_list_update:
  assumes "env_list mx a xs" "j < length xs" "env_name (xs ! j) = key" "CHR ''='' \<notin> set key"
  shows "env_list mx (a[j := Some (key @ CHR ''='' # v)]) (xs[j := key @ CHR ''='' # v])"
proof -
  have "map env_name (xs[j := key @ CHR ''='' # v]) = map env_name xs"
    using assms(2-4) by (simp add: map_update) (metis list_update_id nth_map)
  moreover have "\<forall>e \<in> set (xs[j := key @ CHR ''='' # v]). CHR ''='' \<in> set e"
    using assms(1) by (auto simp: env_list_def dest!: set_update_subset_insert [THEN subsetD])
  ultimately show ?thesis using assms(1,2) unfolding env_list_def by (simp add: list_update_append map_update)
qed

lemma env_list_append:
  assumes "env_list mx a xs" "length xs \<le> mx" "key \<notin> env_name ` set xs" "CHR ''='' \<notin> set key"
  shows "env_list mx (a[length xs := Some (key @ CHR ''='' # v)]) (xs @ [key @ CHR ''='' # v])"
proof -
  have "mx + 2 - length xs = Suc (mx + 1 - length xs)" using assms(2) by simp
  then show ?thesis using assms unfolding env_list_def by (simp add: list_update_append)
qed

lemma clear_slots_length [simp]: "length (clear_slots is a) = length a"
  by (induction "is" a rule: clear_slots.induct) auto

lemma clear_slots_nth: "k < length a \<Longrightarrow> clear_slots is a ! k = (if k \<in> set is then None else a ! k)"
  by (induction "is" a rule: clear_slots.induct) (auto simp: nth_list_update)

lemma main_handlers:
  "handler_ok E (init_setup E)" "handler_ok E (rdinit_setup E)" "handler_ok E set_reset_devices"
  "handler_ok E debug_kernel" "handler_ok E quiet_kernel" "handler_ok E (loglevel E)" "handler_ok E (set_debug_rodata E)"
  by (auto simp: handler_ok_def init_setup_def rdinit_setup_def set_reset_devices_def debug_kernel_def quiet_kernel_def
      loglevel_def set_debug_rodata_def clear_slots_nth split: option.splits)

text \<open>What the handlers in the table promise.\<close>

locale setup_laws =
  fixes E :: init_env
  assumes limit_law: "1 \<le> ENV_ARG_LIMIT E"
    and table_law: "\<And>p g. p \<in> set (setup_table E) \<Longrightarrow> p_setup p = Some g \<Longrightarrow> handler_ok E g"
begin

lemma handler_arrays: "handler_ok E g \<Longrightarrow> arrays_ok E s \<Longrightarrow> g x s = (r, t) \<Longrightarrow>
    arrays_ok E t \<and> panic_later t = panic_later s \<and> envp_init t = envp_init s"
  unfolding handler_ok_def arrays_ok_def by (metis snd_conv)

lemma checksetup_arrays:
  assumes "arrays_ok E s" "set ps \<subseteq> set (setup_table E)" "checksetup_loop E line had ps s = (f, t)"
  shows "arrays_ok E t \<and> panic_later t = panic_later s \<and> envp_init t = envp_init s"
  using assms
proof (induction ps arbitrary: s had)
  case (Cons p ps)
  have IH: "arrays_ok E t \<and> panic_later t = panic_later u \<and> envp_init t = envp_init u"
    if "checksetup_loop E line h ps u = (f, t)" "arrays_ok E u" for h u
    using Cons.IH [OF that(2) _ that(1)] Cons.prems(2) by simp
  show ?case
  proof (cases "p_setup p")
    case None
    then show ?thesis using Cons.prems IH by (auto simp: Let_def split: if_splits)
  next
    case (Some g)
    have g: "handler_ok E g" using table_law Some Cons.prems(2) by auto
    obtain r u where u: "g (Some (drop (length (p_str p)) line)) s = (r, u)" by fastforce
    have "arrays_ok E u \<and> panic_later u = panic_later s \<and> envp_init u = envp_init s" using handler_arrays [OF g Cons.prems(1) u] .
    then show ?thesis using Cons.prems IH by (auto simp: Let_def Some u split: if_splits)
  qed
qed auto

text \<open>A variable with a new value: the slot is the one of its name, or the first free one.\<close>

lemma env_slot_found:
  assumes "env_list (ENV_ARG_LIMIT E) a xs" "CHR ''='' \<notin> set key"
    and "env_slot (ENV_ARG_LIMIT E) (key @ CHR ''='' # v) (length key) 0 False a = Some (j, b)" "\<not> b"
  shows "\<exists>ys. env_list (ENV_ARG_LIMIT E) (a[j := Some (key @ CHR ''='' # v)]) ys \<and> key @ CHR ''='' # v \<in> set ys
    \<and> filter (\<lambda>e. env_name e \<noteq> key) ys = filter (\<lambda>e. env_name e \<noteq> key) xs"
proof -
  let ?L = "ENV_ARG_LIMIT E" and ?p = "key @ CHR ''='' # v"
  have "?L + 2 - length xs = Suc (?L + 1 - length xs)" using assms(1) by (auto simp: env_list_def)
  then have e: "a = map Some xs @ None # replicate (?L + 1 - length xs) None"
    using assms(1) unfolding env_list_def by (metis replicate_Suc)
  have "\<forall>e \<in> set xs. CHR ''='' \<in> set e" using assms(1) by (simp add: env_list_def)
  from env_slot_list [OF assms(2) this, of ?L v 0 False "replicate (?L + 1 - length xs) None"] have
    j: "j \<le> length xs" "j < length xs \<longrightarrow> env_name (xs ! j) = key" "j = length xs \<longrightarrow> key \<notin> env_name ` set xs" "j \<le> ?L"
    using assms(3,4) unfolding e by auto
  show ?thesis
  proof (cases "j < length xs")
    case True
    have x: "xs = take j xs @ xs ! j # drop (Suc j) xs" using True by (simp add: id_take_nth_drop)
    have u: "xs[j := ?p] = take j xs @ ?p # drop (Suc j) xs" using True by (simp add: upd_conv_take_nth_drop)
    have "filter (\<lambda>e. env_name e \<noteq> key) (xs[j := ?p]) = filter (\<lambda>e. env_name e \<noteq> key) xs"
      unfolding u by (subst (3) x) (use j(2) True assms(2) in simp)
    moreover have "?p \<in> set (xs[j := ?p])" using True by (rule set_update_memI)
    ultimately show ?thesis using env_list_update [OF assms(1) True, of key v] j(2) True assms(2) by blast
  next
    case False
    then have l: "j = length xs" using j(1) by simp
    have "env_list ?L (a[j := Some ?p]) (xs @ [?p])" using env_list_append [OF assms(1), of key v] j l assms(2) by simp
    then show ?thesis using assms(2) by (intro exI [of _ "xs @ [?p]"]) simp
  qed
qed

lemma unknown_bootoption_arrays:
  assumes ok: "arrays_ok E s" and key: "CHR ''='' \<notin> set param"
  shows "\<exists>t. unknown_bootoption E param val s = Some (0, t) \<and> arrays_ok E t"
proof (cases "sysctl_is_alias E param")
  case False
  let ?L = "ENV_ARG_LIMIT E" and ?p = "with_val param val"
  obtain f u where u: "obsolete_checksetup E ?p s = (f, u)" by fastforce
  have uok: "arrays_ok E u" using checksetup_arrays [OF ok subset_refl] u by (auto simp: obsolete_checksetup_def)
  show ?thesis
  proof (cases "f \<or> CHR ''.'' \<in> set (take (length param) ?p) \<or> panic_later u \<noteq> None")
    case True
    then show ?thesis using False uok by (auto simp: unknown_bootoption_def Let_def u)
  next
    case go: False
    then have arr: "length (argv_init u) = ?L + 2" "length (envp_init u) = ?L + 2" "argv_init u ! (?L + 1) = None"
      and "\<exists>xs. env_list ?L (envp_init u) xs"
      using uok by (auto simp: arrays_ok_def)
    then obtain xs where xs: "env_list ?L (envp_init u) xs" by blast
    show ?thesis
    proof (cases val)
      case None
      obtain j p where "arg_slot ?L 0 False (argv_init u) = Some (j, p)" "j \<le> ?L + 1" "p \<longleftrightarrow> ?L < j"
        using arg_slot_end [OF arr(3), of ?L 0 False] arr(1) by auto
      then show ?thesis
        using go False arr xs u unfolding None
        by (auto simp: unknown_bootoption_def Let_def arrays_ok_def nth_list_update)
    next
      case (Some v)
      have p: "?p = param @ CHR ''='' # v" by (simp add: with_val_def Some)
      have "?L + 2 - length xs = Suc (?L + 1 - length xs)" using xs by (auto simp: env_list_def)
      then have e: "envp_init u = map Some xs @ None # replicate (?L + 1 - length xs) None"
        using xs unfolding env_list_def by (metis replicate_Suc)
      have "\<forall>e \<in> set xs. CHR ''='' \<in> set e" using xs by (simp add: env_list_def)
      from env_slot_list [OF key this, of ?L v 0 False "replicate (?L + 1 - length xs) None"] obtain j b where
        j: "env_slot ?L ?p (length param) 0 False (envp_init u) = Some (j, b)"
        unfolding p e by auto
      have "\<exists>ys. env_list ?L ((envp_init u)[j := Some ?p]) ys" if "\<not> b"
        using env_slot_found [OF xs key, of v j b] j(1) that unfolding p by blast
      then show ?thesis
        using go False arr j(1) u unfolding Some by (auto simp: unknown_bootoption_def Let_def arrays_ok_def)
    qed
  qed
qed (use ok in \<open>simp add: unknown_bootoption_def\<close>)

text \<open>An unknown option with a value sets its variable and leaves the others, in their order.\<close>

lemma unknown_bootoption_env:
  assumes "arrays_ok E s" "CHR ''='' \<notin> set key" "\<not> sysctl_is_alias E key" "CHR ''.'' \<notin> set key"
    and c: "obsolete_checksetup E (key @ CHR ''='' # v) s = (False, u)"
    and t: "unknown_bootoption E key (Some v) s = Some (0, t)" "panic_later t = None"
  shows "\<exists>xs ys. env_list (ENV_ARG_LIMIT E) (envp_init s) xs \<and> env_list (ENV_ARG_LIMIT E) (envp_init t) ys \<and> key @ CHR ''='' # v \<in> set ys
    \<and> filter (\<lambda>e. env_name e \<noteq> key) ys = filter (\<lambda>e. env_name e \<noteq> key) xs"
proof -
  let ?L = "ENV_ARG_LIMIT E" and ?p = "key @ CHR ''='' # v"
  have u: "arrays_ok E u" "panic_later u = panic_later s" "envp_init u = envp_init s"
    using checksetup_arrays [OF assms(1) subset_refl] c by (auto simp: obsolete_checksetup_def)
  note d = t(1) [unfolded unknown_bootoption_def with_val_def option.case Let_def append_Cons append_Nil c prod.case]
  have pu: "panic_later u = None" using d t(2) assms(3,4) by (cases "panic_later u") (auto split: if_splits)
  obtain j b where j: "env_slot ?L ?p (length key) 0 False (envp_init u) = Some (j, b)"
    and tt: "t = u\<lparr>envp_init := (envp_init u)[j := Some ?p], panic_later := (if b then Some (''env'', ?p) else panic_later u)\<rparr>"
    using d pu assms(3,4) by (auto simp: bind_eq_Some_conv split: prod.splits)
  have b: "\<not> b" using t(2) unfolding tt by (cases b) simp_all
  obtain xs where xs: "env_list ?L (envp_init u) xs" using u(1) pu by (auto simp: arrays_ok_def)
  have e: "envp_init t = (envp_init u)[j := Some ?p]" unfolding tt by simp
  show ?thesis using env_slot_found [OF xs assms(2) j b] xs unfolding e u(3) by blast
qed

lemma set_init_arg_arrays:
  assumes ok: "arrays_ok E s"
  shows "\<exists>t. set_init_arg E param val s = Some (0, t) \<and> arrays_ok E t"
proof (cases "panic_later s = None")
  case True
  let ?L = "ENV_ARG_LIMIT E"
  have arr: "length (argv_init s) = ?L + 2" "argv_init s ! (?L + 1) = None" using ok True by (auto simp: arrays_ok_def)
  obtain j p where "init_arg_slot ?L 0 (argv_init s) = Some (j, p)" "\<not> p \<longrightarrow> j \<le> ?L"
    using init_arg_slot_end [OF arr(2), of ?L 0] arr(1) by auto
  then show ?thesis
    using ok True by (auto simp: set_init_arg_def Let_def arrays_ok_def nth_list_update)
qed (use ok in \<open>simp add: set_init_arg_def\<close>)

lemma boot_options_arrays:
  assumes "arrays_ok E s" "\<forall>(key, v) \<in> set ps. CHR ''='' \<notin> set key"
  shows "\<exists>t. boot_options E ps s = Some t \<and> arrays_ok E t"
  using assms
proof (induction ps arbitrary: s)
  case (Cons p ps)
  obtain key v where p: "p = (key, v)" by fastforce
  then obtain t where "unknown_bootoption E key v s = Some (0, t)" "arrays_ok E t"
    using unknown_bootoption_arrays [OF Cons.prems(1)] Cons.prems(2) by force
  then show ?case using Cons.IH [of t] Cons.prems(2) by (simp add: p)
qed simp

lemma init_args_arrays: "arrays_ok E s \<Longrightarrow> \<exists>t. init_args E qs s = Some t \<and> arrays_ok E t"
proof (induction qs arbitrary: s)
  case (Cons q qs)
  obtain key v where q: "q = (key, v)" by fastforce
  obtain t where "set_init_arg E key v s = Some (0, t)" "arrays_ok E t" using set_init_arg_arrays [OF Cons.prems] by blast
  then show ?case using Cons.IH [of t] by (simp add: q)
qed simp

lemma boot_state_arrays: "arrays_ok E (boot_state E)"
proof -
  have "env_list (ENV_ARG_LIMIT E) (envp_init (boot_state E)) [''HOME=/'', ''TERM=linux'']"
    using limit_law by (simp add: env_list_def boot_state_def env_name_def)
  then show ?thesis by (auto simp: arrays_ok_def boot_state_def nth_Cons' nth_replicate)
qed

end

section \<open>The command line\<close>

text \<open>
  \<open>boot\<close> is \<^verbatim>\<open>boot_command_line\<close>, \<open>line\<close> the copy that the architecture passes. The results are the two
  buffers and \<^verbatim>\<open>saved_command_line_len\<close>; \<open>None\<close> is a store outside a buffer. New memory is zero. That
  the allocation succeeds is assumed, since the code panics otherwise.
\<close>

definition setup_command_line ::
  "string option \<Rightarrow> string option \<Rightarrow> nat \<Rightarrow> string \<Rightarrow> string \<Rightarrow> (string \<times> string \<times> nat) option" where
  "setup_command_line extra init initargs_offs boot line =
     (let xlen = (case extra of None \<Rightarrow> 0 | Some x \<Rightarrow> length x);
          ilen = (case init of None \<Rightarrow> 0 | Some a \<Rightarrow> length a + 4);
          len = xlen + length boot + 1;
          saved = replicate (len + ilen) NUL;
          static = replicate len NUL in
      Option.bind (if xlen \<noteq> 0 then strcpy 0 (the extra) saved else Some saved) (\<lambda>saved.
      Option.bind (if xlen \<noteq> 0 then strcpy 0 (the extra) static else Some static) (\<lambda>static.
      Option.bind (strcpy xlen boot saved) (\<lambda>saved.
      Option.bind (strcpy xlen line static) (\<lambda>static.
      Option.bind
        (case init of
           None \<Rightarrow> Some saved
         | Some a \<Rightarrow>
           if initargs_offs \<noteq> 0 then
             (let len = xlen + initargs_offs in
              Option.bind (strcpy len a saved) (\<lambda>saved.
                strcpy (len + (ilen - 4)) (drop (initargs_offs - 1) boot) saved))
           else
             (let len = length (cstr saved 0) in
              Option.bind (strcpy len '' -- '' saved) (\<lambda>saved. strcpy (len + 4) a saved)))
        (\<lambda>saved. Some (saved, static, length (cstr saved 0))))))))"

lemma strcpy_append:
  "length xs < length q \<Longrightarrow> strcpy (length p) xs (p @ q) = Some (p @ xs @ NUL # drop (length xs + 1) q)"
  by (simp add: strcpy_def store_at_append)

lemma strcpy_at: "i = length p \<Longrightarrow> length xs < length q \<Longrightarrow> strcpy i xs (p @ q) = Some (p @ xs @ NUL # drop (length xs + 1) q)"
  by (simp add: strcpy_append)

text \<open>The part before the arguments of the first process.\<close>

lemma first_copies:
  assumes "length b \<le> n"
  shows "Option.bind (if x \<noteq> [] then strcpy 0 x (replicate (length x + n + 1) NUL) else Some (replicate (length x + n + 1) NUL))
      (strcpy (length x) b) = Some (x @ b @ replicate (n + 1 - length b) NUL)"
proof -
  have rep: "NUL # replicate (n - length b) NUL = replicate (n + 1 - length b) NUL"
    using assms by (simp add: Suc_diff_le flip: replicate_Suc)
  have 1: "strcpy 0 x (replicate (length x + n + 1) NUL) = Some (x @ NUL # replicate n NUL)"
    using strcpy_at [of 0 "[]" x "replicate (length x + n + 1) NUL"] by simp
  have 2: "strcpy (length x) b (x @ NUL # replicate n NUL) = Some (x @ b @ NUL # replicate (n - length b) NUL)"
    using strcpy_append [of b "NUL # replicate n NUL" x] assms by simp
  show ?thesis
  proof (cases "x = []")
    case True
    then show ?thesis using 2 by (simp add: rep)
  next
    case False
    then show ?thesis using 1 2 by (simp add: rep)
  qed
qed

definition command_line_text :: "string \<Rightarrow> string option \<Rightarrow> nat \<Rightarrow> string \<Rightarrow> string" where
  "command_line_text x init offs boot = (case init of
     None \<Rightarrow> x @ boot
   | Some a \<Rightarrow> if offs \<noteq> 0 then x @ take offs boot @ a @ drop (offs - 1) boot else x @ boot @ '' -- '' @ a)"

lemma cstr_zeros: "no_nul xs \<Longrightarrow> cstr (xs @ replicate (Suc n) NUL) 0 = xs"
  by simp

lemma init_copies:
  assumes "no_nul x" "no_nul boot" "no_nul a" "offs \<le> length boot"
    and b: "b = x @ boot @ replicate (length a + 4 + 1) NUL"
  shows "\<exists>saved. (if offs \<noteq> 0 then Option.bind (strcpy (length x + offs) a b) (strcpy (length x + offs + length a) (drop (offs - 1) boot))
      else Option.bind (strcpy (length (cstr b 0)) '' -- '' b) (strcpy (length (cstr b 0) + 4) a)) = Some saved
    \<and> cstr saved 0 = command_line_text x (Some a) offs boot"
proof (cases "offs = 0")
  case True
  have c: "cstr b 0 = x @ boot" using assms(1,2) cstr_zeros [of "x @ boot" "length a + 4"] by (simp add: b)
  have 1: "strcpy (length (x @ boot)) '' -- '' b = Some ((x @ boot @ '' -- '') @ NUL # replicate (length a) NUL)"
    using strcpy_append [of "'' -- ''" "replicate (length a + 4 + 1) NUL" "x @ boot"] by (simp add: b)
  have 2: "strcpy (length (x @ boot) + 4) a ((x @ boot @ '' -- '') @ NUL # replicate (length a) NUL)
      = Some ((x @ boot @ '' -- '') @ a @ NUL # [])"
    using strcpy_at [of "length (x @ boot) + 4" "x @ boot @ '' -- ''" a "NUL # replicate (length a) NUL"] by simp
  show ?thesis
    using 1 2 assms(1-3) cstr_start [of "x @ boot @ '' -- '' @ a" "[]"] True by (simp add: c command_line_text_def)
next
  case False
  let ?p = "x @ take offs boot" and ?q = "drop offs boot @ replicate (length a + 4 + 1) NUL"
  have l: "length ?p = length x + offs" "b = ?p @ ?q" using assms(4) by (simp_all add: b)
  obtain r where 1: "strcpy (length x + offs) a b = Some (?p @ a @ NUL # r)" and r: "length r = length boot - offs + 4"
    using strcpy_at [of "length x + offs" ?p a ?q] l by simp
  have "strcpy (length x + offs + length a) (drop (offs - 1) boot) ((?p @ a) @ NUL # r)
      = Some ((?p @ a) @ drop (offs - 1) boot @ NUL # drop (length (drop (offs - 1) boot) + 1) (NUL # r))"
    by (rule strcpy_at) (use r l False assms(4) in simp_all)
  moreover have "no_nul (take offs boot)" "no_nul (drop (offs - 1) boot)"
    using assms(2) by (auto simp: no_nul_def dest: in_set_takeD in_set_dropD)
  ultimately show ?thesis
    using 1 False assms(1,3) cstr_start [of "?p @ a @ drop (offs - 1) boot"] by (simp add: command_line_text_def)
qed

text \<open>
  Everything fits: the line that is shown to users holds the options from the boot configuration, the
  options of the boot loader, and the arguments for the first process behind a \<open>--\<close>, in that order and
  complete; the line that is parsed holds the first two.
\<close>

lemma setup_command_line_fits:
  assumes "no_nul x" "no_nul boot" "no_nul line" "length line \<le> length boot" "offs \<le> length boot" "\<And>a. init = Some a \<Longrightarrow> no_nul a"
  shows "\<exists>saved static. setup_command_line (Some x) init offs boot line = Some (saved, static, length (command_line_text x init offs boot))
    \<and> cstr saved 0 = command_line_text x init offs boot \<and> cstr static 0 = x @ line"
proof -
  define ilen where "ilen = (case init of None \<Rightarrow> 0 | Some a \<Rightarrow> length a + 4)"
  let ?b = "x @ boot @ replicate (ilen + 1) NUL"
  have n: "length x + length boot + 1 + ilen = length x + (length boot + ilen) + 1" and diff_n: "length boot + ilen + 1 - length boot = ilen + 1"
    by simp_all
  have s1: "Option.bind (if length x \<noteq> 0 then strcpy 0 x (replicate (length x + length boot + 1 + ilen) NUL)
      else Some (replicate (length x + length boot + 1 + ilen) NUL)) (strcpy (length x) boot) = Some ?b"
    using first_copies [of boot "length boot + ilen" x] unfolding n length_0_conv diff_n by simp
  have s2: "Option.bind (if length x \<noteq> 0 then strcpy 0 x (replicate (length x + length boot + 1) NUL)
      else Some (replicate (length x + length boot + 1) NUL)) (strcpy (length x) line)
      = Some (x @ line @ replicate (length boot + 1 - length line) NUL)"
    using first_copies [of line "length boot" x] assms(4) by simp
  have static: "cstr (x @ line @ replicate (length boot + 1 - length line) NUL) 0 = x @ line"
    using cstr_zeros [of "x @ line" "length boot - length line"] assms(1,3,4) by (simp add: Suc_diff_le)
  let ?st = "x @ line @ replicate (length boot + 1 - length line) NUL"
  obtain w1 where w1: "(if length x \<noteq> 0 then strcpy 0 x (replicate (length x + length boot + 1 + ilen) NUL)
      else Some (replicate (length x + length boot + 1 + ilen) NUL)) = Some w1" "strcpy (length x) boot w1 = Some ?b"
    using s1 unfolding bind_eq_Some_conv by blast
  obtain w2 where w2: "(if length x \<noteq> 0 then strcpy 0 x (replicate (length x + length boot + 1) NUL)
      else Some (replicate (length x + length boot + 1) NUL)) = Some w2" "strcpy (length x) line w2 = Some ?st"
    using s2 unfolding bind_eq_Some_conv by blast
  show ?thesis
  proof (cases init)
    case None
    have "cstr ?b 0 = x @ boot" using cstr_zeros [of "x @ boot" ilen] assms(1,2) by simp
    moreover have z: "length x + length boot + 1 + 0 = length x + length boot + 1 + ilen" by (simp add: ilen_def None)
    have "setup_command_line (Some x) None offs boot line = Some (?b, ?st, length (cstr ?b 0))"
      unfolding setup_command_line_def Let_def option.case option.sel z w1 w2 bind.bind_lunit by (rule refl)
    ultimately show ?thesis using static by (simp only: None command_line_text_def option.case) blast
  next
    case (Some a)
    have i: "ilen = length a + 4" by (simp add: ilen_def Some)
    from init_copies [OF assms(1,2) assms(6) [OF Some] assms(5) refl] obtain saved where
      sv: "(if offs \<noteq> 0 then Option.bind (strcpy (length x + offs) a ?b) (strcpy (length x + offs + length a) (drop (offs - 1) boot))
        else Option.bind (strcpy (length (cstr ?b 0)) '' -- '' ?b) (strcpy (length (cstr ?b 0) + 4) a)) = Some saved"
      "cstr saved 0 = command_line_text x (Some a) offs boot"
      unfolding i by blast
    have "setup_command_line (Some x) (Some a) offs boot line = Some (saved, ?st, length (cstr saved 0))"
      unfolding setup_command_line_def Let_def option.case option.sel i [symmetric] w1 w2 bind.bind_lunit
      using sv(1) by (cases "offs = 0") (simp_all only: if_True if_False i add_diff_cancel_right' not_True_eq_False not_False_eq_True bind.bind_lunit)
    then show ?thesis using static sv(2) by (simp add: Some)
  qed
qed

lemma setup_command_line_None: "setup_command_line None = setup_command_line (Some [])"
  by (intro ext) (simp add: setup_command_line_def)

text \<open>
  The report of unknown options: the arguments after the name of the program and the variables after the
  first two, each with a space before it, written into a buffer of exactly the size computed before. The
  result is the text printed, if any; the outer \<open>None\<close> is an access outside an array or the buffer.
\<close>

fun live :: "string option list \<Rightarrow> string list option" where
  "live [] = None"
| "live (None # r) = Some []"
| "live (Some x # r) = map_option (\<lambda>xs. x # xs) (live r)"

fun sprint_all :: "nat \<Rightarrow> string list \<Rightarrow> string \<Rightarrow> string option" where
  "sprint_all e [] b = Some b"
| "sprint_all e (p # ps) b = Option.bind (strcpy e (CHR '' '' # p) b) (sprint_all (e + length p + 1) ps)"

definition print_unknown_bootoptions :: "(nat \<Rightarrow> bool) \<Rightarrow> init_state \<Rightarrow> string option option" where
  "print_unknown_bootoptions memblock_alloc s =
     (if panic_later s \<noteq> None \<or> argv_init s ! 1 = None \<and> envp_init s ! 2 = None then Some None
      else
        Option.bind (live (drop 1 (argv_init s))) (\<lambda>args.
        Option.bind (live (drop 2 (envp_init s))) (\<lambda>envs.
          (let len = 1 + (\<Sum>p\<leftarrow>args. 1 + length p) + (\<Sum>p\<leftarrow>envs. 1 + length p) in
           if \<not> memblock_alloc len then Some None
           else Option.bind (sprint_all 0 (args @ envs) (replicate len NUL)) (\<lambda>b. Some (Some (cstr b 1)))))))"

lemma sprint_all_fits:
  "sprint_all (length b) ps (b @ replicate ((\<Sum>p\<leftarrow>ps. 1 + length p) + 1) NUL)
    = Some (b @ concat (map (\<lambda>p. CHR '' '' # p) ps) @ [NUL])"
proof (induction ps arbitrary: b)
  case (Cons p ps)
  let ?n = "\<Sum>p\<leftarrow>ps. 1 + length p"
  have "strcpy (length b) (CHR '' '' # p) (b @ replicate (1 + length p + ?n + 1) NUL) = Some ((b @ CHR '' '' # p) @ NUL # replicate ?n NUL)"
    using strcpy_append [of "CHR '' '' # p" "replicate (1 + length p + ?n + 1) NUL" b] by simp
  moreover have "sprint_all (length (b @ CHR '' '' # p)) ps ((b @ CHR '' '' # p) @ NUL # replicate ?n NUL)
      = Some ((b @ CHR '' '' # p) @ concat (map (\<lambda>p. CHR '' '' # p) ps) @ [NUL])"
    using Cons.IH [of "b @ CHR '' '' # p"] by simp
  ultimately show ?case by simp
qed simp

lemma live_ends: "k < length a \<Longrightarrow> a ! k = None \<Longrightarrow> \<exists>xs. live a = Some xs \<and> set xs \<subseteq> {x. Some x \<in> set a}"
proof (induction a arbitrary: k)
  case (Cons x a)
  show ?case
  proof (cases x)
    case (Some y)
    then obtain k' where "k = Suc k'" using Cons.prems(2) by (cases k) auto
    then obtain xs where "live a = Some xs" "set xs \<subseteq> {x. Some x \<in> set a}" using Cons.IH [of k'] Cons.prems by auto
    then show ?thesis by (auto simp: Some)
  qed simp
qed simp


lemma unknown_options_text:
  assumes len: "length (argv_init s) = n + 2" "length (envp_init s) = n + 2"
    and ends: "argv_init s ! (n + 1) = None" "envp_init s ! (n + 1) = None" and n: "1 \<le> n"
  shows "\<exists>args envs. live (drop 1 (argv_init s)) = Some args \<and> live (drop 2 (envp_init s)) = Some envs
    \<and> print_unknown_bootoptions al s =
        Some (if panic_later s \<noteq> None \<or> argv_init s ! 1 = None \<and> envp_init s ! 2 = None
                \<or> \<not> al (1 + (\<Sum>p\<leftarrow>args @ envs. 1 + length p)) then None
              else Some (cstr (concat (map (\<lambda>p. CHR '' '' # p) (args @ envs)) @ [NUL]) 1))"
proof -
  obtain args where a: "live (drop 1 (argv_init s)) = Some args"
    using live_ends [of n "drop 1 (argv_init s)"] len ends by auto
  obtain envs where e: "live (drop 2 (envp_init s)) = Some envs"
    using live_ends [of "n - 1" "drop 2 (envp_init s)"] len ends n by auto
  have sz: "1 + (\<Sum>p\<leftarrow>args. 1 + length p) + (\<Sum>p\<leftarrow>envs. 1 + length p) = (\<Sum>p\<leftarrow>args @ envs. 1 + length p) + 1" by simp
  show ?thesis
    using sprint_all_fits [of "[]" "args @ envs"] unfolding print_unknown_bootoptions_def a e bind.bind_lunit Let_def sz
    by (simp add: a e add.commute)
qed


section \<open>Properties\<close>

text \<open>This file's own handlers.\<close>

definition main_setups :: "init_env \<Rightarrow> obs_kernel_param list" where
  "main_setups E =
     [\<lparr>p_str = ''reset_devices'', p_early = False, p_setup = Some set_reset_devices\<rparr>,
      \<lparr>p_str = ''debug'', p_early = True, p_setup = Some debug_kernel\<rparr>,
      \<lparr>p_str = ''quiet'', p_early = True, p_setup = Some quiet_kernel\<rparr>,
      \<lparr>p_str = ''loglevel'', p_early = True, p_setup = Some (loglevel E)\<rparr>,
      \<lparr>p_str = ''rodata'', p_early = True, p_setup = Some (set_debug_rodata E)\<rparr>,
      \<lparr>p_str = ''init='', p_early = False, p_setup = Some (init_setup E)\<rparr>,
      \<lparr>p_str = ''rdinit='', p_early = False, p_setup = Some (rdinit_setup E)\<rparr>]"

context setup_laws
begin

lemma unknown_options_safe: "arrays_ok E s \<Longrightarrow> \<exists>out. print_unknown_bootoptions al s = Some out"
proof (cases "panic_later s = None")
  case True
  assume ok: "arrays_ok E s"
  then obtain xs where xs: "env_list (ENV_ARG_LIMIT E) (envp_init s) xs" using True by (auto simp: arrays_ok_def)
  have "envp_init s ! (ENV_ARG_LIMIT E + 1) = None"
    using xs by (auto simp: env_list_def nth_append)
  then show ?thesis
    using unknown_options_text [of s "ENV_ARG_LIMIT E" al] ok True limit_law by (auto simp: arrays_ok_def)
qed (simp add: print_unknown_bootoptions_def)

end

text \<open>A machine with these handlers and room for \<open>n\<close> options; names are compared character by character.\<close>

definition main_env0 :: "nat \<Rightarrow> init_env" where
  "main_env0 n = \<lparr>ENV_ARG_LIMIT = n, setup_table = [], parameqn = (\<lambda>a b k. take k a = take k b),
     parameq = (\<lambda>a b. a = b), sysctl_is_alias = (\<lambda>_. False), get_option = (\<lambda>_. None), parse_args = (\<lambda>_. []), arch_parse_debug_rodata = (\<lambda>_. False)\<rparr>"

definition main_env :: "nat \<Rightarrow> init_env" where
  "main_env n = (main_env0 n)\<lparr>setup_table := main_setups (main_env0 n)\<rparr>"

lemma main_env_laws: "1 \<le> n \<Longrightarrow> setup_laws (main_env n)"
proof (unfold_locales, goal_cases)
  case (2 p g)
  then have "handler_ok (main_env0 n) g" using main_handlers [of "main_env0 n"] by (auto simp: main_env_def main_setups_def)
  then show ?case by (simp add: handler_ok_def main_env_def)
qed (simp add: main_env_def main_env0_def)

interpretation boot_table: setup_laws "main_env 32"
  by (rule main_env_laws) simp

text \<open>
  (C16) Whatever the command line holds (the name of an option, split off by \<^verbatim>\<open>parse_args\<close>, has no equals sign; the
  handlers in the table leave the environment alone and keep the last slot of the arguments empty; there is room
  for at least one option), collecting the options for the first process never reads or
  writes outside the two arrays. Unless an overflow was noted, which stops the start later, both arrays
  end with a null pointer, and the environment is a list of variables without a hole in which every name
  occurs once: one more option \<open>key=v\<close> that is no alias of a sysctl, matches no handler and has no dot in its name replaces the
  earlier value of \<open>key\<close>, or is added, and leaves the other variables in their order, unless it overflows. The
  report of the options, printed before what follows \<open>--\<close> is added, stays
  inside the arrays and inside the buffer whose size it computes, whether or not the buffer is allocated.
\<close>

theorem boot_arrays_safe:
  assumes "setup_laws E" "\<forall>(key, v) \<in> set ps. CHR ''='' \<notin> set key"
  shows "\<exists>s t. boot_options E ps (boot_state E) = Some s \<and> init_args E qs s = Some t
    \<and> length (argv_init t) = ENV_ARG_LIMIT E + 2 \<and> length (envp_init t) = ENV_ARG_LIMIT E + 2
    \<and> (panic_later t = None \<longrightarrow> argv_init t ! (ENV_ARG_LIMIT E + 1) = None
        \<and> (\<exists>xs. envp_init t = map Some xs @ replicate (ENV_ARG_LIMIT E + 2 - length xs) None
             \<and> length xs \<le> ENV_ARG_LIMIT E + 1 \<and> distinct (map env_name xs)))
    \<and> (\<exists>out. print_unknown_bootoptions al s = Some out)
    \<and> (\<forall>key v u s'. CHR ''='' \<notin> set key \<and> \<not> sysctl_is_alias E key \<and> CHR ''.'' \<notin> set key
         \<and> obsolete_checksetup E (key @ ''='' @ v) s = (False, u)
         \<and> unknown_bootoption E key (Some v) s = Some (0, s') \<and> panic_later s' = None \<longrightarrow>
        (\<exists>xs ys. envp_init s = map Some xs @ replicate (ENV_ARG_LIMIT E + 2 - length xs) None
           \<and> envp_init s' = map Some ys @ replicate (ENV_ARG_LIMIT E + 2 - length ys) None
           \<and> distinct (map env_name ys) \<and> key @ ''='' @ v \<in> set ys
           \<and> filter (\<lambda>e. env_name e \<noteq> key) ys = filter (\<lambda>e. env_name e \<noteq> key) xs))"
proof -
  obtain s where s: "boot_options E ps (boot_state E) = Some s" "arrays_ok E s"
    using setup_laws.boot_options_arrays [OF assms(1) setup_laws.boot_state_arrays [OF assms(1)] assms(2)] by blast
  obtain t where t: "init_args E qs s = Some t" "arrays_ok E t" using setup_laws.init_args_arrays [OF assms(1) s(2)] by blast
  have "\<exists>out. print_unknown_bootoptions al s = Some out" by (rule setup_laws.unknown_options_safe [OF assms(1) s(2)])
  moreover note setup_laws.unknown_bootoption_env [OF assms(1) s(2)]
  ultimately show ?thesis using s t
    by (intro exI [of _ s] exI [of _ t] conjI allI impI) (simp_all add: arrays_ok_def env_list_def, blast+)
qed

theorem boot_arrays_safe_witness:
  "\<exists>s t. boot_options (main_env 32) [(''HOME'', Some ''/root''), (''single'', None)] (boot_state (main_env 32)) = Some s
     \<and> init_args (main_env 32) [(''-v'', None)] s = Some t \<and> length (argv_init t) = 34
     \<and> (\<exists>out. print_unknown_bootoptions (\<lambda>_. True) s = Some out)"
proof -
  have k: "\<forall>(key, v) \<in> set [(''HOME'', Some ''/root''), (''single'', None)]. CHR ''='' \<notin> set key" by simp
  have "ENV_ARG_LIMIT (main_env 32) + 2 = 34" by (simp add: main_env_def main_env0_def)
  with boot_arrays_safe [OF boot_table.setup_laws_axioms k, of "[(''-v'', None)]" "\<lambda>_. True"] show ?thesis
    by (simp del: boot_options.simps init_args.simps) blast
qed

text \<open>
  \<^verbatim>\<open>init=\<close> is meant to drop all earlier arguments, but its loop ends one short of the last slot that can
  hold one. With room for three options: three arguments, then \<^verbatim>\<open>init=\<close>, then two arguments, and the last
  of the dropped ones is passed to the new program as a third.
\<close>

theorem init_option_leaves_argument:
  "\<exists>s. boot_options (main_env 3) [(''a'', None), (''b'', None), (''c'', None), (''init'', Some ''/bin/sh''), (''d'', None), (''e'', None)]
      (boot_state (main_env 3)) = Some s
    \<and> argv_init s = [Some ''init'', Some ''d'', Some ''e'', Some ''c'', None] \<and> panic_later s = None"
  by (simp add: main_env_def main_env0_def main_setups_def boot_state_def unknown_bootoption_def obsolete_checksetup_def
      with_val_def init_setup_def Let_def numeral_3_eq_3 upt_rec)

end
