(* ===== verification/Init_Bootconfig.thy ===== *)
theory Init_Bootconfig
  imports Init_Params
begin

text \<open>
  The boot configuration of \<^verbatim>\<open>init/main.c\<close>: finding it behind the initial ram disk, printing its keys as a
  command line, and the settings that \<^verbatim>\<open>setup_command_line\<close> uses. The parser of the configuration
  (\<^verbatim>\<open>lib/bootconfig.c\<close>), its constants and \<^verbatim>\<open>parse_args\<close> are parameters.
\<close>

section \<open>Behind the initial ram disk\<close>

text \<open>
  A key of the configuration: its composed name or the error of the composition, and its values, \<open>None\<close>
  for a key without a child. \<open>parse_boot\<close> is the splitting of the line, with the pointer it returns.
\<close>

type_synonym xbc_key = "(int + string) \<times> string list option"

datatype parse_end = Parse_Error | Parse_All | After_Dashes nat

record xbc_env =
  BOOTCONFIG_MAGIC :: "byte list"
  XBC_DATA_MAX :: nat
  BOOT_CONFIG_FORCE :: bool
  xbc_calc_checksum :: "byte list \<Rightarrow> u32"
  xbc_get_embedded_bootconfig :: "byte list option"
  xbc_init :: "byte list \<Rightarrow> int"
  xbc_find_node :: "byte list \<Rightarrow> string \<Rightarrow> xbc_key list option"
  parse_boot :: "string \<Rightarrow> (string \<times> string option) list \<times> parse_end"
  memblock_alloc :: "nat \<Rightarrow> bool"

abbreviation (input) BOOTCONFIG_MAGIC_LEN :: "xbc_env \<Rightarrow> nat" where "BOOTCONFIG_MAGIC_LEN X \<equiv> length (BOOTCONFIG_MAGIC X)"

fun find_magic :: "xbc_env \<Rightarrow> mem \<Rightarrow> nat \<Rightarrow> addr \<Rightarrow> addr option" where
  "find_magic X m 0 data = None"
| "find_magic X m (Suc n) data =
     (if load_bytes m data (BOOTCONFIG_MAGIC_LEN X) = BOOTCONFIG_MAGIC X then Some data else find_magic X m n (data - 1))"

definition dec_u32 :: "byte list \<Rightarrow> u32" where
  "dec_u32 bs = of_nat (le_val bs)"

text \<open>The result is the address and the size of the data, and the new \<^verbatim>\<open>initrd_end\<close>.\<close>

definition get_boot_config_from_initrd :: "xbc_env \<Rightarrow> mem \<Rightarrow> addr \<Rightarrow> addr \<Rightarrow> (addr \<times> u32) option \<times> addr" where
  "get_boot_config_from_initrd X m initrd_start initrd_end =
     (if initrd_end = 0 then (None, initrd_end)
      else case find_magic X m 4 (initrd_end - of_nat (BOOTCONFIG_MAGIC_LEN X)) of
          None \<Rightarrow> (None, initrd_end)
        | Some data \<Rightarrow>
          (let hdr = data - 8;
               size = dec_u32 (load_bytes m hdr 4);
               csum = dec_u32 (load_bytes m (hdr + 4) 4);
               data = hdr - ucast size in
           if data < initrd_start then (None, initrd_end)
           else if xbc_calc_checksum X (load_bytes m data (unat size)) \<noteq> csum then (None, initrd_end)
           else (Some (data, size), data)))"

lemma load_bytes_append: "load_bytes m a (i + n) = load_bytes m a i @ load_bytes m (a + of_nat i) n"
  by (rule nth_equalityI) (auto simp: load_bytes_def nth_append)

lemma load_bytes_part: "i + n \<le> k \<Longrightarrow> load_bytes m (a + of_nat i) n = take n (drop i (load_bytes m a k))"
  by (rule nth_equalityI) (auto simp: load_bytes_def add.assoc)

lemma dec_u32_le_bytes: "v < 2 ^ 32 \<Longrightarrow> dec_u32 (le_bytes 4 v) = of_nat v"
  using le_val_le_bytes [of v 4] by (simp add: dec_u32_def)

lemma find_magic_Some: "find_magic X m n d = Some a \<Longrightarrow> \<exists>k < n. a = d - of_nat k \<and> load_bytes m a (BOOTCONFIG_MAGIC_LEN X) = BOOTCONFIG_MAGIC X"
proof (induction n arbitrary: d)
  case (Suc n)
  show ?case
  proof (cases "load_bytes m d (BOOTCONFIG_MAGIC_LEN X) = BOOTCONFIG_MAGIC X")
    case False
    then obtain k where "k < n" "a = d - 1 - of_nat k" "load_bytes m a (BOOTCONFIG_MAGIC_LEN X) = BOOTCONFIG_MAGIC X"
      using Suc.IH [of "d - 1"] Suc.prems by auto
    then show ?thesis by (intro exI [of _ "Suc k"]) (simp add: diff_diff_eq)
  qed (use Suc.prems in \<open>auto intro: exI [of _ 0]\<close>)
qed simp

lemma find_magic_at:
  assumes "k < n" "load_bytes m (d - of_nat k) (BOOTCONFIG_MAGIC_LEN X) = BOOTCONFIG_MAGIC X"
    and "\<And>j. j < k \<Longrightarrow> load_bytes m (d - of_nat j) (BOOTCONFIG_MAGIC_LEN X) \<noteq> BOOTCONFIG_MAGIC X"
  shows "find_magic X m n d = Some (d - of_nat k)"
  using assms
proof (induction n arbitrary: d k)
  case (Suc n)
  show ?case
  proof (cases k)
    case (Suc i)
    have "load_bytes m (d - 1 - of_nat j) (BOOTCONFIG_MAGIC_LEN X) \<noteq> BOOTCONFIG_MAGIC X" if "j < i" for j
      using Suc.prems(3) [of "Suc j"] that Suc by (simp add: diff_diff_eq)
    then have "find_magic X m n (d - 1) = Some (d - 1 - of_nat i)"
      using Suc.IH [of i "d - 1"] Suc.prems(1,2) Suc by (simp add: diff_diff_eq)
    then show ?thesis using Suc.prems(3) [of 0] Suc by (simp add: diff_diff_eq)
  qed (use Suc.prems in simp)
qed simp

text \<open>
  What is taken lies between the start of the ram disk and its end, with its header and the magic behind
  it, and the ram disk ends where it starts. Kernel addresses are above the largest size, so the
  subtraction of a size does not wrap.
\<close>

lemma boot_config_inside:
  assumes "get_boot_config_from_initrd X m st en = (Some (d, sz), e')" and high: "2 ^ 32 + BOOTCONFIG_MAGIC_LEN X + 11 \<le> unat en"
  shows "e' = d \<and> st \<le> d \<and> (\<exists>k < 4. unat d + unat sz + 8 + BOOTCONFIG_MAGIC_LEN X + k = unat en)
    \<and> dec_u32 (load_bytes m (d + of_nat (unat sz)) 4) = sz
    \<and> xbc_calc_checksum X (load_bytes m d (unat sz)) = dec_u32 (load_bytes m (d + of_nat (unat sz) + 4) 4)"
proof -
  let ?L = "BOOTCONFIG_MAGIC_LEN X"
  obtain a where a: "find_magic X m 4 (en - of_nat ?L) = Some a"
    using assms(1) by (auto simp: get_boot_config_from_initrd_def split: if_splits option.splits)
  then obtain k where k: "k < 4" "a = en - of_nat ?L - of_nat k" using find_magic_Some by blast
  have r: "sz = dec_u32 (load_bytes m (a - 8) 4)" "d = a - 8 - of_nat (unat sz)" "st \<le> d" "e' = d"
    "xbc_calc_checksum X (load_bytes m d (unat sz)) = dec_u32 (load_bytes m (a - 8 + 4) 4)"
    using assms(1) a by (auto simp: get_boot_config_from_initrd_def Let_def split: if_splits)
  have s: "unat sz < 2 ^ 32" using unat_word32_lt [of sz] by simp
  have d: "d = en - of_nat (?L + k + 8 + unat sz)" by (simp add: r(2) k(2) diff_diff_eq add.assoc)
  have "unat d = unat en - (?L + k + 8 + unat sz)"
    unfolding d by (rule unat_sub_of_nat) (use s high k(1) in linarith)
  then have "unat d + unat sz + 8 + ?L + k = unat en" using s high k(1) by linarith
  moreover have "d + of_nat (unat sz) = a - 8" by (simp add: r(2))
  ultimately show ?thesis using r k(1) by auto
qed

text \<open>
  A configuration appended to a ram disk, with up to three bytes of padding, is found and cut off. The
  magic does not overlap itself by the padding.
\<close>

definition boot_trailer :: "xbc_env \<Rightarrow> byte list \<Rightarrow> byte list" where
  "boot_trailer X bs = bs @ le_bytes 4 (length bs) @ le_bytes 4 (unat (xbc_calc_checksum X bs)) @ BOOTCONFIG_MAGIC X"

lemma boot_config_found:
  assumes m: "load_bytes m d (length (boot_trailer X bs @ pad)) = boot_trailer X bs @ pad"
    and en: "en = d + of_nat (length (boot_trailer X bs @ pad))" "en \<noteq> 0" and st: "st \<le> d"
    and len: "length bs < 2 ^ 32" "length pad < 4"
    and magic: "\<And>j. 0 < j \<Longrightarrow> j < 4 \<Longrightarrow> BOOTCONFIG_MAGIC X ! j \<noteq> BOOTCONFIG_MAGIC X ! 0" "4 \<le> BOOTCONFIG_MAGIC_LEN X"
  shows "get_boot_config_from_initrd X m st en = (Some (d, of_nat (length bs)), d)"
proof -
  let ?L = "BOOTCONFIG_MAGIC_LEN X" and ?n = "length bs" and ?p = "length pad" and ?t = "boot_trailer X bs @ pad"
  have t: "length ?t = ?n + 8 + ?L + ?p" by (simp add: boot_trailer_def)
  have part: "load_bytes m (d + of_nat i) k = take k (drop i ?t)" if "i + k \<le> length ?t" for i k
    using load_bytes_part [OF that, of m d] m by simp
  have off: "en - of_nat ?L - of_nat j = d + of_nat (?n + 8 + (?p - j))" if "j \<le> ?p" for j
    using that unfolding en(1) t by (simp add: of_nat_diff)
  have hit: "load_bytes m (en - of_nat ?L - of_nat ?p) ?L = BOOTCONFIG_MAGIC X"
    unfolding off [OF order_refl] using part [of "?n + 8 + (?p - ?p)" ?L] t by (simp add: boot_trailer_def)
  have miss: "load_bytes m (en - of_nat ?L - of_nat j) ?L \<noteq> BOOTCONFIG_MAGIC X" if "j < ?p" for j
  proof
    assume "load_bytes m (en - of_nat ?L - of_nat j) ?L = BOOTCONFIG_MAGIC X"
    then have "take ?L (drop (?n + 8 + (?p - j)) ?t) = BOOTCONFIG_MAGIC X"
      using off [of j] part [of "?n + 8 + (?p - j)" ?L] that t by simp
    then have "take ?L (drop (?n + 8 + (?p - j)) ?t) ! 0 = BOOTCONFIG_MAGIC X ! 0" by simp
    then have "BOOTCONFIG_MAGIC X ! (?p - j) = BOOTCONFIG_MAGIC X ! 0"
      using that magic(2) len(2) by (simp add: boot_trailer_def nth_append)
    then show False using magic(1) [of "?p - j"] that len(2) by simp
  qed
  have f: "find_magic X m 4 (en - of_nat ?L) = Some (en - of_nat ?L - of_nat ?p)" by (rule find_magic_at [OF len(2) hit miss])
  have h: "en - of_nat ?L - of_nat ?p - 8 = d + of_nat ?n" using off [OF order_refl] by simp
  have size: "dec_u32 (load_bytes m (d + of_nat ?n) 4) = of_nat ?n"
    using part [of ?n 4] t len(1) by (simp add: boot_trailer_def dec_u32_le_bytes)
  have csum: "dec_u32 (load_bytes m (d + of_nat ?n + 4) 4) = xbc_calc_checksum X bs"
    using part [of "?n + 4" 4] t by (simp add: boot_trailer_def dec_u32_le_bytes unat_word32_lt add.assoc)
  have n: "unat (of_nat ?n :: u32) = ?n" using len(1) by (simp add: unat_of_nat take_bit_eq_mod)
  have "(ucast (of_nat ?n :: u32) :: addr) = of_nat (unat (of_nat ?n :: u32))" by simp
  then have "(ucast (of_nat ?n :: u32) :: addr) = of_nat ?n" unfolding n .
  moreover note n
  moreover have "load_bytes m d ?n = bs" using part [of 0 ?n] t by (simp add: boot_trailer_def)
  ultimately show ?thesis using en(2) st by (simp add: get_boot_config_from_initrd_def f h size csum Let_def)
qed

section \<open>Printing keys\<close>

text \<open>
  The buffer with its size; \<open>at\<close> is the distance of the pointer from its start, which moves past the end
  when the text does not fit. \<open>None\<close> is a store outside the buffer.
\<close>

definition rest :: "nat \<Rightarrow> nat \<Rightarrow> nat" where
  "rest at sz = (if sz > at then sz - at else 0)"

definition snprintf :: "nat \<Rightarrow> nat \<Rightarrow> string \<Rightarrow> string \<Rightarrow> string option" where
  "snprintf at room txt b = (if room = 0 then Some b else store_at at (take (room - 1) txt @ [NUL]) b)"

fun print_items :: "nat \<Rightarrow> nat \<Rightarrow> string list \<Rightarrow> string \<Rightarrow> (nat \<times> string) option" where
  "print_items sz at [] b = Some (at, b)"
| "print_items sz at (t # ts) b = Option.bind (snprintf at (rest at sz) t b) (print_items sz (at + length t) ts)"

definition key_items :: "string \<Rightarrow> string list option \<Rightarrow> string list" where
  "key_items nm vals = (case vals of None \<Rightarrow> [nm @ '' ''] | Some vs \<Rightarrow> map (\<lambda>v. nm @ ''=\"'' @ v @ ''\" '') vs)"

fun print_keys :: "nat \<Rightarrow> nat \<Rightarrow> xbc_key list \<Rightarrow> string \<Rightarrow> (int \<times> string) option" where
  "print_keys sz at [] b = Some (sint (of_nat at :: u32), b)"
| "print_keys sz at ((Inl e, vals) # ks) b = Some (e, b)"
| "print_keys sz at ((Inr nm, vals) # ks) b = Option.bind (print_items sz at (key_items nm vals) b) (\<lambda>(at, b). print_keys sz at ks b)"

definition xbc_snprint_cmdline :: "nat \<Rightarrow> xbc_key list \<Rightarrow> string \<Rightarrow> (int \<times> string) option" where
  "xbc_snprint_cmdline sz root b = print_keys sz 0 root b"

definition xbc_make_cmdline :: "xbc_env \<Rightarrow> byte list \<Rightarrow> string \<Rightarrow> string option option" where
  "xbc_make_cmdline X data key =
     (case xbc_find_node X data key of
        None \<Rightarrow> Some None
      | Some root \<Rightarrow>
        Option.bind (xbc_snprint_cmdline 0 root []) (\<lambda>(len, _).
          if len \<le> 0 then Some None
          else if \<not> memblock_alloc X (nat len + 1) then Some None
          else Option.bind (xbc_snprint_cmdline (nat len + 1) root (replicate (nat len + 1) NUL)) (\<lambda>(ret, b).
            if ret < 0 \<or> ret > len then Some None else Some (Some (cstr b 0)))))"

text \<open>What the two passes print.\<close>

fun keys_text :: "xbc_key list \<Rightarrow> int + string" where
  "keys_text [] = Inr []"
| "keys_text ((Inl e, vals) # ks) = Inl e"
| "keys_text ((Inr nm, vals) # ks) = (case keys_text ks of Inl e \<Rightarrow> Inl e | Inr t \<Rightarrow> Inr (concat (key_items nm vals) @ t))"

lemma measure_items: "print_items 0 at ts b = Some (at + length (concat ts), b)"
  by (induction ts arbitrary: at) (simp_all add: snprintf_def rest_def)

lemma measure_keys:
  "print_keys 0 at ks b = Some (case keys_text ks of Inl e \<Rightarrow> e | Inr t \<Rightarrow> sint (of_nat (at + length t) :: u32), b)"
  by (induction ks arbitrary: at rule: keys_text.induct) (simp_all add: measure_items add.assoc split: sum.splits)

text \<open>A buffer with a text at its start and zeros behind it.\<close>

definition text_in :: "string \<Rightarrow> nat \<Rightarrow> string" where
  "text_in t n = t @ replicate (n - length t) NUL"

lemma snprintf_fits:
  assumes "length t + length u < n"
  shows "snprintf (length t) (rest (length t) n) u (text_in t n) = Some (text_in (t @ u) n)"
proof -
  have "replicate (n - (length t + length u)) NUL = NUL # replicate (n - (length t + length u) - 1) NUL"
    using assms by (cases "n - (length t + length u)") auto
  then show ?thesis
    using assms by (simp add: snprintf_def rest_def text_in_def store_at_append)
qed

lemma print_items_fit:
  "length t + length (concat ts) < n \<Longrightarrow> print_items n (length t) ts (text_in t n) = Some (length t + length (concat ts), text_in (t @ concat ts) n)"
proof (induction ts arbitrary: t)
  case (Cons u ts)
  then show ?case using snprintf_fits [of t u n] Cons.IH [of "t @ u"] by (simp add: add.assoc)
qed simp

lemma print_keys_fit:
  "keys_text ks = Inr u \<Longrightarrow> length t + length u < n
    \<Longrightarrow> print_keys n (length t) ks (text_in t n) = Some (sint (of_nat (length t + length u) :: u32), text_in (t @ u) n)"
proof (induction ks arbitrary: t u rule: keys_text.induct)
  case (3 nm vals ks)
  then obtain v where v: "keys_text ks = Inr v" "u = concat (key_items nm vals) @ v" by (auto split: sum.splits)
  have "print_items n (length t) (key_items nm vals) (text_in t n)
      = Some (length (t @ concat (key_items nm vals)), text_in (t @ concat (key_items nm vals)) n)"
    using print_items_fit [of t "key_items nm vals" n] 3(3) v(2) by simp
  then show ?case using 3(1) [OF v(1), of "t @ concat (key_items nm vals)"] 3(3) v(2) by (simp add: add.assoc)
qed simp_all

section \<open>The settings\<close>

record config_state =
  initrd_end :: addr
  bootconfig_found :: bool
  initargs_offs :: nat
  extra_command_line :: "string option"
  extra_init_args :: "string option"

definition bootconfig_params :: "string \<Rightarrow> config_state \<Rightarrow> config_state" where
  "bootconfig_params param s = (if param = ''bootconfig'' then s\<lparr>bootconfig_found := True\<rparr> else s)"

definition setup_boot_config :: "xbc_env \<Rightarrow> mem \<Rightarrow> addr \<Rightarrow> string \<Rightarrow> config_state \<Rightarrow> config_state option" where
  "setup_boot_config X m initrd_start boot_command_line s =
     (case get_boot_config_from_initrd X m initrd_start (initrd_end s) of (found, en) \<Rightarrow>
      (let s = s\<lparr>initrd_end := en\<rparr>;
           data = (case found of Some (d, sz) \<Rightarrow> Some (load_bytes m d (unat sz)) | None \<Rightarrow> xbc_get_embedded_bootconfig X) in
       case parse_boot X (take (COMMAND_LINE_SIZE - 1) boot_command_line) of (ps, err) \<Rightarrow>
         (let s = fold (\<lambda>(param, val). bootconfig_params param) ps s in
          if err = Parse_Error \<or> \<not> (bootconfig_found s \<or> BOOT_CONFIG_FORCE X) then Some s
          else
            (let s = (case err of After_Dashes k \<Rightarrow> s\<lparr>initargs_offs := k\<rparr> | _ \<Rightarrow> s) in
             case data of
               None \<Rightarrow> Some s
             | Some bs \<Rightarrow>
               if length bs \<ge> XBC_DATA_MAX X then Some s
               else if xbc_init X bs < 0 then Some s
               else
                 Option.bind (xbc_make_cmdline X bs ''kernel'') (\<lambda>x.
                 Option.bind (xbc_make_cmdline X bs ''init'') (\<lambda>a.
                   Some (s\<lparr>extra_command_line := x, extra_init_args := a\<rparr>)))))))"

text \<open>The line for a key: nothing without the key, without text, or without memory.\<close>

definition made :: "xbc_env \<Rightarrow> xbc_key list option \<Rightarrow> string option" where
  "made X root = (case root of None \<Rightarrow> None | Some ks \<Rightarrow> (case keys_text ks of Inl e \<Rightarrow> None
     | Inr t \<Rightarrow> if t \<noteq> [] \<and> memblock_alloc X (length t + 1) then Some t else None))"

text \<open>The settings that the assembly of the command line needs.\<close>

definition config_ok :: "string \<Rightarrow> config_state \<Rightarrow> bool" where
  "config_ok boot s \<longleftrightarrow> initargs_offs s \<le> length boot \<and> (\<forall>t. extra_command_line s = Some t \<longrightarrow> no_nul t)
     \<and> (\<forall>t. extra_init_args s = Some t \<longrightarrow> no_nul t)"

lemma params_fields:
  "initargs_offs (fold (\<lambda>(param, val). bootconfig_params param) ps s) = initargs_offs s"
  "extra_command_line (fold (\<lambda>(param, val). bootconfig_params param) ps s) = extra_command_line s"
  "extra_init_args (fold (\<lambda>(param, val). bootconfig_params param) ps s) = extra_init_args s"
  by (induction ps arbitrary: s) (auto simp: bootconfig_params_def)

lemma params_found: "fold (\<lambda>(param, val). bootconfig_params param) ps s = s\<lparr>bootconfig_found := bootconfig_found s \<or> ''bootconfig'' \<in> fst ` set ps\<rparr>"
proof (induction ps arbitrary: s)
  case (Cons p ps)
  then show ?case by (cases p) (auto simp: bootconfig_params_def)
qed simp

text \<open>
  What the code relies on: the magic starts with a character that does not come back within its first
  four, the errors of the composition are negative, the text of a configuration is shorter than the largest \<^verbatim>\<open>int\<close>, and \<^verbatim>\<open>parse_args\<close>
  returns a pointer into the line it was given.
\<close>

definition key_law :: "xbc_key list \<Rightarrow> bool" where
  "key_law ks \<longleftrightarrow> (case keys_text ks of Inl e \<Rightarrow> e < 0 | Inr t \<Rightarrow> no_nul t \<and> length t < 2 ^ 31)"

locale xbc_laws =
  fixes X :: xbc_env
  assumes magic_law: "4 \<le> BOOTCONFIG_MAGIC_LEN X" "\<And>j. 0 < j \<Longrightarrow> j < 4 \<Longrightarrow> BOOTCONFIG_MAGIC X ! j \<noteq> BOOTCONFIG_MAGIC X ! 0"
    and key_laws: "\<And>bs key ks. xbc_find_node X bs key = Some ks \<Longrightarrow> key_law ks"
    and dashes_law: "\<And>line ps k. parse_boot X line = (ps, After_Dashes k) \<Longrightarrow> k \<le> length line"
begin

lemma make_cmdline_exact: "xbc_make_cmdline X bs key = Some (made X (xbc_find_node X bs key))"
proof (cases "xbc_find_node X bs key")
  case (Some ks)
  note law = key_laws [OF Some, unfolded key_law_def]
  show ?thesis
  proof (cases "keys_text ks")
    case (Inl e)
    then show ?thesis using law by (simp add: xbc_make_cmdline_def made_def Some xbc_snprint_cmdline_def measure_keys)
  next
    case (Inr t)
    have len: "sint (of_nat (length t) :: u32) = int (length t)"
      using law Inr by (simp add: signed_of_nat signed_take_bit_int_eq_self)
    have "text_in [] (length t + 1) = replicate (length t + 1) NUL" "text_in t (length t + 1) = t @ [NUL]"
      by (simp_all add: text_in_def)
    then have "print_keys (length t + 1) 0 ks (replicate (length t + 1) NUL) = Some (int (length t), t @ [NUL])"
      using print_keys_fit [OF Inr, of "[]" "length t + 1"] len by simp
    then show ?thesis
      using law Inr len by (simp add: xbc_make_cmdline_def made_def Some xbc_snprint_cmdline_def measure_keys)
  qed
qed (simp add: xbc_make_cmdline_def made_def)

lemma made_no_nul: "made X (xbc_find_node X bs key) = Some t \<Longrightarrow> no_nul t"
  using key_laws [of bs key] by (auto simp: made_def key_law_def split: option.splits sum.splits if_splits)

lemma boot_config_ok:
  assumes "config_ok boot s"
  shows "\<exists>t. setup_boot_config X m st boot s = Some t \<and> config_ok boot t"
proof -
  obtain f en where f: "get_boot_config_from_initrd X m st (initrd_end s) = (f, en)" by fastforce
  obtain ps err where p: "parse_boot X (take (COMMAND_LINE_SIZE - 1) boot) = (ps, err)" by fastforce
  define s1 where "s1 = fold (\<lambda>(param, val). bootconfig_params param) ps (s\<lparr>initrd_end := en\<rparr>)"
  have s1: "config_ok boot s1" using assms by (simp add: config_ok_def s1_def params_fields)
  define s2 where "s2 = (case err of After_Dashes k \<Rightarrow> s1\<lparr>initargs_offs := k\<rparr> | _ \<Rightarrow> s1)"
  have "k \<le> length boot" if "err = After_Dashes k" for k using dashes_law [OF p [unfolded that]] by simp
  then have s2: "config_ok boot s2" using s1 by (auto simp: config_ok_def s2_def split: parse_end.splits)
  have s3: "config_ok boot (s2\<lparr>extra_command_line := made X (xbc_find_node X bs k), extra_init_args := made X (xbc_find_node X bs k')\<rparr>)" for bs k k'
    using s2 made_no_nul by (auto simp: config_ok_def)
  define data where "data = (case f of Some (d, sz) \<Rightarrow> Some (load_bytes m d (unat sz)) | None \<Rightarrow> xbc_get_embedded_bootconfig X)"
  have "setup_boot_config X m st boot s =
      (if err = Parse_Error \<or> \<not> (bootconfig_found s1 \<or> BOOT_CONFIG_FORCE X) then Some s1
       else case data of None \<Rightarrow> Some s2
         | Some bs \<Rightarrow> if length bs \<ge> XBC_DATA_MAX X \<or> xbc_init X bs < 0 then Some s2
           else Some (s2\<lparr>extra_command_line := made X (xbc_find_node X bs ''kernel''), extra_init_args := made X (xbc_find_node X bs ''init'')\<rparr>))"
    unfolding setup_boot_config_def f p prod.case Let_def s1_def [symmetric] s2_def [symmetric] data_def [symmetric] make_cmdline_exact bind.bind_lunit
    by (auto split: option.splits)
  then show ?thesis using s1 s2 s3 by (auto split: option.splits)
qed

end

section \<open>Properties\<close>

text \<open>
  A configuration parser for the interpretation: one key whose value is the text of the data; the line is
  split at the spaces.
\<close>

fun words :: "string \<Rightarrow> string \<Rightarrow> string list" where
  "words w [] = (if w = [] then [] else [w])"
| "words w (c # cs) = (if c = CHR '' '' then if w = [] then words [] cs else w # words [] cs else words (w @ [c]) cs)"

definition demo_text :: "byte list \<Rightarrow> string" where
  "demo_text bs = take 100 (filter (\<lambda>c. c \<noteq> NUL) (map (\<lambda>b. char_of (unat b)) bs))"

definition demo_xbc :: "xbc_env" where
  "demo_xbc = \<lparr>BOOTCONFIG_MAGIC = map (\<lambda>c. of_nat (of_char c)) (''#BOOTCONFIG'' @ [CHR 0x0A]), XBC_DATA_MAX = 32767, BOOT_CONFIG_FORCE = False,
     xbc_calc_checksum = (\<lambda>bs. of_nat (sum_list (map unat bs))), xbc_get_embedded_bootconfig = None,
     xbc_init = (\<lambda>bs. if bs = [] then - 1 else 1),
     xbc_find_node = (\<lambda>bs key. if key = ''kernel'' then Some [(Inr ''mode'', Some [demo_text bs])] else None),
     parse_boot = (\<lambda>line. (map (\<lambda>w. (w, None)) (words [] line), Parse_All)), memblock_alloc = (\<lambda>n. True)\<rparr>"

interpretation demo_config: xbc_laws demo_xbc
proof (unfold_locales, goal_cases)
  case (2 j)
  then consider "j = 1" | "j = 2" | "j = 3" by linarith
  then show ?case by cases (simp_all add: demo_xbc_def nth_Cons' of_char_def)
next
  case (3 bs key ks)
  then have "ks = [(Inr ''mode'', Some [demo_text bs])]" by (simp add: demo_xbc_def split: if_splits)
  moreover have "no_nul (demo_text bs)" "length (demo_text bs) \<le> 100"
    by (auto simp: demo_text_def no_nul_def dest: in_set_takeD)
  ultimately show ?case by (simp add: key_law_def key_items_def)
qed (auto simp: demo_xbc_def)

definition config_start :: "addr \<Rightarrow> config_state" where
  "config_start en = \<lparr>initrd_end = en, bootconfig_found = False, initargs_offs = 0, extra_command_line = None, extra_init_args = None\<rparr>"

definition line_of :: "string option \<Rightarrow> string" where
  "line_of x = (case x of None \<Rightarrow> [] | Some t \<Rightarrow> t)"

text \<open>
  (C17) The boot configuration and the command line are assembled without a store outside a buffer,
  whatever the ram disk and the line hold. The line shown to users is complete: the options from the
  configuration, those of the boot loader, and the arguments for the first process; the line that is
  parsed is the options from the configuration followed by the line of the architecture.
\<close>

theorem boot_line_assembled:
  assumes "xbc_laws X" "no_nul boot" "no_nul line" "length line \<le> length boot"
  shows "\<exists>c saved static. setup_boot_config X m st boot (config_start en) = Some c
    \<and> setup_command_line (extra_command_line c) (extra_init_args c) (initargs_offs c) boot line
        = Some (saved, static, length (cstr saved 0))
    \<and> cstr saved 0 = command_line_text (line_of (extra_command_line c)) (extra_init_args c) (initargs_offs c) boot
    \<and> cstr static 0 = line_of (extra_command_line c) @ line"
proof -
  have "config_ok boot (config_start en)" by (simp add: config_ok_def config_start_def)
  then obtain c where c: "setup_boot_config X m st boot (config_start en) = Some c" "config_ok boot c"
    using xbc_laws.boot_config_ok [OF assms(1)] by blast
  have eq: "setup_command_line (extra_command_line c) = setup_command_line (Some (line_of (extra_command_line c)))"
    by (cases "extra_command_line c") (simp_all add: line_of_def setup_command_line_None)
  have "no_nul (line_of (extra_command_line c))" using c(2) by (cases "extra_command_line c") (auto simp: line_of_def config_ok_def)
  from setup_command_line_fits [OF this assms(2-4), of "initargs_offs c" "extra_init_args c"] c(2) obtain saved static where
    "setup_command_line (Some (line_of (extra_command_line c))) (extra_init_args c) (initargs_offs c) boot line
      = Some (saved, static, length (command_line_text (line_of (extra_command_line c)) (extra_init_args c) (initargs_offs c) boot))"
    "cstr saved 0 = command_line_text (line_of (extra_command_line c)) (extra_init_args c) (initargs_offs c) boot"
    "cstr static 0 = line_of (extra_command_line c) @ line"
    unfolding config_ok_def by blast
  then show ?thesis using c(1) by (auto simp: eq)
qed

theorem boot_line_assembled_witness:
  "\<exists>c saved static. setup_boot_config demo_xbc (\<lambda>_. 0) 0 ''ro bootconfig'' (config_start 4096) = Some c
    \<and> setup_command_line (extra_command_line c) (extra_init_args c) (initargs_offs c) ''ro bootconfig'' ''ro bootconfig''
        = Some (saved, static, length (cstr saved 0))
    \<and> cstr static 0 = line_of (extra_command_line c) @ ''ro bootconfig''"
  using boot_line_assembled [OF demo_config.xbc_laws_axioms, of "''ro bootconfig''" "''ro bootconfig''" "\<lambda>_. 0" 0 4096] by auto

text \<open>
  (C20) A configuration of less than \<^verbatim>\<open>XBC_DATA_MAX\<close> bytes that was appended to the ram disk with its size, its
  checksum and the magic, and up to three bytes of padding, is found again, whatever the command line holds: the ram disk
  then ends where the configuration started, also when the configuration is not used. It is used when the line could be split and has the option
  \<^verbatim>\<open>bootconfig\<close>, or its use is forced by \<^verbatim>\<open>CONFIG_BOOT_CONFIG_FORCE\<close>; then the place of the arguments behind \<open>--\<close> is
  noted, and if the parser accepts the configuration the extra options and the extra arguments
  are the texts of its keys \<^verbatim>\<open>kernel\<close> and \<^verbatim>\<open>init\<close>. Otherwise there are none. (The configuration lies inside the ram disk, which
  does not end at address 0; \<^verbatim>\<open>XBC_DATA_MAX\<close> is at most \<open>2 ^ 32\<close>; no later byte among the first four of the magic equals its
  first one; the parser keeps its contract.)
\<close>

theorem boot_config_roundtrip:
  assumes "xbc_laws X" "load_bytes m d (length (boot_trailer X bs @ pad)) = boot_trailer X bs @ pad"
    and "en = d + of_nat (length (boot_trailer X bs @ pad))" "en \<noteq> 0" "st \<le> d" "length pad < 4"
    and "length bs < XBC_DATA_MAX X" "XBC_DATA_MAX X \<le> 2 ^ 32"
    and p: "parse_boot X (take (COMMAND_LINE_SIZE - 1) boot) = (ps, err)"
    and asked: "asked \<longleftrightarrow> ''bootconfig'' \<in> fst ` set ps"
    and used: "used \<longleftrightarrow> err \<noteq> Parse_Error \<and> (asked \<or> BOOT_CONFIG_FORCE X)"
  shows "setup_boot_config X m st boot (config_start en) =
    Some \<lparr>initrd_end = d, bootconfig_found = asked,
          initargs_offs = (if used then case err of After_Dashes k \<Rightarrow> k | _ \<Rightarrow> 0 else 0),
          extra_command_line = (if used \<and> 0 \<le> xbc_init X bs then made X (xbc_find_node X bs ''kernel'') else None),
          extra_init_args = (if used \<and> 0 \<le> xbc_init X bs then made X (xbc_find_node X bs ''init'') else None)\<rparr>"
proof -
  have len: "length bs < 2 ^ 32" using assms(7,8) by linarith
  have f: "get_boot_config_from_initrd X m st en = (Some (d, of_nat (length bs)), d)"
    by (rule boot_config_found [OF assms(2-5) len assms(6)]) (use xbc_laws.magic_law [OF assms(1)] in auto)
  have n: "unat (of_nat (length bs) :: u32) = length bs" using len by (simp add: unat_of_nat take_bit_eq_mod)
  have b: "load_bytes m d (length bs) = bs"
    using load_bytes_part [of 0 "length bs" "length (boot_trailer X bs @ pad)" m d] assms(2) by (simp add: boot_trailer_def)
  have st: "initrd_end (config_start en) = en" by (simp add: config_start_def)
  have ps: "fold (\<lambda>(param, val). bootconfig_params param) ps ((config_start en)\<lparr>initrd_end := d\<rparr>)
      = \<lparr>initrd_end = d, bootconfig_found = asked, initargs_offs = 0, extra_command_line = None, extra_init_args = None\<rparr>"
    using params_found [of ps "(config_start en)\<lparr>initrd_end := d\<rparr>"] by (simp add: config_start_def asked)
  show ?thesis
    unfolding setup_boot_config_def st f p n b prod.case option.case Let_def xbc_laws.make_cmdline_exact [OF assms(1)] bind.bind_lunit ps used
    using assms(7) by (cases err) auto
qed

theorem boot_config_roundtrip_witness:
  "setup_boot_config demo_xbc (store_bytes (\<lambda>_. 0) 4096 (boot_trailer demo_xbc [102, 97, 115, 116] @ [0])) 0 ''ro bootconfig'' (config_start 4121) =
    Some \<lparr>initrd_end = 4096, bootconfig_found = True, initargs_offs = 0,
          extra_command_line = Some ''mode=\"fast\" '', extra_init_args = None\<rparr>"
proof -
  have len: "length (boot_trailer demo_xbc [102, 97, 115, 116] @ [0]) = 25" by (simp add: boot_trailer_def demo_xbc_def)
  let ?t = "boot_trailer demo_xbc [102, 97, 115, 116] @ [0]"
  have m: "load_bytes (store_bytes (\<lambda>_. 0) 4096 ?t) 4096 (length ?t) = ?t" by (rule load_store_bytes) (simp only: len, simp)
  have p: "parse_boot demo_xbc (take (COMMAND_LINE_SIZE - 1) ''ro bootconfig'') = ([(''ro'', None), (''bootconfig'', None)], Parse_All)"
    by (simp add: demo_xbc_def)
  have x: "XBC_DATA_MAX demo_xbc = 32767" "made demo_xbc (xbc_find_node demo_xbc [102, 97, 115, 116] ''init'') = None"
    "made demo_xbc (xbc_find_node demo_xbc [102, 97, 115, 116] ''kernel'') = Some ''mode=\"fast\" ''"
    "0 \<le> xbc_init demo_xbc [102, 97, 115, 116]"
    by (simp_all add: made_def demo_xbc_def key_items_def demo_text_def char_of_def bit_Suc_0_iff)
  show ?thesis
    using boot_config_roundtrip [OF demo_config.xbc_laws_axioms m, of 4121 0 "''ro bootconfig''", OF _ _ _ _ _ _ p refl refl]
    unfolding len x by (simp add: x)
qed

end
