(* ===== verification/Init_Calls.thy ===== *)
theory Init_Calls
  imports Init_Bootconfig
begin

text \<open>
  The calls that initialise the parts of the kernel, and the first process: \<^verbatim>\<open>do_one_initcall\<close> and its
  callers, the blacklist, \<^verbatim>\<open>kernel_init\<close> and \<^verbatim>\<open>console_on_rootfs\<close> of \<^verbatim>\<open>init/main.c\<close>. The functions called,
  the table the linker builds, and the execution of a program are parameters.
\<close>

section \<open>State\<close>

text \<open>What a called function can change, and what stays private to the file.\<close>

record 'w kcpu =
  preempt_count :: int
  irqs_off :: bool
  world :: 'w

text \<open>\<open>called\<close> is the history of the functions that were run; \<open>timings\<close> the messages of the tracing.\<close>

record 'w calls =
  kc :: "'w kcpu"
  blacklisted_initcalls :: "string list"
  initcall_calltime :: int
  timings :: "(addr \<times> int \<times> int) list"
  warnings :: "(addr \<times> string) list"
  called :: "addr list"

record 'w calls_env =
  initcall :: "addr \<Rightarrow> 'w kcpu \<Rightarrow> int \<times> 'w kcpu"
  initcall_entries :: "addr list"
  initcall_levels :: "nat list"
  sprint_symbol_no_offset :: "addr \<Rightarrow> string"
  initcall_debug :: bool
  ktime_get :: "'w kcpu \<Rightarrow> int"
  parse_level :: "nat \<Rightarrow> string \<Rightarrow> 'w kcpu \<Rightarrow> string \<times> 'w kcpu"
  call_alloc :: "nat \<Rightarrow> bool"


section \<open>The blacklist\<close>

definition strsep :: "string \<Rightarrow> string \<times> string option" where
  "strsep str = (takeWhile (\<lambda>c. c \<noteq> CHR '','') str,
     case dropWhile (\<lambda>c. c \<noteq> CHR '','') str of [] \<Rightarrow> None | _ # r \<Rightarrow> Some r)"

lemma strsep_shorter: "strsep str = (t, Some r) \<Longrightarrow> length r < length str"
  using length_dropWhile_le [of "\<lambda>c. c \<noteq> CHR '',''" str] by (auto simp: strsep_def split: list.splits)

text \<open>\<open>None\<close>: the allocation fails and the kernel panics. An entry is two pointers and a string pointer.\<close>

function blacklist_loop :: "(nat \<Rightarrow> bool) \<Rightarrow> string option \<Rightarrow> string list \<Rightarrow> string list option" where
  "blacklist_loop al None l = Some l"
| "blacklist_loop al (Some str) l =
     (case strsep str of (entry, r) \<Rightarrow>
        if \<not> al 24 then None
        else if \<not> al (length entry + 1) then None
        else blacklist_loop al r (entry # l))"
  by pat_completeness auto
termination
  by (relation "measure (\<lambda>(al, str, l). case str of None \<Rightarrow> 0 | Some t \<Rightarrow> Suc (length t))")
    (auto dest: strsep_shorter [OF sym] split: option.splits)

definition initcall_blacklist :: "'w calls_env \<Rightarrow> string option \<Rightarrow> 'w calls \<Rightarrow> (int \<times> 'w calls) option" where
  "initcall_blacklist E str s =
     map_option (\<lambda>l. (1, s\<lparr>blacklisted_initcalls := l\<rparr>)) (blacklist_loop (call_alloc E) str (blacklisted_initcalls s))"

definition initcall_blacklisted :: "'w calls_env \<Rightarrow> 'w calls \<Rightarrow> addr \<Rightarrow> bool" where
  "initcall_blacklisted E s fn =
     (if blacklisted_initcalls s = [] then False
      else
        (let fn_name = takeWhile (\<lambda>c. c \<noteq> CHR '' '') (sprint_symbol_no_offset E fn) in
         list_ex (\<lambda>entry. fn_name = entry) (blacklisted_initcalls s)))"

lemma blacklisted_iff:
  "initcall_blacklisted E s fn \<longleftrightarrow> takeWhile (\<lambda>c. c \<noteq> CHR '' '') (sprint_symbol_no_offset E fn) \<in> set (blacklisted_initcalls s)"
  by (auto simp: initcall_blacklisted_def Let_def list_ex_iff)

text \<open>A list of names joined by commas is taken apart again.\<close>

fun comma_join :: "string list \<Rightarrow> string" where
  "comma_join [] = []"
| "comma_join [x] = x"
| "comma_join (x # y # xs) = x @ CHR '','' # comma_join (y # xs)"

lemma strsep_join:
  "CHR '','' \<notin> set x \<Longrightarrow> strsep x = (x, None)"
  "CHR '','' \<notin> set x \<Longrightarrow> strsep (x @ CHR '','' # r) = (x, Some r)"
proof -
  assume "CHR '','' \<notin> set x"
  then have a: "\<forall>c \<in> set x. c \<noteq> CHR '',''" by auto
  show "strsep x = (x, None)" using a by (simp add: strsep_def takeWhile_eq_all_conv [THEN iffD2] dropWhile_eq_Nil_conv [THEN iffD2])
  show "strsep (x @ CHR '','' # r) = (x, Some r)" using a by (simp add: strsep_def takeWhile_append dropWhile_append)
qed

lemma blacklist_loop_join:
  "xs \<noteq> [] \<Longrightarrow> \<forall>x \<in> set xs. CHR '','' \<notin> set x \<Longrightarrow> \<forall>n. al n \<Longrightarrow> blacklist_loop al (Some (comma_join xs)) l = Some (rev xs @ l)"
  by (induction xs arbitrary: l rule: comma_join.induct) (simp_all add: strsep_join)

section \<open>The calls\<close>

definition trace_initcall_start_cb :: "'w calls_env \<Rightarrow> 'w calls \<Rightarrow> 'w calls" where
  "trace_initcall_start_cb E s = s\<lparr>initcall_calltime := ktime_get E (kc s)\<rparr>"

definition trace_initcall_finish_cb :: "'w calls_env \<Rightarrow> addr \<Rightarrow> int \<Rightarrow> 'w calls \<Rightarrow> 'w calls" where
  "trace_initcall_finish_cb E fn ret s =
     s\<lparr>timings := timings s @ [(fn, ret, (ktime_get E (kc s) - initcall_calltime s) div 1000)]\<rparr>"

definition do_trace_initcall_start :: "'w calls_env \<Rightarrow> 'w calls \<Rightarrow> 'w calls" where
  "do_trace_initcall_start E s = (if \<not> initcall_debug E then s else trace_initcall_start_cb E s)"

definition do_trace_initcall_finish :: "'w calls_env \<Rightarrow> addr \<Rightarrow> int \<Rightarrow> 'w calls \<Rightarrow> 'w calls" where
  "do_trace_initcall_finish E fn ret s = (if \<not> initcall_debug E then s else trace_initcall_finish_cb E fn ret s)"

definition strlcat :: "string \<Rightarrow> string \<Rightarrow> nat \<Rightarrow> string" where
  "strlcat dst src sz = dst @ take (sz - 1 - length dst) src"

definition do_one_initcall :: "'w calls_env \<Rightarrow> addr \<Rightarrow> 'w calls \<Rightarrow> int \<times> 'w calls" where
  "do_one_initcall E fn s =
     (let count = preempt_count (kc s) in
      if initcall_blacklisted E s fn then (- EPERM, s)
      else
        (let s = do_trace_initcall_start E s in
         case initcall E fn (kc s) of (ret, k) \<Rightarrow>
           (let s = do_trace_initcall_finish E fn ret (s\<lparr>kc := k, called := called s @ [fn]\<rparr>);
                msgbuf = [];
                (s, msgbuf) =
                  (if preempt_count (kc s) \<noteq> count
                   then (s\<lparr>kc := (kc s)\<lparr>preempt_count := count\<rparr>\<rparr>, ''preemption imbalance '')
                   else (s, msgbuf));
                (s, msgbuf) =
                  (if irqs_off (kc s)
                   then (s\<lparr>kc := (kc s)\<lparr>irqs_off := False\<rparr>\<rparr>, strlcat msgbuf ''disabled interrupts '' 64)
                   else (s, msgbuf)) in
            (ret, if msgbuf \<noteq> [] then s\<lparr>warnings := warnings s @ [(fn, msgbuf)]\<rparr> else s))))"

fun do_entries :: "'w calls_env \<Rightarrow> addr list \<Rightarrow> 'w calls \<Rightarrow> 'w calls" where
  "do_entries E [] s = s"
| "do_entries E (fn # fns) s = do_entries E fns (snd (do_one_initcall E fn s))"

text \<open>The entries from one start to the next.\<close>

definition entries_between :: "'w calls_env \<Rightarrow> nat \<Rightarrow> nat \<Rightarrow> addr list" where
  "entries_between E i j = map ((!) (initcall_entries E)) [i..<j]"

definition do_initcall_level :: "'w calls_env \<Rightarrow> nat \<Rightarrow> string \<Rightarrow> 'w calls \<Rightarrow> string \<times> 'w calls" where
  "do_initcall_level E level command_line s =
     (case parse_level E level command_line (kc s) of (command_line, k) \<Rightarrow>
        (command_line, do_entries E (entries_between E (initcall_levels E ! level) (initcall_levels E ! (level + 1))) (s\<lparr>kc := k\<rparr>)))"

fun levels_loop :: "'w calls_env \<Rightarrow> string \<Rightarrow> nat list \<Rightarrow> string \<Rightarrow> 'w calls \<Rightarrow> (string \<times> 'w calls) option" where
  "levels_loop E saved [] command_line s = Some (command_line, s)"
| "levels_loop E saved (level # ls) command_line s =
     Option.bind (strcpy 0 saved command_line) (\<lambda>command_line.
       case do_initcall_level E level command_line s of (command_line, s) \<Rightarrow> levels_loop E saved ls command_line s)"

text \<open>\<open>None\<close>: the allocation fails and the kernel panics, or the copy leaves its buffer.\<close>

definition do_initcalls :: "'w calls_env \<Rightarrow> string \<Rightarrow> nat \<Rightarrow> 'w calls \<Rightarrow> 'w calls option" where
  "do_initcalls E saved_command_line saved_command_line_len s =
     (let len = saved_command_line_len + 1 in
      if \<not> call_alloc E len then None
      else map_option snd (levels_loop E saved_command_line [0..<length (initcall_levels E) - 1] (replicate len NUL) s))"

text \<open>The entries before the first level.\<close>

definition do_pre_smp_initcalls :: "'w calls_env \<Rightarrow> 'w calls \<Rightarrow> 'w calls" where
  "do_pre_smp_initcalls E s = do_entries E (entries_between E 0 (initcall_levels E ! 0)) s"

text \<open>
  What one call leaves: the count it found, interrupts enabled, and the function recorded unless it is
  blacklisted. The warning fits its buffer.
\<close>

definition allowed :: "'w calls_env \<Rightarrow> 'w calls \<Rightarrow> addr \<Rightarrow> bool" where
  "allowed E s fn \<longleftrightarrow> \<not> initcall_blacklisted E s fn"

lemma allowed_cong: "blacklisted_initcalls s = blacklisted_initcalls t \<Longrightarrow> allowed E s fn = allowed E t fn"
  by (simp add: allowed_def blacklisted_iff)

lemma trace_fields [simp]:
  "kc (do_trace_initcall_start E s) = kc s" "blacklisted_initcalls (do_trace_initcall_start E s) = blacklisted_initcalls s"
  "called (do_trace_initcall_start E s) = called s" "warnings (do_trace_initcall_start E s) = warnings s"
  "kc (do_trace_initcall_finish E fn r s) = kc s" "blacklisted_initcalls (do_trace_initcall_finish E fn r s) = blacklisted_initcalls s"
  "called (do_trace_initcall_finish E fn r s) = called s" "warnings (do_trace_initcall_finish E fn r s) = warnings s"
  by (simp_all add: do_trace_initcall_start_def trace_initcall_start_cb_def do_trace_initcall_finish_def trace_initcall_finish_cb_def)

lemma one_initcall_effect:
  assumes "do_one_initcall E fn s = (r, t)"
  shows "preempt_count (kc t) = preempt_count (kc s)" "blacklisted_initcalls t = blacklisted_initcalls s"
    "called t = called s @ (if allowed E s fn then [fn] else [])" "allowed E s fn \<Longrightarrow> \<not> irqs_off (kc t)"
    "\<not> allowed E s fn \<Longrightarrow> t = s \<and> r = - EPERM"
    "allowed E s fn \<Longrightarrow> r = fst (initcall E fn (kc s))"
    "\<forall>(f, msg) \<in> set (warnings t) - set (warnings s). f = fn \<and> length msg < 64"
  using assms by (auto simp: do_one_initcall_def allowed_def Let_def strlcat_def split: prod.splits if_splits)

lemma entries_run:
  "preempt_count (kc (do_entries E fns s)) = preempt_count (kc s) \<and> blacklisted_initcalls (do_entries E fns s) = blacklisted_initcalls s
    \<and> called (do_entries E fns s) = called s @ filter (allowed E s) fns
    \<and> (\<not> irqs_off (kc s) \<longrightarrow> \<not> irqs_off (kc (do_entries E fns s)))"
proof (induction fns arbitrary: s)
  case (Cons fn fns)
  obtain r t where t: "do_one_initcall E fn s = (r, t)" by fastforce
  note eff = one_initcall_effect [OF t]
  have "\<not> irqs_off (kc s) \<longrightarrow> \<not> irqs_off (kc t)" using eff(4,5) by (cases "allowed E s fn") auto
  moreover have "allowed E t = allowed E s" by (rule ext) (rule allowed_cong [OF eff(2)])
  ultimately show ?case using Cons [of t] eff(1-3) by (simp add: t)
qed simp

lemma entries_effect:
  "preempt_count (kc (do_entries E fns s)) = preempt_count (kc s)"
  "blacklisted_initcalls (do_entries E fns s) = blacklisted_initcalls s"
  "called (do_entries E fns s) = called s @ filter (allowed E s) fns"
  "\<not> irqs_off (kc s) \<Longrightarrow> \<not> irqs_off (kc (do_entries E fns s))"
  using entries_run [of E fns s] by blast+

text \<open>
  What the table and the parsing of parameters promise: the starts of the levels are sorted and within the
  table; a parser keeps the counter and the interrupts as they are and writes only inside its buffer.
\<close>

locale initcall_laws =
  fixes E :: "'w calls_env"
  assumes levels_law: "initcall_levels E \<noteq> []" "sorted (initcall_levels E)" "last (initcall_levels E) = length (initcall_entries E)"
    and parse_law: "\<And>l b k b' k'. parse_level E l b k = (b', k') \<Longrightarrow> length b' = length b \<and> preempt_count k' = preempt_count k \<and> irqs_off k' = irqs_off k"
begin

lemma level_effect:
  assumes "do_initcall_level E l b s = (b', t)"
  shows "length b' = length b" "preempt_count (kc t) = preempt_count (kc s)" "blacklisted_initcalls t = blacklisted_initcalls s"
    "called t = called s @ filter (allowed E s) (entries_between E (initcall_levels E ! l) (initcall_levels E ! (l + 1)))"
    "\<not> irqs_off (kc s) \<Longrightarrow> \<not> irqs_off (kc t)"
proof -
  obtain k where k: "parse_level E l b (kc s) = (b', k)"
    and t: "t = do_entries E (entries_between E (initcall_levels E ! l) (initcall_levels E ! (l + 1))) (s\<lparr>kc := k\<rparr>)"
    using assms by (auto simp: do_initcall_level_def split: prod.splits)
  note law = parse_law [OF k]
  have al: "allowed E (s\<lparr>kc := k\<rparr>) = allowed E s" by (rule ext) (rule allowed_cong, simp)
  show "length b' = length b" using law by simp
  show "preempt_count (kc t) = preempt_count (kc s)" "blacklisted_initcalls t = blacklisted_initcalls s"
    using law by (simp_all add: t entries_effect)
  show "called t = called s @ filter (allowed E s) (entries_between E (initcall_levels E ! l) (initcall_levels E ! (l + 1)))"
    using entries_effect(3) [of E _ "s\<lparr>kc := k\<rparr>"] by (simp add: t al)
  show "\<not> irqs_off (kc s) \<Longrightarrow> \<not> irqs_off (kc t)" using entries_effect(4) [of "s\<lparr>kc := k\<rparr>"] law by (simp add: t)
qed

lemma strcpy_start: "length saved < length b \<Longrightarrow> \<exists>b'. strcpy 0 saved b = Some b' \<and> length b' = length b"
  using strcpy_at [of 0 "[]" saved b] by (auto simp: strcpy_def store_at_def)

lemma levels_effect:
  assumes "length saved < length b"
  shows "\<exists>b' t. levels_loop E saved ls b s = Some (b', t) \<and> preempt_count (kc t) = preempt_count (kc s)
    \<and> blacklisted_initcalls t = blacklisted_initcalls s \<and> (\<not> irqs_off (kc s) \<longrightarrow> \<not> irqs_off (kc t))
    \<and> called t = called s @ filter (allowed E s) (concat (map (\<lambda>l. entries_between E (initcall_levels E ! l) (initcall_levels E ! (l + 1))) ls))"
  using assms
proof (induction ls arbitrary: b s)
  case (Cons l ls)
  obtain b1 where b1: "strcpy 0 saved b = Some b1" "length b1 = length b" using strcpy_start [OF Cons.prems] by blast
  obtain b2 u where u: "do_initcall_level E l b1 s = (b2, u)" by fastforce
  note eff = level_effect [OF u]
  have al: "allowed E u = allowed E s" by (rule ext) (rule allowed_cong [OF eff(3)])
  have "length saved < length b2" using Cons.prems eff(1) b1(2) by simp
  from Cons.IH [OF this, of u] obtain b' t where
    "levels_loop E saved ls b2 u = Some (b', t)" "preempt_count (kc t) = preempt_count (kc s)"
    "blacklisted_initcalls t = blacklisted_initcalls s" "\<not> irqs_off (kc s) \<longrightarrow> \<not> irqs_off (kc t)"
    "called t = called u @ filter (allowed E u) (concat (map (\<lambda>l. entries_between E (initcall_levels E ! l) (initcall_levels E ! (l + 1))) ls))"
    using eff(2,3,5) by auto
  then show ?case by (intro exI [of _ b'] exI [of _ t]) (simp add: b1(1) u eff(4) al)
qed simp

text \<open>The levels cover the table behind the early entries.\<close>

lemma between_append: "i \<le> j \<Longrightarrow> j \<le> k \<Longrightarrow> entries_between E i j @ entries_between E j k = entries_between E i k"
  using upt_add_eq_append [of i j "k - j"] by (simp add: entries_between_def flip: map_append)

lemma levels_cover:
  "n < length (initcall_levels E) \<Longrightarrow>
    concat (map (\<lambda>l. entries_between E (initcall_levels E ! l) (initcall_levels E ! (l + 1))) [0..<n])
      = entries_between E (initcall_levels E ! 0) (initcall_levels E ! n)"
proof (induction n)
  case (Suc n)
  have "initcall_levels E ! 0 \<le> initcall_levels E ! n" "initcall_levels E ! n \<le> initcall_levels E ! Suc n"
    using levels_law(2) Suc.prems by (simp_all add: sorted_iff_nth_mono)
  then show ?case using Suc between_append by simp
qed (simp add: entries_between_def)

lemma between_take: "k \<le> length (initcall_entries E) \<Longrightarrow> entries_between E 0 k = take k (initcall_entries E)"
  by (rule nth_equalityI) (simp_all add: entries_between_def)

lemma between_drop: "entries_between E k (length (initcall_entries E)) = drop k (initcall_entries E)"
  by (rule nth_equalityI) (simp_all add: entries_between_def)

lemma first_level: "initcall_levels E ! 0 \<le> length (initcall_entries E)"
proof -
  have "initcall_levels E ! 0 \<le> last (initcall_levels E)"
    using levels_law(1,2) by (simp add: last_conv_nth sorted_iff_nth_mono)
  then show ?thesis by (simp add: levels_law(3))
qed

text \<open>The early entries, and the entries of all levels.\<close>

lemma pre_smp_effect:
  "preempt_count (kc (do_pre_smp_initcalls E s)) = preempt_count (kc s)"
  "blacklisted_initcalls (do_pre_smp_initcalls E s) = blacklisted_initcalls s"
  "\<not> irqs_off (kc s) \<Longrightarrow> \<not> irqs_off (kc (do_pre_smp_initcalls E s))"
  "called (do_pre_smp_initcalls E s) = called s @ filter (allowed E s) (take (initcall_levels E ! 0) (initcall_entries E))"
  by (simp_all add: do_pre_smp_initcalls_def entries_effect between_take [OF first_level])

lemma initcalls_effect:
  assumes "call_alloc E (n + 1)" "length saved \<le> n"
  shows "\<exists>t. do_initcalls E saved n s = Some t \<and> preempt_count (kc t) = preempt_count (kc s)
    \<and> blacklisted_initcalls t = blacklisted_initcalls s \<and> (\<not> irqs_off (kc s) \<longrightarrow> \<not> irqs_off (kc t))
    \<and> called t = called s @ filter (allowed E s) (drop (initcall_levels E ! 0) (initcall_entries E))"
proof -
  let ?k = "length (initcall_levels E) - 1"
  have k: "?k < length (initcall_levels E)" "initcall_levels E ! ?k = length (initcall_entries E)"
    using levels_law(1,3) by (simp_all add: last_conv_nth)
  have b: "length saved < length (replicate (n + 1) NUL)" using assms(2) by simp
  show ?thesis
    using levels_effect [OF b, of "[0..<?k]" s] assms(1) unfolding levels_cover [OF k(1)] k(2) between_drop
    by (auto simp: do_initcalls_def Let_def)
qed

end

text \<open>The calls with counter and interrupts restored: both phases together.\<close>

definition all_initcalls :: "'w calls_env \<Rightarrow> string \<Rightarrow> nat \<Rightarrow> 'w calls \<Rightarrow> 'w calls option" where
  "all_initcalls E saved len s = do_initcalls E saved len (do_pre_smp_initcalls E s)"

context initcall_laws
begin

lemma all_initcalls_effect:
  assumes "call_alloc E (n + 1)" "length saved \<le> n"
  shows "\<exists>t. all_initcalls E saved n s = Some t \<and> preempt_count (kc t) = preempt_count (kc s)
    \<and> (\<not> irqs_off (kc s) \<longrightarrow> \<not> irqs_off (kc t)) \<and> called t = called s @ filter (allowed E s) (initcall_entries E)"
proof -
  let ?u = "do_pre_smp_initcalls E s"
  note pre = pre_smp_effect [of s]
  have al: "allowed E ?u = allowed E s" by (rule ext) (rule allowed_cong [OF pre(2)])
  from initcalls_effect [OF assms, of ?u] obtain t where
    t: "do_initcalls E saved n ?u = Some t" "preempt_count (kc t) = preempt_count (kc ?u)" "\<not> irqs_off (kc ?u) \<longrightarrow> \<not> irqs_off (kc t)"
      "called t = called ?u @ filter (allowed E ?u) (drop (initcall_levels E ! 0) (initcall_entries E))"
    by blast
  have "called t = called s @ filter (allowed E s) (initcall_entries E)"
    unfolding t(4) pre(4) al append_assoc filter_append [symmetric] append_take_drop_id ..
  then show ?thesis using t pre(1,3) by (auto simp: all_initcalls_def)
qed

end

section \<open>Properties\<close>

text \<open>
  Three functions: one disables interrupts and leaves the counter raised, two return an error or success.
  Two run early, the third in the last of eight levels.
\<close>

definition demo_calls :: "unit calls_env" where
  "demo_calls = \<lparr>initcall = (\<lambda>fn k. if fn = 1 then (0, k\<lparr>preempt_count := preempt_count k + 1, irqs_off := True\<rparr>) else if fn = 2 then (- 19, k) else (0, k)),
     initcall_entries = [1, 2, 3], initcall_levels = [2, 2, 2, 2, 2, 2, 2, 2, 3],
     sprint_symbol_no_offset = (\<lambda>fn. if fn = 2 then ''probe_b [mod]'' else if fn = 1 then ''probe_a'' else ''probe_c''),
     initcall_debug = True, ktime_get = (\<lambda>_. 0), parse_level = (\<lambda>l b k. (b, k)), call_alloc = (\<lambda>_. True)\<rparr>"

interpretation demo_levels: initcall_laws demo_calls
  by unfold_locales (auto simp: demo_calls_def)

text \<open>
  (C19) Once the blacklist was set from a list of names, starting the parts of the kernel runs every
  function of the table exactly once and in the order of the levels, except those whose name, without the
  name of a module, is on the list. However the functions behave, the preemption counter is what it was,
  and interrupts are enabled.
\<close>

theorem initcalls_run_in_order:
  assumes "initcall_laws E" "\<forall>k. call_alloc E k" "length saved \<le> n" "names \<noteq> []" "\<forall>x \<in> set names. CHR '','' \<notin> set x"
    and "blacklisted_initcalls s = []" "\<not> irqs_off (kc s)"
  shows "\<exists>u t. initcall_blacklist E (Some (comma_join names)) s = Some (1, u) \<and> all_initcalls E saved n u = Some t
    \<and> called t = called s @ filter (\<lambda>fn. takeWhile (\<lambda>c. c \<noteq> CHR '' '') (sprint_symbol_no_offset E fn) \<notin> set names) (initcall_entries E)
    \<and> preempt_count (kc t) = preempt_count (kc s) \<and> \<not> irqs_off (kc t)"
proof -
  define u where "u = s\<lparr>blacklisted_initcalls := rev names\<rparr>"
  have bl: "initcall_blacklist E (Some (comma_join names)) s = Some (1, u)"
    using blacklist_loop_join [of names "call_alloc E" "[]"] assms(2,4,5,6) by (simp add: initcall_blacklist_def u_def)
  have al: "allowed E u = (\<lambda>fn. takeWhile (\<lambda>c. c \<noteq> CHR '' '') (sprint_symbol_no_offset E fn) \<notin> set names)"
    by (rule ext) (simp add: allowed_def blacklisted_iff u_def)
  show ?thesis
    using initcall_laws.all_initcalls_effect [OF assms(1), of n saved u] assms(2,3,7) unfolding al
    by (auto simp: bl) (auto simp: u_def)
qed

theorem initcalls_run_in_order_witness:
  "\<exists>u t. initcall_blacklist demo_calls (Some (comma_join [''probe_b'', ''other'']))
        \<lparr>kc = \<lparr>preempt_count = 0, irqs_off = False, world = ()\<rparr>, blacklisted_initcalls = [], initcall_calltime = 0, timings = [], warnings = [], called = []\<rparr> = Some (1, u)
    \<and> all_initcalls demo_calls ''ro'' 2 u = Some t \<and> called t = [1, 3] \<and> preempt_count (kc t) = 0 \<and> \<not> irqs_off (kc t)"
  using initcalls_run_in_order [OF demo_levels.initcall_laws_axioms, of "''ro''" 2 "[''probe_b'', ''other'']"
      "\<lparr>kc = \<lparr>preempt_count = 0, irqs_off = False, world = ()\<rparr>, blacklisted_initcalls = [], initcall_calltime = 0, timings = [], warnings = [], called = []\<rparr>"]
  by (simp add: demo_calls_def)

end
