(* ===== verification/Init_Process.thy ===== *)
theory Init_Process
  imports Init_Calls
begin

text \<open>
  The first process: \<^verbatim>\<open>kernel_init\<close> of \<^verbatim>\<open>init/main.c\<close> and what it calls. Parts of the kernel that are only
  called are names whose effect is a parameter; \<open>trace\<close> is the history of these calls.
\<close>

section \<open>State\<close>

datatype system_states = SYSTEM_BOOTING | SYSTEM_SCHEDULING | SYSTEM_FREEING_INITMEM | SYSTEM_RUNNING
  | SYSTEM_HALT | SYSTEM_POWER_OFF | SYSTEM_RESTART | SYSTEM_SUSPEND

text \<open>The open files of the thread: the table by descriptor, and the references to each file.\<close>

record init_files =
  fd_table :: "nat option list"
  refs :: "nat \<Rightarrow> int"

record 'w boot =
  bc :: "'w calls"
  bi :: init_state
  files :: init_files
  system_state :: system_states
  kernel_ro :: bool
  trace :: "string list"

record 'w boot_env =
  ce :: "'w calls_env"
  ext :: "string \<Rightarrow> 'w kcpu \<Rightarrow> 'w kcpu"
  ctors :: "addr list"
  ctor :: "addr \<Rightarrow> 'w kcpu \<Rightarrow> 'w kcpu"
  open_console :: "'w kcpu \<Rightarrow> init_files \<Rightarrow> (int + nat) \<times> init_files"
  init_dup :: "nat \<Rightarrow> init_files \<Rightarrow> init_files"
  fput_file :: "nat \<Rightarrow> init_files \<Rightarrow> init_files"
  init_eaccess :: "string option \<Rightarrow> 'w kcpu \<Rightarrow> int"
  kernel_execve :: "string \<Rightarrow> string list \<Rightarrow> string list \<Rightarrow> int"
  DEFAULT_INIT :: string
  STRICT_KERNEL_RWX :: bool

definition on_cpu :: "('w kcpu \<Rightarrow> 'w kcpu) \<Rightarrow> 'w boot \<Rightarrow> 'w boot" where
  "on_cpu g b = b\<lparr>bc := (bc b)\<lparr>kc := g (kc (bc b))\<rparr>\<rparr>"

definition ext_call :: "'w boot_env \<Rightarrow> string \<Rightarrow> 'w boot \<Rightarrow> 'w boot" where
  "ext_call E nm b = (on_cpu (ext E nm) b)\<lparr>trace := trace b @ [nm]\<rparr>"

definition ext_calls :: "'w boot_env \<Rightarrow> string list \<Rightarrow> 'w boot \<Rightarrow> 'w boot" where
  "ext_calls E nms b = fold (ext_call E) nms b"


section \<open>Running a program\<close>

definition run_init_process :: "'w boot_env \<Rightarrow> string \<Rightarrow> init_state \<Rightarrow> (int \<times> init_state) option" where
  "run_init_process E init_filename s =
     (let s = s\<lparr>argv_init := (argv_init s)[0 := Some init_filename]\<rparr> in
      Option.bind (live (argv_init s)) (\<lambda>av.
      Option.bind (live (envp_init s)) (\<lambda>ev.
        Some (kernel_execve E init_filename av ev, s))))"

definition try_to_run_init_process :: "'w boot_env \<Rightarrow> string \<Rightarrow> init_state \<Rightarrow> (int \<times> init_state) option" where
  "try_to_run_init_process E init_filename s = run_init_process E init_filename s"

fun try_each :: "'w boot_env \<Rightarrow> string list \<Rightarrow> init_state \<Rightarrow> (string option \<times> init_state) option" where
  "try_each E [] s = Some (None, s)"
| "try_each E (p # ps) s = Option.bind (try_to_run_init_process E p s) (\<lambda>(ret, s).
     if ret = 0 then Some (Some p, s) else try_each E ps s)"

text \<open>
  The end of \<^verbatim>\<open>kernel_init\<close>: the program that runs, or the message of the panic. \<open>None\<close> is a read
  past the end of an array.
\<close>

definition start_default :: "'w boot_env \<Rightarrow> init_state \<Rightarrow> (string option \<times> init_state) option" where
  "start_default E s =
     (if DEFAULT_INIT E \<noteq> [] then
        Option.bind (run_init_process E (DEFAULT_INIT E) s) (\<lambda>(ret, s). Some (if ret \<noteq> 0 then None else Some (DEFAULT_INIT E), s))
      else Some (None, s))"

definition start_other :: "'w boot_env \<Rightarrow> init_state \<Rightarrow> ((string + string) \<times> init_state) option" where
  "start_other E s = (case execute_command s of
     Some c \<Rightarrow>
       Option.bind (run_init_process E c s) (\<lambda>(ret, s).
         Some (if ret = 0 then Inr c else Inl ''Requested init failed'', s))
   | None \<Rightarrow>
       Option.bind (start_default E s) (\<lambda>(r, s).
         case r of
           Some d \<Rightarrow> Some (Inr d, s)
         | None \<Rightarrow>
           Option.bind (try_each E [''/sbin/init'', ''/etc/init'', ''/bin/init'', ''/bin/sh''] s) (\<lambda>(r, s).
             Some (case r of Some p \<Rightarrow> Inr p | None \<Rightarrow> Inl ''No working init found'', s))))"

definition start_first :: "'w boot_env \<Rightarrow> init_state \<Rightarrow> ((string + string) \<times> init_state) option" where
  "start_first E s = (case ramdisk_execute_command s of
     None \<Rightarrow> start_other E s
   | Some r \<Rightarrow> Option.bind (run_init_process E r s) (\<lambda>(ret, s). if ret = 0 then Some (Inr r, s) else start_other E s))"

text \<open>The programs in the order of the tries: after \<^verbatim>\<open>init=\<close> there is no other.\<close>

definition other_candidates :: "'w boot_env \<Rightarrow> init_state \<Rightarrow> string list" where
  "other_candidates E s = (case execute_command s of
     Some c \<Rightarrow> [c]
   | None \<Rightarrow> (if DEFAULT_INIT E \<noteq> [] then [DEFAULT_INIT E] else []) @ [''/sbin/init'', ''/etc/init'', ''/bin/init'', ''/bin/sh''])"

definition candidates :: "'w boot_env \<Rightarrow> init_state \<Rightarrow> string list" where
  "candidates E s = (case ramdisk_execute_command s of None \<Rightarrow> [] | Some r \<Rightarrow> [r]) @ other_candidates E s"

text \<open>Arrays with a name, arguments and variables that end.\<close>

definition args_are :: "init_state \<Rightarrow> string list \<Rightarrow> string list \<Rightarrow> bool" where
  "args_are s args envs \<longleftrightarrow> argv_init s \<noteq> [] \<and> live (tl (argv_init s)) = Some args \<and> live (envp_init s) = Some envs"

definition same_setup :: "init_state \<Rightarrow> init_state \<Rightarrow> bool" where
  "same_setup s t \<longleftrightarrow> tl (argv_init t) = tl (argv_init s) \<and> length (argv_init t) = length (argv_init s) \<and> envp_init t = envp_init s
     \<and> execute_command t = execute_command s \<and> ramdisk_execute_command t = ramdisk_execute_command s"

lemma same_setup_refl [simp]: "same_setup s s"
  by (simp add: same_setup_def)

lemma same_setup_trans: "same_setup s t \<Longrightarrow> same_setup t u \<Longrightarrow> same_setup s u"
  by (simp add: same_setup_def)

lemma args_same: "same_setup s t \<Longrightarrow> args_are s args envs \<Longrightarrow> args_are t args envs"
  by (auto simp: same_setup_def args_are_def)

lemma run_init_exact:
  assumes "args_are s args envs"
  shows "\<exists>t. run_init_process E p s = Some (kernel_execve E p (p # args) envs, t) \<and> same_setup s t"
proof -
  obtain x r where s: "argv_init s = x # r" "live r = Some args" "live (envp_init s) = Some envs"
    using assms by (cases "argv_init s") (auto simp: args_are_def)
  then show ?thesis by (simp add: run_init_process_def Let_def same_setup_def)
qed

lemma try_each_exact:
  assumes "args_are s args envs"
  shows "\<exists>t. try_each E ps s = Some (find (\<lambda>p. kernel_execve E p (p # args) envs = 0) ps, t) \<and> same_setup s t"
  using assms
proof (induction ps arbitrary: s)
  case (Cons p ps)
  obtain t where t: "run_init_process E p s = Some (kernel_execve E p (p # args) envs, t)" "same_setup s t"
    using run_init_exact [OF Cons.prems] by blast
  obtain u where "try_each E ps t = Some (find (\<lambda>p. kernel_execve E p (p # args) envs = 0) ps, u)" "same_setup t u"
    using Cons.IH [OF args_same [OF t(2) Cons.prems]] by blast
  then show ?case using t same_setup_trans by (auto simp: try_to_run_init_process_def)
qed simp

definition outcome_is :: "string option \<Rightarrow> string + string \<Rightarrow> bool" where
  "outcome_is r x \<longleftrightarrow> (case x of Inr p \<Rightarrow> r = Some p | Inl msg \<Rightarrow> r = None)"

lemma find_append: "find P (xs @ ys) = (case find P xs of None \<Rightarrow> find P ys | Some x \<Rightarrow> Some x)"
  by (induction xs) auto

lemma start_default_exact:
  assumes "args_are s args envs"
  shows "\<exists>t. start_default E s = Some (find (\<lambda>p. kernel_execve E p (p # args) envs = 0)
      (if DEFAULT_INIT E \<noteq> [] then [DEFAULT_INIT E] else []), t) \<and> same_setup s t"
proof (cases "DEFAULT_INIT E = []")
  case False
  then show ?thesis using run_init_exact [OF assms, of E "DEFAULT_INIT E"] by (auto simp: start_default_def)
qed (simp add: start_default_def)

lemma start_other_exact:
  assumes a: "args_are s args envs"
  shows "\<exists>x t. start_other E s = Some (x, t) \<and> same_setup s t
    \<and> outcome_is (find (\<lambda>p. kernel_execve E p (p # args) envs = 0) (other_candidates E s)) x"
proof (cases "execute_command s")
  case (Some c)
  then show ?thesis using run_init_exact [OF a, of E c] by (auto simp: start_other_def other_candidates_def outcome_is_def)
next
  case None
  let ?ok = "\<lambda>p. kernel_execve E p (p # args) envs = 0" and ?four = "[''/sbin/init'', ''/etc/init'', ''/bin/init'', ''/bin/sh'']"
  obtain w where w: "start_default E s = Some (find ?ok (if DEFAULT_INIT E \<noteq> [] then [DEFAULT_INIT E] else []), w)" "same_setup s w"
    using start_default_exact [OF a] by blast
  obtain x where x: "try_each E ?four w = Some (find ?ok ?four, x)" "same_setup w x"
    using try_each_exact [OF args_same [OF w(2) a]] by blast
  show ?thesis
    using w x same_setup_trans [OF w(2) x(2)] unfolding start_other_def other_candidates_def None option.case find_append
    by (auto simp: outcome_is_def simp del: try_each.simps find.simps split: option.split)
qed

lemma start_first_exact:
  assumes "args_are s args envs"
  shows "\<exists>x t. start_first E s = Some (x, t) \<and> same_setup s t
    \<and> outcome_is (find (\<lambda>p. kernel_execve E p (p # args) envs = 0) (candidates E s)) x"
proof (cases "ramdisk_execute_command s")
  case None
  then show ?thesis using start_other_exact [OF assms] by (simp add: start_first_def candidates_def)
next
  case (Some r)
  obtain u where u: "run_init_process E r s = Some (kernel_execve E r (r # args) envs, u)" "same_setup s u"
    using run_init_exact [OF assms] by blast
  have "other_candidates E u = other_candidates E s" using u(2) by (simp add: other_candidates_def same_setup_def)
  then show ?thesis using start_other_exact [OF args_same [OF u(2) assms], of E] u same_setup_trans [OF u(2)]
    by (auto simp: start_first_def candidates_def Some outcome_is_def)
qed

section \<open>Before the first program\<close>

definition console_on_rootfs :: "'w boot_env \<Rightarrow> 'w boot \<Rightarrow> 'w boot" where
  "console_on_rootfs E b =
     (case open_console E (kc (bc b)) (files b) of
        (Inl err, fs) \<Rightarrow> b\<lparr>files := fs\<rparr>
      | (Inr f, fs) \<Rightarrow> b\<lparr>files := fput_file E f (init_dup E f (init_dup E f (init_dup E f fs)))\<rparr>)"

definition do_ctors :: "'w boot_env \<Rightarrow> 'w boot \<Rightarrow> 'w boot" where
  "do_ctors E b = fold (\<lambda>fn. on_cpu (ctor E fn)) (ctors E) b"

definition do_basic_setup :: "'w boot_env \<Rightarrow> string \<Rightarrow> nat \<Rightarrow> 'w boot \<Rightarrow> 'w boot option" where
  "do_basic_setup E saved len b =
     (let b = do_ctors E (ext_calls E [''cpuset_init_smp'', ''driver_init'', ''init_irq_proc''] b) in
      map_option (\<lambda>c. b\<lparr>bc := c\<rparr>) (do_initcalls (ce E) saved len (bc b)))"

text \<open>Up to the console; the test of the program on the ram disk finds the machine in the state reached here.\<close>

definition init_parts :: "'w boot_env \<Rightarrow> string \<Rightarrow> nat \<Rightarrow> 'w boot \<Rightarrow> 'w boot option" where
  "init_parts E saved len b =
     (let b = ext_calls E [''set_mems_allowed'', ''get_pid'', ''smp_prepare_cpus'', ''workqueue_init'', ''init_mm_internals'',
                           ''rcu_init_tasks_generic''] b;
          b = b\<lparr>bc := do_pre_smp_initcalls (ce E) (bc b)\<rparr>;
          b = ext_calls E [''lockup_detector_init'', ''smp_init'', ''sched_init_smp'', ''workqueue_init_topology'', ''padata_init'',
                           ''page_alloc_init_late''] b in
      Option.bind (do_basic_setup E saved len b) (\<lambda>b.
        Some (console_on_rootfs E (ext_calls E [''kunit_run_all_tests'', ''wait_for_initramfs''] b))))"

definition kernel_init_freeable :: "'w boot_env \<Rightarrow> string \<Rightarrow> nat \<Rightarrow> 'w boot \<Rightarrow> 'w boot option" where
  "kernel_init_freeable E saved len b =
     Option.bind (init_parts E saved len b) (\<lambda>b.
       (let b = (if init_eaccess E (ramdisk_execute_command (bi b)) (kc (bc b)) \<noteq> 0
                 then ext_call E ''prepare_namespace'' (b\<lparr>bi := (bi b)\<lparr>ramdisk_execute_command := None\<rparr>\<rparr>)
                 else b) in
        Some (ext_call E ''integrity_load_keys'' b)))"

definition mark_readonly :: "'w boot_env \<Rightarrow> 'w boot \<Rightarrow> 'w boot" where
  "mark_readonly E b =
     (if STRICT_KERNEL_RWX E \<and> rodata_enabled (bi b)
      then ext_call E ''rodata_test'' ((ext_calls E [''rcu_barrier'', ''mark_rodata_ro''] b)\<lparr>kernel_ro := True\<rparr>)
      else b)"

definition exit_boot_config :: "'w boot_env \<Rightarrow> 'w boot \<Rightarrow> 'w boot" where
  "exit_boot_config E b = ext_call E ''xbc_exit'' b"

definition free_initmem :: "'w boot_env \<Rightarrow> 'w boot \<Rightarrow> 'w boot" where
  "free_initmem E b = ext_call E ''free_initmem_default'' b"

text \<open>From the end of the wait for the other threads on.\<close>

definition finish_boot :: "'w boot_env \<Rightarrow> 'w boot \<Rightarrow> 'w boot" where
  "finish_boot E b =
     (let b = ext_call E ''async_synchronize_full'' b;
          b = b\<lparr>system_state := SYSTEM_FREEING_INITMEM\<rparr>;
          b = ext_calls E [''kprobe_free_init_mem'', ''ftrace_free_init_mem'', ''kgdb_free_init_mem''] b;
          b = mark_readonly E (free_initmem E (exit_boot_config E b));
          b = ext_call E ''pti_finalize'' b;
          b = b\<lparr>system_state := SYSTEM_RUNNING\<rparr> in
      ext_calls E [''numa_default_policy'', ''rcu_end_inkernel_boot'', ''do_sysctl_args''] b)"

definition kernel_init :: "'w boot_env \<Rightarrow> string \<Rightarrow> nat \<Rightarrow> 'w boot \<Rightarrow> ((string + string) \<times> 'w boot) option" where
  "kernel_init E saved len b =
     Option.bind (kernel_init_freeable E saved len b) (\<lambda>b.
       (let b = finish_boot E b in
        map_option (\<lambda>(r, i). (r, b\<lparr>bi := i\<rparr>)) (start_first E (bi b))))"

text \<open>The parts of the state that the calls of other parts of the kernel leave alone.\<close>

lemma on_cpu_fields [simp]:
  "bi (on_cpu g b) = bi b" "files (on_cpu g b) = files b" "system_state (on_cpu g b) = system_state b"
  "kernel_ro (on_cpu g b) = kernel_ro b" "trace (on_cpu g b) = trace b"
  "called (bc (on_cpu g b)) = called (bc b)" "blacklisted_initcalls (bc (on_cpu g b)) = blacklisted_initcalls (bc b)"
  "kc (bc (on_cpu g b)) = g (kc (bc b))"
  by (simp_all add: on_cpu_def)

lemma ext_call_fields [simp]:
  "bi (ext_call E n b) = bi b" "files (ext_call E n b) = files b" "system_state (ext_call E n b) = system_state b"
  "kernel_ro (ext_call E n b) = kernel_ro b" "trace (ext_call E n b) = trace b @ [n]"
  "called (bc (ext_call E n b)) = called (bc b)" "blacklisted_initcalls (bc (ext_call E n b)) = blacklisted_initcalls (bc b)"
  "kc (bc (ext_call E n b)) = ext E n (kc (bc b))"
  by (simp_all add: ext_call_def on_cpu_def)

lemma ext_calls_fields [simp]:
  "bi (ext_calls E ns b) = bi b" "files (ext_calls E ns b) = files b" "system_state (ext_calls E ns b) = system_state b"
  "kernel_ro (ext_calls E ns b) = kernel_ro b" "trace (ext_calls E ns b) = trace b @ ns"
  "called (bc (ext_calls E ns b)) = called (bc b)" "blacklisted_initcalls (bc (ext_calls E ns b)) = blacklisted_initcalls (bc b)"
  by (induction ns arbitrary: b) (simp_all add: ext_calls_def)

lemma ctors_fields [simp]:
  "bi (do_ctors E b) = bi b" "files (do_ctors E b) = files b" "system_state (do_ctors E b) = system_state b"
  "kernel_ro (do_ctors E b) = kernel_ro b" "trace (do_ctors E b) = trace b"
  "called (bc (do_ctors E b)) = called (bc b)" "blacklisted_initcalls (bc (do_ctors E b)) = blacklisted_initcalls (bc b)"
proof -
  have "P (fold (\<lambda>fn. on_cpu (ctor E fn)) fs b)" if "P b" "\<And>b g. P b \<Longrightarrow> P (on_cpu g b)" for P :: "'a boot \<Rightarrow> bool" and fs
    using that(1) by (induction fs arbitrary: b) (auto intro: that(2))
  note p = this
  show "bi (do_ctors E b) = bi b" "files (do_ctors E b) = files b" "system_state (do_ctors E b) = system_state b"
    "kernel_ro (do_ctors E b) = kernel_ro b" "trace (do_ctors E b) = trace b"
    "called (bc (do_ctors E b)) = called (bc b)" "blacklisted_initcalls (bc (do_ctors E b)) = blacklisted_initcalls (bc b)"
    unfolding do_ctors_def by (rule p; simp)+
qed

lemma finish_boot_fields [simp]:
  "bi (finish_boot E b) = bi b" "files (finish_boot E b) = files b" "system_state (finish_boot E b) = SYSTEM_RUNNING"
  "kernel_ro (finish_boot E b) = (kernel_ro b \<or> STRICT_KERNEL_RWX E \<and> rodata_enabled (bi b))" "called (bc (finish_boot E b)) = called (bc b)"
  by (auto simp: finish_boot_def mark_readonly_def free_initmem_def exit_boot_config_def Let_def)

section \<open>What the start of the first process does\<close>

text \<open>The first free descriptor.\<close>

fun install :: "nat \<Rightarrow> nat option list \<Rightarrow> nat option list" where
  "install f [] = [Some f]"
| "install f (None # r) = Some f # r"
| "install f (Some x # r) = Some x # install f r"

text \<open>The parameters that are left when the program on the ram disk was looked for in this state.\<close>

definition after_eaccess :: "'w boot_env \<Rightarrow> 'w kcpu \<Rightarrow> init_state \<Rightarrow> init_state" where
  "after_eaccess E k i = (if init_eaccess E (ramdisk_execute_command i) k \<noteq> 0 then i\<lparr>ramdisk_execute_command := None\<rparr> else i)"

text \<open>
  What the code relies on: a new file has one reference, \<^verbatim>\<open>init_dup\<close> puts a file under the first free
  descriptor and takes a reference, \<^verbatim>\<open>fput\<close> drops one.
\<close>

locale boot_laws = initcall_laws "ce E" for E :: "'w boot_env" +
  assumes open_law: "\<And>k F f G. open_console E k F = (Inr f, G) \<Longrightarrow> G = F\<lparr>refs := (refs F)(f := 1)\<rparr>"
    and open_err: "\<And>k F e G. open_console E k F = (Inl e, G) \<Longrightarrow> G = F"
    and dup_law: "\<And>f F. init_dup E f F = F\<lparr>fd_table := install f (fd_table F), refs := (refs F)(f := refs F f + 1)\<rparr>"
    and fput_law: "\<And>f F. fput_file E f F = F\<lparr>refs := (refs F)(f := refs F f - 1)\<rparr>"
begin

lemma console_files:
  assumes "fd_table (files b) = []"
  shows "console_on_rootfs E b = b \<or>
    (\<exists>f. fd_table (files (console_on_rootfs E b)) = [Some f, Some f, Some f] \<and> refs (files (console_on_rootfs E b)) = (refs (files b))(f := 3))"
proof -
  obtain r G where o: "open_console E (kc (bc b)) (files b) = (r, G)" by fastforce
  show ?thesis
  proof (cases r)
    case (Inl e)
    then show ?thesis using open_err o by (auto simp: console_on_rootfs_def)
  next
    case (Inr f)
    then have "G = (files b)\<lparr>refs := (refs (files b))(f := 1)\<rparr>" using open_law o by blast
    then show ?thesis using assms by (simp add: console_on_rootfs_def o Inr dup_law fput_law)
  qed
qed

lemma console_fields [simp]:
  "bi (console_on_rootfs E b) = bi b" "bc (console_on_rootfs E b) = bc b" "system_state (console_on_rootfs E b) = system_state b"
  "kernel_ro (console_on_rootfs E b) = kernel_ro b"
  by (simp_all add: console_on_rootfs_def split: prod.split sum.split)

lemma basic_setup_effect:
  assumes "call_alloc (ce E) (n + 1)" "length saved \<le> n"
  shows "\<exists>t. do_basic_setup E saved n b = Some t \<and> bi t = bi b \<and> files t = files b \<and> system_state t = system_state b
    \<and> kernel_ro t = kernel_ro b
    \<and> called (bc t) = called (bc b) @ filter (allowed (ce E) (bc b)) (drop (initcall_levels (ce E) ! 0) (initcall_entries (ce E)))"
proof -
  let ?u = "do_ctors E (ext_calls E [''cpuset_init_smp'', ''driver_init'', ''init_irq_proc''] b)"
  have al: "allowed (ce E) (bc ?u) = allowed (ce E) (bc b)" by (rule HOL.ext) (rule allowed_cong, simp)
  show ?thesis using initcalls_effect [OF assms, of "bc ?u"] by (auto simp: do_basic_setup_def Let_def al)
qed

lemma init_freeable_effect:
  assumes "call_alloc (ce E) (n + 1)" "length saved \<le> n" "fd_table (files b) = []"
  shows "\<exists>w t. init_parts E saved n b = Some w \<and> kernel_init_freeable E saved n b = Some t
    \<and> bi t = after_eaccess E (kc (bc w)) (bi b) \<and> system_state t = system_state b
    \<and> kernel_ro t = kernel_ro b
    \<and> (files t = files b \<or> (\<exists>f. fd_table (files t) = [Some f, Some f, Some f] \<and> refs (files t) f = 3))
    \<and> called (bc t) = called (bc b) @ filter (allowed (ce E) (bc b)) (initcall_entries (ce E))"
proof -
  define u0 where "u0 = ext_calls E [''set_mems_allowed'', ''get_pid'', ''smp_prepare_cpus'', ''workqueue_init'', ''init_mm_internals'', ''rcu_init_tasks_generic''] b"
  define u1 where "u1 = u0\<lparr>bc := do_pre_smp_initcalls (ce E) (bc u0)\<rparr>"
  define u where "u = ext_calls E [''lockup_detector_init'', ''smp_init'', ''sched_init_smp'', ''workqueue_init_topology'', ''padata_init'', ''page_alloc_init_late''] u1"
  have al0: "allowed (ce E) (bc u0) = allowed (ce E) (bc b)" by (rule HOL.ext) (rule allowed_cong, simp add: u0_def)
  have al: "allowed (ce E) (bc u) = allowed (ce E) (bc b)"
    by (rule HOL.ext) (rule allowed_cong, simp add: u_def u1_def pre_smp_effect u0_def)
  have u: "bi u = bi b" "files u = files b" "system_state u = system_state b" "kernel_ro u = kernel_ro b"
    "called (bc u) = called (bc b) @ filter (allowed (ce E) (bc b)) (take (initcall_levels (ce E) ! 0) (initcall_entries (ce E)))"
    by (simp_all add: u_def u1_def pre_smp_effect al0) (simp_all add: u0_def)
  from basic_setup_effect [OF assms(1,2), of u] obtain v where
    v: "do_basic_setup E saved n u = Some v" "bi v = bi u" "files v = files u" "system_state v = system_state u"
      "kernel_ro v = kernel_ro u"
      "called (bc v) = called (bc u) @ filter (allowed (ce E) (bc u)) (drop (initcall_levels (ce E) ! 0) (initcall_entries (ce E)))"
    by blast
  have calls: "called (bc v) = called (bc b) @ filter (allowed (ce E) (bc b)) (initcall_entries (ce E))"
    unfolding v(6) u(5) al append_assoc filter_append [symmetric] append_take_drop_id ..
  define w where "w = console_on_rootfs E (ext_calls E [''kunit_run_all_tests'', ''wait_for_initramfs''] v)"
  have "fd_table (files (ext_calls E [''kunit_run_all_tests'', ''wait_for_initramfs''] v)) = []" using v u assms(3) by simp
  from console_files [OF this] have "files w = files b \<or> (\<exists>f. fd_table (files w) = [Some f, Some f, Some f] \<and> refs (files w) f = 3)"
    using v u by (auto simp: w_def)
  moreover have "bi w = bi b" "system_state w = system_state b" "kernel_ro w = kernel_ro b"
    "called (bc w) = called (bc v)"
    using u v by (simp_all add: w_def)
  moreover have "init_parts E saved n b = Some w"
    using v(1) by (simp add: init_parts_def Let_def u0_def [symmetric] u1_def [symmetric] u_def [symmetric] w_def [symmetric])
  ultimately show ?thesis
    using calls by (simp add: kernel_init_freeable_def after_eaccess_def Let_def)
qed

lemma kernel_init_effect:
  assumes "call_alloc (ce E) (n + 1)" "length saved \<le> n" "fd_table (files b) = []" "args_are (bi b) args envs"
  shows "\<exists>x t w. init_parts E saved n b = Some w \<and> kernel_init E saved n b = Some (x, t) \<and> system_state t = SYSTEM_RUNNING
    \<and> called (bc t) = called (bc b) @ filter (allowed (ce E) (bc b)) (initcall_entries (ce E))
    \<and> (files t = files b \<or> (\<exists>f. fd_table (files t) = [Some f, Some f, Some f] \<and> refs (files t) f = 3))
    \<and> kernel_ro t = (kernel_ro b \<or> STRICT_KERNEL_RWX E \<and> rodata_enabled (bi b))
    \<and> outcome_is (find (\<lambda>p. kernel_execve E p (p # args) envs = 0) (candidates E (after_eaccess E (kc (bc w)) (bi b)))) x"
proof -
  from init_freeable_effect [OF assms(1-3)] obtain w u where w: "init_parts E saved n b = Some w"
    and u: "kernel_init_freeable E saved n b = Some u" "bi u = after_eaccess E (kc (bc w)) (bi b)"
      "kernel_ro u = kernel_ro b"
      "files u = files b \<or> (\<exists>f. fd_table (files u) = [Some f, Some f, Some f] \<and> refs (files u) f = 3)"
      "called (bc u) = called (bc b) @ filter (allowed (ce E) (bc b)) (initcall_entries (ce E))"
    by blast
  have "args_are (bi u) args envs" using u(2) assms(4) by (auto simp: args_are_def after_eaccess_def)
  from start_first_exact [OF this, of E] obtain x i where
    "start_first E (bi u) = Some (x, i)" "outcome_is (find (\<lambda>p. kernel_execve E p (p # args) envs = 0) (candidates E (bi u))) x"
    by blast
  then have "kernel_init E saved n b = Some (x, (finish_boot E u)\<lparr>bi := i\<rparr>)" using u(1) by (simp add: kernel_init_def)
  moreover have "system_state ((finish_boot E u)\<lparr>bi := i\<rparr>) = SYSTEM_RUNNING" by simp
  moreover have "rodata_enabled (bi u) = rodata_enabled (bi b)" by (simp add: u(2) after_eaccess_def)
  ultimately show ?thesis using w u(2-5) \<open>outcome_is _ x\<close>
    by (intro exI [of _ x] exI [of _ "(finish_boot E u)\<lparr>bi := i\<rparr>"] exI [of _ w]) simp
qed

end

text \<open>Files in memory: the console opens as file 7, and every program but one is missing.\<close>

definition demo_boot :: "string \<Rightarrow> unit boot_env" where
  "demo_boot prog = \<lparr>ce = demo_calls, ext = (\<lambda>n k. k), ctors = [], ctor = (\<lambda>f k. k),
     open_console = (\<lambda>k F. (Inr 7, F\<lparr>refs := (refs F)(7 := 1)\<rparr>)),
     init_dup = (\<lambda>f F. F\<lparr>fd_table := install f (fd_table F), refs := (refs F)(f := refs F f + 1)\<rparr>),
     fput_file = (\<lambda>f F. F\<lparr>refs := (refs F)(f := refs F f - 1)\<rparr>),
     init_eaccess = (\<lambda>p k. if p = Some prog then 0 else - ENOENT),
     kernel_execve = (\<lambda>p av ev. if p = prog then 0 else - ENOENT), DEFAULT_INIT = [],
     STRICT_KERNEL_RWX = True\<rparr>"

interpretation demo_start: boot_laws "demo_boot prog" for prog
proof (intro boot_laws.intro)
  show "initcall_laws (ce (demo_boot prog))" using demo_levels.initcall_laws_axioms by (simp add: demo_boot_def)
  show "boot_laws_axioms (demo_boot prog)" by unfold_locales (auto simp: demo_boot_def)
qed

text \<open>
  The thread that becomes the first process runs to its end: every function of the table was called
  once and in order, the console is open under the three standard descriptors or could not be opened, the
  kernel is read-only unless this was switched off, and the program is the first of the candidates that
  can be executed with the collected arguments; \<^verbatim>\<open>init=\<close> leaves no other candidate, and only without one
  the kernel panics.
\<close>

theorem kernel_init_outcome:
  assumes "boot_laws E" "call_alloc (ce E) (n + 1)" "length saved \<le> n" "fd_table (files b) = []" "args_are (bi b) args envs"
  shows "\<exists>x t w. init_parts E saved n b = Some w \<and> kernel_init E saved n b = Some (x, t) \<and> system_state t = SYSTEM_RUNNING
    \<and> called (bc t) = called (bc b) @ filter (allowed (ce E) (bc b)) (initcall_entries (ce E))
    \<and> (files t = files b \<or> (\<exists>f. fd_table (files t) = [Some f, Some f, Some f] \<and> refs (files t) f = 3))
    \<and> kernel_ro t = (kernel_ro b \<or> STRICT_KERNEL_RWX E \<and> rodata_enabled (bi b))
    \<and> outcome_is (find (\<lambda>p. kernel_execve E p (p # args) envs = 0) (candidates E (after_eaccess E (kc (bc w)) (bi b)))) x"
  by (rule boot_laws.kernel_init_effect [OF assms])

definition demo_ready :: "unit boot" where
  "demo_ready = \<lparr>bc = \<lparr>kc = \<lparr>preempt_count = 0, irqs_off = False, world = ()\<rparr>, blacklisted_initcalls = [], initcall_calltime = 0,
       timings = [], warnings = [], called = []\<rparr>,
     bi = boot_state (main_env 32), files = \<lparr>fd_table = [], refs = (\<lambda>_. 0)\<rparr>, system_state = SYSTEM_SCHEDULING,
     kernel_ro = False, trace = []\<rparr>"

theorem kernel_init_outcome_witness:
  "\<exists>t. kernel_init (demo_boot ''/sbin/init'') ''ro'' 2 demo_ready = Some (Inr ''/sbin/init'', t)
    \<and> system_state t = SYSTEM_RUNNING \<and> called (bc t) = [1, 2, 3] \<and> kernel_ro t"
proof -
  have args: "args_are (bi demo_ready) [] [''HOME=/'', ''TERM=linux'']"
    by (simp add: args_are_def demo_ready_def boot_state_def main_env_def main_env0_def numeral_nat)
  have "outcome_is (find (\<lambda>p. kernel_execve (demo_boot ''/sbin/init'') p [p] [''HOME=/'', ''TERM=linux''] = 0) (candidates (demo_boot ''/sbin/init'') i)) x
      \<Longrightarrow> x = Inr ''/sbin/init''"
    if "i = after_eaccess (demo_boot ''/sbin/init'') k (bi demo_ready)" for i x k
    using that by (auto simp: after_eaccess_def outcome_is_def candidates_def other_candidates_def demo_boot_def demo_ready_def boot_state_def split: sum.splits)
  moreover have "call_alloc (ce (demo_boot ''/sbin/init'')) (2 + 1)" "fd_table (files demo_ready) = []" "kernel_ro demo_ready = False" "rodata_enabled (bi demo_ready)"
    "STRICT_KERNEL_RWX (demo_boot ''/sbin/init'')" "called (bc demo_ready) = []"
    "filter (allowed (ce (demo_boot ''/sbin/init'')) (bc demo_ready)) (initcall_entries (ce (demo_boot ''/sbin/init''))) = [1, 2, 3]"
    by (simp_all add: demo_boot_def demo_calls_def demo_ready_def boot_state_def allowed_def blacklisted_iff)
  ultimately show ?thesis
    using kernel_init_outcome [OF demo_start.boot_laws_axioms, of "''/sbin/init''" 2 "''ro''" demo_ready, OF _ _ _ args] by fastforce
qed

end
