(* ===== verification/Init_Start.thy ===== *)
theory Init_Start
  imports Init_Process Step_System
begin

text \<open>
  The start of the kernel: \<^verbatim>\<open>start_kernel\<close> of \<^verbatim>\<open>init/main.c\<close> as a list of steps in the order of the source,
  \<^verbatim>\<open>rest_init\<close> as the steps of concurrent threads, and the way from the command line to the first process.
\<close>

section \<open>The steps of the start\<close>

text \<open>
  \<open>Ext\<close> calls another part of the kernel, whose effect is a parameter; the other steps are the
  statements that this file implements. The messages printed between them are left out.
\<close>

datatype start_step =
    Ext string
  | Local_Irq_Disable
  | Local_Irq_Enable
  | Early_Irqs bool
  | Setup_Boot_Config
  | Setup_Command_Line
  | Parse_Early_Param
  | Parse_Booting
  | Print_Unknown
  | Parse_After_Dashes
  | Parse_Extra_Init
  | Fix_Irqs
  | Warn_Irqs
  | Debug_Enable
  | Panic_Later
  | Check_Initrd
  | Late_Time_Init
  | Efi_Enter

definition early_steps :: "start_step list" where
  "early_steps =
     map Ext [''set_task_stack_end_magic'', ''smp_setup_processor_id'', ''debug_objects_early_init'', ''init_vmlinux_build_id'',
              ''cgroup_init_early'']"

text \<open>From the disabling of interrupts to their enabling.\<close>

definition dark_start :: "start_step list" where
  "dark_start = Early_Irqs True # map Ext [''boot_cpu_init'', ''page_address_init'', ''early_security_init'', ''setup_arch'']"

definition dark_percpu :: "start_step list" where
  "dark_percpu = map Ext [''setup_nr_cpu_ids'', ''setup_per_cpu_areas'', ''smp_prepare_boot_cpu'', ''boot_cpu_hotplug_init'', ''jump_label_init'']"

definition parse_steps :: "start_step list" where
  "parse_steps = [Parse_Early_Param, Parse_Booting, Print_Unknown, Parse_After_Dashes, Parse_Extra_Init]"

definition dark_rest :: "start_step list" where
  "dark_rest =
     map Ext [''random_init_early'', ''setup_log_buf'', ''vfs_caches_init_early'', ''sort_main_extable'', ''trap_init'', ''mm_core_init'',
              ''poking_init'', ''ftrace_init'', ''early_trace_init'', ''sched_init'']
     @ [Fix_Irqs]
     @ map Ext [''radix_tree_init'', ''maple_tree_init'', ''housekeeping_init'', ''workqueue_init_early'', ''rcu_init'', ''trace_init'']
     @ [Debug_Enable]
     @ map Ext [''context_tracking_init'', ''early_irq_init'', ''init_IRQ'', ''tick_init'', ''rcu_init_nohz'', ''init_timers'', ''srcu_init'',
              ''hrtimers_init'', ''softirq_init'', ''timekeeping_init'', ''time_init'', ''random_init'', ''kfence_init'',
              ''boot_init_stack_canary'', ''perf_event_init'', ''profile_init'', ''call_function_init'']
     @ [Warn_Irqs, Early_Irqs False]"

definition dark_steps :: "start_step list" where
  "dark_steps = dark_start @ [Setup_Boot_Config, Setup_Command_Line] @ dark_percpu @ parse_steps @ dark_rest"

definition bright_steps :: "start_step list" where
  "bright_steps = map Ext [''kmem_cache_init_late'', ''console_init'']"

text \<open>Behind the check for options that did not fit.\<close>

definition late_steps :: "start_step list" where
  "late_steps =
     map Ext [''lockdep_init'', ''locking_selftest'']
     @ [Check_Initrd]
     @ map Ext [''setup_per_cpu_pageset'', ''numa_policy_init'', ''acpi_early_init'']
     @ [Late_Time_Init]
     @ map Ext [''sched_clock_init'', ''calibrate_delay'', ''arch_cpu_finalize_init'', ''pid_idr_init'', ''anon_vma_init'']
     @ [Efi_Enter]
     @ map Ext [''thread_stack_cache_init'', ''cred_init'', ''fork_init'', ''proc_caches_init'', ''uts_ns_init'', ''key_init'', ''security_init'',
              ''dbg_late_init'', ''net_ns_init'', ''vfs_caches_init'', ''pagecache_init'', ''signals_init'', ''seq_file_init'', ''proc_root_init'',
              ''nsfs_init'', ''cpuset_init'', ''cgroup_init'', ''taskstats_init_early'', ''delayacct_init'', ''acpi_subsystem_init'',
              ''arch_post_acpi_subsys_init'', ''kcsan_init'']"

definition start_kernel_steps :: "start_step list" where
  "start_kernel_steps =
     early_steps @ [Local_Irq_Disable] @ dark_steps @ [Local_Irq_Enable] @ bright_steps @ [Panic_Later] @ late_steps"

text \<open>
  \<open>parse_booting\<close> is the splitting of the line: the options that no parameter of a module or of the kernel takes,
  which go to \<^verbatim>\<open>unknown_bootoption\<close>, and what follows \<open>--\<close>. \<open>after_dashes\<close> is the rest of the line behind \<open>--\<close>; \<open>irq_log\<close> is the history of the calls with
  the interrupts they found disabled or not, \<open>irq_warnings\<close> counts the two warnings about them.
\<close>

record 'w start =
  bb :: "'w boot"
  cfg :: config_state
  initrd_start :: addr
  early_boot_irqs_disabled :: bool
  saved_command_line :: string
  saved_command_line_len :: nat
  static_command_line :: string
  after_dashes :: "string option"
  unknown_report :: "string option"
  irq_log :: "(string \<times> bool) list"
  irq_warnings :: nat

record 'w start_env =
  be :: "'w boot_env"
  ie :: init_env
  xe :: xbc_env
  ram :: mem
  boot_command_line :: string
  arch_command_line :: string
  parse_booting :: "string \<Rightarrow> (string \<times> string option) list \<times> string option"
  parse_init :: "string \<Rightarrow> (string \<times> string option) list"
  report_alloc :: "nat \<Rightarrow> bool"
  initrd_below_start_ok :: bool
  initrd_low :: "addr \<Rightarrow> bool"
  late_time_init :: bool
  efi_runtime :: bool

definition set_irqs :: "bool \<Rightarrow> 'w start \<Rightarrow> 'w start" where
  "set_irqs off s = s\<lparr>bb := on_cpu (\<lambda>k. k\<lparr>irqs_off := off\<rparr>) (bb s)\<rparr>"

definition irqs_disabled :: "'w start \<Rightarrow> bool" where
  "irqs_disabled s = irqs_off (kc (bc (bb s)))"

definition call_part :: "'w start_env \<Rightarrow> string \<Rightarrow> 'w start \<Rightarrow> 'w start" where
  "call_part S nm s = s\<lparr>bb := ext_call (be S) nm (bb s), irq_log := irq_log s @ [(nm, irqs_disabled s)]\<rparr>"

text \<open>
  The state after handlers ran. The list of blacklisted functions is one variable, which the handler of
  \<^verbatim>\<open>initcall_blacklist=\<close> writes and the calls of the functions read.
\<close>

definition with_params :: "init_state \<Rightarrow> 'w start \<Rightarrow> 'w start" where
  "with_params i s = s\<lparr>bb := (bb s)\<lparr>bi := i, bc := (bc (bb s))\<lparr>blacklisted_initcalls := blacklist i\<rparr>\<rparr>\<rparr>"

definition blacklist_setup :: "'w calls_env \<Rightarrow> string option \<Rightarrow> init_state \<Rightarrow> int \<times> init_state" where
  "blacklist_setup E str i = (case blacklist_loop (call_alloc E) str (blacklist i) of
     None \<Rightarrow> (1, i\<lparr>setup_panic := True\<rparr>) | Some l \<Rightarrow> (1, i\<lparr>blacklist := l\<rparr>))"

text \<open>All the handlers of \<^verbatim>\<open>init/main.c\<close> that change something.\<close>

definition start_setups :: "init_env \<Rightarrow> 'w calls_env \<Rightarrow> obs_kernel_param list" where
  "start_setups E C = main_setups E @ [\<lparr>p_str = ''initcall_blacklist='', p_early = False, p_setup = Some (blacklist_setup C)\<rparr>]"

lemma blacklist_setup_same:
  "initcall_blacklist E str (c\<lparr>blacklisted_initcalls := blacklist i\<rparr>) =
     (if setup_panic (snd (blacklist_setup E str (i\<lparr>setup_panic := False\<rparr>))) then None
      else Some (fst (blacklist_setup E str i), c\<lparr>blacklisted_initcalls := blacklist (snd (blacklist_setup E str i))\<rparr>))"
  by (simp add: initcall_blacklist_def blacklist_setup_def split: option.split)

text \<open>
  The beginning of the message when a handler runs out of memory. An architecture that parses the early
  parameters already in \<^verbatim>\<open>setup_arch\<close> comes to the same, since nothing between reads or writes them.
\<close>

definition handlers_panic :: string where "handlers_panic = ''initcall_blacklist: Failed to allocate''"

definition handled :: "init_state \<Rightarrow> 'w start \<Rightarrow> string + 'w start" where
  "handled i s = (if setup_panic i then Inl handlers_panic else Inr (with_params i s))"

definition overflow_message :: "string \<times> string \<Rightarrow> string" where
  "overflow_message p = ''Too many boot '' @ fst p @ '' vars at `'' @ snd p @ [CHR 0x27]"

text \<open>\<open>None\<close>: an access outside an array or a buffer; \<open>Inl\<close>: the kernel panics.\<close>

definition start_step :: "'w start_env \<Rightarrow> start_step \<Rightarrow> 'w start \<Rightarrow> (string + 'w start) option" where
  "start_step S st s = (case st of
     Ext nm \<Rightarrow> Some (Inr (call_part S nm s))
   | Local_Irq_Disable \<Rightarrow> Some (Inr (set_irqs True s))
   | Local_Irq_Enable \<Rightarrow> Some (Inr (set_irqs False s))
   | Early_Irqs v \<Rightarrow> Some (Inr (s\<lparr>early_boot_irqs_disabled := v\<rparr>))
   | Setup_Boot_Config \<Rightarrow>
       map_option (\<lambda>c. Inr (s\<lparr>cfg := c\<rparr>)) (setup_boot_config (xe S) (ram S) (initrd_start s) (boot_command_line S) (cfg s))
   | Setup_Command_Line \<Rightarrow>
       map_option (\<lambda>(saved, static, len). Inr (s\<lparr>saved_command_line := cstr saved 0, saved_command_line_len := len, static_command_line := cstr static 0\<rparr>))
         (setup_command_line (extra_command_line (cfg s)) (extra_init_args (cfg s)) (initargs_offs (cfg s)) (boot_command_line S) (arch_command_line S))
   | Parse_Early_Param \<Rightarrow> Some (handled (parse_early_param (ie S) (boot_command_line S) (bi (bb s))) s)
   | Parse_Booting \<Rightarrow>
       (case parse_booting S (static_command_line s) of (ps, dashes) \<Rightarrow>
          map_option (\<lambda>i. handled i (s\<lparr>after_dashes := dashes\<rparr>)) (boot_options (ie S) ps (bi (bb s))))
   | Print_Unknown \<Rightarrow>
       map_option (\<lambda>r. Inr (s\<lparr>unknown_report := r\<rparr>)) (print_unknown_bootoptions (report_alloc S) (bi (bb s)))
   | Parse_After_Dashes \<Rightarrow>
       (case after_dashes s of
          None \<Rightarrow> Some (Inr s)
        | Some l \<Rightarrow> map_option (\<lambda>i. Inr (with_params i s)) (init_args (ie S) (parse_init S l) (bi (bb s))))
   | Parse_Extra_Init \<Rightarrow>
       (case extra_init_args (cfg s) of
          None \<Rightarrow> Some (Inr s)
        | Some l \<Rightarrow> map_option (\<lambda>i. Inr (with_params i s)) (init_args (ie S) (parse_init S l) (bi (bb s))))
   | Fix_Irqs \<Rightarrow> Some (Inr (if \<not> irqs_disabled s then set_irqs True (s\<lparr>irq_warnings := irq_warnings s + 1\<rparr>) else s))
   | Warn_Irqs \<Rightarrow> Some (Inr (if \<not> irqs_disabled s then s\<lparr>irq_warnings := irq_warnings s + 1\<rparr> else s))
   | Debug_Enable \<Rightarrow> Some (Inr (if initcall_debug (ce (be S)) then call_part S ''initcall_debug_enable'' s else s))
   | Panic_Later \<Rightarrow>
       (case panic_later (bi (bb s)) of
          Some p \<Rightarrow> Some (Inl (overflow_message p))
        | None \<Rightarrow> Some (Inr s))
   | Check_Initrd \<Rightarrow>
       Some (Inr (if initrd_start s \<noteq> 0 \<and> \<not> initrd_below_start_ok S \<and> initrd_low S (initrd_start s) then s\<lparr>initrd_start := 0\<rparr> else s))
   | Late_Time_Init \<Rightarrow> Some (Inr (if late_time_init S then call_part S ''late_time_init'' s else s))
   | Efi_Enter \<Rightarrow> Some (Inr (if efi_runtime S then call_part S ''efi_enter_virtual_mode'' s else s)))"

fun run_steps :: "'w start_env \<Rightarrow> start_step list \<Rightarrow> 'w start \<Rightarrow> (string + 'w start) option" where
  "run_steps S [] s = Some (Inr s)"
| "run_steps S (x # xs) s = Option.bind (start_step S x s) (\<lambda>r. case r of Inl msg \<Rightarrow> Some (Inl msg) | Inr s \<Rightarrow> run_steps S xs s)"

definition start_kernel :: "'w start_env \<Rightarrow> 'w start \<Rightarrow> (string + 'w start) option" where
  "start_kernel S s = run_steps S start_kernel_steps s"

section \<open>What the start keeps\<close>

text \<open>The arrays, the settings of the boot configuration and the saved line stay in order through every step.\<close>

definition start_ok :: "'w start_env \<Rightarrow> 'w start \<Rightarrow> bool" where
  "start_ok S s \<longleftrightarrow> arrays_ok (ie S) (bi (bb s)) \<and> config_ok (boot_command_line S) (cfg s)
     \<and> saved_command_line_len s = length (saved_command_line s) \<and> blacklisted_initcalls (bc (bb s)) = blacklist (bi (bb s))"

text \<open>The part of the state that only the first process changes.\<close>

definition same_frame :: "'w start \<Rightarrow> 'w start \<Rightarrow> bool" where
  "same_frame s t \<longleftrightarrow> files (bb t) = files (bb s) \<and> system_state (bb t) = system_state (bb s) \<and> kernel_ro (bb t) = kernel_ro (bb s)
     \<and> called (bc (bb t)) = called (bc (bb s))"

text \<open>The steps that neither handle parameters nor panic, and what they leave alone.\<close>

definition plain :: "start_step \<Rightarrow> bool" where
  "plain x \<longleftrightarrow> x \<notin> {Setup_Boot_Config, Setup_Command_Line, Parse_Early_Param, Parse_Booting, Parse_After_Dashes, Parse_Extra_Init, Panic_Later}"

definition kept :: "'w start \<Rightarrow> 'w start \<Rightarrow> bool" where
  "kept s t \<longleftrightarrow> bi (bb t) = bi (bb s) \<and> cfg t = cfg s \<and> static_command_line t = static_command_line s
     \<and> after_dashes t = after_dashes s"

text \<open>
  What the other parts promise: those of the contracts before; a name of a parameter has no equals sign; the line of the architecture is no longer than
  that of the boot loader.
\<close>

locale start_laws =
  params: setup_laws "ie S" + config: xbc_laws "xe S" + first: boot_laws "be S" for S :: "'w start_env" +
  assumes booting_law: "\<And>line ps d. parse_booting S line = (ps, d) \<Longrightarrow> \<forall>(key, v) \<in> set ps. CHR ''='' \<notin> set key"
    and lines_law: "no_nul (boot_command_line S)" "no_nul (arch_command_line S)" "length (arch_command_line S) \<le> length (boot_command_line S)"
begin

lemma early_loop_arrays: "arrays_ok (ie S) i \<Longrightarrow> set ps \<subseteq> set (setup_table (ie S)) \<Longrightarrow> arrays_ok (ie S) (early_loop (ie S) p v ps i)"
proof (induction ps arbitrary: i)
  case (Cons q ps)
  have "arrays_ok (ie S) (case p_setup q of None \<Rightarrow> i | Some g \<Rightarrow> snd (g v i))"
  proof (cases "p_setup q")
    case (Some g)
    then have "handler_ok (ie S) g" using params.table_law Cons.prems(2) by auto
    then show ?thesis using params.handler_arrays [of g i v "fst (g v i)" "snd (g v i)"] Cons.prems(1) Some by simp
  qed (use Cons.prems in simp)
  then show ?case using Cons by simp
qed simp

lemma early_param_arrays: "arrays_ok (ie S) i \<Longrightarrow> arrays_ok (ie S) (parse_early_param (ie S) line i)"
proof -
  have "arrays_ok (ie S) i \<Longrightarrow> arrays_ok (ie S) (fold (\<lambda>(p, v) i. snd (do_early_param (ie S) p v i)) qs i)" for qs i
    by (induction qs arbitrary: i) (auto simp: do_early_param_def early_loop_arrays)
  moreover have "arrays_ok (ie S) (j\<lparr>early_done := True\<rparr>) = arrays_ok (ie S) j" for j by (simp add: arrays_ok_def)
  ultimately show "arrays_ok (ie S) i \<Longrightarrow> ?thesis" by (simp add: parse_early_param_def parse_early_options_def)
qed

lemma step_fields [simp]:
  "bi (bb (set_irqs v s)) = bi (bb s)" "bi (bb (with_params i s)) = i" "cfg (set_irqs v s) = cfg s" "bi (bb (call_part S nm s)) = bi (bb s)" "cfg (call_part S nm s) = cfg s"
  "cfg (with_params i s) = cfg s"
  "saved_command_line (set_irqs v s) = saved_command_line s" "saved_command_line_len (set_irqs v s) = saved_command_line_len s"
  "saved_command_line (call_part S nm s) = saved_command_line s" "saved_command_line_len (call_part S nm s) = saved_command_line_len s"
  "saved_command_line (with_params i s) = saved_command_line s" "saved_command_line_len (with_params i s) = saved_command_line_len s"
  by (simp_all add: set_irqs_def call_part_def with_params_def)

lemma command_line_ok:
  assumes "config_ok (boot_command_line S) c"
  shows "\<exists>saved static. setup_command_line (extra_command_line c) (extra_init_args c) (initargs_offs c) (boot_command_line S) (arch_command_line S)
      = Some (saved, static, length (cstr saved 0))
    \<and> cstr saved 0 = command_line_text (line_of (extra_command_line c)) (extra_init_args c) (initargs_offs c) (boot_command_line S)
    \<and> cstr static 0 = line_of (extra_command_line c) @ arch_command_line S"
proof -
  have eq: "setup_command_line (extra_command_line c) = setup_command_line (Some (line_of (extra_command_line c)))"
    by (cases "extra_command_line c") (simp_all add: line_of_def setup_command_line_None)
  have "no_nul (line_of (extra_command_line c))" using assms by (cases "extra_command_line c") (auto simp: line_of_def config_ok_def)
  from setup_command_line_fits [OF this lines_law, of "initargs_offs c" "extra_init_args c"] assms show ?thesis
    unfolding config_ok_def eq by fastforce
qed

text \<open>The steps that handle parameters.\<close>

lemma handled_ok:
  assumes "start_ok S s" "arrays_ok (ie S) i" "cfg s' = cfg s" "saved_command_line s' = saved_command_line s"
    "saved_command_line_len s' = saved_command_line_len s"
  shows "start_ok S (with_params i s')" "case handled i s' of Inl m \<Rightarrow> m = handlers_panic | Inr t \<Rightarrow> start_ok S t"
proof -
  show "start_ok S (with_params i s')" using assms by (simp add: start_ok_def) (simp add: with_params_def)
  then show "case handled i s' of Inl m \<Rightarrow> m = handlers_panic | Inr t \<Rightarrow> start_ok S t" by (simp add: handled_def)
qed

lemma plain_step:
  assumes "start_ok S s" "plain x"
  shows "\<exists>t. start_step S x s = Some (Inr t) \<and> start_ok S t \<and> kept s t \<and> (x \<noteq> Check_Initrd \<longrightarrow> initrd_start t = initrd_start s)"
proof (cases "x = Print_Unknown")
  case True
  have "arrays_ok (ie S) (bi (bb s))" using assms(1) by (simp add: start_ok_def)
  from params.unknown_options_safe [OF this, of "report_alloc S"] obtain r where "print_unknown_bootoptions (report_alloc S) (bi (bb s)) = Some r" by blast
  then show ?thesis using assms(1) True by (simp add: start_step_def start_ok_def kept_def)
next
  case False
  then show ?thesis using assms
    by (cases x) (auto simp: plain_def start_step_def start_ok_def kept_def set_irqs_def call_part_def)
qed

lemma run_append:
  "run_steps S (xs @ ys) s = Option.bind (run_steps S xs s) (\<lambda>r. case r of Inl m \<Rightarrow> Some (Inl m) | Inr t \<Rightarrow> run_steps S ys t)"
  by (induction xs arbitrary: s) (auto split: option.splits sum.splits bind_splits)

text \<open>A property that every step keeps holds after a run.\<close>

lemma run_keeps:
  assumes "run_steps S xs s = Some (Inr t)" "P s" "\<And>x s t. x \<in> set xs \<Longrightarrow> P s \<Longrightarrow> start_step S x s = Some (Inr t) \<Longrightarrow> P t"
  shows "P t"
  using assms
proof (induction xs arbitrary: s)
  case (Cons x xs)
  obtain u where u: "start_step S x s = Some (Inr u)" "run_steps S xs u = Some (Inr t)"
  proof (cases "start_step S x s")
    case (Some r)
    then show ?thesis using Cons.prems(1) that by (cases r) simp_all
  qed (use Cons.prems(1) in simp)
  show ?case using Cons.IH [OF u(2)] Cons.prems(2,3) u(1) by auto
qed simp

lemma plain_run:
  assumes "start_ok S s" "list_all plain xs"
  shows "\<exists>t. run_steps S xs s = Some (Inr t) \<and> start_ok S t \<and> kept s t \<and> (Check_Initrd \<notin> set xs \<longrightarrow> initrd_start t = initrd_start s)"
  using assms
proof (induction xs arbitrary: s)
  case (Cons x xs)
  obtain t where t: "start_step S x s = Some (Inr t)" "start_ok S t" "kept s t" "x \<noteq> Check_Initrd \<longrightarrow> initrd_start t = initrd_start s"
    using plain_step [OF Cons.prems(1)] Cons.prems(2) by auto
  obtain u where "run_steps S xs t = Some (Inr u)" "start_ok S u" "kept t u" "Check_Initrd \<notin> set xs \<longrightarrow> initrd_start u = initrd_start t"
    using Cons.IH [OF t(2)] Cons.prems(2) by auto
  then show ?case using t by (auto simp: kept_def)
qed (simp add: kept_def)

lemma step_frame: "start_step S x s = Some (Inr t) \<Longrightarrow> same_frame s t"
  by (auto simp: start_step_def same_frame_def set_irqs_def call_part_def handled_def with_params_def
      split: start_step.splits option.splits prod.splits if_splits)

lemma run_frame: "run_steps S xs s = Some (Inr t) \<Longrightarrow> same_frame s t"
  by (rule run_keeps [where P = "same_frame s"]) (auto dest: step_frame simp: same_frame_def)

lemma run_plain: "start_ok S s \<Longrightarrow> list_all plain xs \<Longrightarrow>
    \<exists>t. run_steps S (xs @ ys) s = run_steps S ys t \<and> start_ok S t \<and> kept s t \<and> (Check_Initrd \<notin> set xs \<longrightarrow> initrd_start t = initrd_start s)"
  using plain_run [of s xs] by (force simp: run_append)

lemma arrays_args: "arrays_ok (ie S) i \<Longrightarrow> panic_later i = None \<Longrightarrow> \<exists>args envs. args_are i args envs"
proof -
  assume ok: "arrays_ok (ie S) i" "panic_later i = None"
  then obtain x r where r: "argv_init i = x # r" "length r = ENV_ARG_LIMIT (ie S) + 1" "r ! ENV_ARG_LIMIT (ie S) = None"
    by (cases "argv_init i") (auto simp: arrays_ok_def)
  obtain args where "live r = Some args" using live_ends [of "ENV_ARG_LIMIT (ie S)" r] r by auto
  moreover obtain xs where "env_list (ENV_ARG_LIMIT (ie S)) (envp_init i) xs" using ok by (auto simp: arrays_ok_def)
  then have "length (envp_init i) = ENV_ARG_LIMIT (ie S) + 2" "envp_init i ! (ENV_ARG_LIMIT (ie S) + 1) = None"
    by (auto simp: env_list_def nth_append)
  then obtain envs where "live (envp_init i) = Some envs" using live_ends [of "ENV_ARG_LIMIT (ie S) + 1" "envp_init i"] by auto
  ultimately show ?thesis using r(1) by (auto simp: args_are_def)
qed

end

section \<open>From the command line to the first program\<close>

text \<open>A machine that was just switched on.\<close>

definition fresh_start :: "'w start_env \<Rightarrow> 'w start \<Rightarrow> bool" where
  "fresh_start S s \<longleftrightarrow> bi (bb s) = boot_state (ie S) \<and> (\<exists>en. cfg s = config_start en) \<and> saved_command_line s = [] \<and> saved_command_line_len s = 0
     \<and> fd_table (files (bb s)) = [] \<and> called (bc (bb s)) = [] \<and> blacklisted_initcalls (bc (bb s)) = [] \<and> \<not> kernel_ro (bb s)"

text \<open>
  What the options come to: those of the line that are to be handled early, the others of the line, what follows
  \<open>--\<close>, and the arguments of the boot configuration, one after the other; \<open>Inl\<close> when a handler panics or
  the arrays overflow.
\<close>

definition collected :: "'w start_env \<Rightarrow> string \<Rightarrow> string option \<Rightarrow> (string + init_state) option" where
  "collected S line extra =
     (let i = parse_early_param (ie S) (boot_command_line S) (boot_state (ie S));
          args = (\<lambda>l i. case l of None \<Rightarrow> Some i | Some l \<Rightarrow> init_args (ie S) (parse_init S l) i) in
      if setup_panic i then Some (Inl handlers_panic)
      else case parse_booting S line of (ps, dashes) \<Rightarrow>
        Option.bind (boot_options (ie S) ps i) (\<lambda>i.
          if setup_panic i then Some (Inl handlers_panic)
          else Option.bind (args dashes i) (\<lambda>i. Option.bind (args extra i) (\<lambda>i.
            Some (case panic_later i of Some p \<Rightarrow> Inl (overflow_message p) | None \<Rightarrow> Inr i)))))"

lemma steps_cut: "\<exists>xs ys zs. start_kernel_steps = xs @ Setup_Boot_Config # Setup_Command_Line # ys @ parse_steps @ zs @ Panic_Later # late_steps
    \<and> list_all plain xs \<and> list_all plain ys \<and> list_all plain zs \<and> list_all plain late_steps \<and> Check_Initrd \<notin> set xs"
proof -
  have "start_kernel_steps = (early_steps @ [Local_Irq_Disable] @ dark_start) @ Setup_Boot_Config # Setup_Command_Line
      # dark_percpu @ parse_steps @ (dark_rest @ [Local_Irq_Enable] @ bright_steps) @ Panic_Later # late_steps"
    by (simp add: start_kernel_steps_def dark_steps_def)
  moreover have "list_all plain (early_steps @ [Local_Irq_Disable] @ dark_start)" "Check_Initrd \<notin> set (early_steps @ [Local_Irq_Disable] @ dark_start)"
    by (auto simp: early_steps_def dark_start_def plain_def)
  moreover have "list_all plain dark_percpu" by (simp add: dark_percpu_def plain_def)
  moreover have "list_all plain (dark_rest @ [Local_Irq_Enable] @ bright_steps)" by (simp add: dark_rest_def bright_steps_def plain_def)
  moreover have "list_all plain late_steps" by (simp add: late_steps_def plain_def)
  ultimately show ?thesis by blast
qed

context start_laws
begin

lemma fresh_ok: "fresh_start S s \<Longrightarrow> start_ok S s"
  using params.boot_state_arrays by (auto simp: fresh_start_def start_ok_def config_ok_def) (auto simp: config_start_def boot_state_def)

lemma args_step:
  assumes "start_ok S s" and x: "x = Parse_After_Dashes \<and> l = after_dashes s \<or> x = Parse_Extra_Init \<and> l = extra_init_args (cfg s)"
  shows "\<exists>i t. (case l of None \<Rightarrow> Some (bi (bb s)) | Some l \<Rightarrow> init_args (ie S) (parse_init S l) (bi (bb s))) = Some i
    \<and> start_step S x s = Some (Inr t) \<and> start_ok S t \<and> bi (bb t) = i \<and> cfg t = cfg s"
proof (cases l)
  case None
  then show ?thesis using assms by (auto simp: start_step_def)
next
  case (Some m)
  have "arrays_ok (ie S) (bi (bb s))" using assms(1) by (simp add: start_ok_def)
  from params.init_args_arrays [OF this, of "parse_init S m"] obtain i where
    i: "init_args (ie S) (parse_init S m) (bi (bb s)) = Some i" "arrays_ok (ie S) i" by blast
  from x Some have "x = Parse_After_Dashes \<and> after_dashes s = Some m \<or> x = Parse_Extra_Init \<and> extra_init_args (cfg s) = Some m" by auto
  then have "start_step S x s = Some (Inr (with_params i s))" by (auto simp: start_step_def i(1))
  then show ?thesis using handled_ok(1) [OF assms(1) i(2) refl refl refl] i(1)
    by (intro exI [of _ i] exI [of _ "with_params i s"]) (simp add: Some)
qed

text \<open>From the parsing of the early parameters to the end.\<close>

lemma tail_outcome:
  assumes ok: "start_ok S s" and pl: "list_all plain zs" "list_all plain late_steps"
  shows "\<exists>r. run_steps S (zs @ Panic_Later # late_steps) s = Some r \<and>
    (case panic_later (bi (bb s)) of Some p \<Rightarrow> r = Inl (overflow_message p)
     | None \<Rightarrow> \<exists>t. r = Inr t \<and> start_ok S t \<and> kept s t)"
proof -
  obtain u where u: "run_steps S (zs @ Panic_Later # late_steps) s = run_steps S (Panic_Later # late_steps) u" "start_ok S u" "kept s u"
    using run_plain [OF ok pl(1)] by blast
  obtain t where t: "run_steps S late_steps u = Some (Inr t)" "start_ok S t" "kept u t" using plain_run [OF u(2) pl(2)] by blast
  show ?thesis
  proof (cases "panic_later (bi (bb s))")
    case None
    then show ?thesis using u t by (auto simp: start_step_def kept_def)
  next
    case (Some p)
    then show ?thesis using u by (simp add: start_step_def kept_def)
  qed
qed

lemma parse_outcome:
  assumes ok: "start_ok S s" and fr: "bi (bb s) = boot_state (ie S)" and pl: "list_all plain zs" "list_all plain late_steps"
  shows "\<exists>r. run_steps S (parse_steps @ zs @ Panic_Later # late_steps) s = Some r
    \<and> (case r of Inl m \<Rightarrow> collected S (static_command_line s) (extra_init_args (cfg s)) = Some (Inl m)
       | Inr t \<Rightarrow> start_ok S t \<and> collected S (static_command_line s) (extra_init_args (cfg s)) = Some (Inr (bi (bb t))))"
proof -
  let ?i = "parse_early_param (ie S) (boot_command_line S) (boot_state (ie S))" and ?tail = "zs @ Panic_Later # late_steps"
  obtain ps d where p: "parse_booting S (static_command_line s) = (ps, d)" by fastforce
  have i: "arrays_ok (ie S) ?i" by (rule early_param_arrays [OF params.boot_state_arrays])
  obtain j where j: "boot_options (ie S) ps ?i = Some j" "arrays_ok (ie S) j" using params.boot_options_arrays [OF i booting_law [OF p]] by blast
  show ?thesis
  proof (cases "setup_panic ?i \<or> setup_panic j")
    case True
    have "collected S (static_command_line s) (extra_init_args (cfg s)) = Some (Inl handlers_panic)"
      using True by (auto simp: collected_def p j(1) Let_def)
    moreover have "run_steps S (parse_steps @ ?tail) s = Some (Inl handlers_panic)"
      using True by (cases "setup_panic ?i")
        (simp_all add: parse_steps_def start_step_def fr handled_def, simp add: with_params_def p j(1))
    ultimately show ?thesis by simp
  next
    case False
    define u where "u = with_params j ((with_params ?i s)\<lparr>after_dashes := d\<rparr>)"
    have u: "start_ok S u" "bi (bb u) = j" "after_dashes u = d" "cfg u = cfg s"
      using handled_ok(1) [OF ok j(2), of "(with_params ?i s)\<lparr>after_dashes := d\<rparr>"] by (simp_all add: u_def) (simp_all add: with_params_def)
    have 1: "run_steps S (parse_steps @ ?tail) s = run_steps S (Print_Unknown # Parse_After_Dashes # Parse_Extra_Init # ?tail) u"
    proof -
      have "start_step S Parse_Early_Param s = Some (Inr (with_params ?i s))" using False by (simp add: start_step_def fr handled_def)
      moreover have "static_command_line (with_params ?i s) = static_command_line s" by (simp add: with_params_def)
      then have "start_step S Parse_Booting (with_params ?i s) = Some (Inr u)" using False p j(1) by (simp add: start_step_def handled_def u_def)
      ultimately show ?thesis by (simp add: parse_steps_def)
    qed
    obtain v where v: "start_step S Print_Unknown u = Some (Inr v)" "start_ok S v" "kept u v"
      using plain_step [OF u(1), of Print_Unknown] by (auto simp: plain_def)
    have vu: "bi (bb v) = j" "after_dashes v = d" "cfg v = cfg s" using u(2-4) v(3) by (simp_all add: kept_def)
    from args_step [OF v(2), of Parse_After_Dashes d] obtain a w where
      a: "(case d of None \<Rightarrow> Some j | Some l \<Rightarrow> init_args (ie S) (parse_init S l) j) = Some a"
      and w: "start_step S Parse_After_Dashes v = Some (Inr w)" "start_ok S w" "bi (bb w) = a" "cfg w = cfg s"
      unfolding vu by blast
    from args_step [OF w(2), of Parse_Extra_Init "extra_init_args (cfg s)"] obtain b x where
      b: "(case extra_init_args (cfg s) of None \<Rightarrow> Some a | Some l \<Rightarrow> init_args (ie S) (parse_init S l) a) = Some b"
      and x: "start_step S Parse_Extra_Init w = Some (Inr x)" "start_ok S x" "bi (bb x) = b"
      unfolding w(3,4) by blast
    have c: "collected S (static_command_line s) (extra_init_args (cfg s))
        = Some (case panic_later b of Some p \<Rightarrow> Inl (overflow_message p) | None \<Rightarrow> Inr b)"
      using False by (simp add: collected_def p j(1) a b Let_def)
    obtain r where r: "run_steps S ?tail x = Some r"
      "case panic_later b of Some p \<Rightarrow> r = Inl (overflow_message p) | None \<Rightarrow> \<exists>t. r = Inr t \<and> start_ok S t \<and> kept x t"
      using tail_outcome [OF x(2) pl] x(3) by blast
    have "run_steps S (parse_steps @ ?tail) s = Some r" unfolding 1 using v(1) w(1) x(1) r(1) by simp
    then show ?thesis using c r(2) x(3) by (auto simp: kept_def split: option.splits)
  qed
qed

lemma start_outcome:
  assumes "fresh_start S s"
  shows "\<exists>c r. setup_boot_config (xe S) (ram S) (initrd_start s) (boot_command_line S) (cfg s) = Some c \<and> start_kernel S s = Some r
    \<and> (case r of Inl m \<Rightarrow> collected S (line_of (extra_command_line c) @ arch_command_line S) (extra_init_args c) = Some (Inl m)
       | Inr t \<Rightarrow> start_ok S t \<and> collected S (line_of (extra_command_line c) @ arch_command_line S) (extra_init_args c) = Some (Inr (bi (bb t))))"
proof -
  obtain xs ys zs where steps: "start_kernel_steps = xs @ Setup_Boot_Config # Setup_Command_Line # ys @ parse_steps @ zs @ Panic_Later # late_steps"
    and pl: "list_all plain xs" "list_all plain ys" "list_all plain zs" "list_all plain late_steps" "Check_Initrd \<notin> set xs"
    using steps_cut by blast
  obtain u where u: "start_kernel S s = run_steps S (Setup_Boot_Config # Setup_Command_Line # ys @ parse_steps @ zs @ Panic_Later # late_steps) u"
    "start_ok S u" "kept s u" "initrd_start u = initrd_start s"
    using run_plain [OF fresh_ok [OF assms] pl(1)] pl(5) unfolding start_kernel_def steps by metis
  have cu: "cfg u = cfg s" and bu: "bi (bb u) = boot_state (ie S)" using u(3) assms by (simp_all add: kept_def fresh_start_def)
  have "config_ok (boot_command_line S) (cfg s)" using u(2) cu by (simp add: start_ok_def)
  then obtain c where c: "setup_boot_config (xe S) (ram S) (initrd_start s) (boot_command_line S) (cfg s) = Some c" "config_ok (boot_command_line S) c"
    using config.boot_config_ok by blast
  obtain saved static where l: "setup_command_line (extra_command_line c) (extra_init_args c) (initargs_offs c) (boot_command_line S) (arch_command_line S)
      = Some (saved, static, length (cstr saved 0))" "cstr static 0 = line_of (extra_command_line c) @ arch_command_line S"
    using command_line_ok [OF c(2)] by blast
  define v where "v = u\<lparr>cfg := c, saved_command_line := cstr saved 0, saved_command_line_len := length (cstr saved 0), static_command_line := cstr static 0\<rparr>"
  have v: "start_ok S v" using u(2) c(2) by (simp add: v_def start_ok_def)
  have 1: "start_kernel S s = run_steps S (ys @ parse_steps @ zs @ Panic_Later # late_steps) v"
    unfolding u(1) v_def using c(1) l(1) by (simp add: start_step_def cu u(4))
  obtain w where w: "start_kernel S s = run_steps S (parse_steps @ zs @ Panic_Later # late_steps) w" "start_ok S w" "kept v w"
    unfolding 1 using run_plain [OF v pl(2)] by blast
  have "bi (bb w) = boot_state (ie S)" "cfg w = c" "static_command_line w = line_of (extra_command_line c) @ arch_command_line S"
    using w(3) bu l(2) by (simp_all add: kept_def v_def)
  note w' = this
  from parse_outcome [OF w(2) w'(1) pl(3,4)] show ?thesis unfolding w(1) w'(2,3) c(1) by blast
qed

lemma collected_fits: "collected S line extra = Some (Inr i) \<Longrightarrow> panic_later i = None"
  by (cases "panic_later i") (auto simp: collected_def Let_def bind_eq_Some_conv split: if_splits prod.splits option.splits)

end


text \<open>
  (C14) From the command line to the first program. On a machine that was just switched on and whose start ends, the parameters
  are those that the options of the assembled line and of the boot configuration add up to, and hold a list of arguments
  and one of variables. When no allocation fails, the thread of the first process then runs, in order, every function of the table whose name is
  not on the blacklist that \<^verbatim>\<open>initcall_blacklist=\<close> left; makes the kernel read-only exactly when it is configured so and
  \<^verbatim>\<open>rodata=\<close> did not switch it off; and executes, with exactly these arguments, the first of its candidates that can be executed, or
  panics when there is none. The program on the ram disk is a candidate exactly when \<^verbatim>\<open>init_eaccess\<close> found it after these functions ran.
  The assumptions are those of the property before, and that the table of functions is split into ordered levels.
\<close>

theorem boot_to_first_program:
  assumes "start_laws S" "fresh_start S s" "start_kernel S s = Some (Inr t)" "\<forall>n. call_alloc (ce (be S)) n"
  shows "\<exists>c args envs w x u. setup_boot_config (xe S) (ram S) (initrd_start s) (boot_command_line S) (cfg s) = Some c
    \<and> collected S (line_of (extra_command_line c) @ arch_command_line S) (extra_init_args c) = Some (Inr (bi (bb t)))
    \<and> args_are (bi (bb t)) args envs
    \<and> init_parts (be S) (saved_command_line t) (saved_command_line_len t) ((bb t)\<lparr>system_state := SYSTEM_SCHEDULING\<rparr>) = Some w
    \<and> kernel_init (be S) (saved_command_line t) (saved_command_line_len t) ((bb t)\<lparr>system_state := SYSTEM_SCHEDULING\<rparr>) = Some (x, u)
    \<and> system_state u = SYSTEM_RUNNING
    \<and> called (bc u) = filter (\<lambda>fn. takeWhile (\<lambda>c. c \<noteq> CHR '' '') (sprint_symbol_no_offset (ce (be S)) fn) \<notin> set (blacklist (bi (bb t))))
        (initcall_entries (ce (be S)))
    \<and> (kernel_ro u \<longleftrightarrow> STRICT_KERNEL_RWX (be S) \<and> rodata_enabled (bi (bb t)))
    \<and> outcome_is (find (\<lambda>p. kernel_execve (be S) p (p # args) envs = 0) (candidates (be S) (after_eaccess (be S) (kc (bc w)) (bi (bb t))))) x"
proof -
  obtain c where c: "setup_boot_config (xe S) (ram S) (initrd_start s) (boot_command_line S) (cfg s) = Some c"
    "collected S (line_of (extra_command_line c) @ arch_command_line S) (extra_init_args c) = Some (Inr (bi (bb t)))" and ok: "start_ok S t"
    using start_laws.start_outcome [OF assms(1,2)] assms(3) by auto
  have fr: "fd_table (files (bb t)) = []" "called (bc (bb t)) = []" "\<not> kernel_ro (bb t)"
    using start_laws.run_frame [OF assms(1) assms(3) [unfolded start_kernel_def]] assms(2) by (simp_all add: same_frame_def fresh_start_def)
  have bl: "blacklisted_initcalls (bc (bb t)) = blacklist (bi (bb t))" using ok by (simp add: start_ok_def)
  have al: "allowed (ce (be S)) (bc (bb t)) = (\<lambda>fn. takeWhile (\<lambda>c. c \<noteq> CHR '' '') (sprint_symbol_no_offset (ce (be S)) fn) \<notin> set (blacklist (bi (bb t))))"
    by (rule ext) (simp add: allowed_def blacklisted_iff bl)
  obtain args envs where args: "args_are (bi (bb t)) args envs"
    using start_laws.arrays_args [OF assms(1)] start_laws.collected_fits [OF assms(1) c(2)] ok unfolding start_ok_def by blast
  have "boot_laws (be S)" using assms(1) by (simp add: start_laws_def)
  from boot_laws.kernel_init_effect [OF this, of "saved_command_line_len t" "saved_command_line t" "(bb t)\<lparr>system_state := SYSTEM_SCHEDULING\<rparr>" args envs]
  obtain x u w where "init_parts (be S) (saved_command_line t) (saved_command_line_len t) ((bb t)\<lparr>system_state := SYSTEM_SCHEDULING\<rparr>) = Some w"
    "kernel_init (be S) (saved_command_line t) (saved_command_line_len t) ((bb t)\<lparr>system_state := SYSTEM_SCHEDULING\<rparr>) = Some (x, u)"
    "system_state u = SYSTEM_RUNNING" "called (bc u) = filter (allowed (ce (be S)) (bc (bb t))) (initcall_entries (ce (be S)))"
    "kernel_ro u \<longleftrightarrow> STRICT_KERNEL_RWX (be S) \<and> rodata_enabled (bi (bb t))"
    "outcome_is (find (\<lambda>p. kernel_execve (be S) p (p # args) envs = 0) (candidates (be S) (after_eaccess (be S) (kc (bc w)) (bi (bb t))))) x"
    using assms(4) ok fr args by (auto simp: start_ok_def)
  then show ?thesis using c args unfolding al by blast
qed

text \<open>
  A machine for the contracts: the handlers of \<^verbatim>\<open>init/main.c\<close>, the configuration parser and the files in
  memory of the theories before; lines are split at spaces and equals signs.
\<close>

definition split_eq :: "string \<Rightarrow> string \<times> string option" where
  "split_eq w = (takeWhile (\<lambda>c. c \<noteq> CHR ''='') w, case dropWhile (\<lambda>c. c \<noteq> CHR ''='') w of [] \<Rightarrow> None | _ # v \<Rightarrow> Some v)"

definition split_line :: "string \<Rightarrow> (string \<times> string option) list" where
  "split_line line = map split_eq (words [] line)"

definition demo_params :: init_env where
  "demo_params = (main_env0 32)\<lparr>setup_table := start_setups (main_env0 32) demo_calls, parse_args := split_line\<rparr>"

definition demo_machine :: "string \<Rightarrow> unit start_env" where
  "demo_machine l = \<lparr>be = demo_boot ''/sbin/init'', ie = demo_params, xe = demo_xbc, ram = (\<lambda>_. 0), boot_command_line = l, arch_command_line = l,
     parse_booting = (\<lambda>line. (split_line line, None)), parse_init = split_line, report_alloc = (\<lambda>_. True),
     initrd_below_start_ok = True, initrd_low = (\<lambda>_. False), late_time_init = False, efi_runtime = False\<rparr>"

lemma split_line_keys: "(key, v) \<in> set (split_line line) \<Longrightarrow> CHR ''='' \<notin> set key"
  by (auto simp: split_line_def split_eq_def dest: set_takeWhileD)

lemma blacklist_handler: "handler_ok E (blacklist_setup C)"
  by (simp add: handler_ok_def blacklist_setup_def split: option.split)

definition demo_line :: string where
  "demo_line = ''quiet rodata=off initcall_blacklist=probe_b single''"

lemma demo_table: "setup_laws demo_params"
proof (unfold_locales, goal_cases)
  case (2 p g)
  then have "handler_ok (main_env0 32) g"
    using main_handlers [of "main_env0 32"] blacklist_handler by (auto simp: demo_params_def start_setups_def main_setups_def)
  then show ?case by (simp add: handler_ok_def demo_params_def)
qed (simp add: demo_params_def main_env0_def)

interpretation demo_kernel: start_laws "demo_machine demo_line"
proof (intro start_laws.intro)
  show "setup_laws (ie (demo_machine demo_line))" "xbc_laws (xe (demo_machine demo_line))" "boot_laws (be (demo_machine demo_line))"
    using demo_table demo_config.xbc_laws_axioms demo_start.boot_laws_axioms by (simp_all add: demo_machine_def)
  show "start_laws_axioms (demo_machine demo_line)"
    by unfold_locales (auto simp: demo_machine_def demo_line_def no_nul_def dest: split_line_keys)
qed

definition demo_on :: "unit start" where
  "demo_on = \<lparr>bb = demo_ready\<lparr>bi := boot_state demo_params\<rparr>, cfg = config_start 0, initrd_start = 0, early_boot_irqs_disabled = False,
     saved_command_line = [], saved_command_line_len = 0, static_command_line = [], after_dashes = None, unknown_report = None,
     irq_log = [], irq_warnings = 0\<rparr>"

lemma demo_switched_on: "fresh_start (demo_machine demo_line) demo_on"
  by (auto simp: fresh_start_def demo_on_def demo_machine_def demo_ready_def)

lemma demo_config_none:
  "setup_boot_config (xe (demo_machine demo_line)) m st l (cfg demo_on) = Some c \<Longrightarrow> extra_command_line c = None \<and> extra_init_args c = None"
  by (auto simp: setup_boot_config_def get_boot_config_from_initrd_def demo_machine_def demo_xbc_def demo_on_def config_start_def params_fields
      Let_def split: prod.splits if_splits)

lemma demo_split:
  "split_line demo_line = [(''quiet'', None), (''rodata'', Some ''off''), (''initcall_blacklist'', Some ''probe_b''), (''single'', None)]"
  by (simp add: split_line_def split_eq_def demo_line_def)

lemmas demo_param_defs = demo_params_def main_env0_def start_setups_def main_setups_def

lemma demo_early:
  "parse_early_param demo_params demo_line (boot_state demo_params)
     = (boot_state demo_params)\<lparr>console_loglevel := 4, rodata_enabled := False, early_done := True\<rparr>"
proof -
  have "take (COMMAND_LINE_SIZE - 1) demo_line = demo_line" by (simp add: demo_line_def)
  moreover have "parse_args demo_params = split_line" by (simp add: demo_params_def)
  moreover have "\<not> early_done (boot_state demo_params)" by (simp add: boot_state_def)
  ultimately show ?thesis
    by (simp add: parse_early_param_def parse_early_options_def demo_split do_early_param_def)
      (simp add: demo_param_defs quiet_kernel_def set_debug_rodata_def)
qed

lemma demo_options:
  assumes "argv_init i = Some ''init'' # None # r" "panic_later i = None"
  shows "boot_options demo_params (split_line demo_line) i
    = Some (i\<lparr>blacklist := ''probe_b'' # blacklist i, argv_init := Some ''init'' # Some ''single'' # r\<rparr>)"
  using assms
  by (simp add: demo_split unknown_bootoption_def obsolete_checksetup_def with_val_def demo_param_defs Let_def blacklist_setup_def
      demo_calls_def strsep_def)

lemma demo_collected:
  "\<exists>i. collected (demo_machine demo_line) demo_line None = Some (Inr i) \<and> blacklist i = [''probe_b''] \<and> \<not> rodata_enabled i
    \<and> execute_command i = None"
proof -
  let ?i = "(boot_state demo_params)\<lparr>console_loglevel := 4, rodata_enabled := False, early_done := True\<rparr>"
  have m: "ie (demo_machine demo_line) = demo_params" "boot_command_line (demo_machine demo_line) = demo_line"
    "parse_booting (demo_machine demo_line) demo_line = (split_line demo_line, None)"
    by (simp_all add: demo_machine_def)
  have "replicate 33 None = None # replicate 32 None" by (simp flip: replicate_Suc)
  then have "argv_init ?i = Some ''init'' # None # replicate 32 None" "panic_later ?i = None" "\<not> setup_panic ?i" "blacklist ?i = []"
    "execute_command ?i = None"
    by (simp_all add: boot_state_def demo_params_def main_env0_def)
  with demo_options [of ?i "replicate 32 None"] show ?thesis
    unfolding collected_def m demo_early Let_def by simp
qed

lemma demo_ends:
  assumes "setup_boot_config (xe (demo_machine demo_line)) m st l (cfg demo_on) = Some c"
    and "case r of Inl m \<Rightarrow> collected (demo_machine demo_line) (line_of (extra_command_line c) @ arch_command_line (demo_machine demo_line))
          (extra_init_args c) = Some (Inl m)
       | Inr t \<Rightarrow> collected (demo_machine demo_line) (line_of (extra_command_line c) @ arch_command_line (demo_machine demo_line))
          (extra_init_args c) = Some (Inr (bi (bb t)))"
  shows "\<exists>t. r = Inr t \<and> blacklist (bi (bb t)) = [''probe_b''] \<and> \<not> rodata_enabled (bi (bb t)) \<and> execute_command (bi (bb t)) = None"
proof -
  have "line_of (extra_command_line c) @ arch_command_line (demo_machine demo_line) = demo_line" "extra_init_args c = None"
    using demo_config_none [OF assms(1)] by (simp_all add: line_of_def demo_machine_def)
  then show ?thesis using assms(2) demo_collected by (cases r) auto
qed


lemma demo_start_ends:
  "\<exists>t. start_kernel (demo_machine demo_line) demo_on = Some (Inr t) \<and> blacklist (bi (bb t)) = [''probe_b''] \<and> \<not> rodata_enabled (bi (bb t))
    \<and> execute_command (bi (bb t)) = None"
proof -
  obtain c r where c: "setup_boot_config (xe (demo_machine demo_line)) (ram (demo_machine demo_line)) (initrd_start demo_on)
      (boot_command_line (demo_machine demo_line)) (cfg demo_on) = Some c"
    and r: "start_kernel (demo_machine demo_line) demo_on = Some r"
      "case r of Inl m \<Rightarrow> collected (demo_machine demo_line) (line_of (extra_command_line c) @ arch_command_line (demo_machine demo_line))
          (extra_init_args c) = Some (Inl m)
       | Inr t \<Rightarrow> start_ok (demo_machine demo_line) t \<and> collected (demo_machine demo_line)
          (line_of (extra_command_line c) @ arch_command_line (demo_machine demo_line)) (extra_init_args c) = Some (Inr (bi (bb t)))"
    using demo_kernel.start_outcome [OF demo_switched_on] by blast
  show ?thesis using demo_ends [OF c, of r] r by (cases r) auto
qed

theorem boot_to_first_program_witness:
  "\<exists>t u. start_kernel (demo_machine demo_line) demo_on = Some (Inr t)
    \<and> kernel_init (be (demo_machine demo_line)) (saved_command_line t) (saved_command_line_len t) ((bb t)\<lparr>system_state := SYSTEM_SCHEDULING\<rparr>)
        = Some (Inr ''/sbin/init'', u)
    \<and> system_state u = SYSTEM_RUNNING \<and> called (bc u) = [1, 3] \<and> \<not> kernel_ro u"
proof -
  obtain t where t: "start_kernel (demo_machine demo_line) demo_on = Some (Inr t)" "blacklist (bi (bb t)) = [''probe_b'']" "\<not> rodata_enabled (bi (bb t))"
    "execute_command (bi (bb t)) = None"
    using demo_start_ends by blast
  have al: "\<forall>n. call_alloc (ce (be (demo_machine demo_line))) n" by (simp add: demo_machine_def demo_boot_def demo_calls_def)
  have e: "filter (\<lambda>fn. takeWhile (\<lambda>c. c \<noteq> CHR '' '') (sprint_symbol_no_offset (ce (be (demo_machine demo_line))) fn) \<notin> {''probe_b''})
      (initcall_entries (ce (be (demo_machine demo_line)))) = [1, 3]"
    by (simp add: demo_machine_def demo_boot_def demo_calls_def)
  have p: "outcome_is (find (\<lambda>p. kernel_execve (be (demo_machine demo_line)) p (p # args) envs = 0)
        (candidates (be (demo_machine demo_line)) (after_eaccess (be (demo_machine demo_line)) k i))) x
      \<Longrightarrow> execute_command i = None \<Longrightarrow> x = Inr ''/sbin/init''" for args envs k i x
    by (auto simp: after_eaccess_def outcome_is_def candidates_def other_candidates_def demo_machine_def demo_boot_def split: sum.splits if_splits option.splits)
  show ?thesis using boot_to_first_program [OF demo_kernel.start_laws_axioms demo_switched_on t(1) al] t(1) e p [OF _ t(4)] unfolding t(2) list.set
    by (metis (no_types, lifting) t(3))
qed

text \<open>Arguments are put behind those already there.\<close>

definition arg_list :: "init_env \<Rightarrow> init_state \<Rightarrow> string list \<Rightarrow> bool" where
  "arg_list E i xs \<longleftrightarrow> argv_init i = map Some xs @ replicate (MAX_INIT_ARGS E + 2 - length xs) None \<and> panic_later i = None"

lemma init_arg_slot_list: "i + length xs \<le> mx \<Longrightarrow> init_arg_slot mx i (map Some xs @ None # r) = Some (i + length xs, False)"
  by (induction xs arbitrary: i) auto

lemma init_args_append:
  "arg_list E i xs \<Longrightarrow> length xs + length qs \<le> MAX_INIT_ARGS E + 1
    \<Longrightarrow> \<exists>j. init_args E qs i = Some j \<and> arg_list E j (xs @ map (\<lambda>(p, v). with_val p v) qs)"
proof (induction qs arbitrary: i xs)
  case (Cons q qs)
  obtain p v where q: "q = (p, v)" by fastforce
  let ?m = "MAX_INIT_ARGS E + 1 - length xs"
  have m: "MAX_INIT_ARGS E + 2 - length xs = Suc ?m" using Cons.prems(2) by simp
  have a: "argv_init i = map Some xs @ None # replicate ?m None" "panic_later i = None"
    using Cons.prems(1) unfolding arg_list_def m by simp_all
  have "init_arg_slot (MAX_INIT_ARGS E) 0 (argv_init i) = Some (length xs, False)"
    using init_arg_slot_list [of 0 xs "MAX_INIT_ARGS E"] Cons.prems(2) by (simp add: a)
  then obtain j where j: "set_init_arg E p v i = Some (0, j)" "argv_init j = map Some (xs @ [with_val p v]) @ replicate ?m None" "panic_later j = None"
    using a by (simp add: set_init_arg_def list_update_append)
  then have "arg_list E j (xs @ [with_val p v])" by (simp add: arg_list_def)
  from Cons.IH [OF this] Cons.prems(2) j(1) show ?case by (auto simp: q)
qed simp

text \<open>
  When arguments for the first process come from both the command line and the boot configuration,
  the first process receives those of the command line before those of the configuration.
\<close>

theorem init_arguments_order:
  assumes "after_dashes s = Some d" "extra_init_args (cfg s) = Some a" "arg_list (ie S) (bi (bb s)) xs"
    and "length xs + length (parse_init S d) + length (parse_init S a) \<le> MAX_INIT_ARGS (ie S) + 1"
  shows "\<exists>t. run_steps S [Parse_After_Dashes, Parse_Extra_Init] s = Some (Inr t)
    \<and> arg_list (ie S) (bi (bb t)) (xs @ map (\<lambda>(p, v). with_val p v) (parse_init S d) @ map (\<lambda>(p, v). with_val p v) (parse_init S a))"
proof -
  obtain i where i: "init_args (ie S) (parse_init S d) (bi (bb s)) = Some i" "arg_list (ie S) i (xs @ map (\<lambda>(p, v). with_val p v) (parse_init S d))"
    using init_args_append [OF assms(3), of "parse_init S d"] assms(4) by auto
  obtain j where j: "init_args (ie S) (parse_init S a) i = Some j"
    "arg_list (ie S) j ((xs @ map (\<lambda>(p, v). with_val p v) (parse_init S d)) @ map (\<lambda>(p, v). with_val p v) (parse_init S a))"
    using init_args_append [OF i(2), of "parse_init S a"] assms(4) by auto
  show ?thesis using i(1) j assms(1,2) by (simp add: start_step_def with_params_def)
qed

theorem init_arguments_order_witness:
  "\<exists>t. run_steps (demo_machine demo_line) [Parse_After_Dashes, Parse_Extra_Init] (demo_on\<lparr>after_dashes := Some ''cmd'', cfg := (config_start 0)\<lparr>extra_init_args := Some ''conf''\<rparr>\<rparr>) = Some (Inr t)
    \<and> arg_list demo_params (bi (bb t)) [''init'', ''cmd'', ''conf'']"
  using init_arguments_order [of "demo_on\<lparr>after_dashes := Some ''cmd'', cfg := (config_start 0)\<lparr>extra_init_args := Some ''conf''\<rparr>\<rparr>" "''cmd''" "''conf''" "demo_machine demo_line" "[''init'']"]
  by (simp add: demo_machine_def demo_on_def arg_list_def boot_state_def demo_params_def main_env0_def with_val_def split_line_def split_eq_def
      del: run_steps.simps)

end
