(* ===== verification/Init_Threads.thy ===== *)
theory Init_Threads
  imports Init_Process
begin

text \<open>
  \<^verbatim>\<open>rest_init\<close> of \<^verbatim>\<open>init/main.c\<close>: the boot thread creates the thread of the first process and the one that
  creates kernel threads, and runs beside the first of them. The scheduler may choose either at any time.
\<close>

section \<open>Two threads\<close>

text \<open>The statement each thread executes next.\<close>

datatype boot_pc = Spawn_Init | Pin_Init | Spawn_Kthreadd | Set_Kthreadd | Set_Scheduling | Complete_Done | Boot_Idle

datatype init_pc = Init_Unborn | Init_Waiting | Init_Going

text \<open>
  \<open>pid_var\<close> is the local variable of the boot thread, \<open>last_pid\<close> the last number given to a thread,
  \<open>kthreadd_done\<close> the count of the completion. A thread is found by its number once it exists.
\<close>

record threads =
  boot_pc :: boot_pc
  init_pc :: init_pc
  last_pid :: nat
  pid_var :: nat
  init_task :: "nat option"
  pinned :: "nat set"
  kthreadd_task :: "nat option"
  boot_system_state :: system_states
  kthreadd_done :: nat

definition threads_start :: threads where
  "threads_start = \<lparr>boot_pc = Spawn_Init, init_pc = Init_Unborn, last_pid = 0, pid_var = 0, init_task = None, pinned = {},
     kthreadd_task = None, boot_system_state = SYSTEM_BOOTING, kthreadd_done = 0\<rparr>"

definition find_task_by_pid :: "threads \<Rightarrow> nat \<Rightarrow> nat option" where
  "find_task_by_pid s pid = (if 0 < pid \<and> pid \<le> last_pid s then Some pid else None)"

text \<open>One statement of \<^verbatim>\<open>rest_init\<close>; a missing thread would be a null pointer.\<close>

definition rest_init :: "threads \<Rightarrow> threads option" where
  "rest_init s = (case boot_pc s of
     Spawn_Init \<Rightarrow>
       Some (s\<lparr>boot_pc := Pin_Init, last_pid := last_pid s + 1, pid_var := last_pid s + 1, init_task := Some (last_pid s + 1), init_pc := Init_Waiting\<rparr>)
   | Pin_Init \<Rightarrow>
       (case find_task_by_pid s (pid_var s) of
          None \<Rightarrow> None
        | Some tsk \<Rightarrow> Some (s\<lparr>boot_pc := Spawn_Kthreadd, pinned := insert tsk (pinned s)\<rparr>))
   | Spawn_Kthreadd \<Rightarrow> Some (s\<lparr>boot_pc := Set_Kthreadd, last_pid := last_pid s + 1, pid_var := last_pid s + 1\<rparr>)
   | Set_Kthreadd \<Rightarrow> Some (s\<lparr>boot_pc := Set_Scheduling, kthreadd_task := find_task_by_pid s (pid_var s)\<rparr>)
   | Set_Scheduling \<Rightarrow> Some (s\<lparr>boot_pc := Complete_Done, boot_system_state := SYSTEM_SCHEDULING\<rparr>)
   | Complete_Done \<Rightarrow> Some (s\<lparr>boot_pc := Boot_Idle, kthreadd_done := kthreadd_done s + 1\<rparr>)
   | Boot_Idle \<Rightarrow> None)"

text \<open>The first statement of \<^verbatim>\<open>kernel_init\<close>: it waits for the completion.\<close>

definition kernel_init_wait :: "threads \<Rightarrow> threads option" where
  "kernel_init_wait s =
     (if init_pc s = Init_Waiting \<and> 0 < kthreadd_done s then Some (s\<lparr>init_pc := Init_Going, kthreadd_done := kthreadd_done s - 1\<rparr>)
      else None)"

inductive thread_step :: "threads \<Rightarrow> threads \<Rightarrow> bool" where
  boot_runs: "rest_init s = Some t \<Longrightarrow> thread_step s t"
| init_runs: "kernel_init_wait s = Some t \<Longrightarrow> thread_step s t"

inductive_cases thread_stepE: "thread_step s t"

text \<open>
  What holds between any two statements. \<open>stage\<close> counts the statements the boot thread has executed.
\<close>

primrec stage :: "boot_pc \<Rightarrow> nat" where
  "stage Spawn_Init = 0" | "stage Pin_Init = 1" | "stage Spawn_Kthreadd = 2" | "stage Set_Kthreadd = 3"
| "stage Set_Scheduling = 4" | "stage Complete_Done = 5" | "stage Boot_Idle = 6"

primrec pid_at :: "boot_pc \<Rightarrow> nat" where
  "pid_at Spawn_Init = 0" | "pid_at Pin_Init = 1" | "pid_at Spawn_Kthreadd = 1" | "pid_at Set_Kthreadd = 2"
| "pid_at Set_Scheduling = 2" | "pid_at Complete_Done = 2" | "pid_at Boot_Idle = 2"

primrec init_at :: "boot_pc \<Rightarrow> nat option" where
  "init_at Spawn_Init = None" | "init_at Pin_Init = Some 1" | "init_at Spawn_Kthreadd = Some 1" | "init_at Set_Kthreadd = Some 1"
| "init_at Set_Scheduling = Some 1" | "init_at Complete_Done = Some 1" | "init_at Boot_Idle = Some 1"

primrec pinned_at :: "boot_pc \<Rightarrow> nat set" where
  "pinned_at Spawn_Init = {}" | "pinned_at Pin_Init = {}" | "pinned_at Spawn_Kthreadd = {1}" | "pinned_at Set_Kthreadd = {1}"
| "pinned_at Set_Scheduling = {1}" | "pinned_at Complete_Done = {1}" | "pinned_at Boot_Idle = {1}"

primrec kthreadd_at :: "boot_pc \<Rightarrow> nat option" where
  "kthreadd_at Spawn_Init = None" | "kthreadd_at Pin_Init = None" | "kthreadd_at Spawn_Kthreadd = None" | "kthreadd_at Set_Kthreadd = None"
| "kthreadd_at Set_Scheduling = Some 2" | "kthreadd_at Complete_Done = Some 2" | "kthreadd_at Boot_Idle = Some 2"

primrec state_at :: "boot_pc \<Rightarrow> system_states" where
  "state_at Spawn_Init = SYSTEM_BOOTING" | "state_at Pin_Init = SYSTEM_BOOTING" | "state_at Spawn_Kthreadd = SYSTEM_BOOTING" | "state_at Set_Kthreadd = SYSTEM_BOOTING"
| "state_at Set_Scheduling = SYSTEM_BOOTING" | "state_at Complete_Done = SYSTEM_SCHEDULING" | "state_at Boot_Idle = SYSTEM_SCHEDULING"

definition threads_inv :: "threads \<Rightarrow> bool" where
  "threads_inv s \<longleftrightarrow>
     last_pid s = pid_at (boot_pc s) \<and> pid_var s = pid_at (boot_pc s) \<and> init_task s = init_at (boot_pc s) \<and> pinned s = pinned_at (boot_pc s)
     \<and> kthreadd_task s = kthreadd_at (boot_pc s) \<and> boot_system_state s = state_at (boot_pc s)
     \<and> (init_pc s = Init_Unborn \<longleftrightarrow> boot_pc s = Spawn_Init) \<and> (init_pc s = Init_Going \<longrightarrow> boot_pc s = Boot_Idle)
     \<and> kthreadd_done s = (if boot_pc s = Boot_Idle \<and> init_pc s = Init_Waiting then 1 else 0)"

lemma start_inv: "threads_inv threads_start"
  by (simp add: threads_inv_def threads_start_def)

lemma rest_init_next:
  "threads_inv s \<Longrightarrow> (case rest_init s of None \<Rightarrow> boot_pc s = Boot_Idle | Some t \<Rightarrow> threads_inv t \<and> stage (boot_pc t) = stage (boot_pc s) + 1)"
  by (cases "boot_pc s"; cases "init_pc s") (simp_all add: threads_inv_def rest_init_def find_task_by_pid_def)

lemma wait_next: "threads_inv s \<Longrightarrow> (case kernel_init_wait s of None \<Rightarrow> True | Some t \<Rightarrow> threads_inv t)"
  by (simp add: threads_inv_def kernel_init_wait_def)

lemma step_inv: "thread_step s t \<Longrightarrow> threads_inv s \<Longrightarrow> threads_inv t"
  using rest_init_next [of s] wait_next [of s] by (elim thread_stepE) simp_all

lemma reach_inv: "thread_step\<^sup>*\<^sup>* threads_start s \<Longrightarrow> threads_inv s"
  by (induction rule: rtranclp_induct) (auto intro: start_inv step_inv)

text \<open>Every statement can be executed, so the boot thread comes to its end and the other thread goes on.\<close>

lemma rest_init_progress:
  "threads_inv s \<Longrightarrow> boot_pc s \<noteq> Boot_Idle \<Longrightarrow> \<exists>t. rest_init s = Some t \<and> threads_inv t \<and> stage (boot_pc t) = stage (boot_pc s) + 1"
  using rest_init_next [of s] by (cases "rest_init s") simp_all

lemma boot_to_idle: "threads_inv s \<Longrightarrow> \<exists>t. thread_step\<^sup>*\<^sup>* s t \<and> threads_inv t \<and> boot_pc t = Boot_Idle"
proof (induction "6 - stage (boot_pc s)" arbitrary: s rule: less_induct)
  case less
  show ?case
  proof (cases "boot_pc s = Boot_Idle")
    case False
    obtain u where u: "rest_init s = Some u" "threads_inv u" "stage (boot_pc u) = stage (boot_pc s) + 1" using rest_init_progress [OF less.prems False] by blast
    have "stage (boot_pc s) < 6" using False by (cases "boot_pc s") simp_all
    then have "6 - stage (boot_pc u) < 6 - stage (boot_pc s)" using u(3) by simp
    from less.hyps [OF this u(2)] obtain t where "thread_step\<^sup>*\<^sup>* u t" "threads_inv t" "boot_pc t = Boot_Idle" by blast
    then show ?thesis using boot_runs [OF u(1)] by (meson converse_rtranclp_into_rtranclp)
  qed (use less.prems in auto)
qed

text \<open>
  (C15) Whichever thread the scheduler chooses, the first process has number 1 and the creator of kernel
  threads number 2; the first process goes on only when the other exists and is recorded, the first is pinned to
  its processor, and the kernel is in the state in which threads are scheduled. From every state the
  boot thread can come to its idle loop and the first process past its wait: no choice blocks them.
\<close>

theorem first_process_waits:
  assumes "thread_step\<^sup>*\<^sup>* threads_start s"
  shows "(init_task s = None \<or> init_task s = Some 1) \<and> (kthreadd_task s = None \<or> kthreadd_task s = Some 2)
    \<and> (init_pc s = Init_Going \<longrightarrow> kthreadd_task s = Some 2 \<and> pinned s = {1} \<and> boot_system_state s = SYSTEM_SCHEDULING)
    \<and> (\<exists>t. thread_step\<^sup>*\<^sup>* s t \<and> boot_pc t = Boot_Idle \<and> init_pc t = Init_Going)"
proof -
  have inv: "threads_inv s" by (rule reach_inv [OF assms])
  obtain u where u: "thread_step\<^sup>*\<^sup>* s u" "threads_inv u" "boot_pc u = Boot_Idle" using boot_to_idle [OF inv] by blast
  have "\<exists>t. thread_step\<^sup>*\<^sup>* u t \<and> boot_pc t = Boot_Idle \<and> init_pc t = Init_Going"
  proof (cases "init_pc u = Init_Going")
    case False
    then have "init_pc u = Init_Waiting" "kthreadd_done u = 1" using u(2,3) by (cases "init_pc u"; auto simp: threads_inv_def)+
    then have "thread_step u (u\<lparr>init_pc := Init_Going, kthreadd_done := 0\<rparr>)" by (intro init_runs) (simp add: kernel_init_wait_def)
    then show ?thesis using u(3) by (intro exI [of _ "u\<lparr>init_pc := Init_Going, kthreadd_done := 0\<rparr>"]) auto
  qed (use u in blast)
  then have "\<exists>t. thread_step\<^sup>*\<^sup>* s t \<and> boot_pc t = Boot_Idle \<and> init_pc t = Init_Going" using u(1) rtranclp_trans by metis
  moreover have "init_at pc = None \<or> init_at pc = Some 1" "kthreadd_at pc = None \<or> kthreadd_at pc = Some 2" for pc by (cases pc; simp)+
  ultimately show ?thesis using inv unfolding threads_inv_def by (cases "init_pc s = Init_Going") simp_all
qed

theorem first_process_waits_witness:
  "\<exists>s. thread_step\<^sup>*\<^sup>* threads_start s \<and> init_pc s = Init_Waiting \<and> kthreadd_task s = None
    \<and> (\<exists>t. thread_step\<^sup>*\<^sup>* s t \<and> boot_pc t = Boot_Idle \<and> init_pc t = Init_Going)"
proof -
  let ?s = "threads_start\<lparr>boot_pc := Pin_Init, last_pid := 1, pid_var := 1, init_task := Some 1, init_pc := Init_Waiting\<rparr>"
  have "thread_step threads_start ?s" by (rule boot_runs) (simp add: rest_init_def threads_start_def)
  then have "thread_step\<^sup>*\<^sup>* threads_start ?s" by blast
  with first_process_waits [OF this] show ?thesis by (intro exI [of _ ?s]) (simp add: threads_start_def)
qed

end
