(* ===== verification/Spec2Isabelle.thy ===== *)
theory Spec2Isabelle
  imports Mem_Stats Syscall_Tracking Io_Throttle Memory_Snapshot Tamalloc Limit_List Limit_V1 Limit_P3
    Proc_Modules Sys_Creds Sys_Rlimit Sys_Prio Sys_Pgrp Sys_Uts Sys_Rusage Prctl Open_Path_Ram Init_Start Init_Threads
begin

text \<open>
  Verification of the system calls that a course project added to a Linux kernel, of the modules it
  loads, and of the parts of the kernel it changed or relies on. The theories follow the C sources
  under \<^verbatim>\<open>src/\<close>; paths below are relative to it.

  \<^bold>\<open>The program.\<close> The project adds system calls for memory statistics, for limits on the memory of a
  process, for counting calls, for I/O figures, a snapshot of memory and an allocator
  (\<^verbatim>\<open>kernel/usac\<close>, \<^verbatim>\<open>kernel/proyecto3\<close>), three modules with a file under \<^verbatim>\<open>/proc\<close> each (\<^verbatim>\<open>Modulos\<close>), and
  calls of \<^verbatim>\<open>track_syscall\<close> at the entry of \<^verbatim>\<open>read\<close>, \<^verbatim>\<open>write\<close>, \<^verbatim>\<open>open\<close> and \<^verbatim>\<open>close\<close> in \<^verbatim>\<open>fs/read_write.c\<close> and
  \<^verbatim>\<open>fs/open.c\<close>. The limits it sets are the resource limits of \<^verbatim>\<open>kernel/sys.c\<close>, which every other limit
  call reads and writes; that file, the two files of the file system and the start of the
  kernel in \<^verbatim>\<open>init/main.c\<close>, which prints the banner of the project, are modelled around the added
  code, so that what the additions promise can be stated together with the calls they meet.

  \<^bold>\<open>How code becomes definitions.\<close> A C function is a definition of the same name that takes the state
  and returns its result and the new state; a system call is \<open>sys_<name>\<close>. Errors are negative numbers
  as in C. An \<^verbatim>\<open>unsigned long\<close>, an address and an offset are 64-bit words, \<^verbatim>\<open>int\<close> arguments whose bits
  matter 32-bit words; sums wrap. User memory is a function from addresses to bytes, and the structures
  copied there are encoded byte by byte. Locks, references and counts are part of the state, so that
  leaving one behind is visible. Where C would have undefined behaviour or stop (a store outside an
  array, a failed \<^verbatim>\<open>BUG_ON\<close>, the use of freed memory) the model has a flag or the value \<open>None\<close>. Code
  outside \<^verbatim>\<open>src/\<close> (architecture routines, allocators, path lookup, the methods of file systems, security
  hooks, capabilities, pid tables) is a record of functions passed as an argument; what is assumed of
  them is the locale of that interface, and every locale is interpreted.

  \<^bold>\<open>Foundations.\<close>
  \<^item> \<open>Kernel_Prelude\<close>: error numbers, words, bytes in memory, encodings.
  \<^item> \<open>User_Copy\<close>: copies to and from user memory (\<^verbatim>\<open>include/linux/uaccess.h\<close>); the locale \<open>uaccess_laws\<close> is
    the contract of the architecture, met by memory with an arbitrary set of mapped pages.
  \<^item> \<open>Kernel_Tasks\<close>: tasks, address spaces, limits, references (\<^verbatim>\<open>sched/signal.h\<close>, \<^verbatim>\<open>mm.h\<close>).
  \<^item> \<open>Step_System\<close>: runs of calls; an order that every call respects is respected by every run.

  \<^bold>\<open>The added system calls.\<close>
  \<^item> \<open>Mem_Stats\<close> (\<^verbatim>\<open>taro_estadisticas_ind.c\<close>, \<^verbatim>\<open>taro_estadisticas_tod.c\<close>): the records written are those of
    the processes in order, references and locks are balanced, the scores and sums are exact or saturate
    as stated.
  \<^item> \<open>Syscall_Tracking\<close> (\<^verbatim>\<open>track_syscalls.c\<close>): a run counts exactly; the unlocked increment and the time stamp as an
    interleaving relation of loads and stores, which may lose updates and never invents any.
  \<^item> \<open>Io_Throttle\<close>, \<open>Memory_Snapshot\<close>, \<open>Tamalloc\<close>: what is returned, and what is asked of \<^verbatim>\<open>do_mmap\<close>.
  \<^item> \<open>Limit_Registry\<close> is the contract of the limit calls, a finite map from processes to limits.
    \<open>Limit_List\<close> (\<^verbatim>\<open>taro_mani_mem.c\<close>), \<open>Limit_V1\<close> (\<^verbatim>\<open>taro_mani_memv1.c\<close>, with a heap of nodes) and \<open>Limit_P3\<close>
    (four files, each with a list of its own) are compared with it: the first refines it as long as the security hook
    refuses nothing (a refused addition frees the node before it unlinks it, and a refused update is stored all the
    same), the second always, the four files do not share what they store.
  \<^item> \<open>Seq_Printf\<close>, \<open>Proc_Modules\<close> (\<^verbatim>\<open>Modulos\<close>): the text of the three files, loading and unloading;
    the share of the CPU is the busy part between two readings as long as the products fit 64 bits.

  \<^bold>\<open>kernel/sys.c.\<close>
  \<^item> \<open>Sys_Creds\<close>: no sequence of the calls that set ids gains an id without the capability.
  \<^item> \<open>Sys_Rlimit\<close>: without the capability hard limits only fall; the three interfaces agree.
  \<^item> \<open>Sys_Prio\<close>, \<open>Sys_Pgrp\<close>, \<open>Sys_Uts\<close>, \<open>Sys_Rusage\<close>, \<open>Sys_Info\<close>: priorities; groups never span sessions;
    names stay terminated; usage is a consistent total; amounts of memory are preserved by scaling.
  \<^item> \<open>Prctl_Mm\<close>, \<open>Prctl\<close>: the layout of the address space stays ordered; over all options, what can only be
    tightened is never loosened, and every lock and reference is given back.

  \<^bold>\<open>fs/read_write.c and fs/open.c.\<close>
  \<^item> \<open>Fs_Files\<close>: open files with the lock of their position, the state of the file calls, seeking. Seeking is refined by a specification
    over unbounded integers.
  \<^item> \<open>Fs_Read_Write\<close>: every call that reads or writes. \<open>Fs_Copy\<close>: \<^verbatim>\<open>sendfile\<close>, \<^verbatim>\<open>copy_file_range\<close> and the
    bounds on what is written. The locales \<open>fs_seek\<close>, \<open>fs_methods\<close> and \<open>fs_copying\<close> are what a file system
    promises; \<open>Fs_Ram\<close> is one that keeps its promises, and holds the properties: references and write
    protection are balanced over any run, bytes are accounted for, positions stay valid.
  \<^item> \<open>Open_Flags\<close>: which requests to open are accepted. \<open>Open_File\<close>: opening and closing, with the
    locales \<open>open_laws\<close> (opening methods) and \<open>open_calls\<close> (path lookup, descriptors, release of files).
    \<open>Open_Machine\<close>: runs of all file calls; \<open>Open_Ram\<close> meets the contracts and holds the properties:
    nothing leaks when opening fails, descriptors are what the results of the calls say, the four
    counters count their four calls and no other.
  \<^item> \<open>Open_Path\<close>: truncation, allocation, access tests, directories, modes and owners, with the contract
    \<open>path_laws\<close> met in \<open>Open_Path_Ram\<close>: every call returns and gives back what it took, allocation reaches
    the file system exactly when its mode, its range and the file allow it, and the shortcut of the access test is exact.

  \<^bold>\<open>init/main.c.\<close>
  \<^item> \<open>Init_Params\<close>: the options of the command line, the arguments collected for the first process, the
    assembly of the saved line. Nothing leaves its array or buffer, whatever the line holds.
  \<^item> \<open>Init_Bootconfig\<close>: the configuration behind the ram disk is found as it was appended, and printed into a
    buffer of the size measured before. The locales \<open>setup_laws\<close> and \<open>xbc_laws\<close> are the contracts of the handlers
    and of the parser of the configuration.
  \<^item> \<open>Init_Calls\<close>: the functions that initialise the parts of the kernel run once and in order, except those on
    the blacklist, and leave the preemption count and the interrupts as they should be.
  \<^item> \<open>Init_Process\<close>: \<^verbatim>\<open>kernel_init\<close> and the choice of the first program. \<open>Init_Start\<close>: \<^verbatim>\<open>start_kernel\<close> as a list of
    steps, where calls of other parts are names with an effect that is a parameter; it composes the theories before,
    from the command line to the first program: the start ends exactly when the options fit and no handler panics, and
    the handlers of \<^verbatim>\<open>init/main.c\<close> reach the variables that the first process reads (the blacklist of functions, the
    protection of the kernel). \<open>Init_Threads\<close>: \<^verbatim>\<open>rest_init\<close> and the first process as
    interleaved steps.

  \<^bold>\<open>This theory\<close> holds the properties that span components: the limits set by \<open>Limit_List\<close> against the
  calls of \<open>Sys_Rlimit\<close>.

  \<^bold>\<open>Bounds and loops.\<close> Loops over tasks, lists, segments and characters are recursion over those data.
  The loop over segments in \<^verbatim>\<open>do_loop_readv_writev\<close> takes the number of segments as fuel; running out sets
  \<open>stuck\<close>, and the properties show that it is never set. Loops that could run forever (the retry of
  \<^verbatim>\<open>getrusage\<close> under its sequence lock, the retries of \<open>Open_Path\<close> after a stale name or a delegation, the walk over the heap of \<open>Limit_V1\<close>, the scaling loops of
  \<^verbatim>\<open>sysinfo\<close>) are partial functions or have a termination proof, and that they return is proved.

  \<^bold>\<open>Not modelled.\<close>
  \<^item> Parallel execution, except the increment of the call counters and the threads of \<^verbatim>\<open>rest_init\<close>: locks are taken and released in the
    state, calls run one after the other. \<^verbatim>\<open>do_prlimit\<close> is one step under the lock of the group leader.
  \<^item> The rest of \<^verbatim>\<open>include/linux/sched.h\<close>, \<^verbatim>\<open>mm.h\<close>, \<^verbatim>\<open>sched/signal.h\<close>: declarations and accessors of the
    scheduler and the memory manager without a caller in these sources.
  \<^item> \<^verbatim>\<open>syscalls.h\<close>, \<^verbatim>\<open>syscallsmod.h\<close>, the other headers of the project and the table of system calls:
    prototypes, macros and numbers. The numbers of the calls that are counted appear as constants.
  \<^item> What the calls of other parts do during the start of the kernel, and the banner the project prints.
  \<^item> Log messages, the test programs under \<^verbatim>\<open>Pruebas\<close> and the build files.
\<close>

section \<open>Memory limits and resource limits\<close>

text \<open>
  \<^verbatim>\<open>taro_add_memory_limit\<close> and the resource-limit calls work on the same limits of the same
  tasks: both keep them in the kernel state of Kernel_Tasks.
\<close>

lemma add_sets_rlimit:
  assumes "taro_add_memory_limit A p l s = (0, s')" "vpids (lk s) p = Some t"
  shows "lk s' = set_rlim t RLIMIT_AS \<lparr>rlim_cur = l, rlim_max = l\<rparr> (lk s)"
  using assms
  by (auto simp: taro_add_memory_limit_def limit_defs set_rlimit_as_def set_rlim_def lock_defs Let_def
      split: if_splits option.splits)

text \<open>
  (C5) A memory limit holds: once \<^verbatim>\<open>taro_add_memory_limit\<close> has put a limit on a process, no sequence
  of \<^verbatim>\<open>setrlimit\<close>, \<^verbatim>\<open>prlimit64\<close> and 32-bit calls made without \<^verbatim>\<open>CAP_SYS_RESOURCE\<close> raises the hard
  \<^verbatim>\<open>RLIMIT_AS\<close> of that process above it.
\<close>

theorem added_limit_holds:
  assumes "taro_add_memory_limit A p l s = (0, s')" "vpids (lk s) p = Some t"
    and "\<not> capable_resource E" "r = run_calls (rlimit_step E U) xs \<lparr>rk = lk s', cpu_timers = c\<rparr>"
  shows "rlim_max (get_rlim t RLIMIT_AS (rk r)) \<le> l"
proof -
  have "limits_step E \<lparr>rk = lk s', cpu_timers = c\<rparr> r" using rlimits.run_within assms(4) by simp
  then have "tasks (rk r) = tasks (lk s')"
    "rlim_max (rlim (signals (rk r) g) res) \<le> rlim_max (rlim (signals (lk s') g) res)" for g res
    using assms(3) by (simp_all add: limits_step_def hard_within_def)
  then have "rlim_max (get_rlim t RLIMIT_AS (rk r)) \<le> rlim_max (get_rlim t RLIMIT_AS (lk s'))"
    by (simp add: get_rlim_def)
  then show ?thesis using add_sets_rlimit [OF assms(1,2)] by simp
qed

theorem added_limit_holds_witness:
  "rlim_max (get_rlim 1 RLIMIT_AS (rk (run_calls (rlimit_step demo_rlimit_env demo_U) [Setrlimit 9 4096, Prlimit64 42 9 8192 0]
     \<lparr>rk = lk (snd (taro_add_memory_limit demo_limit_env 42 65536 demo_limits)), cpu_timers = Map.empty\<rparr>))) \<le> 65536"
proof -
  have "taro_add_memory_limit demo_limit_env 42 65536 demo_limits
      = (0, snd (taro_add_memory_limit demo_limit_env 42 65536 demo_limits))"
    by (simp add: prod_eq_iff) (simp add: demo_limit_simps)
  moreover have "vpids (lk demo_limits) 42 = Some 1" by (simp add: demo_limits_def demo_defs)
  moreover have "\<not> capable_resource demo_rlimit_env" by (simp add: demo_rlimit_env_def)
  ultimately show ?thesis using added_limit_holds by blast
qed

text \<open>
  (C27) \<^verbatim>\<open>taro_add_memory_limit\<close> lacks the permission checks of \<^verbatim>\<open>prlimit64\<close>: on a process of another
  user, where \<^verbatim>\<open>prlimit64\<close> fails for a caller without \<^verbatim>\<open>CAP_SYS_RESOURCE\<close>, it succeeds and replaces
  both limits, also by larger ones.
\<close>

theorem add_limit_skips_permission:
  assumes pid: "0 < p" "vpids (lk s) p = Some t" "t \<noteq> current_task E"
    and other: "uid (cred_of E (current_task E)) \<noteq> uid (cred_of E t)"
      "\<not> ns_capable_resource E (user_ns (cred_of E t))"
    and add: "l \<noteq> 0" "limits_map s p = None" "kmalloc A (mutex_lock s) \<noteq> None"
      "\<And>k res rl. security_task_setrlimit A k t res rl = 0"
  shows "fst (sys_prlimit64 E U p RLIMIT_AS new old \<lparr>rk = lk s, cpu_timers = c\<rparr>) \<in> {- EPERM, - EFAULT}
    \<and> fst (taro_add_memory_limit A p l s) = 0
    \<and> get_rlim t RLIMIT_AS (lk (snd (taro_add_memory_limit A p l s))) = \<lparr>rlim_cur = l, rlim_max = l\<rparr>"
proof -
  have perm: "check_prlimit_permission E t rd wr = - EPERM" for rd wr
    using pid(3) other by (simp add: check_prlimit_permission_def Let_def)
  have "fst (sys_prlimit64 E U p RLIMIT_AS new old \<lparr>rk = lk s, cpu_timers = c\<rparr>) \<in> {- EPERM, - EFAULT}"
    using pid by (auto simp: sys_prlimit64_def Let_def perm rcu_read_lock_def split: prod.split)
  moreover have ok: "fst (taro_add_memory_limit A p l s) = 0"
    using pid add unfolding taro_add_memory_limit_def limits_map_None
    by (auto simp: limit_defs split: option.splits)
  moreover have "get_rlim t RLIMIT_AS (lk (snd (taro_add_memory_limit A p l s))) = \<lparr>rlim_cur = l, rlim_max = l\<rparr>"
    using add_sets_rlimit [of A p l s "snd (taro_add_memory_limit A p l s)" t] ok pid(2) by (simp add: prod_eq_iff)
  ultimately show ?thesis by blast
qed

theorem add_limit_skips_permission_witness:
  "fst (taro_add_memory_limit demo_limit_env 7 65536 demo_limits) = 0
    \<and> fst (sys_prlimit64 (demo_rlimit_env\<lparr>cred_of := (\<lambda>t. (cur demo_cred_state)\<lparr>uid := of_nat t\<rparr>)\<rparr>) demo_U 7 RLIMIT_AS
        4096 0 \<lparr>rk = demo_kernel, cpu_timers = Map.empty\<rparr>) \<in> {- EPERM, - EFAULT}"
proof -
  let ?E = "demo_rlimit_env\<lparr>cred_of := (\<lambda>t. (cur demo_cred_state)\<lparr>uid := of_nat t\<rparr>)\<rparr>"
  have "vpids (lk demo_limits) 7 = Some 2" "lk demo_limits = demo_kernel" by (simp_all add: demo_limits_def demo_defs)
  moreover have "2 \<noteq> current_task ?E" "uid (cred_of ?E (current_task ?E)) \<noteq> uid (cred_of ?E 2)"
    "\<not> ns_capable_resource ?E (user_ns (cred_of ?E 2))"
    by (simp_all add: demo_rlimit_env_def)
  moreover have "limits_map demo_limits 7 = None" by (simp add: limits_map_def entries_def demo_limits_def)
  moreover have "kmalloc demo_limit_env (mutex_lock demo_limits) \<noteq> None"
    "\<And>k res rl. security_task_setrlimit demo_limit_env k 2 res rl = 0"
    by (simp_all add: demo_limit_env_def)
  ultimately show ?thesis
    using add_limit_skips_permission [of 7 demo_limits 2 ?E 65536 demo_limit_env demo_U 4096 0 Map.empty] by simp
qed

end
